(* ===== verification/Prelude.thy ===== *)
theory Prelude
  imports Main "HOL-Library.Word" "HOL-Library.Sublist"
begin

text \<open>
  The shared vocabulary of the development: C strings and character buffers, the functions of the
  C library that the sources call on them, decimal formatting and scanning, and the generic lemmas
  the component theories rely on.

  A C string is the list of its characters before the terminating NUL, so a well-formed C string
  contains no NUL; a nullable \<^verbatim>\<open>char *\<close> is an option. A fixed-size \<^verbatim>\<open>char buf[N]\<close> is a list of
  \<open>N\<close> characters, NULs included; \<open>cstr_of\<close> reads the C string it holds.
\<close>

unbundle bit_operations_syntax

named_theorems cstr_simps

type_synonym u16 = "16 word"
type_synonym u32 = "32 word"
type_synonym u64 = "64 word"
type_synonym cptr = "string option"

section \<open>Characters and strings\<close>

definition NUL :: char where
  "NUL = CHR 0x00"

definition is_cstr :: "string \<Rightarrow> bool" where
  "is_cstr s \<longleftrightarrow> NUL \<notin> set s"

definition cstr_of :: "char list \<Rightarrow> string" where
  "cstr_of buf = takeWhile (\<lambda>c. c \<noteq> NUL) buf"

text \<open>\<open>tolower\<close> in the C locale, and the case-insensitive comparisons built on it. The sources use
  every comparison function only through its result being zero.\<close>

definition tolower :: "char \<Rightarrow> char" where
  "tolower c = (let n = of_char c :: nat in if 65 \<le> n \<and> n \<le> 90 then char_of (n + 32) else c)"

definition strcasecmp :: "string \<Rightarrow> string \<Rightarrow> bool" where
  "strcasecmp a b \<longleftrightarrow> map tolower a = map tolower b"

definition strncasecmp :: "string \<Rightarrow> string \<Rightarrow> nat \<Rightarrow> bool" where
  "strncasecmp a b n \<longleftrightarrow> map tolower (take n a) = map tolower (take n b)"

definition strncmp :: "string \<Rightarrow> string \<Rightarrow> nat \<Rightarrow> bool" where
  "strncmp a b n \<longleftrightarrow> take n a = take n b"

text \<open>Searching: the result is the rest of the string from the match on.\<close>

definition strchrnul :: "string \<Rightarrow> char \<Rightarrow> string" where
  "strchrnul s c = dropWhile (\<lambda>x. x \<noteq> c) s"

definition strchr :: "string \<Rightarrow> char \<Rightarrow> string option" where
  "strchr s c = (case strchrnul s c of [] \<Rightarrow> None | r \<Rightarrow> Some r)"

fun starts_with :: "string \<Rightarrow> string \<Rightarrow> bool" where
  "starts_with [] s = True"
| "starts_with (p # ps) [] = False"
| "starts_with (p # ps) (c # s) = (p = c \<and> starts_with ps s)"

fun strstr :: "string \<Rightarrow> string \<Rightarrow> string option" where
  "strstr [] n = (if n = [] then Some [] else None)"
| "strstr (c # s) n = (if starts_with n (c # s) then Some (c # s) else strstr s n)"

text \<open>\<open>snprintf\<close> with buffer size \<open>n\<close>: the text kept is cut to \<open>n - 1\<close> characters; its
  return value is the length of the whole text.\<close>

definition snprintf :: "nat \<Rightarrow> string \<Rightarrow> string" where
  "snprintf n s = take (n - 1) s"

text \<open>The same call on the destination buffer: the kept text and a NUL over its beginning, nothing
  when the size is 0. \<open>None\<close> is a write outside the buffer.\<close>

definition snprintf_buf :: "char list \<Rightarrow> nat \<Rightarrow> string \<Rightarrow> char list option" where
  "snprintf_buf buf n s =
     (if n = 0 then Some buf
      else let t = snprintf n s
           in if length t < length buf then Some (t @ NUL # drop (Suc (length t)) buf) else None)"

section \<open>Decimal numbers\<close>

definition digit_char :: "nat \<Rightarrow> char" where
  "digit_char d = char_of (48 + d)"

definition is_digit :: "char \<Rightarrow> bool" where
  "is_digit c \<longleftrightarrow> 48 \<le> (of_char c :: nat) \<and> (of_char c :: nat) \<le> 57"

definition digit_val :: "char \<Rightarrow> nat" where
  "digit_val c = of_char c - 48"

fun show_nat :: "nat \<Rightarrow> string" where
  "show_nat n = (if n < 10 then [digit_char n] else show_nat (n div 10) @ [digit_char (n mod 10)])"

declare show_nat.simps [simp del]

definition show_int :: "int \<Rightarrow> string" where
  "show_int i = (if i < 0 then CHR ''-'' # show_nat (nat (- i)) else show_nat (nat i))"

definition is_space :: "char \<Rightarrow> bool" where
  "is_space c \<longleftrightarrow> (of_char c :: nat) = 32 \<or> (9 \<le> (of_char c :: nat) \<and> (of_char c :: nat) \<le> 13)"

definition digits_val :: "string \<Rightarrow> nat" where
  "digits_val s = foldl (\<lambda>acc c. 10 * acc + digit_val c) 0 s"

text \<open>\<open>sscanf\<close> with an unsigned conversion: white space, an optional sign and at least one digit.
  The number is read as \<open>strtoul\<close> reads it (64 bits, saturating; a minus sign negates modulo
  \<open>2 ^ 64\<close>) and then stored in the width of the target. \<open>None\<close> is a failed conversion.\<close>

definition strtoul :: "bool \<Rightarrow> nat \<Rightarrow> u64" where
  "strtoul neg n = (if 2 ^ 64 \<le> n then - 1 else if neg then - of_nat n else of_nat n)"

definition scan_unsigned :: "string \<Rightarrow> u64 option" where
  "scan_unsigned s =
     (let t = dropWhile is_space s;
          neg = (case t of c # _ \<Rightarrow> c = CHR ''-'' | [] \<Rightarrow> False);
          u = (case t of c # r \<Rightarrow> if c = CHR ''-'' \<or> c = CHR ''+'' then r else t | [] \<Rightarrow> []);
          ds = takeWhile is_digit u
      in if ds = [] then None else Some (strtoul neg (digits_val ds)))"

section \<open>Integer division and wait statuses\<close>

text \<open>C division truncates towards zero.\<close>

definition c_div :: "int \<Rightarrow> int \<Rightarrow> int" where
  "c_div a b = sgn a * sgn b * (\<bar>a\<bar> div \<bar>b\<bar>)"

text \<open>Reading a 32-bit unsigned value as a C \<open>int\<close>.\<close>

definition int_of_u32 :: "u32 \<Rightarrow> int" where
  "int_of_u32 w = sint w"

text \<open>The macros of \<^verbatim>\<open>sys/wait.h\<close> on a wait status.\<close>

definition WTERMSIG :: "int \<Rightarrow> int" where
  "WTERMSIG status = status AND 0x7f"

definition WIFEXITED :: "int \<Rightarrow> bool" where
  "WIFEXITED status \<longleftrightarrow> WTERMSIG status = 0"

definition WEXITSTATUS :: "int \<Rightarrow> int" where
  "WEXITSTATUS status = drop_bit 8 (status AND 0xff00)"

definition WIFSIGNALED :: "int \<Rightarrow> bool" where
  "WIFSIGNALED status \<longleftrightarrow> WTERMSIG status \<noteq> 0 \<and> WTERMSIG status \<noteq> 0x7f"

section \<open>Lemmas on lists\<close>

lemma dropWhile_hd: "t \<noteq> [] \<Longrightarrow> \<not> P (hd t) \<Longrightarrow> dropWhile P (t @ u) = t @ u"
  by (cases t) auto

lemma takeWhile_absent: "c \<notin> set t \<Longrightarrow> takeWhile (\<lambda>x. x \<noteq> c) (t @ c # u) = t" "c \<notin> set t \<Longrightarrow> takeWhile (\<lambda>x. x \<noteq> c) t = t"
  by (induction t) auto

lemma nth_append_Cons_beyond: "length a < i \<Longrightarrow> (a @ x # b) ! i = b ! (i - Suc (length a))"
  by (simp add: nth_append nth_Cons')

lemma find_snoc:
  "List.find P (xs @ [x]) = (case List.find P xs of None \<Rightarrow> if P x then Some x else None | Some y \<Rightarrow> Some y)"
  by (induction xs) auto

text \<open>With distinct keys the first and the last match are the same.\<close>

lemma find_distinct:
  assumes "distinct (map key xs)" "x \<in> set xs"
  shows "List.find (\<lambda>y. key y = key x) xs = Some x"
  using assms by (induction xs) (auto simp: rev_image_eqI)

section \<open>Lemmas on strings\<close>

lemma cstr_of_append_NUL [simp]: "is_cstr s \<Longrightarrow> cstr_of (s @ NUL # r) = s"
  unfolding cstr_of_def is_cstr_def by (induction s) auto

lemma is_cstr_simps [simp]:
  "is_cstr []"
  "is_cstr (c # s) \<longleftrightarrow> c \<noteq> NUL \<and> is_cstr s"
  "is_cstr (s @ t) \<longleftrightarrow> is_cstr s \<and> is_cstr t"
  by (auto simp: is_cstr_def)

lemma is_cstr_take [simp, intro]: "is_cstr s \<Longrightarrow> is_cstr (take n s)"
  by (auto simp: is_cstr_def dest: in_set_takeD)

lemma is_cstr_cstr_of [simp]: "is_cstr (cstr_of buf)"
  by (auto simp: is_cstr_def cstr_of_def dest: set_takeWhileD)

lemma cstr_of_id [simp]: "is_cstr s \<Longrightarrow> cstr_of s = s"
  by (induction s) (auto simp: cstr_of_def)

lemma strcasecmp_refl [simp]: "strcasecmp s s"
  by (simp add: strcasecmp_def)

lemma strcasecmp_trans: "strcasecmp a b \<Longrightarrow> strcasecmp b c \<Longrightarrow> strcasecmp a c"
  by (simp add: strcasecmp_def)

lemma strcasecmp_sym: "strcasecmp a b \<Longrightarrow> strcasecmp b a"
  by (simp add: strcasecmp_def)

lemma strcasecmp_Nil [simp]: "strcasecmp s [] \<longleftrightarrow> s = []" "strcasecmp [] s \<longleftrightarrow> s = []"
  by (auto simp: strcasecmp_def)

lemma starts_with_prefix: "starts_with p s \<longleftrightarrow> prefix p s"
  by (induction p s rule: starts_with.induct) auto

lemma strchrnul_append [simp]: "c \<notin> set a \<Longrightarrow> strchrnul (a @ c # b) c = c # b"
  by (induction a) (auto simp: strchrnul_def)

lemma strchrnul_notin [simp]: "c \<notin> set a \<Longrightarrow> strchrnul a c = []"
  by (induction a) (auto simp: strchrnul_def)

lemma length_tl_strchrnul: "tl (strchrnul s c) \<noteq> [] \<Longrightarrow> length (tl (strchrnul s c)) < length s"
proof -
  assume ne: "tl (strchrnul s c) \<noteq> []"
  have "length (strchrnul s c) \<le> length s"
    by (simp add: strchrnul_def length_dropWhile_le)
  with ne show ?thesis by (cases "strchrnul s c") auto
qed

lemma strchr_append [simp]: "c \<notin> set a \<Longrightarrow> strchr (a @ c # b) c = Some (c # b)"
  by (simp add: strchr_def)

lemma strchr_notin [simp]: "c \<notin> set a \<Longrightarrow> strchr a c = None"
  by (simp add: strchr_def)

lemma strchr_None: "strchr s c = None \<longleftrightarrow> c \<notin> set s"
  by (induction s) (auto simp: strchr_def strchrnul_def split: list.splits if_splits)

lemma strchr_Some: "strchr s c = Some r \<longleftrightarrow> (\<exists>a b. s = a @ c # b \<and> c \<notin> set a \<and> r = c # b)"
proof (induction s)
  case Nil
  then show ?case by simp
next
  case (Cons x s)
  show ?case
  proof (cases "x = c")
    case True
    then show ?thesis by (auto simp: strchr_def strchrnul_def Cons_eq_append_conv)
  next
    case False
    then have "strchr (x # s) c = strchr s c"
      by (simp add: strchr_def strchrnul_def)
    with Cons.IH False show ?thesis by (auto simp: Cons_eq_append_conv)
  qed
qed

lemma strchr_length: "strchr s c = Some r \<Longrightarrow> length r \<le> length s"
  by (auto simp: strchr_Some)

lemma strstr_Some_suffix: "strstr s n = Some r \<Longrightarrow> \<exists>a. s = a @ r \<and> starts_with n r"
proof (induction s n rule: strstr.induct)
  case (2 c s n)
  show ?case
  proof (cases "starts_with n (c # s)")
    case True
    then show ?thesis using "2.prems" by auto
  next
    case False
    then obtain a where "s = a @ r" "starts_with n r"
      using "2.IH" "2.prems" by auto
    then have "c # s = (c # a) @ r \<and> starts_with n r" by simp
    then show ?thesis by blast
  qed
qed (auto split: if_splits)

lemma strstr_length: "strstr s n = Some p \<Longrightarrow> length p \<le> length s"
  by (induction s n rule: strstr.induct) (auto split: if_splits)

lemma strstr_prefix: "strstr s n = Some p \<Longrightarrow> starts_with n p"
  by (induction s n rule: strstr.induct) (auto split: if_splits)

lemma starts_with_length: "starts_with n p \<Longrightarrow> length n \<le> length p"
  by (induction n p rule: starts_with.induct) auto

lemma starts_with_take: "starts_with n s \<Longrightarrow> take (length n) s = n"
  by (induction n s rule: starts_with.induct) auto

lemma length_snprintf: "0 < n \<Longrightarrow> length (snprintf n s) < n"
  by (simp add: snprintf_def)

lemma snprintf_fits [simp]: "length s < n \<Longrightarrow> snprintf n s = s"
  by (simp add: snprintf_def)

lemma is_cstr_snprintf [simp]: "is_cstr s \<Longrightarrow> is_cstr (snprintf n s)"
  by (auto simp: snprintf_def)

lemma snprintf_buf_cstr:
  assumes "0 < n" "n \<le> length buf" "is_cstr s"
  obtains buf' where "snprintf_buf buf n s = Some buf'" "cstr_of buf' = snprintf n s" "length buf' = length buf"
  using assms length_snprintf [OF assms(1), of s] by (simp add: snprintf_buf_def Let_def)

section \<open>Lemmas on words\<close>

lemma sint_of_nat_small: "n < 2 ^ 31 \<Longrightarrow> sint (of_nat n :: u32) = int n"
  by (simp add: signed_of_nat signed_take_bit_int_eq_self)

lemma unat_of_nat_small: "n < 2 ^ 32 \<Longrightarrow> unat (of_nat n :: u32) = n"
  by (simp add: unsigned_of_nat take_bit_nat_eq_self)

section \<open>Lemmas on decimal numbers\<close>

lemma of_char_digit_char: "d < 10 \<Longrightarrow> (of_char (digit_char d) :: nat) = 48 + d"
  by (simp add: digit_char_def)

lemma digit_char_props [simp]:
  assumes "d < 10"
  shows "is_digit (digit_char d)" "digit_val (digit_char d) = d" "digit_char d \<noteq> NUL"
proof -
  show "is_digit (digit_char d)" "digit_val (digit_char d) = d"
    using assms by (simp_all add: is_digit_def digit_val_def of_char_digit_char)
  have "(of_char NUL :: nat) = 0" by (simp add: NUL_def)
  with of_char_digit_char [OF assms] show "digit_char d \<noteq> NUL"
    by (metis add_is_0 zero_neq_numeral)
qed

lemma show_nat_digits: "\<forall>c \<in> set (show_nat n). is_digit c"
proof (induction n rule: show_nat.induct)
  case (1 n)
  then show ?case
    by (cases "n < 10") (auto simp: show_nat.simps [of n])
qed

lemma show_nat_nonempty [simp]: "show_nat n \<noteq> []"
  by (subst show_nat.simps) simp

lemma digits_val_snoc: "digits_val (s @ [c]) = 10 * digits_val s + digit_val c"
  by (simp add: digits_val_def)

lemma digits_val_show_nat [simp]: "digits_val (show_nat n) = n"
proof (induction n rule: show_nat.induct)
  case (1 n)
  show ?case
  proof (cases "n < 10")
    case True
    then show ?thesis by (simp add: show_nat.simps [of n] digits_val_def)
  next
    case False
    with 1 have "digits_val (show_nat (n div 10)) = n div 10" by simp
    with False show ?thesis by (simp add: show_nat.simps [of n] digits_val_snoc)
  qed
qed

lemma show_nat_inject [simp]: "show_nat m = show_nat n \<longleftrightarrow> m = n"
  by (metis digits_val_show_nat)

lemma is_digit_neq: "is_digit c \<Longrightarrow> c \<noteq> NUL \<and> c \<noteq> CHR ''-'' \<and> c \<noteq> CHR ''_'' \<and> c \<noteq> CHR ''+'' \<and> \<not> is_space c"
  by (auto simp: is_digit_def NUL_def is_space_def)

lemma show_nat_no_minus: "CHR ''-'' \<notin> set (show_nat n)" "CHR ''_'' \<notin> set (show_nat n)"
  using show_nat_digits [of n] is_digit_neq by blast+

lemma is_cstr_show_nat [simp]: "is_cstr (show_nat n)"
  using show_nat_digits [of n] is_digit_neq by (auto simp: is_cstr_def)

lemma show_int_inject [simp]: "show_int i = show_int j \<longleftrightarrow> i = j"
proof
  assume eq: "show_int i = show_int j"
  show "i = j"
  proof (cases "(i < 0) = (j < 0)")
    case True
    with eq show ?thesis by (auto simp: show_int_def split: if_splits)
  next
    case False
    then have "\<exists>m k. show_nat m = CHR ''-'' # k"
      using eq by (auto simp: show_int_def split: if_splits) metis+
    then show ?thesis using show_nat_no_minus(1) by (metis list.set_intros(1))
  qed
qed simp

lemma is_cstr_show_int [simp]: "is_cstr (show_int i)"
  by (auto simp: show_int_def NUL_def)

lemma show_int_no_underscore: "CHR ''_'' \<notin> set (show_int i)"
  by (auto simp: show_int_def show_nat_no_minus)

lemma length_show_nat: "n < 10 ^ k \<Longrightarrow> 0 < k \<Longrightarrow> length (show_nat n) \<le> k"
proof (induction n arbitrary: k rule: show_nat.induct)
  case (1 n)
  show ?case
  proof (cases "n < 10")
    case True
    with "1.prems" show ?thesis by (simp add: show_nat.simps [of n])
  next
    case False
    with "1.prems" have "k \<noteq> 1" by auto
    with "1.prems" obtain j where k: "k = Suc j" and j: "0 < j"
      by (cases k) auto
    with "1.prems" have "n div 10 < 10 ^ j"
      by (simp add: less_mult_imp_div_less mult.commute)
    with False 1 j have "length (show_nat (n div 10)) \<le> j" by blast
    with False k show ?thesis by (simp add: show_nat.simps [of n])
  qed
qed

lemma scan_unsigned_show_nat: "n < 2 ^ 64 \<Longrightarrow> scan_unsigned (show_nat n) = Some (of_nat n)"
proof -
  assume n: "n < 2 ^ 64"
  obtain c r where cr: "show_nat n = c # r" and c: "is_digit c"
    by (metis list.exhaust list.set_intros(1) show_nat_digits show_nat_nonempty)
  have tw: "takeWhile is_digit (show_nat n) = show_nat n"
    using show_nat_digits by (simp add: takeWhile_eq_all_conv)
  from c have "\<not> is_space c" "c \<noteq> CHR ''-''" "c \<noteq> CHR ''+''"
    using is_digit_neq by blast+
  then have "scan_unsigned (show_nat n) = Some (strtoul False (digits_val (show_nat n)))"
    using tw cr by (simp add: scan_unsigned_def)
  with n show ?thesis by (simp add: strtoul_def)
qed

section \<open>Lemmas on wait statuses\<close>

lemma WTERMSIG_mod: "WTERMSIG status = status mod 128"
proof -
  have "WTERMSIG status = take_bit 7 status"
    by (simp add: WTERMSIG_def take_bit_eq_mask mask_eq_exp_minus_1)
  then show ?thesis by (simp add: take_bit_eq_mod)
qed

lemma WEXITSTATUS_div: "WEXITSTATUS status = (status div 256) mod 256"
proof -
  have "WEXITSTATUS status = take_bit 8 (drop_bit 8 status)"
    by (simp add: WEXITSTATUS_def drop_bit_and take_bit_eq_mask mask_eq_exp_minus_1)
  then show ?thesis by (simp add: take_bit_eq_mod drop_bit_eq_div)
qed

text \<open>The statuses the kernel builds for an exit code and for a terminating signal are read back.\<close>

lemma wait_status_exit:
  assumes "0 \<le> code" "code < 256"
  shows "WIFEXITED (code * 256)" "WEXITSTATUS (code * 256) = code" "\<not> WIFSIGNALED (code * 256)"
proof -
  have z: "(code * 256) mod 128 = 0" by presburger
  show "WIFEXITED (code * 256)" "\<not> WIFSIGNALED (code * 256)"
    using z by (simp_all add: WIFEXITED_def WIFSIGNALED_def WTERMSIG_mod)
  show "WEXITSTATUS (code * 256) = code"
    using assms by (simp add: WEXITSTATUS_div)
qed

lemma wait_status_signal:
  assumes "0 < signo" "signo < 127"
  shows "\<not> WIFEXITED signo" "WIFSIGNALED signo" "WTERMSIG signo = signo"
  using assms by (simp_all add: WIFEXITED_def WIFSIGNALED_def WTERMSIG_mod)

lemma WEXITSTATUS_range: "0 \<le> WEXITSTATUS status \<and> WEXITSTATUS status < 256"
  by (simp add: WEXITSTATUS_div)

end
