(* ===== verification/Glib.thy ===== *)
theory Glib
  imports Prelude
begin

text \<open>
  The external file interface the library calls (GLib's \<^verbatim>\<open>g_file_test\<close>, \<^verbatim>\<open>g_file_get_contents\<close>,
  \<^verbatim>\<open>g_file_set_contents\<close>, \<^verbatim>\<open>g_mkdir\<close> and \<^verbatim>\<open>unlink\<close>) as a record of operations on an abstract state
  \<open>'w\<close> of the file system. GLib is not part of the sources, so every definition that reads or writes
  files takes such a record as an argument. \<open>file_laws\<close> states the documented behaviour that the
  properties rely on; \<open>store_ops\<close> is a concrete instance, used where a property is instantiated.
\<close>

record gerror =
  gerr_code :: int
  gerr_message :: string

record 'w file_ops =
  file_exists :: "'w \<Rightarrow> string \<Rightarrow> bool"
  file_is_dir :: "'w \<Rightarrow> string \<Rightarrow> bool"
  file_is_regular :: "'w \<Rightarrow> string \<Rightarrow> bool"
  file_get :: "'w \<Rightarrow> string \<Rightarrow> gerror + string"
  file_set :: "'w \<Rightarrow> string \<Rightarrow> string \<Rightarrow> gerror option \<times> 'w"
  file_mkdir :: "'w \<Rightarrow> string \<Rightarrow> bool \<times> 'w"
  file_unlink :: "'w \<Rightarrow> string \<Rightarrow> 'w"

text \<open>Writing a file either succeeds, and then exactly that file has the new contents, or fails and
  leaves every file as it was; creating a directory and removing another file change no contents.\<close>

definition same_files :: "'w file_ops \<Rightarrow> 'w \<Rightarrow> 'w \<Rightarrow> string \<Rightarrow> bool" where
  "same_files fo w w' q \<longleftrightarrow>
     file_exists fo w' q = file_exists fo w q \<and> file_get fo w' q = file_get fo w q"

definition set_law :: "'w file_ops \<Rightarrow> bool" where
  "set_law fo \<longleftrightarrow>
     (\<forall>w p c. case file_set fo w p c of
        (None, w') \<Rightarrow> file_exists fo w' p \<and> file_get fo w' p = Inr c \<and>
                      (\<forall>q. q \<noteq> p \<longrightarrow> same_files fo w w' q)
      | (Some e, w') \<Rightarrow> \<forall>q. same_files fo w w' q)"

definition frame_law :: "'w file_ops \<Rightarrow> bool" where
  "frame_law fo \<longleftrightarrow>
     (\<forall>w p q. q \<noteq> p \<longrightarrow>
        same_files fo w (snd (file_mkdir fo w p)) q \<and> same_files fo w (file_unlink fo w p) q)"

definition file_laws :: "'w file_ops \<Rightarrow> bool" where
  "file_laws fo \<longleftrightarrow> set_law fo \<and> frame_law fo"

type_synonym store = "string \<rightharpoonup> string"

definition no_such_file :: gerror where
  "no_such_file = \<lparr>gerr_code = 4, gerr_message = ''No such file or directory''\<rparr>"

definition store_ops :: "store file_ops" where
  "store_ops =
     \<lparr>file_exists = (\<lambda>w p. w p \<noteq> None),
      file_is_dir = (\<lambda>w p. p \<noteq> [] \<and> last p = CHR ''/''),
      file_is_regular = (\<lambda>w p. w p \<noteq> None),
      file_get = (\<lambda>w p. case w p of None \<Rightarrow> Inl no_such_file | Some c \<Rightarrow> Inr c),
      file_set = (\<lambda>w p c. (None, w(p \<mapsto> c))),
      file_mkdir = (\<lambda>w p. (True, w)),
      file_unlink = (\<lambda>w p. w(p := None))\<rparr>"

named_theorems file_simps

lemma file_set_ok:
  assumes "file_laws fo" "file_set fo w p c = (None, w')"
  shows "file_exists fo w' p" "file_get fo w' p = Inr c" "q \<noteq> p \<Longrightarrow> same_files fo w w' q"
proof -
  from assms(1) have "case file_set fo w p c of
        (None, w') \<Rightarrow> file_exists fo w' p \<and> file_get fo w' p = Inr c \<and>
                      (\<forall>q. q \<noteq> p \<longrightarrow> same_files fo w w' q)
      | (Some e, w') \<Rightarrow> \<forall>q. same_files fo w w' q"
    by (simp add: file_laws_def set_law_def)
  with assms(2) show "file_exists fo w' p" "file_get fo w' p = Inr c" "q \<noteq> p \<Longrightarrow> same_files fo w w' q"
    by simp_all
qed

lemma file_set_err:
  assumes "file_laws fo" "file_set fo w p c = (Some e, w')"
  shows "same_files fo w w' q"
proof -
  from assms(1) have "case file_set fo w p c of
        (None, w') \<Rightarrow> file_exists fo w' p \<and> file_get fo w' p = Inr c \<and>
                      (\<forall>q. q \<noteq> p \<longrightarrow> same_files fo w w' q)
      | (Some e, w') \<Rightarrow> \<forall>q. same_files fo w w' q"
    by (simp add: file_laws_def set_law_def)
  with assms(2) show ?thesis by simp
qed

lemma file_frame:
  assumes "file_laws fo" "q \<noteq> p"
  shows "same_files fo w (snd (file_mkdir fo w p)) q" "same_files fo w (file_unlink fo w p) q"
  using assms by (simp_all add: file_laws_def frame_law_def)

lemma same_files_trans:
  "same_files fo w w' q \<Longrightarrow> same_files fo w' w'' q \<Longrightarrow> same_files fo w w'' q"
  by (simp add: same_files_def)

lemma store_ops_simps [file_simps]:
  "file_exists store_ops w p \<longleftrightarrow> w p \<noteq> None"
  "file_is_dir store_ops w p \<longleftrightarrow> p \<noteq> [] \<and> last p = CHR ''/''"
  "file_is_regular store_ops w p \<longleftrightarrow> w p \<noteq> None"
  "file_get store_ops w p = (case w p of None \<Rightarrow> Inl no_such_file | Some c \<Rightarrow> Inr c)"
  "file_set store_ops w p c = (None, w(p \<mapsto> c))"
  "file_mkdir store_ops w p = (True, w)"
  "file_unlink store_ops w p = w(p := None)"
  by (simp_all add: store_ops_def)

lemma store_ops_laws: "file_laws store_ops"
  by (simp add: file_laws_def set_law_def frame_law_def same_files_def file_simps)

end
