(* ===== verification/Utilities.thy ===== *)
theory Utilities
  imports Glib
begin

text \<open>
  \<^verbatim>\<open>src/src/lib/utilities.c\<close>, \<^verbatim>\<open>src/src/lib/utilities_linux.c\<close> and the headers \<^verbatim>\<open>errors.h\<close>,
  \<^verbatim>\<open>utilities.h\<close> and \<^verbatim>\<open>logging.h\<close>: result codes, the bounded string copy, the first line of a
  file, the cached host identity, the logging filter with its dynamic trace points, and \<^verbatim>\<open>mh_abort\<close>.

  The function-local \<^verbatim>\<open>static\<close> variables are the fields of \<open>util_state\<close>. Answers of libsigar, of the
  resolver and of the kernel are arguments. The text of log messages is not modelled.
\<close>

section \<open>Result codes (errors.h)\<close>

datatype mh_result =
    MH_RES_SUCCESS
  | MH_RES_NOT_IMPLEMENTED
  | MH_RES_INVALID_ARGS
  | MH_RES_DOWNLOAD_ERROR
  | MH_RES_BACKEND_ERROR
  | MH_RES_AUTHENTICATION_ERROR
  | MH_RES_OTHER_ERROR

text \<open>The value of an enumerator; the C function accepts any integer.\<close>

fun mh_result_code :: "mh_result \<Rightarrow> int" where
  "mh_result_code MH_RES_SUCCESS = 0"
| "mh_result_code MH_RES_NOT_IMPLEMENTED = 1"
| "mh_result_code MH_RES_INVALID_ARGS = 2"
| "mh_result_code MH_RES_DOWNLOAD_ERROR = 3"
| "mh_result_code MH_RES_BACKEND_ERROR = 4"
| "mh_result_code MH_RES_AUTHENTICATION_ERROR = 5"
| "mh_result_code MH_RES_OTHER_ERROR = 6"

definition mh_result_to_str :: "int \<Rightarrow> string" where
  "mh_result_to_str res =
     (if res = mh_result_code MH_RES_SUCCESS then ''Success''
      else if res = mh_result_code MH_RES_NOT_IMPLEMENTED then ''Not implemented''
      else if res = mh_result_code MH_RES_INVALID_ARGS then ''Invalid Arguments''
      else if res = mh_result_code MH_RES_DOWNLOAD_ERROR then ''Unable to download file''
      else if res = mh_result_code MH_RES_BACKEND_ERROR then ''Error in backend''
      else if res = mh_result_code MH_RES_AUTHENTICATION_ERROR
        then ''You are not authorized for specified action''
      else if res = mh_result_code MH_RES_OTHER_ERROR then ''General error''
      else ''FIXME: result code doesn'' @ [CHR 0x27] @ ''t have message assigned!'')"

section \<open>Strings and files\<close>

definition mh_strlen_zero :: "cptr \<Rightarrow> bool" where
  "mh_strlen_zero s = (case s of None \<Rightarrow> True | Some t \<Rightarrow> t = [])"

text \<open>\<open>mh_string_copy\<close> writes into the buffer \<open>buf\<close> through the index \<open>dst\<close>. \<open>None\<close> is a write outside
  the buffer.\<close>

fun string_copy_loop :: "char list \<Rightarrow> nat \<Rightarrow> string \<Rightarrow> nat \<Rightarrow> (char list \<times> nat \<times> nat) option" where
  "string_copy_loop buf dst [] dst_len = Some (buf, dst, dst_len)"
| "string_copy_loop buf dst (c # src) dst_len =
     (if dst_len = 0 then Some (buf, dst, dst_len)
      else if dst < length buf then string_copy_loop (buf[dst := c]) (Suc dst) src (dst_len - 1)
      else None)"

definition mh_string_copy :: "char list \<Rightarrow> string \<Rightarrow> nat \<Rightarrow> char list option" where
  "mh_string_copy buf src dst_len =
     (case string_copy_loop buf 0 src dst_len of
        None \<Rightarrow> None
      | Some (buf', dst, left) \<Rightarrow>
          if dst_len = 0 then Some buf'
          else let d = (if left = 0 then int dst - 1 else int dst)
               in if 0 \<le> d \<and> d < int (length buf') then Some (buf'[nat d := NUL]) else None)"

text \<open>\<open>mh_string_copy\<close> into a whole array of \<open>n\<close> characters, read as a string. It stays inside the array
  (\<open>copied_eq\<close>).\<close>

definition copied :: "nat \<Rightarrow> string \<Rightarrow> string" where
  "copied n src = cstr_of (the (mh_string_copy (replicate n NUL) src n))"

text \<open>The Linux branch of \<open>mh_file_first_line\<close>: the buffer is cut at the first newline.\<close>

definition mh_file_first_line :: "'w file_ops \<Rightarrow> 'w \<Rightarrow> string \<Rightarrow> string option" where
  "mh_file_first_line fo w path =
     (if \<not> file_exists fo w path then None
      else let buffer = (case file_get fo w path of
                           Inl err \<Rightarrow> gerr_message err
                         | Inr contents \<Rightarrow> cstr_of contents)
           in Some (takeWhile (\<lambda>c. c \<noteq> CHR 0x0A) buffer))"

text \<open>\<open>mh_read_from_fd\<close>: the data read, if any, and the returned \<open>gssize\<close>.\<close>

definition mh_read_from_fd :: "gerror + string \<Rightarrow> int \<times> string option" where
  "mh_read_from_fd read_to_end =
     (case read_to_end of
        Inl err \<Rightarrow> (- gerr_code err, None)
      | Inr data \<Rightarrow> (int (length data), Some data))"

section \<open>Host identity\<close>

record sigar_net_info =
  host_name :: string
  domain_name :: string

record util_state =
  st_domainname :: cptr
  st_hostname :: cptr
  st_uuid :: cptr
  st_dnsdomainname :: cptr
  st_curl_init :: bool

definition util_init :: util_state where
  "util_init = \<lparr>st_domainname = None, st_hostname = None, st_uuid = None,
     st_dnsdomainname = None, st_curl_init = False\<rparr>"

definition mh_domainname :: "sigar_net_info \<Rightarrow> util_state \<Rightarrow> string \<times> util_state" where
  "mh_domainname netinfo s =
     (let d = (case st_domainname s of None \<Rightarrow> domain_name netinfo | Some d \<Rightarrow> d)
      in if d = [] \<or> strcasecmp d ''(none)''
         then ([], s\<lparr>st_domainname := None\<rparr>)
         else (d, s\<lparr>st_domainname := Some d\<rparr>))"

definition mh_os_uuid :: "'w file_ops \<Rightarrow> 'w \<Rightarrow> util_state \<Rightarrow> cptr \<times> util_state" where
  "mh_os_uuid fo w s =
     (let u1 = (if st_uuid s = None \<and> file_exists fo w ''/etc/machine-id''
                then mh_file_first_line fo w ''/etc/machine-id'' else st_uuid s);
          u2 = (if u1 = None \<and> file_exists fo w ''/var/lib/dbus/machine-id''
                then mh_file_first_line fo w ''/var/lib/dbus/machine-id'' else u1)
      in (u2, s\<lparr>st_uuid := u2\<rparr>))"

definition mh_uuid :: "'w file_ops \<Rightarrow> 'w \<Rightarrow> util_state \<Rightarrow> string \<times> util_state" where
  "mh_uuid fo w s =
     (case mh_os_uuid fo w s of (uuid, s') \<Rightarrow> (case uuid of None \<Rightarrow> [] | Some u \<Rightarrow> u, s'))"

definition mh_hostname ::
  "'w file_ops \<Rightarrow> 'w \<Rightarrow> sigar_net_info \<Rightarrow> util_state \<Rightarrow> string \<times> util_state" where
  "mh_hostname fo w netinfo s =
     (let h = (case st_hostname s of None \<Rightarrow> host_name netinfo | Some h \<Rightarrow> h)
      in if h = ''localhost''
         then (case mh_uuid fo w s of (u, s') \<Rightarrow> (u, s'\<lparr>st_hostname := Some u\<rparr>))
         else (h, s\<lparr>st_hostname := Some h\<rparr>))"

text \<open>The resolver's answer for a host name: \<open>None\<close> when \<^verbatim>\<open>getaddrinfo\<close> fails, \<open>Some None\<close> when it
  returns no address, otherwise the canonical name.\<close>

definition mh_os_dnsdomainname ::
  "(string \<Rightarrow> cptr option) \<Rightarrow> 'w file_ops \<Rightarrow> 'w \<Rightarrow> sigar_net_info \<Rightarrow> util_state \<Rightarrow> string \<times> util_state" where
  "mh_os_dnsdomainname getaddrinfo fo w netinfo s =
     (case st_dnsdomainname s of
        Some d \<Rightarrow> (d, s)
      | None \<Rightarrow>
         (case mh_hostname fo w netinfo s of (h, s') \<Rightarrow>
            (case getaddrinfo h of
               None \<Rightarrow> ([], s')
             | Some None \<Rightarrow> ([], s')
             | Some (Some canonname) \<Rightarrow>
                 (case strchr canonname (CHR ''.'') of
                    None \<Rightarrow> ([], s')
                  | Some c \<Rightarrow> (tl c, s'\<lparr>st_dnsdomainname := Some (tl c)\<rparr>)))))"

definition mh_dnsdomainname ::
  "(string \<Rightarrow> cptr option) \<Rightarrow> 'w file_ops \<Rightarrow> 'w \<Rightarrow> sigar_net_info \<Rightarrow> util_state \<Rightarrow> string \<times> util_state" where
  "mh_dnsdomainname getaddrinfo fo w netinfo s = mh_os_dnsdomainname getaddrinfo fo w netinfo s"

text \<open>\<open>mh_curl_init\<close>: \<open>global_init\<close> is whether \<^verbatim>\<open>curl_global_init\<close> succeeds if it is called.\<close>

definition mh_curl_init :: "bool \<Rightarrow> util_state \<Rightarrow> mh_result \<times> util_state" where
  "mh_curl_init global_init s =
     (if \<not> st_curl_init s
      then if \<not> global_init then (MH_RES_OTHER_ERROR, s)
           else (MH_RES_SUCCESS, s\<lparr>st_curl_init := True\<rparr>)
      else (MH_RES_SUCCESS, s))"

section \<open>Logging and trace points (logging.h)\<close>

definition LOG_CRIT :: int where "LOG_CRIT = 2"
definition LOG_ERR :: int where "LOG_ERR = 3"
definition LOG_WARNING :: int where "LOG_WARNING = 4"
definition LOG_NOTICE :: int where "LOG_NOTICE = 5"
definition LOG_INFO :: int where "LOG_INFO = 6"
definition LOG_DEBUG :: int where "LOG_DEBUG = 7"
definition LOG_TRACE :: int where "LOG_TRACE = 8"

text \<open>The macro \<open>mh_log\<close>: the priority handed to \<open>mh_log_fn\<close>, if it is called at all.\<close>

definition mh_log :: "int \<Rightarrow> int \<Rightarrow> int \<Rightarrow> int option" where
  "mh_log mh_log_level bump level =
     (if level \<le> mh_log_level then Some level
      else if bump \<noteq> LOG_TRACE then Some bump
      else None)"

datatype log_sink = Stderr | Syslog int

definition mh_log_fn :: "bool \<Rightarrow> int \<Rightarrow> log_sink" where
  "mh_log_fn mh_stderr_enabled priority = (if mh_stderr_enabled then Stderr else Syslog priority)"

record ddebug =
  dd_function :: string
  dd_filename :: string
  dd_format :: string
  dd_lineno :: nat
  dd_bump :: int

record ddebug_query =
  q_files :: cptr
  q_formats :: cptr
  q_functions :: cptr
  q_total :: u64
  q_matches :: u64

text \<open>The \<open>do\<close> loop of \<open>mh_update_trace_data\<close> over the comma-separated file list; \<open>offset\<close> is the rest of
  the list and \<open>bump\<close> the flag as the loop finds it.\<close>

function trace_files_loop :: "string \<Rightarrow> string \<Rightarrow> bool \<Rightarrow> bool" where
  "trace_files_loop filename offset bump =
     (let next = strchrnul offset (CHR '','');
          token = snprintf 499 (take (length offset - length next) offset)
      in if strstr filename token \<noteq> None then True
         else let next' = (if next \<noteq> [] then tl next else next)
              in if \<not> bump \<and> next' \<noteq> [] then trace_files_loop filename next' bump else bump)"
  by pat_completeness auto
termination
proof (relation "measure (\<lambda>(filename, offset, bump). length offset)", goal_cases)
  case 1
  show ?case by simp
next
  case (2 filename offset bump)
  then show ?case
    by (cases "strchrnul offset (CHR '','') = []") (simp_all add: length_tl_strchrnul del: length_tl)
qed

declare trace_files_loop.simps [simp del]

definition trace_bump :: "ddebug_query \<Rightarrow> ddebug \<Rightarrow> bool" where
  "trace_bump query dp =
     (let b1 = (case q_functions query of None \<Rightarrow> False | Some fs \<Rightarrow> strstr fs (dd_function dp) \<noteq> None);
          b2 = (case q_files query of None \<Rightarrow> b1 | Some fs \<Rightarrow> trace_files_loop (dd_filename dp) fs b1)
      in b2 \<or> (case q_formats query of None \<Rightarrow> False | Some fs \<Rightarrow> strstr fs (dd_format dp) \<noteq> None))"

text \<open>One pass over the array of trace points: every matching point gets the level \<open>LOG_NOTICE\<close>; the
  counters of the query grow by the points seen and the points matched.\<close>

definition mh_update_trace_data ::
  "ddebug_query \<Rightarrow> ddebug list \<Rightarrow> ddebug_query \<times> ddebug list \<times> u32" where
  "mh_update_trace_data query points =
     (let points' = map (\<lambda>dp. if trace_bump query dp then dp\<lparr>dd_bump := LOG_NOTICE\<rparr> else dp) points;
          nfound = length (filter (trace_bump query) points)
      in (query\<lparr>q_total := q_total query + of_nat (length points),
                q_matches := q_matches query + of_nat nfound\<rparr>, points', of_nat nfound))"

text \<open>A loaded object as \<^verbatim>\<open>dl_iterate_phdr\<close> reports it: its name, whether it can be opened, and the
  trace points between its two section symbols, if it has both.\<close>

record phdr_info =
  dlpi_name :: string
  dl_opens :: bool
  dl_verbose :: "ddebug list option"

definition mh_ddebug_callback :: "ddebug_query \<Rightarrow> phdr_info \<Rightarrow> ddebug_query \<times> phdr_info" where
  "mh_ddebug_callback query info =
     (if dlpi_name info = [] then (query, info)
      else if \<not> dl_opens info then (query, info)
      else case dl_verbose info of
             None \<Rightarrow> (query, info)
           | Some points \<Rightarrow>
               (case mh_update_trace_data query points of
                  (query', points', _) \<Rightarrow> (query', info\<lparr>dl_verbose := Some points'\<rparr>)))"

fun dl_iterate :: "ddebug_query \<Rightarrow> phdr_info list \<Rightarrow> ddebug_query \<times> phdr_info list" where
  "dl_iterate query [] = (query, [])"
| "dl_iterate query (i # is) =
     (case mh_ddebug_callback query i of (q1, i') \<Rightarrow>
        (case dl_iterate q1 is of (q2, is') \<Rightarrow> (q2, i' # is')))"

record log_state =
  mh_log_level :: int
  mh_stderr_enabled :: bool
  own_points :: "ddebug list"
  objects :: "phdr_info list"

definition mh_enable_stderr :: "bool \<Rightarrow> log_state \<Rightarrow> log_state" where
  "mh_enable_stderr to_stderr s = s\<lparr>mh_stderr_enabled := to_stderr\<rparr>"

definition mh_log_init ::
  "(string \<Rightarrow> cptr) \<Rightarrow> int \<Rightarrow> bool \<Rightarrow> log_state \<Rightarrow> log_state \<times> ddebug_query" where
  "mh_log_init getenv level to_stderr s =
     (let s1 = s\<lparr>mh_log_level := level, mh_stderr_enabled := to_stderr\<rparr>;
          query = \<lparr>q_files = getenv ''MH_trace_files'', q_formats = getenv ''MH_trace_formats'',
                   q_functions = getenv ''MH_trace_functions'', q_total = 0, q_matches = 0\<rparr>
      in if q_files query = None \<and> q_formats query = None \<and> q_functions query = None
         then (s1, query)
         else (case mh_update_trace_data query (own_points s1) of (q1, own', _) \<Rightarrow>
                 (case dl_iterate q1 (objects s1) of (q2, objs') \<Rightarrow>
                    (s1\<lparr>own_points := own', objects := objs'\<rparr>, q2))))"

text \<open>GLib's log flags and the handler installed for its messages: \<open>Inl\<close> is a call of \<open>mh_abort\<close> with
  \<open>do_core\<close> and \<open>do_fork\<close> set, \<open>Inr level\<close> a call of \<open>mh_log\<close>.\<close>

definition G_LOG_FLAG_RECURSION :: u32 where "G_LOG_FLAG_RECURSION = 1"
definition G_LOG_FLAG_FATAL :: u32 where "G_LOG_FLAG_FATAL = 2"
definition G_LOG_LEVEL_ERROR :: u32 where "G_LOG_LEVEL_ERROR = 4"
definition G_LOG_LEVEL_CRITICAL :: u32 where "G_LOG_LEVEL_CRITICAL = 8"
definition G_LOG_LEVEL_WARNING :: u32 where "G_LOG_LEVEL_WARNING = 16"
definition G_LOG_LEVEL_MESSAGE :: u32 where "G_LOG_LEVEL_MESSAGE = 32"
definition G_LOG_LEVEL_INFO :: u32 where "G_LOG_LEVEL_INFO = 64"
definition G_LOG_LEVEL_DEBUG :: u32 where "G_LOG_LEVEL_DEBUG = 128"
definition G_LOG_LEVEL_MASK :: u32 where
  "G_LOG_LEVEL_MASK = NOT (G_LOG_FLAG_RECURSION OR G_LOG_FLAG_FATAL)"

definition mh_glib_handler :: "u32 \<Rightarrow> unit + int" where
  "mh_glib_handler flags =
     (let msg_level = flags AND G_LOG_LEVEL_MASK in
      if msg_level = G_LOG_LEVEL_CRITICAL then Inl ()
      else if msg_level = G_LOG_FLAG_FATAL then Inr LOG_CRIT
      else if msg_level = G_LOG_LEVEL_ERROR then Inr LOG_ERR
      else if msg_level = G_LOG_LEVEL_MESSAGE then Inr LOG_NOTICE
      else if msg_level = G_LOG_LEVEL_INFO then Inr LOG_INFO
      else if msg_level = G_LOG_LEVEL_DEBUG then Inr LOG_DEBUG
      else Inr LOG_WARNING)"

section \<open>mh_abort\<close>

text \<open>\<open>mh_abort\<close> on Linux. \<open>fork_pid\<close> is what \<^verbatim>\<open>fork\<close> returns, \<open>wait k\<close> the result and the \<open>errno\<close> of the
  \<open>k\<close>-th \<^verbatim>\<open>waitpid\<close>. \<open>None\<close> is a call that never returns and never aborts.\<close>

datatype abort_outcome = Abort_returned | Aborted

definition EINTR :: int where "EINTR = 4"

partial_function (option) abort_wait :: "(nat \<Rightarrow> int \<times> int) \<Rightarrow> nat \<Rightarrow> abort_outcome option" where
  "abort_wait wait k =
     (if fst (wait k) < 0 \<and> snd (wait k) = EINTR then abort_wait wait (Suc k) else Some Abort_returned)"

definition mh_abort :: "bool \<Rightarrow> bool \<Rightarrow> int \<Rightarrow> (nat \<Rightarrow> int \<times> int) \<Rightarrow> abort_outcome option" where
  "mh_abort do_core do_fork fork_pid wait =
     (if \<not> do_core then Some Abort_returned
      else let pid = (if do_fork then fork_pid else 0)
           in if pid = - 1 then Some Abort_returned
              else if pid = 0 then Some Aborted
              else abort_wait wait 0)"

section \<open>Lemmas: strings and files\<close>

lemma string_copy_loop_eq:
  "k \<le> length buf - dst \<Longrightarrow> dst \<le> length buf \<Longrightarrow>
   string_copy_loop buf dst src k =
     (let n = min k (length src)
      in Some (take dst buf @ take n src @ drop (dst + n) buf, dst + n, k - n))"
proof (induction buf dst src k rule: string_copy_loop.induct)
  case (2 buf dst c src k)
  show ?case
  proof (cases "k = 0")
    case True
    then show ?thesis by simp
  next
    case False
    with "2.prems" have dst: "dst < length buf" by simp
    with False "2.IH" "2.prems" have
      "string_copy_loop buf dst (c # src) k =
        (let n = min (k - 1) (length src)
         in Some (take (Suc dst) (buf[dst := c]) @ take n src @ drop (Suc dst + n) (buf[dst := c]),
                  Suc dst + n, k - 1 - n))"
      by simp
    moreover have "take (Suc dst) (buf[dst := c]) = take dst buf @ [c]"
      using dst by (simp add: take_Suc_conv_app_nth)
    moreover have "min k (length (c # src)) = Suc (min (k - 1) (length src))"
      using False by (cases k) simp_all
    ultimately show ?thesis by (simp add: Let_def)
  qed
qed simp

text \<open>The exact effect of the copy: the kept prefix, one NUL, and the rest of the buffer untouched.\<close>

lemma mh_string_copy_eq:
  assumes "0 < n" "n \<le> length buf"
  shows "mh_string_copy buf src n =
    Some (take (n - 1) src @ NUL # drop (Suc (min (n - 1) (length src))) buf)"
proof -
  let ?m = "min n (length src)"
  have loop: "string_copy_loop buf 0 src n = Some (take ?m src @ drop ?m buf, ?m, n - ?m)"
    using assms by (simp add: string_copy_loop_eq Let_def)
  show ?thesis
  proof (cases "length src < n")
    case True
    then have "mh_string_copy buf src n = Some ((src @ drop (length src) buf)[length src := NUL])"
      using loop assms by (simp add: mh_string_copy_def Let_def)
    also have "(src @ drop (length src) buf)[length src := NUL] = src @ NUL # drop (Suc (length src)) buf"
      using True assms by (simp add: list_update_append Cons_nth_drop_Suc [symmetric])
    finally show ?thesis using True assms by simp
  next
    case False
    then have n: "?m = n" by simp
    then have "mh_string_copy buf src n = Some ((take n src @ drop n buf)[n - 1 := NUL])"
      using loop assms by (simp add: mh_string_copy_def Let_def nat_diff_distrib)
    also have "take n src = take (n - 1) src @ [src ! (n - 1)]"
      using False assms take_Suc_conv_app_nth [of "n - 1" src] by simp
    finally show ?thesis using False assms by (simp add: list_update_append)
  qed
qed

lemma mh_string_copy_0 [simp]: "mh_string_copy buf src 0 = Some buf"
  by (cases src) (simp_all add: mh_string_copy_def)

lemma mh_string_copy_cstr:
  assumes "0 < n" "n \<le> length buf" "is_cstr src"
  obtains buf' where "mh_string_copy buf src n = Some buf'" "cstr_of buf' = take (n - 1) src"
    "length buf' = length buf"
  using assms by (simp add: mh_string_copy_eq)

lemma copied_eq:
  assumes "is_cstr src" "0 < n"
  shows "copied n src = take (n - 1) src"
proof -
  have "mh_string_copy (replicate n NUL) src n =
      Some (take (n - 1) src @ NUL # drop (Suc (min (n - 1) (length src))) (replicate n NUL))"
    using assms by (simp add: mh_string_copy_eq)
  then show ?thesis using assms by (simp add: copied_def)
qed

lemma is_cstr_copied: "is_cstr (copied n src)"
  by (simp add: copied_def)

lemma copied_short:
  assumes "0 < n"
  shows "length (copied n src) < n"
proof -
  have "copied n src = cstr_of (take (n - 1) src @ NUL # drop (Suc (min (n - 1) (length src))) (replicate n NUL))"
    using assms by (simp add: copied_def mh_string_copy_eq)
  moreover have "length (cstr_of (xs @ NUL # ys)) \<le> length xs" for xs ys
    by (induction xs) (auto simp: cstr_of_def)
  ultimately have "length (copied n src) \<le> length (take (n - 1) src)" by metis
  then show ?thesis using assms by auto
qed

lemma mh_result_code_inject [simp]: "mh_result_code a = mh_result_code b \<longleftrightarrow> a = b"
  by (cases a; cases b) simp_all

lemma mh_file_first_line_exists: "mh_file_first_line fo w p = None \<longleftrightarrow> \<not> file_exists fo w p"
  by (simp add: mh_file_first_line_def Let_def)

lemma mh_file_first_line_get:
  "file_exists fo w p \<Longrightarrow> file_get fo w p = Inr c \<Longrightarrow>
   mh_file_first_line fo w p = Some (takeWhile (\<lambda>c. c \<noteq> CHR 0x0A) (cstr_of c))"
  by (simp add: mh_file_first_line_def)

section \<open>Lemmas: trace points\<close>

text \<open>The comma-separated pieces of a trace file list, in order. A trailing comma adds no piece.\<close>

fun comma_pieces :: "string \<Rightarrow> string \<Rightarrow> string list" where
  "comma_pieces acc [] = [acc]"
| "comma_pieces acc (c # s) =
     (if c = CHR '','' then acc # (if s = [] then [] else comma_pieces [] s)
      else comma_pieces (acc @ [c]) s)"

lemma comma_pieces_strchrnul:
  "comma_pieces acc s =
     (let next = strchrnul s (CHR '','');
          piece = acc @ take (length s - length next) s
      in piece # (if next = [] \<or> tl next = [] then [] else comma_pieces [] (tl next)))"
proof (induction acc s rule: comma_pieces.induct)
  case (2 acc c s)
  have le: "length (strchrnul s (CHR '','')) \<le> length s"
    by (simp add: strchrnul_def length_dropWhile_le)
  show ?case
  proof (cases "c = CHR '',''")
    case True
    then show ?thesis by (simp add: strchrnul_def)
  next
    case False
    then have "strchrnul (c # s) (CHR '','') = strchrnul s (CHR '','')"
      by (simp add: strchrnul_def)
    moreover have "take (length (c # s) - length (strchrnul s (CHR '',''))) (c # s) =
      c # take (length s - length (strchrnul s (CHR '',''))) s"
      using le by (simp add: Suc_diff_le)
    ultimately show ?thesis
      using False "2.IH" by (simp add: Let_def)
  qed
qed (simp add: strchrnul_def)

lemma trace_files_loop_pieces:
  "trace_files_loop filename s False \<longleftrightarrow>
     (\<exists>t \<in> set (comma_pieces [] s). strstr filename (snprintf 499 t) \<noteq> None)"
proof (induction "length s" arbitrary: s rule: less_induct)
  case less
  let ?next = "strchrnul s (CHR '','')"
  let ?piece = "take (length s - length ?next) s"
  show ?case
  proof (cases "?next = [] \<or> tl ?next = []")
    case True
    then have "comma_pieces [] s = [?piece]"
      by (subst comma_pieces_strchrnul) (simp add: Let_def)
    then show ?thesis
      using True by (subst trace_files_loop.simps) (auto simp: Let_def)
  next
    case False
    then have "comma_pieces [] s = ?piece # comma_pieces [] (tl ?next)"
      by (subst comma_pieces_strchrnul) (simp add: Let_def)
    moreover have "trace_files_loop filename (tl ?next) False \<longleftrightarrow>
      (\<exists>t \<in> set (comma_pieces [] (tl ?next)). strstr filename (snprintf 499 t) \<noteq> None)"
      using False length_tl_strchrnul less.hyps by blast
    ultimately show ?thesis
      using False by (subst trace_files_loop.simps) (auto simp: Let_def)
  qed
qed

lemma length_update_trace: "length (fst (snd (mh_update_trace_data query points))) = length points"
  by (simp add: mh_update_trace_data_def Let_def)

section \<open>Properties\<close>

text \<open>C34: \<open>mh_string_copy\<close> with a size that does not exceed the destination never writes outside it. With a size of
  zero it writes nothing; with any other size it leaves a terminated string there, namely the source cut to
  \<open>dst_len - 1\<close> characters, and changes no character behind the terminator.\<close>

theorem mh_string_copy_correct:
  assumes "dst_len \<le> length buf" "is_cstr src"
  shows "\<exists>buf'. mh_string_copy buf src dst_len = Some buf' \<and> length buf' = length buf \<and>
    (if dst_len = 0 then buf' = buf
     else cstr_of buf' = take (dst_len - 1) src \<and>
       (\<forall>i. min (dst_len - 1) (length src) < i \<and> i < length buf \<longrightarrow> buf' ! i = buf ! i))"
proof (cases "dst_len = 0")
  case False
  let ?m = "min (dst_len - 1) (length src)"
  let ?buf' = "take (dst_len - 1) src @ NUL # drop (Suc ?m) buf"
  have "?buf' ! i = buf ! i" if "?m < i" "i < length buf" for i
  proof -
    have len: "length (take (dst_len - 1) src) = ?m" by (simp add: min.commute)
    with that have "?buf' ! i = drop (Suc ?m) buf ! (i - Suc ?m)"
      by (metis nth_append_Cons_beyond)
    with that show ?thesis by simp
  qed
  moreover have "cstr_of ?buf' = take (dst_len - 1) src" "length ?buf' = length buf"
    using assms False by simp_all
  ultimately show ?thesis
    using mh_string_copy_eq [of dst_len buf src] assms(1) False by auto
qed simp

theorem mh_string_copy_correct_witness:
  "\<exists>buf'. mh_string_copy (''abc'' @ [NUL]) ''xyz12'' 3 = Some buf' \<and> cstr_of buf' = ''xy''"
  using mh_string_copy_correct [of 3 "''abc'' @ [NUL]" "''xyz12''"]
  by (auto simp: NUL_def)

end
