(* ===== verification/Dnssrv.thy ===== *)
theory Dnssrv
  imports Utilities "HOL-Library.Multiset"
begin

text \<open>
  \<^verbatim>\<open>src/src/lib/dnssrv.c\<close> and \<^verbatim>\<open>src/src/lib/dnssrv_linux.c\<close>: collecting the SRV records of a DNS answer,
  ordering them by priority and, within one priority, by the weighted random selection of RFC 2782.

  A \<open>GList\<close> of records is a list. The external functions are arguments: \<open>ins\<close> stands for
  \<^verbatim>\<open>g_list_insert_sorted\<close>, \<open>rand\<close> for \<^verbatim>\<open>g_random_int_range\<close> on a generator state \<open>'g\<close>, and the parsed
  answer of the resolver for \<^verbatim>\<open>res_query\<close> and \<^verbatim>\<open>ns_parserr\<close>. The selection loop draws again when no
  record is chosen, so the sort is a partial function; \<open>apply_weight_sort_returns\<close> shows it returns.
\<close>

record mh_dnssrv_record =
  rec_port :: u16
  rec_priority :: u16
  rec_weight :: u16
  rec_running :: u32
  rec_host :: string

type_synonym 'g random_range = "'g \<Rightarrow> int \<Rightarrow> int \<Rightarrow> int \<times> 'g"

type_synonym insert_sorted =
  "(mh_dnssrv_record \<Rightarrow> mh_dnssrv_record \<Rightarrow> int) \<Rightarrow> mh_dnssrv_record list \<Rightarrow> mh_dnssrv_record
   \<Rightarrow> mh_dnssrv_record list"

section \<open>Accessors and comparison\<close>

definition mh_dnssrv_record_get_host :: "mh_dnssrv_record \<Rightarrow> string" where
  "mh_dnssrv_record_get_host r = rec_host r"

definition mh_dnssrv_record_get_port :: "mh_dnssrv_record \<Rightarrow> u16" where
  "mh_dnssrv_record_get_port r = rec_port r"

definition mh_dnssrv_record_get_priority :: "mh_dnssrv_record \<Rightarrow> u16" where
  "mh_dnssrv_record_get_priority r = rec_priority r"

definition mh_dnssrv_record_get_weight :: "mh_dnssrv_record \<Rightarrow> u16" where
  "mh_dnssrv_record_get_weight r = rec_weight r"

definition dnssrv_record_priority_cmp :: "mh_dnssrv_record \<Rightarrow> mh_dnssrv_record \<Rightarrow> int" where
  "dnssrv_record_priority_cmp a b = uint (rec_priority a) - uint (rec_priority b)"

section \<open>Weighted selection\<close>

definition add_weight :: "mh_dnssrv_record \<Rightarrow> u32 \<Rightarrow> mh_dnssrv_record \<times> u32" where
  "add_weight r sum_weights =
     (let sum' = sum_weights + ucast (rec_weight r) in (r\<lparr>rec_running := sum'\<rparr>, sum'))"

fun foreach_add_weight :: "mh_dnssrv_record list \<Rightarrow> u32 \<Rightarrow> mh_dnssrv_record list \<times> u32" where
  "foreach_add_weight [] sum_weights = ([], sum_weights)"
| "foreach_add_weight (r # rs) sum_weights =
     (case add_weight r sum_weights of (r', s1) \<Rightarrow>
        (case foreach_add_weight rs s1 of (rs', s2) \<Rightarrow> (r' # rs', s2)))"

text \<open>The \<open>for\<close> loop over the running sums: the first record whose sum reaches \<open>magic\<close>, and the list
  without it.\<close>

fun select_record ::
  "u32 \<Rightarrow> mh_dnssrv_record list \<Rightarrow> (mh_dnssrv_record \<times> mh_dnssrv_record list) option" where
  "select_record magic [] = None"
| "select_record magic (r # rs) =
     (if magic \<le> rec_running r then Some (r, rs)
      else case select_record magic rs of None \<Rightarrow> None | Some (x, rs') \<Rightarrow> Some (x, r # rs'))"

partial_function (option) weight_sort_loop ::
  "'g random_range \<Rightarrow> 'g \<Rightarrow> mh_dnssrv_record list \<Rightarrow> mh_dnssrv_record list
   \<Rightarrow> (mh_dnssrv_record list \<times> 'g) option" where
  "weight_sort_loop rand g records processed =
     (if records = [] then Some (processed, g)
      else let summed = foreach_add_weight records 0;
               draw = rand g 0 (sint (snd summed + 1))
           in case select_record (word_of_int (fst draw)) (fst summed) of
                None \<Rightarrow> weight_sort_loop rand (snd draw) (fst summed) processed
              | Some x \<Rightarrow> weight_sort_loop rand (snd draw) (snd x) (processed @ [fst x]))"

definition apply_weight_sort ::
  "'g random_range \<Rightarrow> 'g \<Rightarrow> mh_dnssrv_record list \<Rightarrow> (mh_dnssrv_record list \<times> 'g) option" where
  "apply_weight_sort rand g records = weight_sort_loop rand g records []"

section \<open>Sorting all records\<close>

text \<open>The inner \<open>do\<close> loop of \<open>mh_dnssrv_records_sort\<close>: the records of the current priority, those of
  weight 0 moved to the front, and the records that remain.\<close>

fun take_priority ::
  "u16 \<Rightarrow> mh_dnssrv_record list \<Rightarrow> mh_dnssrv_record list
   \<Rightarrow> mh_dnssrv_record list \<times> mh_dnssrv_record list" where
  "take_priority cur_priority tmp_list [] = (tmp_list, [])"
| "take_priority cur_priority tmp_list (r # rs) =
     (if rec_priority r \<noteq> cur_priority then (tmp_list, r # rs)
      else take_priority cur_priority (if rec_weight r = 0 then r # tmp_list else tmp_list @ [r]) rs)"

partial_function (option) records_sort_loop ::
  "'g random_range \<Rightarrow> 'g \<Rightarrow> mh_dnssrv_record list \<Rightarrow> mh_dnssrv_record list
   \<Rightarrow> (mh_dnssrv_record list \<times> 'g) option" where
  "records_sort_loop rand g records processed =
     (if records = [] then Some (processed, g)
      else let split = take_priority (rec_priority (hd records)) [] records
           in Option.bind (apply_weight_sort rand g (fst split))
                (\<lambda>x. records_sort_loop rand (snd x) (snd split) (processed @ fst x)))"

definition mh_dnssrv_records_sort ::
  "'g random_range \<Rightarrow> 'g \<Rightarrow> mh_dnssrv_record list \<Rightarrow> (mh_dnssrv_record list \<times> 'g) option" where
  "mh_dnssrv_records_sort rand g records = records_sort_loop rand g records []"

section \<open>Building and looking up records\<close>

definition mh_dnssrv_add_record ::
  "insert_sorted \<Rightarrow> mh_dnssrv_record list \<Rightarrow> string \<Rightarrow> u16 \<Rightarrow> u16 \<Rightarrow> u16 \<Rightarrow> u32 \<Rightarrow> mh_dnssrv_record list" where
  "mh_dnssrv_add_record ins records host port priority weight uninit =
     ins dnssrv_record_priority_cmp records
       \<lparr>rec_port = port, rec_priority = priority, rec_weight = weight, rec_running = uninit,
        rec_host = host\<rparr>"

text \<open>A resource record of the answer: \<open>None\<close> when \<^verbatim>\<open>ns_parserr\<close> fails on it.\<close>

datatype ns_rr = SrvRR u16 u16 u16 string | OtherRR

fun collect_records :: "insert_sorted \<Rightarrow> mh_dnssrv_record list \<Rightarrow> ns_rr option list \<Rightarrow> mh_dnssrv_record list" where
  "collect_records ins records [] = records"
| "collect_records ins records (None # rrs) = []"
| "collect_records ins records (Some OtherRR # rrs) = collect_records ins records rrs"
| "collect_records ins records (Some (SrvRR priority weight port host) # rrs) =
     collect_records ins (mh_dnssrv_add_record ins records host port priority weight 0) rrs"

text \<open>The resolver's answer: the size \<^verbatim>\<open>res_query\<close> returns and, when it can be parsed, its records.\<close>

definition mh_os_dnssrv_lookup :: "insert_sorted \<Rightarrow> int \<times> ns_rr option list option \<Rightarrow> mh_dnssrv_record list" where
  "mh_os_dnssrv_lookup ins answer =
     (if fst answer > 0
      then (case snd answer of None \<Rightarrow> [] | Some rrs \<Rightarrow> collect_records ins [] rrs)
      else [])"

definition mh_dnssrv_lookup ::
  "insert_sorted \<Rightarrow> (string \<Rightarrow> int \<times> ns_rr option list option) \<Rightarrow> 'g random_range \<Rightarrow> 'g \<Rightarrow> string
   \<Rightarrow> (mh_dnssrv_record list \<times> 'g) option" where
  "mh_dnssrv_lookup ins resolver rand g query =
     mh_dnssrv_records_sort rand g (mh_os_dnssrv_lookup ins (resolver query))"

text \<open>\<open>mh_dnssrv_lookup_single\<close>: the return code, the caller's host buffer and the port (if written).
  The outer option is \<open>None\<close> when the lookup does not return, the inner one when the copy would write
  outside the host buffer.\<close>

definition mh_dnssrv_lookup_single ::
  "insert_sorted \<Rightarrow> (string \<Rightarrow> int \<times> ns_rr option list option) \<Rightarrow> 'g random_range \<Rightarrow> 'g \<Rightarrow> string
   \<Rightarrow> char list \<Rightarrow> nat \<Rightarrow> ((int \<times> char list option \<times> u16 option) \<times> 'g) option" where
  "mh_dnssrv_lookup_single ins resolver rand g query host host_len =
     (case mh_dnssrv_lookup ins resolver rand g query of
        None \<Rightarrow> None
      | Some ([], g') \<Rightarrow> Some ((- 1, Some host, None), g')
      | Some (r # _, g') \<Rightarrow> Some ((0, mh_string_copy host (rec_host r) host_len, Some (rec_port r)), g'))"

text \<open>What the code relies on: \<^verbatim>\<open>g_random_int_range (begin, end)\<close> returns a number of the half-open
  range, and \<^verbatim>\<open>g_list_insert_sorted\<close> adds the element and keeps a list sorted by the comparison.\<close>

definition rand_ok :: "'g random_range \<Rightarrow> bool" where
  "rand_ok rand \<longleftrightarrow> (\<forall>g lo hi. lo < hi \<longrightarrow> lo \<le> fst (rand g lo hi) \<and> fst (rand g lo hi) < hi)"

definition insert_ok :: "insert_sorted \<Rightarrow> bool" where
  "insert_ok ins \<longleftrightarrow>
     (\<forall>key xs x. mset (ins (\<lambda>a b. key a - key b) xs x) = add_mset x (mset xs) \<and>
       (sorted (map key xs) \<longrightarrow> sorted (map key (ins (\<lambda>a b. key a - key b) xs x))))"

text \<open>A record without the scratch field of the sort, and the sum of the weights of a list.\<close>

definition rec_data :: "mh_dnssrv_record \<Rightarrow> mh_dnssrv_record" where
  "rec_data r = r\<lparr>rec_running := 0\<rparr>"

definition total_weight :: "mh_dnssrv_record list \<Rightarrow> nat" where
  "total_weight rs = sum_list (map (\<lambda>r. unat (rec_weight r)) rs)"

abbreviation priorities :: "mh_dnssrv_record list \<Rightarrow> int list" where
  "priorities rs \<equiv> map (\<lambda>r. uint (rec_priority r)) rs"

section \<open>Lemmas: running sums and selection\<close>

lemma rec_data_simps [simp]:
  "rec_data (r\<lparr>rec_running := x\<rparr>) = rec_data r"
  "rec_priority (rec_data r) = rec_priority r"
  "rec_weight (rec_data r) = rec_weight r"
  "rec_host (rec_data r) = rec_host r"
  "rec_port (rec_data r) = rec_port r"
  by (simp_all add: rec_data_def)

lemma foreach_add_weight_Cons [simp]:
  "foreach_add_weight (r # rs) s =
     (let s' = s + ucast (rec_weight r)
      in (r\<lparr>rec_running := s'\<rparr> # fst (foreach_add_weight rs s'), snd (foreach_add_weight rs s')))"
  by (simp add: add_weight_def Let_def split: prod.splits)

declare foreach_add_weight.simps(2) [simp del]

lemma total_weight_simps [simp]:
  "total_weight [] = 0"
  "total_weight (r # rs) = unat (rec_weight r) + total_weight rs"
  by (simp_all add: total_weight_def)

lemma foreach_add_weight_data:
  "map rec_data (fst (foreach_add_weight rs s)) = map rec_data rs"
  by (induction rs arbitrary: s) (simp_all add: Let_def)

lemma foreach_add_weight_mset:
  "image_mset rec_data (mset (fst (foreach_add_weight rs s))) = image_mset rec_data (mset rs)"
  by (metis foreach_add_weight_data mset_map)

lemma total_weight_mset:
  "total_weight rs = (\<Sum>r\<in>#mset (map rec_data rs). unat (rec_weight r))"
  by (induction rs) simp_all

lemma mset_rec_data_weight:
  "mset (map rec_data xs) = mset (map rec_data ys) \<Longrightarrow> total_weight xs = total_weight ys"
  by (simp only: total_weight_mset)

lemma foreach_add_weight_sum:
  "snd (foreach_add_weight rs s) = s + of_nat (total_weight rs)"
  by (induction rs arbitrary: s) (simp_all add: Let_def ac_simps)

lemma length_foreach_add_weight [simp]: "length (fst (foreach_add_weight rs s)) = length rs"
  by (metis foreach_add_weight_data length_map)

lemma foreach_add_weight_running:
  "i < length rs \<Longrightarrow>
   rec_running (fst (foreach_add_weight rs s) ! i) = s + of_nat (total_weight (take (Suc i) rs))"
proof (induction rs arbitrary: s i)
  case (Cons r rs)
  then show ?case by (cases i) (simp_all add: Let_def ac_simps)
qed simp

lemma select_record_mset:
  "select_record m rs = Some (x, rs') \<Longrightarrow> mset rs = add_mset x (mset rs')"
  by (induction m rs arbitrary: rs' rule: select_record.induct) (auto split: if_splits option.splits)

lemma select_record_found:
  "rs \<noteq> [] \<Longrightarrow> m \<le> rec_running (last rs) \<Longrightarrow> \<exists>x rs'. select_record m rs = Some (x, rs')"
  by (induction m rs rule: select_record.induct) (auto split: if_splits)

lemma total_weight_take_le: "total_weight (take i rs) \<le> total_weight rs"
proof (induction rs arbitrary: i)
  case (Cons r rs)
  then show ?case by (cases i) simp_all
qed simp

lemma summed_running:
  assumes "total_weight rs < 2 ^ 31" "i < length rs"
  shows "unat (rec_running (fst (foreach_add_weight rs 0) ! i)) = total_weight (take (Suc i) rs)"
proof -
  have "total_weight (take (Suc i) rs) < 2 ^ 32"
    using assms total_weight_take_le [of "Suc i" rs] by simp
  then show ?thesis
    using assms by (simp add: foreach_add_weight_running unat_of_nat_small)
qed

text \<open>The range passed to the generator is positive and its upper end is the sum plus one.\<close>

lemma draw_range:
  assumes "total_weight rs < 2 ^ 31 - 1"
  shows "sint (snd (foreach_add_weight rs 0) + 1) = int (total_weight rs) + 1"
proof -
  have "Suc (total_weight rs) < 2 ^ 31" using assms by simp
  from sint_of_nat_small [OF this] show ?thesis by (simp add: foreach_add_weight_sum ac_simps)
qed

lemma weight_sort_step:
  assumes "rand_ok rand" "total_weight rs < 2 ^ 31 - 1" "rs \<noteq> []"
  shows "\<exists>x rs'. select_record (word_of_int (fst (rand g 0 (sint (snd (foreach_add_weight rs 0) + 1)))))
      (fst (foreach_add_weight rs 0)) = Some (x, rs')
    \<and> mset (map rec_data rs) = add_mset (rec_data x) (mset (map rec_data rs'))"
proof -
  let ?sum = "foreach_add_weight rs 0"
  let ?m = "fst (rand g 0 (sint (snd ?sum + 1)))"
  have rng: "0 \<le> ?m" "?m \<le> int (total_weight rs)"
    using assms(1) draw_range [OF assms(2)] unfolding rand_ok_def by (smt (verit) of_nat_0_le_iff)+
  have ne: "fst ?sum \<noteq> []"
    using assms(3) by (metis length_0_conv length_foreach_add_weight)
  have last: "unat (rec_running (last (fst ?sum))) = total_weight rs"
    using assms summed_running [of rs "length rs - 1"] ne by (simp add: last_conv_nth)
  have "unat (word_of_int ?m :: u32) = nat ?m"
    using rng assms(2) by (simp add: unat_eq_nat_uint uint_word_of_int)
  with rng last have "(word_of_int ?m :: u32) \<le> rec_running (last (fst ?sum))"
    by (simp add: word_le_nat_alt)
  with ne obtain x rs' where sel: "select_record (word_of_int ?m) (fst ?sum) = Some (x, rs')"
    using select_record_found by blast
  then have "mset (map rec_data (fst ?sum)) = add_mset (rec_data x) (mset (map rec_data rs'))"
    by (metis mset_map image_mset_add_mset select_record_mset)
  with sel show ?thesis by (simp add: foreach_add_weight_data)
qed

section \<open>Lemmas: the sort returns and permutes\<close>

lemma weight_sort_loop_mset:
  fixes rand :: "'g random_range"
  assumes "weight_sort_loop rand g records processed = Some (out, g')"
  shows "mset (map rec_data out) = mset (map rec_data processed) + mset (map rec_data records)"
proof -
  let ?P = "\<lambda>(rand :: 'g random_range) (g :: 'g) records processed (r :: mh_dnssrv_record list \<times> 'g).
    mset (map rec_data (fst r)) = mset (map rec_data processed) + mset (map rec_data records)"
  have "?P rand g records processed (out, g')"
  proof (rule weight_sort_loop.raw_induct [where P = ?P, OF _ assms])
    fix loop and rand' :: "'g random_range" and g0 recs proc and r :: "mh_dnssrv_record list \<times> 'g"
    assume IH: "\<And>rand' g0 recs proc r. loop rand' g0 recs proc = Some r \<Longrightarrow> ?P rand' g0 recs proc r"
    assume eq: "(if recs = [] then Some (proc, g0)
      else let summed = foreach_add_weight recs 0; draw = rand' g0 0 (sint (snd summed + 1))
           in case select_record (word_of_int (fst draw)) (fst summed) of
                None \<Rightarrow> loop rand' (snd draw) (fst summed) proc
              | Some x \<Rightarrow> loop rand' (snd draw) (snd x) (proc @ [fst x])) = Some r"
    let ?summed = "foreach_add_weight recs 0"
    let ?sel = "select_record (word_of_int (fst (rand' g0 0 (sint (snd ?summed + 1))))) (fst ?summed)"
    consider "recs = []" | "recs \<noteq> []" "?sel = None" | x rs where "recs \<noteq> []" "?sel = Some (x, rs)"
      by (cases ?sel) auto
    then show "?P rand' g0 recs proc r"
    proof cases
      case 1
      then show ?thesis using eq by auto
    next
      case 2
      then show ?thesis using eq by (auto simp: Let_def foreach_add_weight_mset dest!: IH)
    next
      case 3
      then have "mset (map rec_data (fst ?summed)) = add_mset (rec_data x) (mset (map rec_data rs))"
        by (metis image_mset_add_mset mset_map select_record_mset)
      then have "mset (map rec_data recs) = add_mset (rec_data x) (mset (map rec_data rs))"
        by (simp only: foreach_add_weight_data)
      then show ?thesis using 3 eq by (auto simp: Let_def dest!: IH)
    qed
  qed
  then show ?thesis by simp
qed

lemma weight_sort_loop_returns:
  assumes "rand_ok rand"
  shows "total_weight records < 2 ^ 31 - 1 \<Longrightarrow>
    \<exists>out g'. weight_sort_loop rand g records processed = Some (out, g')"
proof (induction "length records" arbitrary: records processed g rule: less_induct)
  case less
  show ?case
  proof (cases "records = []")
    case True
    then show ?thesis by (simp add: weight_sort_loop.simps)
  next
    case False
    from weight_sort_step [OF assms less.prems False] obtain x rs where
      sel: "select_record (word_of_int (fst (rand g 0 (sint (snd (foreach_add_weight records 0) + 1)))))
        (fst (foreach_add_weight records 0)) = Some (x, rs)"
      and ms: "mset (map rec_data records) = add_mset (rec_data x) (mset (map rec_data rs))"
      by blast
    from ms have "mset (map rec_data records) = mset (map rec_data (x # rs))" by simp
    from mset_rec_data_weight [OF this] mset_eq_length [OF this]
    have "total_weight rs < 2 ^ 31 - 1" "length rs < length records"
      using less.prems by auto
    then have "\<exists>out g'. weight_sort_loop rand (snd (rand g 0 (sint (snd (foreach_add_weight records 0) + 1))))
        rs (processed @ [x]) = Some (out, g')"
      using less.hyps by blast
    with False sel show ?thesis by (subst weight_sort_loop.simps) (simp add: Let_def)
  qed
qed

lemma apply_weight_sort_mset:
  "apply_weight_sort rand g records = Some (out, g') \<Longrightarrow> mset (map rec_data out) = mset (map rec_data records)"
  unfolding apply_weight_sort_def by (drule weight_sort_loop_mset) simp

lemma apply_weight_sort_returns:
  "rand_ok rand \<Longrightarrow> total_weight records < 2 ^ 31 - 1 \<Longrightarrow>
   \<exists>out g'. apply_weight_sort rand g records = Some (out, g')"
  unfolding apply_weight_sort_def by (rule weight_sort_loop_returns)

lemma take_priority_mset:
  "take_priority p tmp rs = (tmp', rs') \<Longrightarrow> mset tmp' + mset rs' = mset tmp + mset rs"
  by (induction p tmp rs rule: take_priority.induct) (auto split: if_splits)

lemma take_priority_suffix: "take_priority p tmp rs = (tmp', rs') \<Longrightarrow> suffix rs' rs"
  by (induction p tmp rs rule: take_priority.induct) (auto split: if_splits intro: suffix_ConsI)

lemma take_priority_same:
  "take_priority p tmp rs = (tmp', rs') \<Longrightarrow> rec_priority ` set tmp \<subseteq> {p} \<Longrightarrow>
   rec_priority ` set tmp' \<subseteq> {p}"
proof (induction p tmp rs rule: take_priority.induct)
  case (2 p tmp r rs)
  show ?case
  proof (cases "rec_priority r = p")
    case True
    with "2.prems" have "rec_priority ` set (if rec_weight r = 0 then r # tmp else tmp @ [r]) \<subseteq> {p}"
      by simp
    with True 2 show ?thesis by simp
  next
    case False
    with 2 show ?thesis by simp
  qed
qed simp

lemma take_priority_hd_shorter:
  assumes "records \<noteq> []" "take_priority (rec_priority (hd records)) [] records = (tmp, rest)"
  shows "length rest < length records"
proof -
  obtain r rs where rs: "records = r # rs" using assms(1) by (cases records) auto
  with assms(2) have "take_priority (rec_priority r) [r] rs = (tmp, rest)"
    by (simp split: if_splits)
  then have "suffix rest rs" by (rule take_priority_suffix)
  then show ?thesis using rs by (simp add: suffix_length_le le_imp_less_Suc)
qed

lemma priorities_rec_data_eq:
  "mset (map rec_data xs) = mset (map rec_data ys) \<Longrightarrow>
   rec_priority ` set xs = rec_priority ` set ys"
proof -
  assume "mset (map rec_data xs) = mset (map rec_data ys)"
  then have "rec_data ` set xs = rec_data ` set ys" by (metis set_map set_mset_mset)
  then have "rec_priority ` rec_data ` set xs = rec_priority ` rec_data ` set ys" by simp
  then show ?thesis by (simp add: image_image)
qed

text \<open>One round of the outer loop: the group of the first priority, and what is left.\<close>

lemma priority_group:
  assumes "records \<noteq> []" "take_priority (rec_priority (hd records)) [] records = (tmp, rest)"
    and "apply_weight_sort rand g tmp = Some (grp_out, g')"
  shows "mset (map rec_data grp_out) + mset (map rec_data rest) = mset (map rec_data records)"
    and "sorted (priorities records) \<Longrightarrow> sorted (priorities rest) \<and> sorted (priorities grp_out)
      \<and> (\<forall>a \<in> set grp_out. \<forall>b \<in> set rest. uint (rec_priority a) \<le> uint (rec_priority b))"
proof -
  note g = apply_weight_sort_mset [OF assms(3)]
  show "mset (map rec_data grp_out) + mset (map rec_data rest) = mset (map rec_data records)"
    using take_priority_mset [OF assms(2)] g by (metis append_Nil image_mset_union mset_append mset_map)
  have same: "rec_priority a = rec_priority (hd records)" if "a \<in> set grp_out" for a
  proof -
    have "rec_priority a \<in> rec_priority ` set tmp"
      using priorities_rec_data_eq [OF g] that by (metis imageI)
    then show ?thesis using take_priority_same [OF assms(2)] by auto
  qed
  assume srt: "sorted (priorities records)"
  obtain pre where pre: "records = pre @ rest"
    using take_priority_suffix [OF assms(2)] by (auto simp: suffix_def)
  have "sorted (priorities rest)" using srt pre by (simp add: sorted_append)
  moreover have "sorted (priorities grp_out)"
    using same by (simp add: sorted_iff_nth_mono)
  moreover have "uint (rec_priority (hd records)) \<le> uint (rec_priority b)" if "b \<in> set rest" for b
  proof -
    obtain r rs where rs: "records = r # rs" using assms(1) by (cases records) auto
    have "b \<in> set records" using pre that by simp
    then show ?thesis using srt rs by auto
  qed
  ultimately show "sorted (priorities rest) \<and> sorted (priorities grp_out)
      \<and> (\<forall>a \<in> set grp_out. \<forall>b \<in> set rest. uint (rec_priority a) \<le> uint (rec_priority b))"
    using same by simp
qed

lemma records_sort_loop_correct:
  "records_sort_loop rand g records processed = Some (out, g') \<Longrightarrow>
   \<exists>out1. out = processed @ out1 \<and> mset (map rec_data out1) = mset (map rec_data records)
     \<and> (sorted (priorities records) \<longrightarrow> sorted (priorities out1))"
proof (induction "length records" arbitrary: records processed g rule: less_induct)
  case less
  show ?case
  proof (cases "records = []")
    case True
    then show ?thesis using less.prems by (simp add: records_sort_loop.simps)
  next
    case False
    obtain tmp rest where tp: "take_priority (rec_priority (hd records)) [] records = (tmp, rest)"
      by fastforce
    with less.prems False obtain grp_out g1 where
      ap: "apply_weight_sort rand g tmp = Some (grp_out, g1)" and
      rec: "records_sort_loop rand g1 rest (processed @ grp_out) = Some (out, g')"
      by (subst (asm) records_sort_loop.simps) (auto simp: Let_def Option.bind_eq_Some_conv)
    have "length rest < length records" by (rule take_priority_hd_shorter [OF False tp])
    from less.hyps [OF this rec] obtain out1 where
      out1: "out = (processed @ grp_out) @ out1" "mset (map rec_data out1) = mset (map rec_data rest)"
        "sorted (priorities rest) \<longrightarrow> sorted (priorities out1)"
      by blast
    note grp = priority_group [OF False tp ap]
    have "mset (map rec_data (grp_out @ out1)) = mset (map rec_data records)"
      using grp(1) out1(2) by (metis map_append mset_append)
    moreover have "sorted (priorities (grp_out @ out1))" if "sorted (priorities records)"
    proof -
      have "uint (rec_priority a) \<le> uint (rec_priority b)" if "a \<in> set grp_out" "b \<in> set out1" for a b
      proof -
        have "rec_priority b \<in> rec_priority ` set rest"
          using priorities_rec_data_eq [OF out1(2)] that(2) by (metis imageI)
        then obtain b' where "b' \<in> set rest" "rec_priority b' = rec_priority b" by auto
        then show ?thesis using grp(2) [OF \<open>sorted (priorities records)\<close>] that(1) by metis
      qed
      then show ?thesis using grp(2) [OF that] out1(3) by (auto simp: sorted_append)
    qed
    ultimately show ?thesis using out1(1) by auto
  qed
qed

lemma records_sort_loop_returns:
  assumes "rand_ok rand"
  shows "total_weight records < 2 ^ 31 - 1 \<Longrightarrow>
    \<exists>out g'. records_sort_loop rand g records processed = Some (out, g')"
proof (induction "length records" arbitrary: records processed g rule: less_induct)
  case less
  show ?case
  proof (cases "records = []")
    case True
    then show ?thesis by (simp add: records_sort_loop.simps)
  next
    case False
    obtain tmp rest where tp: "take_priority (rec_priority (hd records)) [] records = (tmp, rest)"
      by fastforce
    have "mset (map rec_data (tmp @ rest)) = mset (map rec_data records)"
      using take_priority_mset [OF tp] by (metis append_Nil mset_append mset_map)
    from mset_rec_data_weight [OF this]
    have w: "total_weight tmp < 2 ^ 31 - 1" "total_weight rest < 2 ^ 31 - 1"
      using less.prems by (simp_all add: total_weight_def)
    obtain grp_out g1 where ap: "apply_weight_sort rand g tmp = Some (grp_out, g1)"
      using apply_weight_sort_returns [OF assms w(1)] by blast
    have "length rest < length records" by (rule take_priority_hd_shorter [OF False tp])
    then have "\<exists>out g'. records_sort_loop rand g1 rest (processed @ grp_out) = Some (out, g')"
      using w(2) less.hyps by blast
    with False tp ap show ?thesis by (subst records_sort_loop.simps) (simp add: Let_def)
  qed
qed

section \<open>The ordering interface\<close>

text \<open>What a client of the sort relies on: the result has the records of the input, and a list that
  was sorted by priority stays sorted. The first record of the result is then one of least priority.\<close>

locale srv_order =
  fixes order :: "'g \<Rightarrow> mh_dnssrv_record list \<Rightarrow> (mh_dnssrv_record list \<times> 'g) option"
  assumes order_mset: "order g rs = Some (out, g') \<Longrightarrow> mset (map rec_data out) = mset (map rec_data rs)"
    and order_sorted: "order g rs = Some (out, g') \<Longrightarrow> sorted (priorities rs) \<Longrightarrow> sorted (priorities out)"
begin

lemma order_length: "order g rs = Some (out, g') \<Longrightarrow> length out = length rs"
  by (metis length_map mset_eq_length order_mset)

lemma order_Nil: "order g rs = Some ([], g') \<longleftrightarrow> order g [] = Some ([], g') \<and> rs = []"
  using order_length by (metis length_0_conv)

lemma order_hd_least:
  assumes "order g rs = Some (r # out, g')" "sorted (priorities rs)" "x \<in> set rs"
  shows "uint (rec_priority r) \<le> uint (rec_priority x)" "rec_data r \<in> rec_data ` set rs"
proof -
  have ms: "mset (map rec_data (r # out)) = mset (map rec_data rs)"
    by (rule order_mset [OF assms(1)])
  then have "rec_priority ` set (r # out) = rec_priority ` set rs"
    by (rule priorities_rec_data_eq)
  then obtain y where "y \<in> set (r # out)" "rec_priority y = rec_priority x"
    using assms(3) by (metis (no_types, lifting) imageE imageI)
  moreover have "sorted (priorities (r # out))" by (rule order_sorted [OF assms(1,2)])
  ultimately show "uint (rec_priority r) \<le> uint (rec_priority x)" by auto
  show "rec_data r \<in> rec_data ` set rs"
    using ms by (metis (no_types, lifting) list.set_intros(1) list.simps(9) set_map set_mset_mset)
qed

end

interpretation rfc2782: srv_order "mh_dnssrv_records_sort rand"
proof
  fix g rs out g'
  assume "mh_dnssrv_records_sort rand g rs = Some (out, g')"
  then have "\<exists>out1. out = [] @ out1 \<and> mset (map rec_data out1) = mset (map rec_data rs)
     \<and> (sorted (priorities rs) \<longrightarrow> sorted (priorities out1))"
    unfolding mh_dnssrv_records_sort_def by (rule records_sort_loop_correct)
  then show "mset (map rec_data out) = mset (map rec_data rs)"
    and "sorted (priorities rs) \<Longrightarrow> sorted (priorities out)"
    by auto
qed

section \<open>Lemmas: building the list\<close>

lemma mh_dnssrv_add_record_correct:
  assumes "insert_ok ins"
  shows "mset (mh_dnssrv_add_record ins rs host port prio weight u) =
      add_mset \<lparr>rec_port = port, rec_priority = prio, rec_weight = weight, rec_running = u, rec_host = host\<rparr> (mset rs)"
    and "sorted (priorities rs) \<Longrightarrow> sorted (priorities (mh_dnssrv_add_record ins rs host port prio weight u))"
proof -
  have "dnssrv_record_priority_cmp = (\<lambda>a b. uint (rec_priority a) - uint (rec_priority b))"
    by (simp add: fun_eq_iff dnssrv_record_priority_cmp_def)
  with assms show "mset (mh_dnssrv_add_record ins rs host port prio weight u) =
      add_mset \<lparr>rec_port = port, rec_priority = prio, rec_weight = weight, rec_running = u, rec_host = host\<rparr> (mset rs)"
    and "sorted (priorities rs) \<Longrightarrow> sorted (priorities (mh_dnssrv_add_record ins rs host port prio weight u))"
    unfolding insert_ok_def mh_dnssrv_add_record_def by presburger+
qed

lemma collect_records_sorted:
  "insert_ok ins \<Longrightarrow> sorted (priorities rs) \<Longrightarrow> sorted (priorities (collect_records ins rs rrs))"
  by (induction ins rs rrs rule: collect_records.induct)
    (simp_all add: mh_dnssrv_add_record_correct(2))

lemma mh_os_dnssrv_lookup_sorted:
  "insert_ok ins \<Longrightarrow> sorted (priorities (mh_os_dnssrv_lookup ins answer))"
  by (simp add: mh_os_dnssrv_lookup_def collect_records_sorted split: option.split)

section \<open>Lemmas: how often a record is drawn\<close>

text \<open>The position of the record that the \<open>for\<close> loop selects.\<close>

fun selected_index :: "u32 \<Rightarrow> mh_dnssrv_record list \<Rightarrow> nat option" where
  "selected_index magic [] = None"
| "selected_index magic (r # rs) =
     (if magic \<le> rec_running r then Some 0 else map_option Suc (selected_index magic rs))"

lemma select_record_index:
  "select_record m rs =
     map_option (\<lambda>i. (rs ! i, take i rs @ drop (Suc i) rs)) (selected_index m rs)"
  by (induction m rs rule: select_record.induct) (auto simp: option.map_comp comp_def split: option.splits)

lemma selected_index_Some:
  "selected_index m rs = Some i \<longleftrightarrow>
     i < length rs \<and> m \<le> rec_running (rs ! i) \<and> (\<forall>j < i. \<not> m \<le> rec_running (rs ! j))"
proof (induction m rs arbitrary: i rule: selected_index.induct)
  case (2 m r rs)
  show ?case
  proof (cases "m \<le> rec_running r")
    case True
    then show ?thesis by (cases i) auto
  next
    case False
    then show ?thesis using "2.IH" by (cases i) (auto simp: less_Suc_eq_0_disj)
  qed
qed simp

lemma total_weight_take_mono: "i \<le> j \<Longrightarrow> total_weight (take i rs) \<le> total_weight (take j rs)"
  by (metis min.absorb1 take_take total_weight_take_le)

lemma selected_index_draw:
  assumes "total_weight rs < 2 ^ 31" "m \<le> total_weight rs" "i < length rs"
  shows "selected_index (of_nat m) (fst (foreach_add_weight rs 0)) = Some i \<longleftrightarrow>
    m \<le> total_weight (take (Suc i) rs) \<and> (0 < i \<longrightarrow> total_weight (take i rs) < m)"
proof -
  have m: "unat (of_nat m :: u32) = m" using assms by (simp add: unat_of_nat_small)
  have run: "(of_nat m :: u32) \<le> rec_running (fst (foreach_add_weight rs 0) ! j) \<longleftrightarrow>
    m \<le> total_weight (take (Suc j) rs)" if "j < length rs" for j
    using that assms(1) m by (simp add: word_le_nat_alt summed_running)
  have "(\<forall>j < i. \<not> m \<le> total_weight (take (Suc j) rs)) \<longleftrightarrow> (0 < i \<longrightarrow> total_weight (take i rs) < m)"
  proof
    assume "\<forall>j < i. \<not> m \<le> total_weight (take (Suc j) rs)"
    then show "0 < i \<longrightarrow> total_weight (take i rs) < m" by (cases i) auto
  next
    assume "0 < i \<longrightarrow> total_weight (take i rs) < m"
    then show "\<forall>j < i. \<not> m \<le> total_weight (take (Suc j) rs)"
      using total_weight_take_mono by (metis Suc_leI dual_order.trans gr_zeroI leD not_less0)
  qed
  then show ?thesis using assms(3) run by (simp add: selected_index_Some)
qed

lemma card_interval: "card {m. (a :: nat) < m \<and> m \<le> b} = b - a"
proof -
  have "{m. a < m \<and> m \<le> b} = {a<..b}" by auto
  then show ?thesis by simp
qed

section \<open>Properties\<close>

text \<open>C3: Sorting the records of an answer always ends, the result holds exactly the records of the
  answer, and their priorities are in ascending order. The generator is only required to stay in the
  range it is asked for, and the weights to have a sum below \<open>2 ^ 31 - 1\<close>, as they do in any answer
  that fits the resolver's packet.\<close>

theorem mh_dnssrv_records_sort_correct:
  assumes "rand_ok rand" "total_weight records < 2 ^ 31 - 1" "sorted (priorities records)"
  shows "\<exists>out g'. mh_dnssrv_records_sort rand g records = Some (out, g')
    \<and> mset (map rec_data out) = mset (map rec_data records) \<and> sorted (priorities out)"
proof -
  obtain out g' where out: "mh_dnssrv_records_sort rand g records = Some (out, g')"
    using records_sort_loop_returns [OF assms(1,2)] unfolding mh_dnssrv_records_sort_def by blast
  show ?thesis
    using out rfc2782.order_mset [OF out] rfc2782.order_sorted [OF out assms(3)] by auto
qed

definition srv_a :: mh_dnssrv_record where
  "srv_a = \<lparr>rec_port = 5672, rec_priority = 10, rec_weight = 3, rec_running = 0, rec_host = ''a.example''\<rparr>"

definition srv_b :: mh_dnssrv_record where
  "srv_b = \<lparr>rec_port = 5673, rec_priority = 20, rec_weight = 0, rec_running = 0, rec_host = ''b.example''\<rparr>"

theorem mh_dnssrv_records_sort_correct_witness:
  "\<exists>out g'. mh_dnssrv_records_sort (\<lambda>g lo hi. (lo, Suc g)) 0 [srv_a, srv_b] = Some (out, g')
    \<and> mset (map rec_data out) = mset (map rec_data [srv_a, srv_b]) \<and> sorted (priorities out)"
  by (rule mh_dnssrv_records_sort_correct) (simp_all add: rand_ok_def srv_a_def srv_b_def)

text \<open>C11: The selection follows RFC 2782: of the numbers \<open>0 .. sum\<close> the generator may draw, exactly
  \<open>weight\<close> many select a given record of the group, and one more selects the first record, so that a
  record of weight 0 at the front still has a chance.\<close>

theorem selection_frequency:
  assumes "total_weight rs < 2 ^ 31" "i < length rs"
  shows "card {m. m \<le> total_weight rs \<and>
      selected_index (of_nat m) (fst (foreach_add_weight rs 0)) = Some i} =
    unat (rec_weight (rs ! i)) + (if i = 0 then 1 else 0)
    \<and> select_record magic rs =
      map_option (\<lambda>i. (rs ! i, take i rs @ drop (Suc i) rs)) (selected_index magic rs)"
proof -
  let ?sel = "{m. m \<le> total_weight rs \<and>
    selected_index (of_nat m) (fst (foreach_add_weight rs 0)) = Some i}"
  have split: "total_weight (take (Suc i) rs) = total_weight (take i rs) + unat (rec_weight (rs ! i))"
    using assms(2) by (simp add: take_Suc_conv_app_nth total_weight_def)
  have sel: "?sel = {m. m \<le> total_weight (take (Suc i) rs) \<and> (0 < i \<longrightarrow> total_weight (take i rs) < m)}"
    using selected_index_draw [OF assms(1) _ assms(2)] total_weight_take_le [of "Suc i" rs]
    by (auto intro: order.trans)
  have "card ?sel = unat (rec_weight (rs ! i)) + (if i = 0 then 1 else 0)"
  proof (cases "i = 0")
    case True
    then show ?thesis using sel split by (simp add: card_Collect_le_nat)
  next
    case False
    then have "?sel = {m. total_weight (take i rs) < m \<and> m \<le> total_weight (take (Suc i) rs)}"
      using sel by auto
    then show ?thesis using False split by (simp add: card_interval)
  qed
  then show ?thesis by (simp add: select_record_index)
qed

theorem selection_frequency_witness:
  "card {m. m \<le> total_weight [srv_b, srv_a] \<and>
     selected_index (of_nat m) (fst (foreach_add_weight [srv_b, srv_a] 0)) = Some 1} = 3"
  using selection_frequency [of "[srv_b, srv_a]" 1] by (simp add: srv_a_def srv_b_def)

text \<open>A lookup for a single broker returns a record of the answer with the lowest priority value:
  its port, and its host name cut to the size of the caller's buffer.\<close>

theorem mh_dnssrv_lookup_single_least:
  assumes "insert_ok ins" "0 < host_len" "host_len \<le> length host"
    and "mh_dnssrv_lookup_single ins resolver rand g query host host_len = Some ((0, buf, port), g')"
  shows "\<exists>r. rec_data r \<in> rec_data ` set (mh_os_dnssrv_lookup ins (resolver query))
    \<and> (\<forall>x \<in> set (mh_os_dnssrv_lookup ins (resolver query)). rec_priority r \<le> rec_priority x)
    \<and> port = Some (rec_port r)
    \<and> (is_cstr (rec_host r) \<longrightarrow> (\<exists>b. buf = Some b \<and> cstr_of b = take (host_len - 1) (rec_host r)))"
proof -
  let ?rs = "mh_os_dnssrv_lookup ins (resolver query)"
  obtain r out where srt: "mh_dnssrv_records_sort rand g ?rs = Some (r # out, g')"
    and buf: "buf = mh_string_copy host (rec_host r) host_len" and port: "port = Some (rec_port r)"
    using assms(4) by (auto simp: mh_dnssrv_lookup_single_def mh_dnssrv_lookup_def
        split: option.splits list.splits)
  have "sorted (priorities ?rs)" by (rule mh_os_dnssrv_lookup_sorted [OF assms(1)])
  note hd = rfc2782.order_hd_least [OF srt this]
  have "?rs \<noteq> []" using rfc2782.order_length [OF srt] by auto
  then have "rec_data r \<in> rec_data ` set ?rs" using hd(2) [of "List.hd ?rs"] by simp
  moreover have "\<forall>x \<in> set ?rs. rec_priority r \<le> rec_priority x"
    using hd(1) by (simp add: word_le_def)
  moreover have "\<exists>b. buf = Some b \<and> cstr_of b = take (host_len - 1) (rec_host r)" if "is_cstr (rec_host r)"
    using buf mh_string_copy_cstr [OF assms(2,3) that] by metis
  ultimately show ?thesis using port by blast
qed

text \<open>An instance of the external functions: insertion before the first element that is not smaller, and
  a generator that always draws the lower end.\<close>

fun ref_insert :: insert_sorted where
  "ref_insert cmp [] x = [x]"
| "ref_insert cmp (y # ys) x = (if cmp x y > 0 then y # ref_insert cmp ys x else x # y # ys)"

lemma ref_insert_mset: "mset (ref_insert cmp xs x) = add_mset x (mset xs)"
  by (induction cmp xs x rule: ref_insert.induct) auto

lemma ref_insert_sorted:
  "sorted (map key xs) \<Longrightarrow> sorted (map key (ref_insert (\<lambda>a b. key a - key b) xs x))" for key :: "_ \<Rightarrow> int"
proof (induction xs)
  case (Cons y ys)
  have "set (ref_insert (\<lambda>a b. key a - key b) ys x) = insert x (set ys)"
    by (metis ref_insert_mset set_mset_add_mset_insert set_mset_mset)
  with Cons show ?case by auto
qed simp

lemma ref_insert_ok: "insert_ok ref_insert"
  by (simp add: insert_ok_def ref_insert_mset ref_insert_sorted)

theorem mh_dnssrv_lookup_single_least_witness:
  "\<exists>r. rec_data r \<in> rec_data ` set (mh_os_dnssrv_lookup ref_insert (1, Some [Some (SrvRR 10 0 5672 ''a'')]))
    \<and> Some 5672 = Some (rec_port r)"
proof -
  let ?resolver = "\<lambda>q :: string. (1 :: int, Some [Some (SrvRR 10 0 5672 ''a'')])"
  have "mh_dnssrv_lookup_single ref_insert ?resolver (\<lambda>g lo hi. (lo, g)) () ''q'' [NUL, NUL] 2 =
    Some ((0, Some [CHR ''a'', NUL], Some 5672), ())"
    by (simp add: mh_dnssrv_lookup_single_def mh_dnssrv_lookup_def mh_dnssrv_records_sort_def
        mh_os_dnssrv_lookup_def mh_dnssrv_add_record_def records_sort_loop.simps apply_weight_sort_def
        weight_sort_loop.simps mh_string_copy_eq)
  from mh_dnssrv_lookup_single_least [OF ref_insert_ok _ _ this] show ?thesis by auto
qed

end
