(* ===== verification/Broker.thy ===== *)
theory Broker
  imports Dnssrv
begin

text \<open>
  \<^verbatim>\<open>src/src/broker\<close>: the wrapper that starts the Qpid broker (\<^verbatim>\<open>broker.c\<close>, \<^verbatim>\<open>broker_linux.c\<close>) and
  federates it with its peers (\<^verbatim>\<open>broker_federation.c\<close>).

  The commands given to \<^verbatim>\<open>system\<close> are collected in a list, in the order they are run; \<open>sys\<close> yields
  the exit value of a command after the commands before it. The environment variables, the results of
  \<^verbatim>\<open>fork\<close> and \<^verbatim>\<open>execvp\<close> and the build configuration are arguments. \<^verbatim>\<open>strtok\<close> is modelled on the
  character buffer it writes into, because \<open>broker_federation_configure\<close> restarts it on that buffer.
\<close>

record build_config =
  MATAHARI_PORT :: u16
  LOCAL_STATE_DIR :: string
  LIB_DIR :: string

section \<open>broker.c\<close>

text \<open>\<open>broker_get_port\<close> with its static variable: the port returned and the variable afterwards.\<close>

definition broker_get_port :: "build_config \<Rightarrow> cptr \<Rightarrow> u16 \<Rightarrow> u16 \<times> u16" where
  "broker_get_port cfg port_env port =
     (let port' =
        (if port = 0
         then (case port_env of
                 None \<Rightarrow> 0
               | Some e \<Rightarrow> (case scan_unsigned e of None \<Rightarrow> 0 | Some v \<Rightarrow> ucast v))
         else port)
      in (if port' \<noteq> 0 then port' else MATAHARI_PORT cfg, port'))"

text \<open>The argument array under construction: its slots (\<open>None\<close> is NULL), and the next index. A write
  behind the last slot is \<open>Inl Overflow\<close>, a failed \<^verbatim>\<open>strdup\<close> makes the function return NULL after it
  has freed the array.\<close>

datatype args_failure = Overflow | ReturnedNull

definition append_arg ::
  "(nat \<Rightarrow> bool) \<Rightarrow> cptr list \<times> nat \<Rightarrow> string \<Rightarrow> args_failure + (cptr list \<times> nat)" where
  "append_arg strdup_ok st newarg =
     (case st of (args, n) \<Rightarrow>
        if \<not> n < length args then Inl Overflow
        else if strdup_ok n then Inr (args[n := Some newarg], Suc n)
        else Inl ReturnedNull)"

fun append_args ::
  "(nat \<Rightarrow> bool) \<Rightarrow> cptr list \<times> nat \<Rightarrow> string list \<Rightarrow> args_failure + (cptr list \<times> nat)" where
  "append_args strdup_ok st [] = Inr st"
| "append_args strdup_ok st (a # as) =
     (case append_arg strdup_ok st a of Inl e \<Rightarrow> Inl e | Inr st' \<Rightarrow> append_args strdup_ok st' as)"

definition port_arg :: "u16 \<Rightarrow> string" where
  "port_arg port = snprintf 13 (''--port='' @ show_nat (unat port))"

definition fixed_args :: "build_config \<Rightarrow> u16 \<Rightarrow> string list" where
  "fixed_args cfg port =
     [port_arg port,
      ''--data-dir='' @ LOCAL_STATE_DIR cfg @ ''/lib/matahari'',
      ''--no-module-dir'',
      ''--load-module='' @ LIB_DIR cfg @ ''/qpid/daemon/ssl.so'']"

definition broker_args ::
  "build_config \<Rightarrow> (nat \<Rightarrow> bool) \<Rightarrow> bool \<Rightarrow> u16 \<Rightarrow> string list \<Rightarrow> args_failure + cptr list" where
  "broker_args cfg strdup_ok malloc_ok port argv =
     (if \<not> malloc_ok then Inl ReturnedNull
      else case append_args strdup_ok (replicate (length argv + 4 + 1) (Some []), 0)
                  (take 1 argv @ fixed_args cfg port @ drop 1 argv) of
             Inl e \<Rightarrow> Inl e
           | Inr (args, n) \<Rightarrow> if n < length args then Inr (args[n := None]) else Inl Overflow)"

section \<open>broker_linux.c\<close>

record mh_qpid_route =
  route_dest :: string
  route_src :: string
  route_exchange :: string
  route_key :: cptr
  route_srclocal :: bool
  route_aggregate :: bool

type_synonym command_result = "string list \<Rightarrow> string \<Rightarrow> int"

definition run_system :: "command_result \<Rightarrow> string \<Rightarrow> string list \<Rightarrow> int \<times> string list" where
  "run_system sys cmd cmds = (sys cmds cmd, cmds @ [cmd])"

definition printf_s :: "cptr \<Rightarrow> string" where
  "printf_s p = (case p of None \<Rightarrow> ''(null)'' | Some s \<Rightarrow> s)"

definition broker_os_add_qpid_route_link ::
  "command_result \<Rightarrow> string \<Rightarrow> string \<Rightarrow> string list \<Rightarrow> int \<times> string list" where
  "broker_os_add_qpid_route_link sys local remote cmds =
     run_system sys
       (snprintf 1024 (''qpid-route link add '' @ local @ '' untrusted/untrusted@'' @ remote @ '' PLAIN''))
       cmds"

definition broker_os_add_qpid_route ::
  "command_result \<Rightarrow> mh_qpid_route \<Rightarrow> string list \<Rightarrow> int \<times> string list" where
  "broker_os_add_qpid_route sys route cmds =
     (let ends = route_dest route @ '' '' @ route_src route @ '' '' @ route_exchange route
      in run_system sys
           (snprintf 1024
             (if route_aggregate route \<and> route_srclocal route
              then ''qpid-route --src-local route add '' @ ends @ '' '' @ printf_s (route_key route)
              else if route_aggregate route
              then ''qpid-route route add '' @ ends @ '' '' @ printf_s (route_key route)
              else ''qpid-route --timeout=5 dynamic add '' @ ends)) cmds)"

section \<open>broker_federation.c\<close>

definition broker_add_route ::
  "command_result \<Rightarrow> string \<Rightarrow> string \<Rightarrow> string \<Rightarrow> cptr \<Rightarrow> bool \<Rightarrow> bool \<Rightarrow> string list \<Rightarrow> int \<times> string list" where
  "broker_add_route sys local remote exchange key srclocal aggregate cmds =
     broker_os_add_qpid_route sys
       \<lparr>route_dest = local, route_src = remote, route_exchange = exchange, route_key = key,
        route_srclocal = srclocal, route_aggregate = aggregate\<rparr> cmds"

text \<open>A chain of calls joined by \<^verbatim>\<open>||\<close>: it stops at the first non-zero result. \<open>True\<close> when one failed.\<close>

fun any_fails :: "(string list \<Rightarrow> int \<times> string list) list \<Rightarrow> string list \<Rightarrow> bool \<times> string list" where
  "any_fails [] cmds = (False, cmds)"
| "any_fails (f # fs) cmds =
     (case f cmds of (ret, cmds') \<Rightarrow> if ret \<noteq> 0 then (True, cmds') else any_fails fs cmds')"

definition broker_federate ::
  "command_result \<Rightarrow> string \<Rightarrow> string \<Rightarrow> bool \<Rightarrow> string list \<Rightarrow> int \<times> string list" where
  "broker_federate sys local remote route_type cmds =
     (case broker_os_add_qpid_route_link sys local remote cmds of (ret, cmds1) \<Rightarrow>
        if ret \<noteq> 0 then (ret, cmds1)
        else case any_fails
               (if route_type
                then [broker_add_route sys local remote ''qmf.default.topic'' (Some ''direct-agent.#'') False True,
                      broker_add_route sys local remote ''qmf.default.topic'' (Some ''console.#'') False True,
                      broker_add_route sys remote local ''qmf.default.topic'' (Some ''direct-console.#'') True True,
                      broker_add_route sys remote local ''qmf.default.topic'' (Some ''agent.#'') True True]
                else [broker_add_route sys remote local ''amq.direct'' None False False,
                      broker_add_route sys local remote ''amq.direct'' None False False,
                      broker_add_route sys remote local ''qmf.default.direct'' None False False,
                      broker_add_route sys local remote ''qmf.default.direct'' None False False,
                      broker_add_route sys remote local ''qmf.default.topic'' None False False,
                      broker_add_route sys local remote ''qmf.default.topic'' None False False]) cmds1
             of (failed, cmds2) \<Rightarrow> (if failed then 1 else 0, cmds2))"

text \<open>The DNS side of a federation: the resolver, the generator of the SRV selection and the list
  insertion.\<close>

record 'g dns =
  dns_insert :: insert_sorted
  dns_resolver :: "string \<Rightarrow> int \<times> ns_rr option list option"
  dns_rand :: "'g random_range"

text \<open>\<open>broker_lookup\<close> (with \<^verbatim>\<open>resolv.h\<close>): the outer option is \<open>None\<close> when the lookup does not return.\<close>

definition broker_lookup :: "'g dns \<Rightarrow> 'g \<Rightarrow> string \<Rightarrow> (cptr \<times> 'g) option" where
  "broker_lookup dns g query =
     (case mh_dnssrv_lookup_single (dns_insert dns) (dns_resolver dns) (dns_rand dns) g query
             (replicate 1024 NUL) 1024 of
        None \<Rightarrow> None
      | Some ((res, host, port), g') \<Rightarrow>
          Some (if res = 0
                then (case (host, port) of
                        (Some h, Some p) \<Rightarrow> Some (snprintf 1031 (cstr_of h @ '':'' @ show_nat (unat p)))
                      | _ \<Rightarrow> None)
                else None, g'))"

definition DNS_SRV_PREFIX_TCP :: string where "DNS_SRV_PREFIX_TCP = ''_matahari._tcp.''"
definition DNS_SRV_PREFIX_TLS :: string where "DNS_SRV_PREFIX_TLS = ''_matahari._tls.''"

definition IS_DNS_SRV :: "string \<Rightarrow> bool" where
  "IS_DNS_SRV addr \<longleftrightarrow>
     strncmp addr DNS_SRV_PREFIX_TCP (length DNS_SRV_PREFIX_TCP) \<or>
     strncmp addr DNS_SRV_PREFIX_TLS (length DNS_SRV_PREFIX_TLS)"

text \<open>\<^verbatim>\<open>strtok\<close> on the buffer \<open>buf\<close> from position \<open>pos\<close>: the token if there is one, the buffer with the
  delimiter behind the token overwritten by NUL, and the position it saves for the next call.\<close>

definition strtok :: "char list \<Rightarrow> char list \<Rightarrow> nat \<Rightarrow> cptr \<times> char list \<times> nat" where
  "strtok delims buf pos =
     (let s = cstr_of (drop pos buf);
          rest = dropWhile (\<lambda>c. c \<in> set delims) s;
          start = pos + (length s - length rest);
          tok = takeWhile (\<lambda>c. c \<notin> set delims) rest;
          stop = start + length tok
      in if rest = [] then (None, buf, start)
         else if length tok = length rest then (Some tok, buf, stop)
         else (Some tok, buf[stop := NUL], Suc stop))"

definition peer_delims :: string where
  "peer_delims = '',; ''"

text \<open>The \<open>while\<close> loop over the peers. \<open>peer\<close> is whether the variable is non-NULL, so whether \<^verbatim>\<open>strtok\<close>
  continues at the saved position or starts again at the beginning of the buffer.\<close>

partial_function (option) peers_loop ::
  "command_result \<Rightarrow> 'g dns \<Rightarrow> string \<Rightarrow> 'g \<Rightarrow> char list \<Rightarrow> nat \<Rightarrow> bool \<Rightarrow> string list
   \<Rightarrow> (string list \<times> 'g) option" where
  "peers_loop sys dns local g peers save peer cmds =
     (let step = strtok peer_delims peers (if peer then save else 0)
      in case fst step of
           None \<Rightarrow> Some (cmds, g)
         | Some tok \<Rightarrow>
             (let peers' = fst (snd step); save' = snd (snd step)
              in if IS_DNS_SRV tok
                 then Option.bind (broker_lookup dns g tok)
                        (\<lambda>r. case fst r of
                               None \<Rightarrow> peers_loop sys dns local (snd r) peers' save' False cmds
                             | Some b \<Rightarrow> peers_loop sys dns local (snd r) peers' save' True
                                          (snd (broker_federate sys local b False cmds)))
                 else peers_loop sys dns local g peers' save' True
                        (snd (broker_federate sys local tok False cmds))))"

record fed_env =
  FEDERATED_BROKERS :: cptr
  VP_G_SERVICE_PORT :: cptr
  VP_G_HOST_DIR :: cptr

text \<open>\<open>broker_federation_configure\<close>: the commands it runs. \<open>is_dir\<close> is \<^verbatim>\<open>g_file_test\<close> on a nullable
  path, \<open>port\<close> the result of \<open>broker_get_port\<close>, \<open>uninit\<close> the initial contents of the peer buffer.\<close>

definition broker_federation_configure ::
  "command_result \<Rightarrow> 'g dns \<Rightarrow> (cptr \<Rightarrow> bool) \<Rightarrow> fed_env \<Rightarrow> u16 \<Rightarrow> char list \<Rightarrow> 'g \<Rightarrow> (string list \<times> 'g) option" where
  "broker_federation_configure sys dns is_dir env port uninit g =
     (let local = snprintf 16 (''localhost:'' @ show_nat (unat port))
      in if is_dir (VP_G_HOST_DIR env)
         then Some (snd (broker_federate sys local
                (snprintf 16 (''localhost:'' @ printf_s (VP_G_SERVICE_PORT env))) True []), g)
         else case FEDERATED_BROKERS env of
                None \<Rightarrow> Some ([], g)
              | Some brokers \<Rightarrow>
                  (case mh_string_copy uninit brokers 1024 of
                     None \<Rightarrow> None
                   | Some peers \<Rightarrow> peers_loop sys dns local g peers 0 False []))"

datatype start_outcome = Exec_qpidd "cptr list" | Exit int

text \<open>\<open>broker_os_start_broker\<close>: what the process that called it does next, and the federation commands
  if it is the child. \<open>exec_errno\<close> is \<open>None\<close> when \<^verbatim>\<open>execvp\<close> succeeds.\<close>

definition broker_os_start_broker ::
  "int \<Rightarrow> int \<Rightarrow> int option \<Rightarrow> (string list \<times> 'g) option \<Rightarrow> cptr list \<Rightarrow> (start_outcome \<times> string list) option" where
  "broker_os_start_broker pid fork_errno exec_errno federation args =
     (if pid < 0 then Some (Exit fork_errno, [])
      else if pid \<noteq> 0
      then (case exec_errno of None \<Rightarrow> Some (Exec_qpidd args, []) | Some e \<Rightarrow> Some (Exit e, []))
      else map_option (\<lambda>f. (Exit 0, fst f)) federation)"

definition broker_main ::
  "build_config \<Rightarrow> cptr \<Rightarrow> (nat \<Rightarrow> bool) \<Rightarrow> bool \<Rightarrow> string list \<Rightarrow> int \<Rightarrow> int \<Rightarrow> int option \<Rightarrow> command_result
   \<Rightarrow> 'g dns \<Rightarrow> (cptr \<Rightarrow> bool) \<Rightarrow> fed_env \<Rightarrow> char list \<Rightarrow> 'g \<Rightarrow> (start_outcome \<times> string list) option" where
  "broker_main cfg port_env strdup_ok malloc_ok argv pid fork_errno exec_errno sys dns is_dir env uninit g =
     (let port = fst (broker_get_port cfg port_env 0)
      in case broker_args cfg strdup_ok malloc_ok port argv of
           Inl e \<Rightarrow> Some (Exit 1, [])
         | Inr args \<Rightarrow> broker_os_start_broker pid fork_errno exec_errno
                         (broker_federation_configure sys dns is_dir env port uninit g) args)"

text \<open>The words of a string between delimiters, and the federation of all of them in order; a service
  name that cannot be resolved is passed over.\<close>

function tokens :: "char set \<Rightarrow> string \<Rightarrow> string list" where
  "tokens d s =
     (let r = dropWhile (\<lambda>c. c \<in> d) s
      in if r = [] then [] else takeWhile (\<lambda>c. c \<notin> d) r # tokens d (dropWhile (\<lambda>c. c \<notin> d) r))"
  by pat_completeness auto
termination
proof (relation "measure (\<lambda>(d, s). length s)", goal_cases)
  case (2 d s r)
  then have "r = dropWhile (\<lambda>c. c \<in> d) s" "r \<noteq> []" by simp_all
  then have "hd r \<notin> d" by (metis hd_dropWhile)
  with \<open>r \<noteq> []\<close> have "length (dropWhile (\<lambda>c. c \<notin> d) r) < length r"
    by (cases r) (auto simp: le_imp_less_Suc length_dropWhile_le)
  moreover have "length r \<le> length s"
    using \<open>r = _\<close> by (simp add: length_dropWhile_le)
  ultimately show ?case by simp
qed simp

declare tokens.simps [simp del]

fun federate_all ::
  "command_result \<Rightarrow> 'g dns \<Rightarrow> string \<Rightarrow> 'g \<Rightarrow> string list \<Rightarrow> string list \<Rightarrow> (string list \<times> 'g) option" where
  "federate_all sys dns local g [] cmds = Some (cmds, g)"
| "federate_all sys dns local g (t # ts) cmds =
     (if IS_DNS_SRV t
      then (case broker_lookup dns g t of
              None \<Rightarrow> None
            | Some (None, g') \<Rightarrow> federate_all sys dns local g' ts cmds
            | Some (Some b, g') \<Rightarrow>
                federate_all sys dns local g' ts (snd (broker_federate sys local b False cmds)))
      else federate_all sys dns local g ts (snd (broker_federate sys local t False cmds)))"

section \<open>Lemmas: the argument array\<close>

lemma append_args_correct:
  "n + length as \<le> length args \<Longrightarrow>
   (case append_args ok (args, n) as of
      Inl e \<Rightarrow> e = ReturnedNull
    | Inr (args', n') \<Rightarrow> n' = n + length as \<and> args' = take n args @ map Some as @ drop (n + length as) args)"
proof (induction as arbitrary: args n)
  case (Cons a as)
  then have n: "n < length args" by simp
  show ?case
  proof (cases "ok n")
    case True
    have "take (Suc n) (args[n := Some a]) = take n args @ [Some a]"
      using n by (simp add: take_Suc_conv_app_nth)
    with True n Cons.IH [of "Suc n" "args[n := Some a]"] Cons.prems show ?thesis
      by (auto simp: append_arg_def split: sum.splits prod.splits)
  next
    case False
    with n show ?thesis by (simp add: append_arg_def)
  qed
qed simp

lemma append_args_all_ok:
  "n + length as \<le> length args \<Longrightarrow> \<forall>k. ok k \<Longrightarrow> \<exists>st. append_args ok (args, n) as = Inr st"
  by (induction as arbitrary: args n) (auto simp: append_arg_def)

lemma broker_args_length: "length (take 1 argv @ fixed_args cfg port @ drop 1 argv) = length argv + 4"
  by (cases argv) (simp_all add: fixed_args_def)

section \<open>Lemmas: strtok and the peer list\<close>

lemma cstr_of_drop_update:
  "stop < length buf \<Longrightarrow> Suc stop \<le> pos \<Longrightarrow> cstr_of (drop pos (buf[stop := NUL])) = cstr_of (drop pos buf)"
  by (simp add: drop_update_cancel)

text \<open>The part of the buffer from \<open>pos\<close> on holds a terminated string.\<close>

definition terminated :: "char list \<Rightarrow> nat \<Rightarrow> bool" where
  "terminated buf pos \<longleftrightarrow> NUL \<in> set (drop pos buf)"

lemma terminated_split:
  assumes "terminated buf pos"
  obtains r where "drop pos buf = cstr_of (drop pos buf) @ NUL # r"
proof -
  have "drop pos buf = cstr_of (drop pos buf) @ dropWhile (\<lambda>c. c \<noteq> NUL) (drop pos buf)"
    by (simp add: cstr_of_def)
  moreover obtain r where "dropWhile (\<lambda>c. c \<noteq> NUL) (drop pos buf) = NUL # r"
    using assms unfolding terminated_def
    by (metis (mono_tags, lifting) dropWhile_eq_Nil_conv hd_dropWhile list.exhaust_sel)
  ultimately show ?thesis using that by metis
qed

lemma terminated_suffix:
  assumes "terminated buf pos" "cstr_of (drop pos buf) = a @ b"
  shows "cstr_of (drop (pos + length a) buf) = b" "terminated buf (pos + length a)"
proof -
  obtain r where r: "drop pos buf = cstr_of (drop pos buf) @ NUL # r"
    by (rule terminated_split [OF assms(1)])
  have ab: "is_cstr (a @ b)" using assms(2) by (metis is_cstr_cstr_of)
  have "drop (pos + length a) buf = drop (length a) (drop pos buf)" by (simp add: add.commute)
  also have "\<dots> = b @ NUL # r" using r assms(2) by simp
  finally have d: "drop (pos + length a) buf = b @ NUL # r" .
  with ab show "cstr_of (drop (pos + length a) buf) = b" by simp
  from d show "terminated buf (pos + length a)" by (simp add: terminated_def)
qed

lemma tokens_lead:
  assumes "\<forall>c\<in>set lead. c \<in> d" "tok \<noteq> []" "\<forall>c\<in>set tok. c \<notin> d" "rest = [] \<or> hd rest \<in> d"
  shows "tokens d (lead @ tok @ rest) = tok # tokens d rest"
proof -
  have dw: "dropWhile (\<lambda>c. c \<in> d) (lead @ tok @ rest) = tok @ rest"
    using assms(1-3) by (cases tok) (auto simp: dropWhile_append)
  have tw: "takeWhile (\<lambda>c. c \<notin> d) (tok @ rest) = tok" "dropWhile (\<lambda>c. c \<notin> d) (tok @ rest) = rest"
    using assms(3,4) by (cases rest; simp add: takeWhile_append dropWhile_append takeWhile_eq_all_conv)+
  show ?thesis by (subst tokens.simps) (simp add: dw tw assms(2) Let_def)
qed

lemma tokens_skip: "c \<in> d \<Longrightarrow> tokens d (c # s) = tokens d s"
  by (subst (1 2) tokens.simps) simp

lemma tokens_Nil_conv: "tokens d s = [] \<longleftrightarrow> (\<forall>c\<in>set s. c \<in> d)"
  by (subst tokens.simps) (simp add: Let_def)

text \<open>The parts of a string with at least one token: delimiters, the token, and a rest that is empty or
  begins with a delimiter.\<close>

lemma tokens_Cons_split:
  assumes "tokens d s = t # ts"
  obtains lead rest where "s = lead @ t @ rest" "\<forall>c\<in>set lead. c \<in> d" "t \<noteq> []" "\<forall>c\<in>set t. c \<notin> d"
    "rest = [] \<or> hd rest \<in> d" "ts = tokens d rest"
proof -
  let ?r = "dropWhile (\<lambda>c. c \<in> d) s"
  have ne: "?r \<noteq> []" and t: "t = takeWhile (\<lambda>c. c \<notin> d) ?r" and ts: "ts = tokens d (dropWhile (\<lambda>c. c \<notin> d) ?r)"
    using assms by (subst (asm) tokens.simps, simp add: Let_def split: if_splits)+
  have "hd ?r \<notin> d" using ne by (metis hd_dropWhile)
  with ne have "t \<noteq> []" unfolding t by (cases ?r) auto
  moreover have "s = takeWhile (\<lambda>c. c \<in> d) s @ t @ dropWhile (\<lambda>c. c \<notin> d) ?r"
    unfolding t by simp
  moreover have "\<forall>c\<in>set (takeWhile (\<lambda>c. c \<in> d) s). c \<in> d" "\<forall>c\<in>set t. c \<notin> d"
    unfolding t by (auto dest: set_takeWhileD)
  moreover have "dropWhile (\<lambda>c. c \<notin> d) ?r = [] \<or> hd (dropWhile (\<lambda>c. c \<notin> d) ?r) \<in> d"
    using hd_dropWhile by blast
  ultimately show ?thesis using that ts by blast
qed

lemma strtok_eq:
  assumes "cstr_of (drop pos buf) = lead @ tok @ rest" "\<forall>c\<in>set lead. c \<in> set delims" "tok \<noteq> []"
    "\<forall>c\<in>set tok. c \<notin> set delims" "rest = [] \<or> hd rest \<in> set delims"
  shows "strtok delims buf pos =
    (let stop = pos + length lead + length tok
     in if rest = [] then (Some tok, buf, stop) else (Some tok, buf[stop := NUL], Suc stop))"
proof -
  have dw: "dropWhile (\<lambda>c. c \<in> set delims) (lead @ tok @ rest) = tok @ rest"
    using assms(2-4) by (cases tok) (auto simp: dropWhile_append)
  have tw: "takeWhile (\<lambda>c. c \<notin> set delims) (tok @ rest) = tok"
    using assms(4,5) by (cases rest; simp add: takeWhile_append takeWhile_eq_all_conv)
  show ?thesis unfolding strtok_def Let_def assms(1) dw tw using assms(3) by simp
qed

lemma strtok_None:
  "tokens (set delims) (cstr_of (drop pos buf)) = [] \<Longrightarrow> fst (strtok delims buf pos) = None"
  by (simp add: tokens_Nil_conv strtok_def Let_def)

text \<open>One call takes the first token and leaves the others; the buffer read again from \<open>pos\<close> still
  begins with the same token, and holds no other when a delimiter was overwritten.\<close>

lemma strtok_Some:
  assumes "terminated buf pos" "NUL \<notin> set delims" "tokens (set delims) (cstr_of (drop pos buf)) = t # ts"
  obtains buf' save where "strtok delims buf pos = (Some t, buf', save)"
    "terminated buf' save" "tokens (set delims) (cstr_of (drop save buf')) = ts"
    "terminated buf' pos" "tokens (set delims) (cstr_of (drop pos buf')) = [t]"
proof -
  let ?s = "cstr_of (drop pos buf)"
  obtain lead rest where s: "?s = lead @ t @ rest" and p: "\<forall>c\<in>set lead. c \<in> set delims" "t \<noteq> []"
    "\<forall>c\<in>set t. c \<notin> set delims" "rest = [] \<or> hd rest \<in> set delims" and ts: "ts = tokens (set delims) rest"
    by (rule tokens_Cons_split [OF assms(3)])
  let ?stop = "pos + length lead + length t"
  note eq = strtok_eq [OF s p]
  have suf: "cstr_of (drop ?stop buf) = rest" "terminated buf ?stop"
    using terminated_suffix [OF assms(1), of "lead @ t" rest] s by (simp_all add: add.assoc)
  show ?thesis
  proof (cases rest)
    case Nil
    have "tokens (set delims) ?s = [t]"
      using tokens_lead [OF p] s Nil by (simp add: tokens_Nil_conv)
    with eq Nil suf ts assms(1) that [of buf ?stop] show ?thesis by (simp add: tokens_Nil_conv)
  next
    case (Cons c r)
    have c: "c \<in> set delims" using p(4) Cons by simp
    obtain b where b: "drop pos buf = ?s @ NUL # b" by (rule terminated_split [OF assms(1)])
    have pos: "pos < length buf" using b by (cases "pos < length buf") auto
    have len: "?stop < length buf"
      using arg_cong [OF b, of length] s Cons by simp
    have d1: "cstr_of (drop (Suc ?stop) buf) = r" "terminated buf (Suc ?stop)"
      using terminated_suffix [OF suf(2), of "[c]" r] suf(1) Cons by simp_all
    have d2: "cstr_of (drop (Suc ?stop) (buf[?stop := NUL])) = r" "terminated (buf[?stop := NUL]) (Suc ?stop)"
      using d1 len by (simp_all add: terminated_def)
    have "drop pos (buf[?stop := NUL]) = (lead @ t @ c # r @ NUL # b)[length (lead @ t) := NUL]"
      using b s Cons pos by (simp add: drop_update_swap)
    also have "\<dots> = (lead @ t) @ NUL # r @ NUL # b"
      using list_update_length [of "lead @ t" c "r @ NUL # b" NUL] by simp
    finally have d3: "drop pos (buf[?stop := NUL]) = (lead @ t) @ NUL # r @ NUL # b" .
    have "is_cstr (lead @ t)" using s is_cstr_cstr_of [of "drop pos buf"] by simp
    then have d4: "cstr_of (drop pos (buf[?stop := NUL])) = lead @ t @ []"
      by (subst d3) (subst cstr_of_append_NUL, simp_all)
    have "tokens (set delims) (lead @ t @ []) = [t]"
      using tokens_lead [OF p(1-3), of "[]"] by (simp add: tokens_Nil_conv)
    moreover have "terminated (buf[?stop := NUL]) pos" unfolding terminated_def d3 by simp
    ultimately show ?thesis
      using that [of "buf[?stop := NUL]" "Suc ?stop"] eq Cons d2 d4 ts c
      by (simp add: Let_def tokens_skip del: append_Nil2)
  qed
qed

definition srv_resolves :: "'g dns \<Rightarrow> string \<Rightarrow> bool" where
  "srv_resolves dns t \<longleftrightarrow> (\<forall>g. \<exists>b g'. broker_lookup dns g t = Some (Some b, g'))"

lemma NUL_peer_delims: "NUL \<notin> set peer_delims"
  by (simp add: peer_delims_def NUL_def)

lemma peers_loop_federates:
  assumes "terminated buf pos" "tokens (set peer_delims) (cstr_of (drop pos buf)) = ts"
    "\<forall>t\<in>set ts. IS_DNS_SRV t \<longrightarrow> srv_resolves dns t" "peer \<or> pos = 0"
  shows "peers_loop sys dns local g buf pos peer cmds = federate_all sys dns local g ts cmds"
  using assms
proof (induction ts arbitrary: buf pos peer g cmds)
  case Nil
  then have "fst (strtok peer_delims buf (if peer then pos else 0)) = None"
    using strtok_None by (cases peer) auto
  then show ?case by (subst peers_loop.simps) simp
next
  case (Cons t ts)
  obtain buf' save where st: "strtok peer_delims buf pos = (Some t, buf', save)" and
    nx: "terminated buf' save" "tokens (set peer_delims) (cstr_of (drop save buf')) = ts"
    by (rule strtok_Some [OF Cons.prems(1) NUL_peer_delims Cons.prems(2)])
  have pos: "(if peer then pos else 0) = pos" using Cons.prems(4) by auto
  have IH: "peers_loop sys dns local g' buf' save True cmds' = federate_all sys dns local g' ts cmds'" for g' cmds'
    using Cons.IH [OF nx] Cons.prems(3) by simp
  show ?case
  proof (cases "IS_DNS_SRV t")
    case True
    then obtain b g' where "broker_lookup dns g t = Some (Some b, g')"
      using Cons.prems(3) by (fastforce simp: srv_resolves_def)
    with True IH show ?thesis by (subst peers_loop.simps) (simp add: pos st Let_def)
  next
    case False
    with IH show ?thesis by (subst peers_loop.simps) (simp add: pos st Let_def)
  qed
qed

lemma broker_lookup_fails:
  assumes "fst (dns_resolver dns t) \<le> 0"
  shows "broker_lookup dns g t = Some (None, g)"
  using assms
  by (simp add: broker_lookup_def mh_dnssrv_lookup_single_def mh_dnssrv_lookup_def mh_os_dnssrv_lookup_def
      mh_dnssrv_records_sort_def records_sort_loop.simps)

lemma peers_loop_diverges:
  assumes "terminated buf 0" "tokens (set peer_delims) (cstr_of buf) = t # ts" "IS_DNS_SRV t"
    "fst (dns_resolver dns t) \<le> 0"
  shows "peers_loop sys dns local g buf save False cmds = None"
proof (rule ccontr)
  let ?P = "\<lambda>sys (dns :: 'a dns) local (g :: 'a) buf save peer cmds (r :: string list \<times> 'a).
    \<not> (\<not> peer \<and> terminated buf 0 \<and> (\<exists>ts. tokens (set peer_delims) (cstr_of buf) = t # ts) \<and>
       fst (dns_resolver dns t) \<le> 0)"
  assume "peers_loop sys dns local g buf save False cmds \<noteq> None"
  then obtain r where r: "peers_loop sys dns local g buf save False cmds = Some r" by blast
  have "?P sys dns local g buf save False cmds r"
  proof (rule peers_loop.raw_induct [where P = ?P, OF _ r], rule notI, elim conjE exE, goal_cases)
    case (1 loop sys dns local g buf save peer cmds r ts)
    from 1(6) have tk: "tokens (set peer_delims) (cstr_of (drop 0 buf)) = t # ts" by simp
    obtain buf' save' where st: "strtok peer_delims buf 0 = (Some t, buf', save')" and
      nx: "terminated buf' 0" "tokens (set peer_delims) (cstr_of (drop 0 buf')) = [t]"
      by (rule strtok_Some [OF \<open>terminated buf 0\<close> NUL_peer_delims tk])
    have "loop sys dns local g buf' save' False cmds = Some r"
      using 1(2,3) assms(3) by (simp add: st Let_def broker_lookup_fails [OF 1(5)])
    from 1(1) [OF this] nx 1 show False by simp
  qed
  with assms show False by simp
qed

lemma length_show_u16: "length (show_nat (unat (port :: u16))) \<le> 5"
proof -
  have "unat port < 2 ^ 16" using unsigned_less [of port, where 'a = nat] by simp
  then show ?thesis using length_show_nat [of "unat port" 5] by simp
qed

lemma port_arg_fits: "port_arg port = ''--port='' @ show_nat (unat port)"
  using length_show_u16 [of port] by (simp add: port_arg_def)

lemma fixed_args_eq:
  "fixed_args cfg port =
     [''--port='' @ show_nat (unat port), ''--data-dir='' @ LOCAL_STATE_DIR cfg @ ''/lib/matahari'',
      ''--no-module-dir'', ''--load-module='' @ LIB_DIR cfg @ ''/qpid/daemon/ssl.so'']"
  by (simp only: fixed_args_def port_arg_fits)

lemma local_fits: "snprintf 16 (''localhost:'' @ show_nat (unat port)) = ''localhost:'' @ show_nat (unat port)"
  for port :: u16
  using length_show_u16 [of port] by simp

lemma peers_copied:
  assumes "is_cstr brokers" "length uninit = 1024"
  obtains peers where "mh_string_copy uninit brokers 1024 = Some peers"
    "cstr_of peers = take 1023 brokers" "terminated peers 0"
  using assms by (simp add: mh_string_copy_eq terminated_def)

lemma broker_args_shape:
  "broker_args cfg ok mok port argv = Inl ReturnedNull \<or>
   broker_args cfg ok mok port argv = Inr (map Some (take 1 argv @ fixed_args cfg port @ drop 1 argv) @ [None])"
  "mok \<Longrightarrow> \<forall>k. ok k \<Longrightarrow> broker_args cfg ok mok port argv \<noteq> Inl ReturnedNull"
proof -
  let ?as = "take 1 argv @ fixed_args cfg port @ drop 1 argv"
  let ?init = "replicate (length argv + 4 + 1) (Some [])"
  have fit: "0 + length ?as \<le> length ?init" by (simp only: broker_args_length) simp
  note post = append_args_correct [OF fit, of ok]
  have last: "drop (0 + length ?as) ?init = [Some []]"
    by (simp only: broker_args_length) simp
  have fin: "broker_args cfg ok mok port argv = Inr (map Some ?as @ [None])"
    if "append_args ok (?init, 0) ?as = Inr st" "mok" for st
  proof -
    have "st = (map Some ?as @ [Some []], length ?as)" using post last that by auto
    moreover have "(map Some ?as @ [Some []])[length ?as := None] = map Some ?as @ [None]"
      using list_update_length [of "map Some ?as" "Some []" "[]" None] by simp
    ultimately show ?thesis using that by (simp add: broker_args_def)
  qed
  show "broker_args cfg ok mok port argv = Inl ReturnedNull \<or>
     broker_args cfg ok mok port argv = Inr (map Some ?as @ [None])"
  proof (cases "append_args ok (?init, 0) ?as")
    case (Inl e)
    with post show ?thesis by (simp add: broker_args_def)
  next
    case (Inr st)
    with fin show ?thesis by (cases mok) (simp_all add: broker_args_def)
  qed
  show "broker_args cfg ok mok port argv \<noteq> Inl ReturnedNull" if "mok" "\<forall>k. ok k"
    using append_args_all_ok [OF fit that(2)] fin that(1) by fastforce
qed

section \<open>Properties\<close>

text \<open>C38: \<open>broker_args\<close> never writes behind its array; when it succeeds the array holds the program
  name, the four fixed options (the port unshortened in its 13-byte buffer), the other arguments in
  order and the terminating NULL; and it succeeds when memory is available.\<close>

theorem broker_args_correct:
  "broker_args cfg ok mok port argv \<noteq> Inl Overflow \<and>
   (\<forall>args. broker_args cfg ok mok port argv = Inr args \<longrightarrow>
      args = map Some (take 1 argv @
        [''--port='' @ show_nat (unat port), ''--data-dir='' @ LOCAL_STATE_DIR cfg @ ''/lib/matahari'',
         ''--no-module-dir'', ''--load-module='' @ LIB_DIR cfg @ ''/qpid/daemon/ssl.so'']
        @ drop 1 argv) @ [None]) \<and>
   (mok \<and> (\<forall>k. ok k) \<longrightarrow> (\<exists>args. broker_args cfg ok mok port argv = Inr args))"
  unfolding fixed_args_eq [symmetric]
  using broker_args_shape(1) [of cfg ok mok port argv] broker_args_shape(2) [of mok ok cfg port argv]
  by (metis args_failure.distinct(1) sum.distinct(1) sum.inject)

theorem broker_args_correct_witness:
  "broker_args \<lparr>MATAHARI_PORT = 49000, LOCAL_STATE_DIR = ''/v'', LIB_DIR = ''/l''\<rparr>
     (\<lambda>k. True) True 80 [''qpidd'', ''-d''] =
   Inr [Some ''qpidd'', Some ''--port=80'', Some ''--data-dir=/v/lib/matahari'', Some ''--no-module-dir'',
        Some ''--load-module=/l/qpid/daemon/ssl.so'', Some ''-d'', None]"
proof -
  let ?cfg = "\<lparr>MATAHARI_PORT = 49000, LOCAL_STATE_DIR = ''/v'', LIB_DIR = ''/l''\<rparr>"
  note all = broker_args_correct [of ?cfg "\<lambda>k. True" True 80 "[''qpidd'', ''-d'']"]
  have "\<exists>args. broker_args ?cfg (\<lambda>k. True) True 80 [''qpidd'', ''-d''] = Inr args"
    by (rule mp [OF conjunct2 [OF conjunct2 [OF all]]]) simp
  then obtain args where a: "broker_args ?cfg (\<lambda>k. True) True 80 [''qpidd'', ''-d''] = Inr args"
    by (rule exE)
  have port: "show_nat 80 = ''80''" by code_simp
  have "map Some (take 1 [''qpidd'', ''-d''] @
      [''--port='' @ show_nat (unat (80 :: u16)), ''--data-dir='' @ LOCAL_STATE_DIR ?cfg @ ''/lib/matahari'',
       ''--no-module-dir'', ''--load-module='' @ LIB_DIR ?cfg @ ''/qpid/daemon/ssl.so''] @ drop 1 [''qpidd'', ''-d'']) @ [None]
    = [Some ''qpidd'', Some ''--port=80'', Some ''--data-dir=/v/lib/matahari'', Some ''--no-module-dir'',
       Some ''--load-module=/l/qpid/daemon/ssl.so'', Some ''-d'', None]"
    by (simp add: port)
  with conjunct1 [OF conjunct2 [OF all], rule_format, OF a] show ?thesis unfolding a by (simp only:)
qed

text \<open>The brokers that the peers of a list stand for: a service name stands for an answer of the resolver to it.\<close>

definition peer_broker :: "'g dns \<Rightarrow> string \<Rightarrow> string \<Rightarrow> bool" where
  "peer_broker dns t b \<longleftrightarrow> (if IS_DNS_SRV t then \<exists>g g'. broker_lookup dns g t = Some (Some b, g') else b = t)"

lemma federate_all_returns:
  assumes "\<forall>t\<in>set ts. IS_DNS_SRV t \<longrightarrow> srv_resolves dns t"
  shows "\<exists>bs g'. list_all2 (peer_broker dns) ts bs \<and>
    federate_all sys dns local g ts cmds = Some (fold (\<lambda>b cmds. snd (broker_federate sys local b False cmds)) bs cmds, g')"
  using assms
proof (induction ts arbitrary: g cmds)
  case (Cons t ts)
  obtain b g1 where b: "peer_broker dns t b"
    "federate_all sys dns local g (t # ts) cmds = federate_all sys dns local g1 ts (snd (broker_federate sys local b False cmds))"
  proof (cases "IS_DNS_SRV t")
    case True
    then obtain b g1 where "broker_lookup dns g t = Some (Some b, g1)" using Cons.prems by (fastforce simp: srv_resolves_def)
    then show ?thesis using that True by (fastforce simp: peer_broker_def)
  qed (use that in \<open>simp add: peer_broker_def\<close>)
  obtain bs g' where "list_all2 (peer_broker dns) ts bs"
    "federate_all sys dns local g1 ts (snd (broker_federate sys local b False cmds)) =
      Some (fold (\<lambda>b cmds. snd (broker_federate sys local b False cmds)) bs (snd (broker_federate sys local b False cmds)), g')"
    using Cons.IH Cons.prems by force
  then show ?case using b by (intro exI [of _ "b # bs"] exI [of _ g']) simp
qed simp

text \<open>C28: With a peer list in the environment whose service names all resolve, and without a directory of a
  virtual proxy (which would be federated with instead), the federation returns, and it has run the
  commands for the broker of every peer of the list (cut to the 1023 characters of its buffer), each once and in the
  order of the list; the broker of a service name is an answer of the resolver to this name.\<close>

theorem broker_federation_all_peers:
  assumes "\<not> is_dir (VP_G_HOST_DIR env)" "FEDERATED_BROKERS env = Some brokers" "is_cstr brokers"
    "length uninit = 1024"
    "\<forall>t\<in>set (tokens (set peer_delims) (take 1023 brokers)). IS_DNS_SRV t \<longrightarrow> srv_resolves dns t"
  shows "\<exists>bs g'. list_all2 (peer_broker dns) (tokens (set peer_delims) (take 1023 brokers)) bs \<and>
    broker_federation_configure sys dns is_dir env port uninit g =
      Some (fold (\<lambda>b cmds. snd (broker_federate sys (''localhost:'' @ show_nat (unat port)) b False cmds)) bs [], g')"
proof -
  obtain peers where p: "mh_string_copy uninit brokers 1024 = Some peers" "cstr_of peers = take 1023 brokers"
      "terminated peers 0"
    by (rule peers_copied [OF assms(3,4)])
  then have "broker_federation_configure sys dns is_dir env port uninit g =
    federate_all sys dns (''localhost:'' @ show_nat (unat port)) g (tokens (set peer_delims) (take 1023 brokers)) []"
    using assms peers_loop_federates [OF p(3), of "tokens (set peer_delims) (take 1023 brokers)"]
    by (simp add: broker_federation_configure_def local_fits del: append.simps)
  then show ?thesis
    using federate_all_returns [OF assms(5), of sys "''localhost:'' @ show_nat (unat port)" g "[]"] by simp
qed

definition one_record_dns :: "unit dns" where
  "one_record_dns = \<lparr>dns_insert = ref_insert, dns_resolver = (\<lambda>q. (1, Some [Some (SrvRR 10 0 80 ''a'')])),
     dns_rand = (\<lambda>g lo hi. (lo, g))\<rparr>"

lemma one_record_dns_lookup: "broker_lookup one_record_dns g t = Some (Some ''a:80'', g)"
proof -
  have "show_nat 80 = ''80''" by code_simp
  then show ?thesis
    by (simp add: broker_lookup_def one_record_dns_def mh_dnssrv_lookup_single_def mh_dnssrv_lookup_def
        mh_dnssrv_records_sort_def mh_os_dnssrv_lookup_def mh_dnssrv_add_record_def records_sort_loop.simps
        apply_weight_sort_def weight_sort_loop.simps mh_string_copy_eq NUL_def cstr_of_def)
qed

theorem broker_federation_all_peers_witness:
  "broker_federation_configure (\<lambda>cmds c. 1) one_record_dns (\<lambda>p. False)
     \<lparr>FEDERATED_BROKERS = Some '';h1, _matahari._tcp.x'', VP_G_SERVICE_PORT = None, VP_G_HOST_DIR = None\<rparr>
     80 (replicate 1024 NUL) () =
   Some ([''qpid-route link add localhost:80 untrusted/untrusted@h1 PLAIN'',
          ''qpid-route link add localhost:80 untrusted/untrusted@a:80 PLAIN''], ())"
proof -
  let ?env = "\<lparr>FEDERATED_BROKERS = Some '';h1, _matahari._tcp.x'', VP_G_SERVICE_PORT = None,
    VP_G_HOST_DIR = None\<rparr>"
  have tk: "tokens (set peer_delims) (take 1023 '';h1, _matahari._tcp.x'') = [''h1'', ''_matahari._tcp.x'']"
    by code_simp
  have srv: "IS_DNS_SRV ''_matahari._tcp.x''" "\<not> IS_DNS_SRV ''h1''" by code_simp+
  have "is_cstr '';h1, _matahari._tcp.x''" by code_simp
  then obtain bs g' where "list_all2 (peer_broker one_record_dns) [''h1'', ''_matahari._tcp.x''] bs"
    "broker_federation_configure (\<lambda>cmds c. 1) one_record_dns (\<lambda>p. False) ?env 80 (replicate 1024 NUL) () =
      Some (fold (\<lambda>b cmds. snd (broker_federate (\<lambda>cmds c. 1) (''localhost:'' @ show_nat (unat (80 :: u16))) b False cmds)) bs [], g')"
    using broker_federation_all_peers [of "\<lambda>p. False" ?env "'';h1, _matahari._tcp.x''" "replicate 1024 NUL" one_record_dns
        "\<lambda>cmds c. 1" 80 "()", unfolded tk] by (auto simp: srv_resolves_def one_record_dns_lookup)
  moreover from this(1) have "bs = [''h1'', ''a:80'']"
    by (auto simp: list_all2_Cons1 peer_broker_def srv one_record_dns_lookup)
  moreover have "show_nat 80 = ''80''" by code_simp
  ultimately show ?thesis
    by (simp add: broker_federate_def broker_os_add_qpid_route_link_def run_system_def)
qed

text \<open>When the first peer of the list is a service name for which the resolver has no answer, the
  federation never returns: the loop starts the tokenizer again at the beginning of the list.\<close>

theorem broker_federation_unresolved_loops:
  assumes "\<not> is_dir (VP_G_HOST_DIR env)" "FEDERATED_BROKERS env = Some brokers" "is_cstr brokers"
    "length uninit = 1024"
    "tokens (set peer_delims) (take 1023 brokers) = t # ts" "IS_DNS_SRV t" "fst (dns_resolver dns t) \<le> 0"
  shows "broker_federation_configure sys dns is_dir env port uninit g = None"
proof -
  obtain peers where p: "mh_string_copy uninit brokers 1024 = Some peers" "cstr_of peers = take 1023 brokers"
      "terminated peers 0"
    by (rule peers_copied [OF assms(3,4)])
  have "tokens (set peer_delims) (cstr_of peers) = t # ts" by (simp add: p(2) assms(5))
  from peers_loop_diverges [OF p(3) this assms(6,7)] show ?thesis
    by (simp add: broker_federation_configure_def assms(1,2) p(1) Let_def)
qed

theorem broker_federation_unresolved_loops_witness:
  "broker_federation_configure (\<lambda>cmds c. 0)
     \<lparr>dns_insert = ref_insert, dns_resolver = (\<lambda>q. (- 1, None)), dns_rand = (\<lambda>g lo hi. (lo, g))\<rparr> (\<lambda>p. False)
     \<lparr>FEDERATED_BROKERS = Some ''_matahari._tcp.x,h1'', VP_G_SERVICE_PORT = None, VP_G_HOST_DIR = None\<rparr>
     49000 (replicate 1024 NUL) () = None"
proof (rule broker_federation_unresolved_loops)
  show "tokens (set peer_delims) (take 1023 ''_matahari._tcp.x,h1'') = [''_matahari._tcp.x'', ''h1'']"
    by code_simp
  show "IS_DNS_SRV ''_matahari._tcp.x''" by code_simp
  show "is_cstr ''_matahari._tcp.x,h1''" by code_simp
qed simp_all

end
