(* ===== verification/Mainloop.thy ===== *)
theory Mainloop
  imports Utilities
begin

text \<open>
  \<^verbatim>\<open>src/src/lib/mainloop.c\<close> and \<^verbatim>\<open>mainloop.h\<close>: triggers, signal handlers, file descriptor sources and
  the table of tracked child processes, on top of the GLib main loop.

  The GLib main context is the map \<open>ml_sources\<close> from the identifiers of the attached sources to what
  they are. Which identifier \<^verbatim>\<open>g_source_attach\<close> and \<^verbatim>\<open>g_timeout_add\<close> return is the argument \<open>new_id\<close>;
  \<open>fresh_id\<close> states the documentation: it is greater than 0 and not in use. Function pointers and
  private data are numbers of type \<open>nat\<close>. The results of the system calls (\<^verbatim>\<open>sigaction\<close>, \<^verbatim>\<open>kill\<close>,
  \<^verbatim>\<open>wait3\<close>) are arguments. \<open>child_death_dispatch\<close> is a loop that need not end, hence a partial
  function; its callback is an argument that may change the whole state.

  The state record can be extended, so the operations are stated for every extension of it.
\<close>

section \<open>Data\<close>

datatype src =
    ChildTimer u32 int
  | RepeatTimer u32 nat
  | TriggerSource int
  | FdSource int int
  | QmfSource int
  | HeartbeatTimer u32

record mainloop_child =
  ch_pid :: int
  ch_desc :: string
  ch_timerid :: nat
  ch_timeout :: bool
  ch_privatedata :: "nat option"
  ch_callback :: nat

record trigger =
  trig_trigger :: bool
  trig_user_data :: "nat option"
  trig_id :: nat
  trig_dispatch :: "nat option"

record signal_entry =
  sig_trigger :: trigger
  sig_handler :: "nat option"
  sig_signal :: int

text \<open>\<open>process_table\<close> is \<open>None\<close> while the static variable is NULL; \<open>installed\<close> is the set of signals whose
  disposition is \<open>mainloop_signal_handler\<close>.\<close>

record mainloop =
  process_table :: "(int \<rightharpoonup> mainloop_child) option"
  mainloop_signals :: "signal_entry option list"
  ml_sources :: "nat \<rightharpoonup> src"
  installed :: "int set"

definition NSIG :: int where "NSIG = 65"
definition SIGTERM :: int where "SIGTERM = 15"
definition SIGCHLD :: int where "SIGCHLD = 17"
definition SIGKILL :: int where "SIGKILL = 9"
definition ESRCH :: int where "ESRCH = 3"
definition ECHILD :: int where "ECHILD = 10"
definition EAGAIN :: int where "EAGAIN = 11"
definition G_PRIORITY_HIGH :: int where "G_PRIORITY_HIGH = - 100"
definition G_PRIORITY_LOW :: int where "G_PRIORITY_LOW = 300"

type_synonym id_source = "(nat \<rightharpoonup> src) \<Rightarrow> nat"

definition fresh_id :: "id_source \<Rightarrow> bool" where
  "fresh_id new_id \<longleftrightarrow> (\<forall>m. finite (dom m) \<longrightarrow> 0 < new_id m \<and> m (new_id m) = None)"

definition attach :: "id_source \<Rightarrow> src \<Rightarrow> 's mainloop_scheme \<Rightarrow> nat \<times> 's mainloop_scheme" where
  "attach new_id x s =
     (let i = new_id (ml_sources s) in (i, s\<lparr>ml_sources := (ml_sources s)(i \<mapsto> x)\<rparr>))"

definition g_source_remove :: "nat \<Rightarrow> 's mainloop_scheme \<Rightarrow> 's mainloop_scheme" where
  "g_source_remove i s = s\<lparr>ml_sources := (ml_sources s)(i := None)\<rparr>"

section \<open>Triggers\<close>

definition mainloop_trigger_prepare :: "trigger \<Rightarrow> bool" where
  "mainloop_trigger_prepare trig = trig_trigger trig"

definition mainloop_trigger_check :: "trigger \<Rightarrow> bool" where
  "mainloop_trigger_check trig = trig_trigger trig"

text \<open>\<open>call\<close> runs the callback on its user data.\<close>

definition mainloop_trigger_dispatch ::
  "(nat \<Rightarrow> nat option \<Rightarrow> bool) \<Rightarrow> trigger \<Rightarrow> bool \<times> trigger" where
  "mainloop_trigger_dispatch call trig =
     (let trig' = trig\<lparr>trig_trigger := False\<rparr>
      in (case trig_dispatch trig of None \<Rightarrow> True | Some cb \<Rightarrow> call cb (trig_user_data trig), trig'))"

definition mainloop_setup_trigger ::
  "id_source \<Rightarrow> int \<Rightarrow> nat option \<Rightarrow> nat option \<Rightarrow> 's mainloop_scheme \<Rightarrow> trigger \<times> 's mainloop_scheme" where
  "mainloop_setup_trigger new_id priority dispatch userdata s =
     (case attach new_id (TriggerSource priority) s of (i, s') \<Rightarrow>
        (\<lparr>trig_trigger = False, trig_user_data = userdata, trig_id = i, trig_dispatch = dispatch\<rparr>, s'))"

definition mainloop_add_trigger ::
  "id_source \<Rightarrow> int \<Rightarrow> nat option \<Rightarrow> nat option \<Rightarrow> 's mainloop_scheme \<Rightarrow> trigger \<times> 's mainloop_scheme" where
  "mainloop_add_trigger new_id priority dispatch userdata s =
     mainloop_setup_trigger new_id priority dispatch userdata s"

definition mainloop_set_trigger :: "trigger \<Rightarrow> trigger" where
  "mainloop_set_trigger trig = trig\<lparr>trig_trigger := True\<rparr>"

definition mainloop_destroy_trigger :: "trigger \<Rightarrow> 's mainloop_scheme \<Rightarrow> bool \<times> 's mainloop_scheme" where
  "mainloop_destroy_trigger trig s =
     (True, if 0 < trig_id trig then g_source_remove (trig_id trig) s else s)"

section \<open>Signals\<close>

text \<open>The handler installed for a signal only sets the trigger of its entry.\<close>

definition mainloop_signal_handler :: "int \<Rightarrow> 's mainloop_scheme \<Rightarrow> 's mainloop_scheme" where
  "mainloop_signal_handler sig s =
     (if 0 < sig \<and> sig < NSIG
      then case mainloop_signals s ! nat sig of
             None \<Rightarrow> s
           | Some e \<Rightarrow>
               s\<lparr>mainloop_signals := (mainloop_signals s)
                   [nat sig := Some (e\<lparr>sig_trigger := mainloop_set_trigger (sig_trigger e)\<rparr>)]\<rparr>
      else s)"

text \<open>Dispatching the source of a signal: the entry afterwards, and the handler called with the signal
  number, if there is one.\<close>

definition mainloop_signal_dispatch :: "signal_entry \<Rightarrow> signal_entry \<times> (nat \<times> int) option" where
  "mainloop_signal_dispatch e =
     (e\<lparr>sig_trigger := (sig_trigger e)\<lparr>trig_trigger := False\<rparr>\<rparr>,
      map_option (\<lambda>h. (h, sig_signal e)) (sig_handler e))"

text \<open>\<open>sigaction_ok\<close> is whether \<^verbatim>\<open>sigaction\<close> accepts the signal; \<open>install\<close> is whether the given handler is
  \<open>mainloop_signal_handler\<close> or NULL.\<close>

definition mainloop_signal :: "(int \<Rightarrow> bool) \<Rightarrow> int \<Rightarrow> bool \<Rightarrow> 's mainloop_scheme \<Rightarrow> bool \<times> 's mainloop_scheme" where
  "mainloop_signal sigaction_ok sig install s =
     (if \<not> sigaction_ok sig then (False, s)
      else (True, s\<lparr>installed := (if install then insert sig (installed s) else installed s - {sig})\<rparr>))"

definition mainloop_add_signal ::
  "id_source \<Rightarrow> (int \<Rightarrow> bool) \<Rightarrow> int \<Rightarrow> nat option \<Rightarrow> 's mainloop_scheme \<Rightarrow> bool \<times> 's mainloop_scheme" where
  "mainloop_add_signal new_id sigaction_ok sig dispatch s =
     (let priority = (if sig = SIGTERM then G_PRIORITY_HIGH - 1 - 1 else G_PRIORITY_HIGH - 1)
      in if sig \<ge> NSIG \<or> sig < 0 then (False, s)
         else if mainloop_signals s ! nat sig \<noteq> None then (False, s)
         else case mainloop_setup_trigger new_id priority None None s of (trig, s1) \<Rightarrow>
           let e = \<lparr>sig_trigger = trig, sig_handler = dispatch, sig_signal = sig\<rparr>;
               s2 = s1\<lparr>mainloop_signals := (mainloop_signals s1)[nat sig := Some e]\<rparr>
           in case mainloop_signal sigaction_ok sig True s2 of (ok, s3) \<Rightarrow>
                if ok then (True, s3)
                else let s4 = s3\<lparr>mainloop_signals := (mainloop_signals s3)[nat sig := None]\<rparr>
                     in (False, snd (mainloop_destroy_trigger trig s4)))"

definition mainloop_destroy_signal ::
  "(int \<Rightarrow> bool) \<Rightarrow> int \<Rightarrow> 's mainloop_scheme \<Rightarrow> bool \<times> 's mainloop_scheme" where
  "mainloop_destroy_signal sigaction_ok sig s =
     (if sig \<ge> NSIG \<or> sig < 0 then (False, s)
      else case mainloop_signal sigaction_ok sig False s of (ok, s1) \<Rightarrow>
        if \<not> ok then (False, s1)
        else case mainloop_signals s1 ! nat sig of
               None \<Rightarrow> (True, s1)
             | Some tmp \<Rightarrow>
                 let s2 = s1\<lparr>mainloop_signals := (mainloop_signals s1)[nat sig := None]\<rparr>
                 in (True, snd (mainloop_destroy_trigger (sig_trigger tmp) s2)))"

section \<open>File descriptors\<close>

definition G_IO_IN :: u16 where "G_IO_IN = 1"
definition G_IO_PRI :: u16 where "G_IO_PRI = 2"
definition G_IO_OUT :: u16 where "G_IO_OUT = 4"
definition G_IO_ERR :: u16 where "G_IO_ERR = 8"
definition G_IO_HUP :: u16 where "G_IO_HUP = 16"
definition G_IO_NVAL :: u16 where "G_IO_NVAL = 32"

record mainloop_fd =
  fd_id :: nat
  fd_fd :: int
  fd_events :: u16
  fd_revents :: u16
  fd_user_data :: nat
  fd_dnotify :: "nat option"
  fd_dispatch :: "nat option"

definition mainloop_fd_prepare :: "mainloop_fd \<Rightarrow> bool" where
  "mainloop_fd_prepare trig = False"

definition mainloop_fd_check :: "mainloop_fd \<Rightarrow> bool" where
  "mainloop_fd_check trig = (fd_revents trig \<noteq> 0)"

text \<open>\<open>call\<close> runs the dispatch function on the descriptor and the user data. The result \<^verbatim>\<open>FALSE\<close> makes
  GLib destroy the source.\<close>

definition mainloop_fd_dispatch :: "(nat \<Rightarrow> int \<Rightarrow> nat \<Rightarrow> bool) \<Rightarrow> mainloop_fd \<Rightarrow> bool \<times> mainloop_fd" where
  "mainloop_fd_dispatch call trig =
     (let trig' = (if fd_revents trig AND G_IO_OUT \<noteq> 0
                   then trig\<lparr>fd_events := fd_events trig AND NOT G_IO_OUT\<rparr> else trig)
      in (case fd_dispatch trig of None \<Rightarrow> True | Some f \<Rightarrow> call f (fd_fd trig) (fd_user_data trig), trig'))"

text \<open>The function and data that the destruction of a source calls.\<close>

definition mainloop_fd_destroy :: "mainloop_fd \<Rightarrow> (nat \<times> nat) option" where
  "mainloop_fd_destroy trig = map_option (\<lambda>f. (f, fd_user_data trig)) (fd_dnotify trig)"

definition mainloop_add_fd ::
  "id_source \<Rightarrow> int \<Rightarrow> int \<Rightarrow> nat option \<Rightarrow> nat option \<Rightarrow> nat \<Rightarrow> 's mainloop_scheme
   \<Rightarrow> mainloop_fd \<times> 's mainloop_scheme" where
  "mainloop_add_fd new_id priority fd dispatch notify userdata s =
     (case attach new_id (FdSource priority fd) s of (i, s') \<Rightarrow>
        (\<lparr>fd_id = i, fd_fd = fd, fd_events = G_IO_ERR OR G_IO_NVAL OR G_IO_IN OR G_IO_PRI OR G_IO_HUP,
          fd_revents = 0, fd_user_data = userdata, fd_dnotify = notify, fd_dispatch = dispatch\<rparr>, s'))"

definition mainloop_destroy_fd :: "mainloop_fd \<Rightarrow> 's mainloop_scheme \<Rightarrow> bool \<times> mainloop_fd \<times> 's mainloop_scheme" where
  "mainloop_destroy_fd source s = (True, source\<lparr>fd_id := 0\<rparr>, g_source_remove (fd_id source) s)"

section \<open>Child processes\<close>

text \<open>\<open>kill_res\<close> is \<open>None\<close> when \<^verbatim>\<open>kill\<close> succeeds and otherwise the \<^verbatim>\<open>errno\<close>. The result is the state and
  the process that was sent \<^verbatim>\<open>SIGKILL\<close>, if any. Every path returns \<^verbatim>\<open>FALSE\<close>, so the timer that called
  it is removed.\<close>

definition child_timeout_callback ::
  "id_source \<Rightarrow> (int \<Rightarrow> int option) \<Rightarrow> int \<Rightarrow> 's mainloop_scheme \<Rightarrow> int option \<times> 's mainloop_scheme" where
  "child_timeout_callback new_id kill_res p s =
     (case Option.bind (process_table s) (\<lambda>t. t p) of
        None \<Rightarrow> (None, s)
      | Some pinfo \<Rightarrow>
          let put = (\<lambda>c s. s\<lparr>process_table := map_option (\<lambda>t. t(p \<mapsto> c)) (process_table s)\<rparr>);
              pinfo1 = pinfo\<lparr>ch_timerid := 0\<rparr>
          in if ch_timeout pinfo then (None, put pinfo1 s)
             else let pinfo2 = pinfo1\<lparr>ch_timeout := True\<rparr>
                  in if kill_res (ch_pid pinfo) = Some ESRCH then (Some (ch_pid pinfo), put pinfo2 s)
                     else case attach new_id (ChildTimer 5000 p) s of (i, s1) \<Rightarrow>
                            (Some (ch_pid pinfo), put (pinfo2\<lparr>ch_timerid := i\<rparr>) s1))"

text \<open>The main loop running the child timer \<open>i\<close>: the callback, and then the removal of the source.\<close>

definition fire_child_timer ::
  "id_source \<Rightarrow> (int \<Rightarrow> int option) \<Rightarrow> nat \<Rightarrow> 's mainloop_scheme \<Rightarrow> int option \<times> 's mainloop_scheme" where
  "fire_child_timer new_id kill_res i s =
     (case ml_sources s i of
        Some (ChildTimer ms p) \<Rightarrow>
          (case child_timeout_callback new_id kill_res p s of (k, s') \<Rightarrow> (k, g_source_remove i s'))
      | _ \<Rightarrow> (None, s))"

definition mainloop_add_child ::
  "id_source \<Rightarrow> int \<Rightarrow> int \<Rightarrow> string \<Rightarrow> nat option \<Rightarrow> nat \<Rightarrow> 's mainloop_scheme \<Rightarrow> 's mainloop_scheme" where
  "mainloop_add_child new_id pid timeout desc privatedata callback s =
     (let t = (case process_table s of None \<Rightarrow> Map.empty | Some t \<Rightarrow> t);
          (i, s1) = (if timeout \<noteq> 0 then attach new_id (ChildTimer (word_of_int timeout) pid) s else (0, s));
          p = \<lparr>ch_pid = pid, ch_desc = desc, ch_timerid = i, ch_timeout = False,
               ch_privatedata = privatedata, ch_callback = callback\<rparr>
      in s1\<lparr>process_table := Some (t(\<bar>pid\<bar> \<mapsto> p))\<rparr>)"

text \<open>One result of \<^verbatim>\<open>wait3\<close> with \<^verbatim>\<open>WNOHANG\<close>: the return value, the status, and the value of \<^verbatim>\<open>errno\<close> after
  the call, which a return value of 0 leaves as it was.\<close>

record wait_res =
  wr_pid :: int
  wr_status :: int
  wr_errno :: int

definition exit_of :: "int \<Rightarrow> int \<times> int" where
  "exit_of status =
     (if WIFEXITED status then (0, WEXITSTATUS status)
      else if WIFSIGNALED status then (WTERMSIG status, 0)
      else (0, 0))"

text \<open>What the loop does for a tracked child: its timer is removed, the callback runs, the entry is
  removed. \<open>call\<close> is the callback with the entry, the status, the signal and the exit code.\<close>

definition handle_child ::
  "(mainloop_child \<Rightarrow> int \<Rightarrow> int \<Rightarrow> int \<Rightarrow> 's mainloop_scheme \<Rightarrow> 's mainloop_scheme) \<Rightarrow> int \<Rightarrow> int
   \<Rightarrow> mainloop_child \<Rightarrow> 's mainloop_scheme \<Rightarrow> 's mainloop_scheme" where
  "handle_child call pid status p s =
     (let (signo, exitcode) = exit_of status;
          s1 = (if ch_timerid p \<noteq> 0 then g_source_remove (ch_timerid p) s else s);
          p1 = p\<lparr>ch_timerid := 0\<rparr>;
          s2 = call p1 status signo exitcode
                 (s1\<lparr>process_table := map_option (\<lambda>t. t(pid \<mapsto> p1)) (process_table s1)\<rparr>)
      in s2\<lparr>process_table := map_option (\<lambda>t. t(pid := None)) (process_table s2)\<rparr>)"

partial_function (option) child_death_dispatch ::
  "(mainloop_child \<Rightarrow> int \<Rightarrow> int \<Rightarrow> int \<Rightarrow> 's mainloop_scheme \<Rightarrow> 's mainloop_scheme)
   \<Rightarrow> (nat \<Rightarrow> wait_res) \<Rightarrow> nat \<Rightarrow> 's mainloop_scheme \<Rightarrow> (nat \<times> 's mainloop_scheme) option" where
  "child_death_dispatch call wait3 n s =
     (let r = wait3 n
      in if wr_pid r > 0
         then case Option.bind (process_table s) (\<lambda>t. t (wr_pid r)) of
                None \<Rightarrow> child_death_dispatch call wait3 (Suc n) s
              | Some p \<Rightarrow> Some (Suc n, handle_child call (wr_pid r) (wr_status r) p s)
         else if wr_errno r = EAGAIN then child_death_dispatch call wait3 (Suc n) s
         else Some (Suc n, s))"

definition mainloop_track_children ::
  "id_source \<Rightarrow> (int \<Rightarrow> bool) \<Rightarrow> nat \<Rightarrow> 's mainloop_scheme \<Rightarrow> 's mainloop_scheme" where
  "mainloop_track_children new_id sigaction_ok death_dispatch s =
     (let s1 = (if process_table s = None then s\<lparr>process_table := Some Map.empty\<rparr> else s)
      in snd (mainloop_add_signal new_id sigaction_ok SIGCHLD (Some death_dispatch) s1))"

section \<open>Lemmas: sources\<close>

lemma attach_pair: "attach new_id x s = (new_id (ml_sources s), s\<lparr>ml_sources := (ml_sources s)(new_id (ml_sources s) \<mapsto> x)\<rparr>)"
  by (simp add: attach_def Let_def)

lemma fresh_idD:
  assumes "fresh_id new_id" "finite (dom m)"
  shows "0 < new_id m" "m (new_id m) = None"
  using assms by (auto simp: fresh_id_def)

text \<open>The successor of the largest number in use is such an identifier.\<close>

definition least_id :: id_source where
  "least_id m = Suc (Max (insert 0 (dom m)))"

lemma least_id_fresh: "fresh_id least_id"
proof (unfold fresh_id_def, intro allI impI conjI)
  fix m :: "nat \<rightharpoonup> src"
  assume fin: "finite (dom m)"
  show "0 < least_id m" by (simp add: least_id_def)
  have "k \<le> Max (insert 0 (dom m))" if "k \<in> dom m" for k
    using fin that by (simp add: Max_ge)
  then have "least_id m \<notin> dom m" by (auto simp: least_id_def dest: Suc_le_lessD)
  then show "m (least_id m) = None" by blast
qed

section \<open>Lemmas: signals\<close>

text \<open>The signal table as a map.\<close>

definition signal_at :: "'s mainloop_scheme \<Rightarrow> int \<rightharpoonup> signal_entry" where
  "signal_at s sig = (if 0 \<le> sig \<and> sig < NSIG then mainloop_signals s ! nat sig else None)"

text \<open>The invariant of the signal table: it has a slot per signal; an entry is for its own signal, its
  source is attached and shared with no other entry; and the handler is installed exactly for the
  signals that have an entry.\<close>

definition entry_ok :: "(nat \<rightharpoonup> src) \<Rightarrow> int \<Rightarrow> signal_entry \<Rightarrow> bool" where
  "entry_ok m sig e \<longleftrightarrow> sig_signal e = sig \<and> 0 < trig_id (sig_trigger e) \<and>
     (\<exists>p. m (trig_id (sig_trigger e)) = Some (TriggerSource p))"

definition sig_inv :: "'s mainloop_scheme \<Rightarrow> bool" where
  "sig_inv s \<longleftrightarrow>
     length (mainloop_signals s) = nat NSIG \<and> finite (dom (ml_sources s)) \<and>
     (\<forall>sig e. signal_at s sig = Some e \<longrightarrow> entry_ok (ml_sources s) sig e) \<and>
     (\<forall>sig sig' e f. signal_at s sig = Some e \<and> signal_at s sig' = Some f \<and>
        trig_id (sig_trigger e) = trig_id (sig_trigger f) \<longrightarrow> sig = sig') \<and>
     installed s = dom (signal_at s)"

lemma sig_invD:
  assumes "sig_inv s"
  shows "length (mainloop_signals s) = nat NSIG" "finite (dom (ml_sources s))"
    "signal_at s sig = Some e \<Longrightarrow> entry_ok (ml_sources s) sig e"
    "signal_at s sig = Some e \<Longrightarrow> signal_at s sig' = Some f \<Longrightarrow>
       trig_id (sig_trigger e) = trig_id (sig_trigger f) \<Longrightarrow> sig = sig'"
    "installed s = dom (signal_at s)"
  using assms unfolding sig_inv_def by blast+

lemma sig_invI:
  assumes "length (mainloop_signals s) = nat NSIG" "finite (dom (ml_sources s))" "installed s = dom (signal_at s)"
    "\<And>sig e. signal_at s sig = Some e \<Longrightarrow> entry_ok (ml_sources s) sig e"
    "\<And>sig sig' e f. signal_at s sig = Some e \<Longrightarrow> signal_at s sig' = Some f \<Longrightarrow>
       trig_id (sig_trigger e) = trig_id (sig_trigger f) \<Longrightarrow> sig = sig'"
  shows "sig_inv s"
  using assms unfolding sig_inv_def by blast

lemma signal_at_range: "signal_at s sig = Some e \<Longrightarrow> 0 \<le> sig \<and> sig < NSIG \<and> mainloop_signals s ! nat sig = Some e"
  by (auto simp: signal_at_def split: if_splits)

lemma signal_at_update:
  assumes "length (mainloop_signals s) = nat NSIG" "0 \<le> sig" "sig < NSIG"
    "mainloop_signals s' = (mainloop_signals s)[nat sig := v]"
  shows "signal_at s' = (signal_at s)(sig := v)"
  using assms by (auto simp: signal_at_def fun_eq_iff nth_list_update)

lemma signal_at_cong: "mainloop_signals s' = mainloop_signals s \<Longrightarrow> signal_at s' = signal_at s"
  by (simp add: signal_at_def fun_eq_iff)

text \<open>Adding and removing one entry with its source keeps the invariant.\<close>

lemma sig_inv_add:
  assumes "sig_inv s" "0 \<le> sig" "sig < NSIG" "entry_ok (ml_sources s') sig e"
    "ml_sources s (trig_id (sig_trigger e)) = None"
    "ml_sources s' = (ml_sources s)(trig_id (sig_trigger e) \<mapsto> x)"
    "mainloop_signals s' = (mainloop_signals s)[nat sig := Some e]" "installed s' = insert sig (installed s)"
  shows "sig_inv s'"
proof -
  note D = sig_invD [OF assms(1)]
  have at: "signal_at s' = (signal_at s)(sig \<mapsto> e)"
    by (rule signal_at_update [OF D(1) assms(2,3,7)])
  have other: "trig_id (sig_trigger f) \<noteq> trig_id (sig_trigger e)" if "signal_at s i = Some f" for i f
    using D(3) [OF that] assms(5) by (auto simp: entry_ok_def)
  show ?thesis
  proof (rule sig_invI)
    show "entry_ok (ml_sources s') i f" if "signal_at s' i = Some f" for i f
      using that assms(4) D(3) [of i f] other [of i f] by (auto simp: at entry_ok_def assms(6) split: if_splits)
    show "i = j" if "signal_at s' i = Some f" "signal_at s' j = Some g"
      "trig_id (sig_trigger f) = trig_id (sig_trigger g)" for i j f g
      using that D(4) [of i f j g] other [of i f] other [of j g] by (auto simp: at split: if_splits)
    show "installed s' = dom (signal_at s')" using D(5) by (simp add: at assms(8))
  qed (simp_all add: D(1,2) assms(6,7))
qed

lemma sig_inv_remove:
  assumes "sig_inv s" "signal_at s sig = Some e"
    "ml_sources s' = (ml_sources s)(trig_id (sig_trigger e) := None)"
    "mainloop_signals s' = (mainloop_signals s)[nat sig := None]" "installed s' = installed s - {sig}"
  shows "sig_inv s'"
proof -
  note D = sig_invD [OF assms(1)]
  have at: "signal_at s' = (signal_at s)(sig := None)"
    using signal_at_range [OF assms(2)] by (intro signal_at_update [OF D(1) _ _ assms(4)]) auto
  have other: "trig_id (sig_trigger f) \<noteq> trig_id (sig_trigger e)" if "signal_at s i = Some f" "i \<noteq> sig" for i f
    using D(4) [OF that(1) assms(2)] that(2) by blast
  show ?thesis
  proof (rule sig_invI)
    show "entry_ok (ml_sources s') i f" if "signal_at s' i = Some f" for i f
      using that D(3) [of i f] other [of i f] by (auto simp: at entry_ok_def assms(3) split: if_splits)
    show "i = j" if "signal_at s' i = Some f" "signal_at s' j = Some g"
      "trig_id (sig_trigger f) = trig_id (sig_trigger g)" for i j f g
      using that D(4) [of i f j g] by (auto simp: at split: if_splits)
    show "installed s' = dom (signal_at s')" using D(5) by (simp add: at assms(5))
  qed (simp_all add: D(1,2) assms(3,4))
qed

lemma mainloop_add_signal_cases:
  assumes "sig_inv s" "fresh_id new_id"
  shows "sig_inv (snd (mainloop_add_signal new_id sigaction_ok sig h s)) \<and>
    (if 0 \<le> sig \<and> sig < NSIG \<and> signal_at s sig = None \<and> sigaction_ok sig
     then fst (mainloop_add_signal new_id sigaction_ok sig h s) \<and>
          (\<exists>e. signal_at (snd (mainloop_add_signal new_id sigaction_ok sig h s)) = (signal_at s)(sig \<mapsto> e) \<and>
               sig_handler e = h \<and> \<not> trig_trigger (sig_trigger e))
     else mainloop_add_signal new_id sigaction_ok sig h s = (False, s))"
proof (cases "0 \<le> sig \<and> sig < NSIG \<and> signal_at s sig = None")
  case False
  then show ?thesis using assms(1) by (auto simp: mainloop_add_signal_def signal_at_def Let_def)
next
  case True
  then have none: "mainloop_signals s ! nat sig = None" by (auto simp: signal_at_def)
  let ?i = "new_id (ml_sources s)"
  define e where "e = \<lparr>sig_trigger = \<lparr>trig_trigger = False, trig_user_data = None, trig_id = ?i, trig_dispatch = None\<rparr>,
    sig_handler = h, sig_signal = sig\<rparr>"
  define p where "p = (if sig = SIGTERM then G_PRIORITY_HIGH - 1 - 1 else G_PRIORITY_HIGH - 1)"
  note D = sig_invD [OF assms(1)]
  note fresh = fresh_idD [OF assms(2) D(2)]
  show ?thesis
  proof (cases "sigaction_ok sig")
    case ok: True
    define s' where "s' = s\<lparr>mainloop_signals := (mainloop_signals s)[nat sig := Some e],
      ml_sources := (ml_sources s)(?i \<mapsto> TriggerSource p), installed := insert sig (installed s)\<rparr>"
    have eq: "mainloop_add_signal new_id sigaction_ok sig h s = (True, s')"
      using True none ok by (simp add: mainloop_add_signal_def mainloop_setup_trigger_def attach_pair
          mainloop_signal_def Let_def s'_def e_def p_def)
    have "sig_inv s'"
      by (rule sig_inv_add [OF assms(1), of sig _ e "TriggerSource p"])
        (use True fresh in \<open>simp_all add: s'_def e_def entry_ok_def\<close>)
    moreover have "signal_at s' = (signal_at s)(sig \<mapsto> e)"
      using True by (intro signal_at_update [OF D(1)]) (simp_all add: s'_def)
    ultimately show ?thesis using True ok by (auto simp: eq e_def)
  next
    case False
    have "mainloop_signals s = (mainloop_signals s)[nat sig := None]"
      using none by (metis list_update_id)
    moreover have "(ml_sources s)(?i := None) = ml_sources s" using fresh(2) by auto
    ultimately have "mainloop_add_signal new_id sigaction_ok sig h s = (False, s)"
      using True none False fresh by (simp add: mainloop_add_signal_def mainloop_setup_trigger_def attach_pair
          mainloop_signal_def mainloop_destroy_trigger_def g_source_remove_def Let_def)
    then show ?thesis using False assms(1) by simp
  qed
qed

lemma mainloop_destroy_signal_cases:
  assumes "sig_inv s"
  shows "sig_inv (snd (mainloop_destroy_signal sigaction_ok sig s)) \<and>
    (if 0 \<le> sig \<and> sig < NSIG \<and> sigaction_ok sig
     then fst (mainloop_destroy_signal sigaction_ok sig s) \<and>
          signal_at (snd (mainloop_destroy_signal sigaction_ok sig s)) = (signal_at s)(sig := None)
     else mainloop_destroy_signal sigaction_ok sig s = (False, s))"
proof (cases "0 \<le> sig \<and> sig < NSIG \<and> sigaction_ok sig")
  case False
  then show ?thesis using assms by (auto simp: mainloop_destroy_signal_def mainloop_signal_def)
next
  case True
  note D = sig_invD [OF assms]
  show ?thesis
  proof (cases "mainloop_signals s ! nat sig")
    case None
    then have at: "signal_at s sig = None" by (simp add: signal_at_def)
    then have "installed s - {sig} = installed s" using D(5) by auto
    then have "mainloop_destroy_signal sigaction_ok sig s = (True, s)"
      using True None by (simp add: mainloop_destroy_signal_def mainloop_signal_def)
    then show ?thesis using True at assms by auto
  next
    case (Some e)
    then have at: "signal_at s sig = Some e" using True by (simp add: signal_at_def)
    have pos: "0 < trig_id (sig_trigger e)" using D(3) [OF at] by (simp add: entry_ok_def)
    define s' where "s' = s\<lparr>mainloop_signals := (mainloop_signals s)[nat sig := None],
      ml_sources := (ml_sources s)(trig_id (sig_trigger e) := None), installed := installed s - {sig}\<rparr>"
    have eq: "mainloop_destroy_signal sigaction_ok sig s = (True, s')"
      using True Some pos by (simp add: mainloop_destroy_signal_def mainloop_signal_def
          mainloop_destroy_trigger_def g_source_remove_def Let_def s'_def)
    have "sig_inv s'"
      by (rule sig_inv_remove [OF assms at]) (simp_all add: s'_def)
    moreover have "signal_at s' = (signal_at s)(sig := None)"
      using True by (intro signal_at_update [OF D(1)]) (simp_all add: s'_def)
    ultimately show ?thesis using True by (simp add: eq)
  qed
qed

section \<open>The signal machine\<close>

text \<open>The main loop polling the source of a signal: nothing when its trigger is not set, otherwise the
  dispatch, whose call of the handler is the first component.\<close>

definition poll_signal :: "int \<Rightarrow> 's mainloop_scheme \<Rightarrow> (nat \<times> int) option \<times> 's mainloop_scheme" where
  "poll_signal sig s =
     (case signal_at s sig of
        None \<Rightarrow> (None, s)
      | Some e \<Rightarrow>
          if \<not> mainloop_trigger_prepare (sig_trigger e) then (None, s)
          else case mainloop_signal_dispatch e of (e', call) \<Rightarrow>
            (call, s\<lparr>mainloop_signals := (mainloop_signals s)[nat sig := Some e']\<rparr>))"

text \<open>The steps: the two calls of the interface, a signal that arrives while its handler is installed,
  and one poll of the main loop.\<close>

inductive sig_step :: "id_source \<Rightarrow> (int \<Rightarrow> bool) \<Rightarrow> 's mainloop_scheme \<Rightarrow> 's mainloop_scheme \<Rightarrow> bool"
  for new_id sigaction_ok where
  add: "sig_step new_id sigaction_ok s (snd (mainloop_add_signal new_id sigaction_ok sig h s))"
| destroy: "sig_step new_id sigaction_ok s (snd (mainloop_destroy_signal sigaction_ok sig s))"
| arrive: "sig \<in> installed s \<Longrightarrow> sig_step new_id sigaction_ok s (mainloop_signal_handler sig s)"
| poll: "sig_step new_id sigaction_ok s (snd (poll_signal sig s))"

inductive_cases sig_stepE: "sig_step new_id sigaction_ok s s'"

definition mainloop_init :: mainloop where
  "mainloop_init = \<lparr>process_table = None, mainloop_signals = replicate 65 None, ml_sources = Map.empty,
     installed = {}\<rparr>"

lemma sig_inv_same_id:
  assumes "sig_inv s" "signal_at s sig = Some e" "sig_signal e' = sig_signal e"
    "trig_id (sig_trigger e') = trig_id (sig_trigger e)"
  shows "sig_inv (s\<lparr>mainloop_signals := (mainloop_signals s)[nat sig := Some e']\<rparr>)" (is "sig_inv ?s")
proof -
  note D = sig_invD [OF assms(1)]
  have at: "signal_at ?s = (signal_at s)(sig \<mapsto> e')"
    using signal_at_range [OF assms(2)] by (intro signal_at_update [OF D(1)]) auto
  show ?thesis
  proof (rule sig_invI)
    show "entry_ok (ml_sources ?s) i f" if "signal_at ?s i = Some f" for i f
      using that D(3) [of i f] D(3) [OF assms(2)] assms(3,4) by (auto simp: at entry_ok_def split: if_splits)
    show "i = j" if "signal_at ?s i = Some f" "signal_at ?s j = Some g"
      "trig_id (sig_trigger f) = trig_id (sig_trigger g)" for i j f g
      using that D(4) [of i f j g] D(4) [OF assms(2), of j g] D(4) [OF _ assms(2), of i f] assms(4)
      by (auto simp: at split: if_splits)
    show "installed ?s = dom (signal_at ?s)" using D(5) assms(2) by (auto simp: at)
  qed (simp_all add: D(1,2))
qed

lemma handler_signal_at:
  assumes "sig_inv s" "0 < sig" "signal_at s sig = Some e"
  shows "mainloop_signal_handler sig s = s\<lparr>mainloop_signals := (mainloop_signals s)
      [nat sig := Some (e\<lparr>sig_trigger := (sig_trigger e)\<lparr>trig_trigger := True\<rparr>\<rparr>)]\<rparr>"
  using assms signal_at_range [OF assms(3)]
  by (simp add: mainloop_signal_handler_def mainloop_set_trigger_def)

lemma sig_inv_init: "sig_inv mainloop_init"
proof -
  have "signal_at mainloop_init sig = None" for sig
    using nth_replicate [of "nat sig" 65 "None :: signal_entry option"]
    by (auto simp: signal_at_def mainloop_init_def NSIG_def)
  then have "signal_at mainloop_init = Map.empty" by (simp add: fun_eq_iff)
  then show ?thesis by (intro sig_invI) (simp_all add: mainloop_init_def NSIG_def)
qed

lemma sig_step_inv:
  assumes "sig_step new_id sigaction_ok s s'" "sig_inv s" "fresh_id new_id"
  shows "sig_inv s'"
  using assms(1)
proof cases
  case (add sig h)
  then show ?thesis using mainloop_add_signal_cases [OF assms(2,3)] by blast
next
  case (destroy sig)
  then show ?thesis using mainloop_destroy_signal_cases [OF assms(2)] by blast
next
  case (arrive sig)
  then obtain e where e: "signal_at s sig = Some e" using sig_invD(5) [OF assms(2)] by auto
  show ?thesis
  proof (cases "0 < sig")
    case True
    show ?thesis unfolding arrive(1) handler_signal_at [OF assms(2) True e]
      by (rule sig_inv_same_id [OF assms(2) e]) simp_all
  next
    case False
    then show ?thesis using arrive assms(2) by (simp add: mainloop_signal_handler_def)
  qed
next
  case (poll sig)
  show ?thesis
  proof (cases "signal_at s sig")
    case None
    then show ?thesis using poll assms(2) by (simp add: poll_signal_def)
  next
    case (Some e)
    then show ?thesis unfolding poll poll_signal_def
      using assms(2) sig_inv_same_id [OF assms(2) Some, of "e\<lparr>sig_trigger := (sig_trigger e)\<lparr>trig_trigger := False\<rparr>\<rparr>"]
      by (simp add: mainloop_signal_dispatch_def)
  qed
qed

lemma handler_funpow:
  assumes "sig_inv s" "0 < sig" "signal_at s sig = Some e" "0 < n"
  shows "(mainloop_signal_handler sig ^^ n) s = mainloop_signal_handler sig s"
  using assms(4)
proof (induction n)
  case (Suc n)
  have again: "mainloop_signal_handler sig (mainloop_signal_handler sig s) = mainloop_signal_handler sig s"
    using signal_at_range [OF assms(3)] sig_invD(1) [OF assms(1)] assms(2)
    unfolding handler_signal_at [OF assms(1-3)]
    by (simp add: mainloop_signal_handler_def mainloop_set_trigger_def)
  show ?case
  proof (cases n)
    case (Suc k)
    then show ?thesis using Suc.IH again by simp
  qed simp
qed simp

section \<open>Lemmas: children\<close>

text \<open>The results of \<^verbatim>\<open>wait3\<close> after which the loop of \<open>child_death_dispatch\<close> goes on.\<close>

definition tracked :: "'s mainloop_scheme \<Rightarrow> int \<Rightarrow> mainloop_child option" where
  "tracked s pid = Option.bind (process_table s) (\<lambda>t. t pid)"

definition skipped :: "'s mainloop_scheme \<Rightarrow> wait_res \<Rightarrow> bool" where
  "skipped s r \<longleftrightarrow> (if wr_pid r > 0 then tracked s (wr_pid r) = None else wr_errno r = EAGAIN)"

lemma child_death_dispatch_step:
  "child_death_dispatch call wait3 n s =
     (let r = wait3 n
      in if skipped s r then child_death_dispatch call wait3 (Suc n) s
         else Some (Suc n, case (if wr_pid r > 0 then tracked s (wr_pid r) else None) of
                             None \<Rightarrow> s | Some p \<Rightarrow> handle_child call (wr_pid r) (wr_status r) p s))"
  by (subst child_death_dispatch.simps) (auto simp: skipped_def tracked_def Let_def split: option.splits)

lemma child_death_dispatch_skip:
  "\<forall>k<m. skipped s (wait3 (n + k)) \<Longrightarrow>
   child_death_dispatch call wait3 n s = child_death_dispatch call wait3 (n + m) s"
proof (induction m arbitrary: n)
  case (Suc m)
  have "skipped s (wait3 n)" using Suc.prems by (metis add_0_right zero_less_Suc)
  then have "child_death_dispatch call wait3 n s = child_death_dispatch call wait3 (Suc n) s"
    by (subst child_death_dispatch_step) (simp add: Let_def)
  also have "\<dots> = child_death_dispatch call wait3 (Suc n + m) s"
    using Suc.prems by (intro Suc.IH) (auto simp: less_Suc_eq_0_disj)
  finally show ?case by simp
qed simp

lemma child_death_dispatch_diverges:
  fixes s :: "'s mainloop_scheme"
  assumes "\<forall>k\<ge>n. skipped s (wait3 k)"
  shows "child_death_dispatch call wait3 n s = None"
proof (rule ccontr)
  let ?P = "\<lambda>call wait3 n (s :: 's mainloop_scheme) (r :: nat \<times> 's mainloop_scheme). \<exists>k\<ge>n. \<not> skipped s (wait3 k)"
  assume "child_death_dispatch call wait3 n s \<noteq> None"
  then obtain r where r: "child_death_dispatch call wait3 n s = Some r" by blast
  have "?P call wait3 n s r"
  proof (rule child_death_dispatch.raw_induct [where P = ?P, OF _ r], goal_cases)
    case (1 loop call wait3 n s r)
    show ?case
    proof (cases "skipped s (wait3 n)")
      case True
      then have "loop call wait3 (Suc n) s = Some r"
        using 1(2) by (auto simp: skipped_def tracked_def Let_def split: if_splits option.splits)
      from 1(1) [OF this] show ?thesis by (meson Suc_leD)
    qed auto
  qed
  with assms show False by blast
qed

lemma child_death_dispatch_result:
  fixes s :: "'s mainloop_scheme"
  assumes "child_death_dispatch call wait3 n s = Some (m, s')"
  shows "s' = s \<or> (\<exists>k p. 0 < wr_pid (wait3 k) \<and> tracked s (wr_pid (wait3 k)) = Some p \<and>
    s' = handle_child call (wr_pid (wait3 k)) (wr_status (wait3 k)) p s)"
proof -
  let ?P = "\<lambda>call wait3 n (s :: 's mainloop_scheme) (r :: nat \<times> 's mainloop_scheme). snd r = s \<or>
    (\<exists>k p. 0 < wr_pid (wait3 k) \<and> tracked s (wr_pid (wait3 k)) = Some p \<and>
      snd r = handle_child call (wr_pid (wait3 k)) (wr_status (wait3 k)) p s)"
  have "?P call wait3 n s (m, s')"
  proof (rule child_death_dispatch.raw_induct [where P = ?P, OF _ assms], goal_cases)
    case (1 loop call wait3 n s r)
    show ?case
    proof (cases "0 < wr_pid (wait3 n)")
      case True
      show ?thesis
      proof (cases "tracked s (wr_pid (wait3 n))")
        case None
        then have "loop call wait3 (Suc n) s = Some r" using 1(2) True by (simp add: Let_def tracked_def)
        then show ?thesis by (rule 1(1))
      next
        case (Some p)
        then have "r = (Suc n, handle_child call (wr_pid (wait3 n)) (wr_status (wait3 n)) p s)"
          using 1(2) True by (simp add: Let_def tracked_def)
        with Some True show ?thesis by (intro disjI2 exI [of _ n] exI [of _ p]) simp
      qed
    next
      case False
      then show ?thesis using 1(2) 1(1) [of call wait3 "Suc n" s r] by (auto simp: Let_def split: if_splits)
    qed
  qed
  then show ?thesis by simp
qed

section \<open>Properties\<close>

text \<open>C8: In every state that the signal interface can reach, the handler is installed for exactly the
  signals that have an entry in the table, and each entry belongs to its own signal and has an
  attached source of its own.\<close>

theorem signal_table_reachable:
  assumes "(sig_step new_id sigaction_ok)\<^sup>*\<^sup>* mainloop_init s" "fresh_id new_id"
  shows "installed s = dom (signal_at s) \<and>
    (\<forall>sig e. signal_at s sig = Some e \<longrightarrow> sig_signal e = sig \<and>
       (\<exists>p. ml_sources s (trig_id (sig_trigger e)) = Some (TriggerSource p))) \<and>
    inj_on (\<lambda>sig. map_option (\<lambda>e. trig_id (sig_trigger e)) (signal_at s sig)) (dom (signal_at s))"
proof -
  have "sig_inv s" using assms(1)
  proof (induction rule: rtranclp_induct)
    case base
    then show ?case by (rule sig_inv_init)
  next
    case (step s s')
    then show ?case using sig_step_inv assms(2) by blast
  qed
  from sig_invD [OF this] show ?thesis by (fastforce simp: inj_on_def entry_ok_def)
qed

theorem signal_table_reachable_witness:
  "installed (snd (mainloop_add_signal least_id (\<lambda>sig. sig \<noteq> SIGKILL) SIGCHLD (Some 7) mainloop_init)) = {SIGCHLD}"
proof -
  let ?ok = "\<lambda>sig. sig \<noteq> SIGKILL"
  let ?s = "snd (mainloop_add_signal least_id ?ok SIGCHLD (Some 7) mainloop_init)"
  have step: "(sig_step least_id ?ok)\<^sup>*\<^sup>* mainloop_init ?s"
    by (rule r_into_rtranclp) (rule sig_step.add)
  have none: "signal_at mainloop_init = Map.empty"
    using sig_invD(5) [OF sig_inv_init] by (auto simp: mainloop_init_def)
  then obtain e where "signal_at ?s = [SIGCHLD \<mapsto> e]"
    using mainloop_add_signal_cases [OF sig_inv_init least_id_fresh, of ?ok SIGCHLD "Some 7"]
    by (auto simp: SIGCHLD_def SIGKILL_def NSIG_def)
  with signal_table_reachable [OF step least_id_fresh] show ?thesis by simp
qed

text \<open>However often a signal with an entry arrives before the main loop polls, its handler is called
  exactly once, with the number of the signal, and the next poll calls nothing.\<close>

theorem signal_coalesced:
  assumes "sig_inv s" "0 < sig" "signal_at s sig = Some e" "sig_handler e = Some h" "0 < n"
  shows "\<exists>s'. poll_signal sig ((mainloop_signal_handler sig ^^ n) s) = (Some (h, sig), s') \<and>
    poll_signal sig s' = (None, s') \<and> sig_inv s'"
proof -
  let ?e = "e\<lparr>sig_trigger := (sig_trigger e)\<lparr>trig_trigger := True\<rparr>\<rparr>"
  let ?e' = "e\<lparr>sig_trigger := (sig_trigger e)\<lparr>trig_trigger := False\<rparr>\<rparr>"
  let ?s' = "s\<lparr>mainloop_signals := (mainloop_signals s)[nat sig := Some ?e']\<rparr>"
  note D = sig_invD [OF assms(1)]
  have r: "0 \<le> sig" "sig < NSIG" using signal_at_range [OF assms(3)] by auto
  have at: "signal_at (s\<lparr>mainloop_signals := (mainloop_signals s)[nat sig := Some f]\<rparr>) sig = Some f" for f
    using signal_at_update [OF D(1) r, of "s\<lparr>mainloop_signals := (mainloop_signals s)[nat sig := Some f]\<rparr>" "Some f"]
    by simp
  have sg: "sig_signal e = sig" using D(3) [OF assms(3)] by (simp add: entry_ok_def)
  have "poll_signal sig ((mainloop_signal_handler sig ^^ n) s) = (Some (h, sig), ?s')"
    using at [of ?e] assms(4) sg
    by (simp add: handler_funpow [OF assms(1-3,5)] handler_signal_at [OF assms(1-3)] poll_signal_def
        mainloop_trigger_prepare_def mainloop_signal_dispatch_def)
  moreover have "poll_signal sig ?s' = (None, ?s')"
    using at [of ?e'] by (simp add: poll_signal_def mainloop_trigger_prepare_def)
  moreover have "sig_inv ?s'" by (rule sig_inv_same_id [OF assms(1,3)]) simp_all
  ultimately show ?thesis by blast
qed

theorem signal_coalesced_witness:
  "\<exists>s s'. (sig_step least_id (\<lambda>sig. True))\<^sup>*\<^sup>* mainloop_init s \<and>
     poll_signal SIGCHLD ((mainloop_signal_handler SIGCHLD ^^ 3) s) = (Some (7, SIGCHLD), s')"
proof -
  let ?s = "snd (mainloop_add_signal least_id (\<lambda>sig. True) SIGCHLD (Some 7) mainloop_init)"
  have none: "signal_at mainloop_init SIGCHLD = None"
    using sig_invD(5) [OF sig_inv_init] by (auto simp: mainloop_init_def)
  have step: "(sig_step least_id (\<lambda>sig. True))\<^sup>*\<^sup>* mainloop_init ?s"
    by (rule r_into_rtranclp) (rule sig_step.add)
  obtain e where e: "signal_at ?s SIGCHLD = Some e" "sig_handler e = Some 7" and inv: "sig_inv ?s"
    using mainloop_add_signal_cases [OF sig_inv_init least_id_fresh, of "\<lambda>sig. True" SIGCHLD "Some 7"] none
    by (auto simp: SIGCHLD_def NSIG_def)
  have "0 < SIGCHLD" by (simp add: SIGCHLD_def)
  from signal_coalesced [OF inv this e, of 3] step show ?thesis by auto
qed

text \<open>C29: The loop that reaps dead children returns if and only if some result of \<^verbatim>\<open>wait3\<close> ends it: a tracked
  child, or no child with an \<^verbatim>\<open>errno\<close> other than \<^verbatim>\<open>EAGAIN\<close>. In particular it spins for ever on results 0 with
  a stale \<^verbatim>\<open>EAGAIN\<close>.\<close>

theorem child_death_dispatch_returns_iff:
  "(\<exists>r. child_death_dispatch call wait3 n s = Some r) \<longleftrightarrow> (\<exists>k\<ge>n. \<not> skipped s (wait3 k))"
proof
  assume "\<exists>r. child_death_dispatch call wait3 n s = Some r"
  then show "\<exists>k\<ge>n. \<not> skipped s (wait3 k)" using child_death_dispatch_diverges [of n s wait3 call] by force
next
  assume ex: "\<exists>k\<ge>n. \<not> skipped s (wait3 k)"
  define j where "j = (LEAST k. \<not> skipped s (wait3 (n + k)))"
  have "\<exists>k. \<not> skipped s (wait3 (n + k))" using ex by (metis le_Suc_ex)
  then have j: "\<not> skipped s (wait3 (n + j))" and "\<forall>k<j. skipped s (wait3 (n + k))"
    unfolding j_def by (rule LeastI_ex) (use not_less_Least in blast)
  then have "child_death_dispatch call wait3 n s = child_death_dispatch call wait3 (n + j) s"
    by (intro child_death_dispatch_skip) simp
  with j show "\<exists>r. child_death_dispatch call wait3 n s = Some r"
    by (subst (asm) (2) child_death_dispatch_step) (simp add: Let_def)
qed

text \<open>One run of the reaping loop handles exactly one tracked child, the first one reported: its
  callback is called with the decoded status and its entry is removed, and every other entry stays,
  also those of children that are dead already.\<close>

theorem child_death_dispatch_one_child:
  assumes "\<forall>k<m. skipped s (wait3 k)" "0 < wr_pid (wait3 m)"
    "process_table s = Some t" "t (wr_pid (wait3 m)) = Some p"
    "\<And>p status signo code s. process_table (call p status signo code s) = process_table s"
  shows "\<exists>s'. child_death_dispatch call wait3 0 s = Some (Suc m, s') \<and>
    process_table s' = Some (t(wr_pid (wait3 m) := None)) \<and>
    s' = (call (p\<lparr>ch_timerid := 0\<rparr>) (wr_status (wait3 m)) (fst (exit_of (wr_status (wait3 m))))
            (snd (exit_of (wr_status (wait3 m))))
            ((if ch_timerid p \<noteq> 0 then g_source_remove (ch_timerid p) s else s)
              \<lparr>process_table := Some (t(wr_pid (wait3 m) \<mapsto> p\<lparr>ch_timerid := 0\<rparr>))\<rparr>))
         \<lparr>process_table := Some (t(wr_pid (wait3 m) := None))\<rparr>"
proof -
  have "child_death_dispatch call wait3 0 s = child_death_dispatch call wait3 m s"
    using child_death_dispatch_skip [of m s wait3 0 call] assms(1) by simp
  also have "\<dots> = Some (Suc m, handle_child call (wr_pid (wait3 m)) (wr_status (wait3 m)) p s)"
    using assms(2-4) by (subst child_death_dispatch_step) (simp add: Let_def skipped_def tracked_def)
  finally show ?thesis
    using assms(3,5) by (simp add: handle_child_def g_source_remove_def Let_def split_beta)
qed

text \<open>Two tracked children, both dead when the loop runs: the second one stays in the table.\<close>

theorem child_death_dispatch_one_child_witness:
  "\<exists>s'. child_death_dispatch (\<lambda>p status signo code s. s)
      (\<lambda>k. if k = 0 then \<lparr>wr_pid = 10, wr_status = 256, wr_errno = 0\<rparr>
           else \<lparr>wr_pid = 20, wr_status = 0, wr_errno = 0\<rparr>) 0
      (mainloop_add_child least_id 20 0 ''b'' None 1 (mainloop_add_child least_id 10 0 ''a'' None 1 mainloop_init))
      = Some (1, s') \<and> tracked s' 20 \<noteq> None"
proof -
  let ?w = "\<lambda>k :: nat. if k = 0 then \<lparr>wr_pid = 10, wr_status = 256, wr_errno = 0\<rparr>
           else \<lparr>wr_pid = 20, wr_status = 0, wr_errno = 0\<rparr>"
  let ?c = "\<lambda>pid d. \<lparr>ch_pid = pid, ch_desc = d, ch_timerid = 0, ch_timeout = False, ch_privatedata = None, ch_callback = 1\<rparr>"
  let ?s = "mainloop_add_child least_id 20 0 ''b'' None 1 (mainloop_add_child least_id 10 0 ''a'' None 1 mainloop_init)"
  have t: "process_table ?s = Some [10 \<mapsto> ?c 10 ''a'', 20 \<mapsto> ?c 20 ''b'']"
    by (simp add: mainloop_add_child_def mainloop_init_def)
  from child_death_dispatch_one_child [of 0 ?s ?w, OF _ _ t, of "?c 10 ''a''" "\<lambda>p status signo code s. s"]
  show ?thesis by (auto simp: tracked_def)
qed

text \<open>A tracked process whose timeout passes is sent \<^verbatim>\<open>SIGKILL\<close> and marked as timed out, and a timer of
  five seconds is armed for it; when that one passes too, nothing is killed again and no timer is left.\<close>

theorem child_timeout_kills_once:
  assumes "0 < pid" "timeout \<noteq> 0" "finite (dom (ml_sources s))" "fresh_id new_id" "kill_res pid \<noteq> Some ESRCH"
  shows "\<exists>i j s1 s2 s3 c. s1 = mainloop_add_child new_id pid timeout desc pd cb s \<and>
    ml_sources s1 i = Some (ChildTimer (word_of_int timeout) pid) \<and>
    fire_child_timer new_id kill_res i s1 = (Some pid, s2) \<and> ml_sources s2 i = None \<and>
    tracked s2 pid = Some c \<and> ch_timeout c \<and> ch_timerid c = j \<and> ml_sources s2 j = Some (ChildTimer 5000 pid) \<and>
    fire_child_timer new_id kill_res j s2 = (None, s3) \<and> ml_sources s3 = ml_sources s \<and>
    tracked s3 pid = Some (c\<lparr>ch_timerid := 0\<rparr>)"
proof -
  let ?i = "new_id (ml_sources s)"
  let ?src1 = "(ml_sources s)(?i \<mapsto> ChildTimer (word_of_int timeout) pid)"
  let ?j = "new_id ?src1"
  have i: "ml_sources s ?i = None" using fresh_idD [OF assms(4,3)] by simp
  have j: "?src1 ?j = None" using fresh_idD [OF assms(4), of ?src1] assms(3) by simp
  then have ij: "?i \<noteq> ?j" and sj: "ml_sources s ?j = None" by (auto split: if_splits)
  define t where "t = (case process_table s of None \<Rightarrow> Map.empty | Some t \<Rightarrow> t)"
  define p where "p = \<lparr>ch_pid = pid, ch_desc = desc, ch_timerid = ?i, ch_timeout = False, ch_privatedata = pd, ch_callback = cb\<rparr>"
  define s1 where "s1 = s\<lparr>ml_sources := ?src1, process_table := Some (t(pid \<mapsto> p))\<rparr>"
  have s1: "mainloop_add_child new_id pid timeout desc pd cb s = s1"
    using assms(1,2) by (simp add: mainloop_add_child_def attach_pair s1_def t_def p_def)
  define c where "c = p\<lparr>ch_timerid := ?j, ch_timeout := True\<rparr>"
  define s2 where "s2 = s1\<lparr>ml_sources := (ml_sources s)(?j \<mapsto> ChildTimer 5000 pid), process_table := Some (t(pid \<mapsto> c))\<rparr>"
  have "(?src1(?j \<mapsto> ChildTimer 5000 pid))(?i := None) = (ml_sources s)(?j \<mapsto> ChildTimer 5000 pid)"
    using i ij by auto
  then have s2: "fire_child_timer new_id kill_res ?i s1 = (Some pid, s2)"
    using assms(5)
    by (simp add: fire_child_timer_def child_timeout_callback_def attach_pair g_source_remove_def Let_def
        s1_def p_def s2_def c_def)
  define s3 where "s3 = s2\<lparr>ml_sources := ml_sources s, process_table := Some (t(pid \<mapsto> c\<lparr>ch_timerid := 0\<rparr>))\<rparr>"
  have "((ml_sources s)(?j \<mapsto> ChildTimer 5000 pid))(?j := None) = ml_sources s" using sj by auto
  then have s3: "fire_child_timer new_id kill_res ?j s2 = (None, s3)"
    by (simp add: fire_child_timer_def child_timeout_callback_def g_source_remove_def Let_def s2_def c_def s3_def)
  show ?thesis
  proof (intro exI conjI)
    show "ml_sources s1 ?i = Some (ChildTimer (word_of_int timeout) pid)" by (simp add: s1_def)
    show "ml_sources s2 ?i = None" using i ij by (simp add: s2_def)
    show "ml_sources s2 ?j = Some (ChildTimer 5000 pid)" by (simp add: s2_def)
    show "tracked s2 pid = Some c" by (simp add: s2_def tracked_def)
    show "tracked s3 pid = Some (c\<lparr>ch_timerid := 0\<rparr>)" by (simp add: s3_def tracked_def)
    show "ml_sources s3 = ml_sources s" by (simp add: s3_def)
  qed (simp_all add: s1 s2 s3 c_def)
qed

theorem child_timeout_kills_once_witness:
  "\<exists>i s2. fire_child_timer least_id (\<lambda>pid. None) i (mainloop_add_child least_id 42 20000 ''d'' None 1 mainloop_init)
     = (Some 42, s2)"
proof -
  have "finite (dom (ml_sources mainloop_init))" by (simp add: mainloop_init_def)
  from child_timeout_kills_once [OF _ _ this least_id_fresh, of 42 20000 "\<lambda>pid. None" "''d''" None 1]
  show ?thesis by auto
qed

text \<open>The documented way to track a process group, by its negated identifier, does not time out: the
  entry is stored under the positive number while the timer looks for the negative one, so its
  callback finds no entry and kills nothing.\<close>

theorem process_group_never_times_out:
  assumes "pid < 0" "timeout \<noteq> 0" "tracked s pid = None"
  shows "fire_child_timer new_id kill_res (new_id (ml_sources s)) (mainloop_add_child new_id pid timeout desc pd cb s)
    = (None, g_source_remove (new_id (ml_sources s)) (mainloop_add_child new_id pid timeout desc pd cb s))"
  using assms
  by (auto simp: fire_child_timer_def child_timeout_callback_def mainloop_add_child_def attach_pair tracked_def
      g_source_remove_def split: option.splits)

theorem process_group_never_times_out_witness:
  "fst (fire_child_timer least_id (\<lambda>pid. None) (least_id (ml_sources mainloop_init))
     (mainloop_add_child least_id (- 42) 20000 ''d'' None 1 mainloop_init)) = None"
  using process_group_never_times_out [of "- 42" 20000 mainloop_init least_id "\<lambda>pid. None" "''d''" None 1]
  by (simp add: tracked_def mainloop_init_def)

end
