(* ===== verification/Services.thy ===== *)
theory Services
  imports Mainloop
begin

text \<open>
  \<^verbatim>\<open>src/src/include/matahari/services.h\<close>, \<^verbatim>\<open>src/src/lib/services_private.h\<close> and \<^verbatim>\<open>src/src/lib/services.c\<close>:
  the actions on services and resources, independent of the operating system.

  An action is an object of the heap: \<open>svc_heap\<close> maps addresses to the live objects, so that reading
  through NULL and through the pointer to a freed object are the errors \<open>NullDeref\<close> and \<open>UseAfterFree\<close>;
  \<open>AssertFailed\<close> is a failed \<^verbatim>\<open>MH_ASSERT\<close>, \<open>NoReturn\<close> a call that does not return and \<open>Overrun\<close> an access outside an
  array.
  Addresses are not reused. The operations of \<^verbatim>\<open>services_private.h\<close> that each operating system
  implements are arguments; the locale \<open>service_executor\<close> states what \<^verbatim>\<open>services.c\<close> relies on, \<open>service_backend\<close> adds
  that programs get an argument vector. The Windows layer interprets the first, the Linux layer the second. Function pointers are numbers; a call of a
  callback is recorded in \<open>svc_called\<close> with the action it was given. \<open>svc_fault\<close> is the failure of a
  callback that the main loop ran, \<open>svc_registry\<close> has the values written to the registry of Windows.
\<close>

section \<open>Exit codes (services.h)\<close>

definition LSB_STATUS_OK :: int where "LSB_STATUS_OK = 0"
definition LSB_STATUS_VAR_PID :: int where "LSB_STATUS_VAR_PID = 1"
definition LSB_STATUS_VAR_LOCK :: int where "LSB_STATUS_VAR_LOCK = 2"
definition LSB_STATUS_NOT_RUNNING :: int where "LSB_STATUS_NOT_RUNNING = 3"
definition LSB_STATUS_NOT_INSTALLED :: int where "LSB_STATUS_NOT_INSTALLED = 4"
definition LSB_NOT_RUNNING :: int where "LSB_NOT_RUNNING = 7"

definition OCF_OK :: int where "OCF_OK = 0"
definition OCF_UNKNOWN_ERROR :: int where "OCF_UNKNOWN_ERROR = 1"
definition OCF_INSUFFICIENT_PRIV :: int where "OCF_INSUFFICIENT_PRIV = 4"
definition OCF_NOT_INSTALLED :: int where "OCF_NOT_INSTALLED = 5"
definition OCF_NOT_RUNNING :: int where "OCF_NOT_RUNNING = 7"
definition OCF_SIGNAL :: int where "OCF_SIGNAL = 194"
definition OCF_TIMEOUT :: int where "OCF_TIMEOUT = 198"

definition LRM_OP_DONE :: int where "LRM_OP_DONE = 0"
definition LRM_OP_TIMEOUT :: int where "LRM_OP_TIMEOUT = 2"
definition LRM_OP_ERROR :: int where "LRM_OP_ERROR = 4"

definition services_get_ocf_exitcode :: "cptr \<Rightarrow> int \<Rightarrow> int" where
  "services_get_ocf_exitcode action lsb_exitcode =
     (if action = Some ''status''
      then if lsb_exitcode = LSB_STATUS_OK then OCF_OK
           else if lsb_exitcode = LSB_STATUS_VAR_PID then OCF_NOT_RUNNING
           else if lsb_exitcode = LSB_STATUS_VAR_LOCK then OCF_NOT_RUNNING
           else if lsb_exitcode = LSB_STATUS_NOT_RUNNING then OCF_NOT_RUNNING
           else if lsb_exitcode = LSB_STATUS_NOT_INSTALLED then OCF_UNKNOWN_ERROR
           else OCF_UNKNOWN_ERROR
      else if lsb_exitcode > LSB_NOT_RUNNING then OCF_UNKNOWN_ERROR
      else lsb_exitcode)"

section \<open>Actions and the state\<close>

record svc_opaque =
  op_exec :: cptr
  op_args :: "cptr list"
  op_repeat_timer :: nat
  op_callback :: "nat option"
  op_stderr_fd :: int
  op_stderr_gsource :: "nat option"
  op_stdout_fd :: int
  op_stdout_gsource :: "nat option"

record svc_action =
  op_id :: cptr
  op_rsc :: cptr
  op_action :: cptr
  op_interval :: int
  op_standard :: cptr
  op_provider :: cptr
  op_agent :: cptr
  op_timeout :: int
  op_params :: "(string \<times> string) list option"
  op_rc :: int
  op_pid :: int
  op_status :: int
  op_sequence :: int
  op_expected_rc :: int
  op_stderr_data :: cptr
  op_stdout_data :: cptr
  op_cb_data :: "nat option"
  op_opaque :: svc_opaque

text \<open>The object that the two calls of \<^verbatim>\<open>calloc\<close> give.\<close>

definition svc_calloc :: svc_action where
  "svc_calloc =
     \<lparr>op_id = None, op_rsc = None, op_action = None, op_interval = 0, op_standard = None, op_provider = None,
      op_agent = None, op_timeout = 0, op_params = None, op_rc = 0, op_pid = 0, op_status = 0, op_sequence = 0,
      op_expected_rc = 0, op_stderr_data = None, op_stdout_data = None, op_cb_data = None,
      op_opaque = \<lparr>op_exec = None, op_args = replicate 7 None, op_repeat_timer = 0, op_callback = None,
        op_stderr_fd = 0, op_stderr_gsource = None, op_stdout_fd = 0, op_stdout_gsource = None\<rparr>\<rparr>"

datatype svc_failure = NullDeref | UseAfterFree | AssertFailed | NoReturn | Overrun

text \<open>\<open>recurring_actions\<close> is \<open>None\<close> before the table is created; its keys are the identifiers of the actions.\<close>

record svc_state = mainloop +
  operations :: u32
  svc_heap :: "nat \<rightharpoonup> svc_action"
  svc_next :: nat
  recurring_actions :: "(string \<rightharpoonup> nat) option"
  open_fds :: "int set"
  svc_called :: "(nat \<times> svc_action) list"
  svc_killed :: "int list"
  svc_fault :: "svc_failure option"
  svc_registry :: "(string \<times> string) list"

type_synonym 'a svc_result = "svc_failure + 'a \<times> svc_state"

definition load :: "nat option \<Rightarrow> svc_state \<Rightarrow> svc_failure + svc_action" where
  "load p s =
     (case p of
        None \<Rightarrow> Inl NullDeref
      | Some a \<Rightarrow> (case svc_heap s a of None \<Rightarrow> Inl UseAfterFree | Some op \<Rightarrow> Inr op))"

definition store :: "nat \<Rightarrow> svc_action \<Rightarrow> svc_state \<Rightarrow> svc_state" where
  "store a op s = s\<lparr>svc_heap := (svc_heap s)(a \<mapsto> op)\<rparr>"

definition svc_alloc :: "svc_action \<Rightarrow> svc_state \<Rightarrow> nat \<times> svc_state" where
  "svc_alloc op s = (svc_next s, s\<lparr>svc_heap := (svc_heap s)(svc_next s \<mapsto> op), svc_next := Suc (svc_next s)\<rparr>)"

section \<open>Releasing an action\<close>

text \<open>Destroying the source of a pipe runs its destroy notification (\<open>pipe_out_done\<close>, \<open>pipe_err_done\<close>),
  which closes the descriptor unless it is one of the standard three.\<close>

definition close_fd :: "int \<Rightarrow> svc_state \<Rightarrow> svc_state" where
  "close_fd fd s = s\<lparr>open_fds := open_fds s - {fd}\<rparr>"

definition pipe_err_done :: "nat \<Rightarrow> svc_action \<Rightarrow> svc_state \<Rightarrow> svc_action \<times> svc_state" where
  "pipe_err_done a op s =
     (let op' = op\<lparr>op_opaque := (op_opaque op)\<lparr>op_stderr_gsource := None, op_stderr_fd := - 1\<rparr>\<rparr>;
          s' = (if op_stderr_fd (op_opaque op) > 2 then close_fd (op_stderr_fd (op_opaque op)) s else s)
      in (op', store a op' s'))"

definition pipe_out_done :: "nat \<Rightarrow> svc_action \<Rightarrow> svc_state \<Rightarrow> svc_action \<times> svc_state" where
  "pipe_out_done a op s =
     (let op' = op\<lparr>op_opaque := (op_opaque op)\<lparr>op_stdout_gsource := None, op_stdout_fd := - 1\<rparr>\<rparr>;
          s' = (if op_stdout_fd (op_opaque op) > 2 then close_fd (op_stdout_fd (op_opaque op)) s else s)
      in (op', store a op' s'))"

definition services_action_free :: "nat option \<Rightarrow> svc_state \<Rightarrow> unit svc_result" where
  "services_action_free p s =
     (case p of
        None \<Rightarrow> Inr ((), s)
      | Some a \<Rightarrow>
          (case load p s of
             Inl e \<Rightarrow> Inl e
           | Inr op \<Rightarrow>
               (let (op1, s1) = (case op_stderr_gsource (op_opaque op) of
                                   None \<Rightarrow> (op, s)
                                 | Some g \<Rightarrow> pipe_err_done a op (g_source_remove g s));
                    (op2, s2) = (case op_stdout_gsource (op_opaque op1) of
                                   None \<Rightarrow> (op1, s1)
                                 | Some g \<Rightarrow> pipe_out_done a op1 (g_source_remove g s1))
                in Inr ((), s2\<lparr>svc_heap := (svc_heap s2)(a := None)\<rparr>))))"

section \<open>Creating an action\<close>

definition OCF_ROOT :: string where "OCF_ROOT = ''/usr/lib/ocf''"
definition LSB_ROOT :: string where "LSB_ROOT = ''/etc/init.d''"
definition SYSTEMCTL :: string where "SYSTEMCTL = ''/bin/systemctl''"

definition action_id :: "string \<Rightarrow> string \<Rightarrow> int \<Rightarrow> string" where
  "action_id name action interval = name @ ''_'' @ action @ ''_'' @ show_int interval"

text \<open>\<open>resources_action_create\<close>. \<open>set_exec\<close> is \<open>services_os_set_exec\<close>; \<open>asprintf_ok\<close> says which of the two
  calls of \<^verbatim>\<open>asprintf\<close> on a path succeeds. The counter \<open>operations\<close> is a 32-bit integer.\<close>

definition resources_action_create ::
  "(svc_action \<Rightarrow> svc_action) \<Rightarrow> (nat \<Rightarrow> bool) \<Rightarrow> cptr \<Rightarrow> cptr \<Rightarrow> cptr \<Rightarrow> cptr \<Rightarrow> cptr \<Rightarrow> int \<Rightarrow> int
   \<Rightarrow> (string \<times> string) list option \<Rightarrow> svc_state \<Rightarrow> (nat option) svc_result" where
  "resources_action_create set_exec asprintf_ok name standard provider agent action interval timeout params s =
     (if mh_strlen_zero name then Inr (None, s)
      else if mh_strlen_zero standard then Inr (None, s)
      else if strcasecmp (the standard) ''ocf'' \<and> mh_strlen_zero provider then Inr (None, s)
      else if mh_strlen_zero agent then Inr (None, s)
      else if mh_strlen_zero action then Inr (None, s)
      else let s1 = s\<lparr>operations := operations s + 1\<rparr>;
               op = svc_calloc\<lparr>op_rsc := name, op_action := action, op_interval := interval, op_timeout := timeout,
                      op_standard := standard, op_agent := agent, op_sequence := int_of_u32 (operations s1)\<rparr>;
               (a, s2) = svc_alloc op s1;
               give_up = (\<lambda>s. case services_action_free (Some a) s of
                            Inl e \<Rightarrow> Inl e | Inr (_, s') \<Rightarrow> Inr (None, s'))
           in if \<not> asprintf_ok 0 then give_up s2
              else let op1 = op\<lparr>op_id := Some (action_id (the name) (the action) interval)\<rparr>;
                       exec = OCF_ROOT @ ''/resource.d/'' @ the provider @ ''/'' @ the agent
                   in if strcasecmp (the standard) ''ocf''
                      then if \<not> asprintf_ok 1
                           then give_up (store a (op1\<lparr>op_provider := provider, op_params := params\<rparr>) s2)
                           else Inr (Some a, store a (op1\<lparr>op_provider := provider, op_params := params,
                                  op_opaque := (op_opaque op1)\<lparr>op_exec := Some exec,
                                    op_args := (op_args (op_opaque op1))[0 := Some exec, 1 := action]\<rparr>\<rparr>) s2)
                      else if strcasecmp (the standard) ''lsb'' \<or> strcasecmp (the standard) ''windows''
                      then Inr (Some a, store a (set_exec op1) s2)
                      else if strcasecmp (the standard) ''systemd''
                      then let op2 = op1\<lparr>op_opaque := (op_opaque op1)\<lparr>op_exec := Some SYSTEMCTL,
                                    op_args := (op_args (op_opaque op1))[0 := Some SYSTEMCTL, 1 := action]\<rparr>\<rparr>
                           in if \<not> asprintf_ok 1 then give_up (store a op2 s2)
                              else Inr (Some a, store a (op2\<lparr>op_opaque := (op_opaque op2)\<lparr>
                                     op_args := (op_args (op_opaque op2))[2 := Some (the agent @ ''.service'')]\<rparr>\<rparr>) s2)
                      else give_up (store a op1 s2))"

definition services_action_create ::
  "(svc_action \<Rightarrow> svc_action) \<Rightarrow> (nat \<Rightarrow> bool) \<Rightarrow> cptr \<Rightarrow> cptr \<Rightarrow> int \<Rightarrow> int \<Rightarrow> svc_state \<Rightarrow> (nat option) svc_result" where
  "services_action_create set_exec asprintf_ok name action interval timeout s =
     resources_action_create set_exec asprintf_ok name (Some ''lsb'') None name action interval timeout None s"

text \<open>The loop of \<open>mh_services_action_create_generic\<close> over the given arguments.\<close>

fun generic_args :: "cptr list \<Rightarrow> nat \<Rightarrow> string list \<Rightarrow> cptr list" where
  "generic_args slots cur_arg [] = slots"
| "generic_args slots cur_arg (a # as) =
     (let slots' = slots[cur_arg := Some a]
      in if cur_arg = length slots - 1 then slots' else generic_args slots' (Suc cur_arg) as)"

definition mh_services_action_create_generic :: "string \<Rightarrow> string list \<Rightarrow> svc_state \<Rightarrow> nat \<times> svc_state" where
  "mh_services_action_create_generic exec args s =
     (let q = op_opaque svc_calloc
      in svc_alloc (svc_calloc\<lparr>op_opaque := q\<lparr>op_exec := Some exec,
           op_args := generic_args ((op_args q)[0 := Some exec]) 1 args\<rparr>\<rparr>) s)"

section \<open>Running and cancelling\<close>

definition services_action_cancel :: "string \<Rightarrow> string \<Rightarrow> int \<Rightarrow> svc_state \<Rightarrow> bool svc_result" where
  "services_action_cancel name action interval s =
     (let key = snprintf 512 (action_id name action interval)
      in case Option.bind (recurring_actions s) (\<lambda>t. t key) of
           None \<Rightarrow> Inr (False, s)
         | Some a \<Rightarrow>
             (case load (Some a) s of
                Inl e \<Rightarrow> Inl e
              | Inr op \<Rightarrow>
                  (let s1 = (if op_repeat_timer (op_opaque op) \<noteq> 0
                             then g_source_remove (op_repeat_timer (op_opaque op)) s else s)
                   in case services_action_free (Some a) s1 of
                        Inl e \<Rightarrow> Inl e
                      | Inr (_, s2) \<Rightarrow> Inr (True, s2))))"

text \<open>\<open>execute\<close> is \<open>services_os_action_execute\<close>. A NULL identifier cannot be a key of the table.\<close>

definition services_action_async ::
  "(nat \<Rightarrow> bool \<Rightarrow> svc_state \<Rightarrow> bool svc_result) \<Rightarrow> nat option \<Rightarrow> nat option \<Rightarrow> svc_state \<Rightarrow> bool svc_result" where
  "services_action_async execute p action_callback s =
     (case load p s of
        Inl e \<Rightarrow> Inl e
      | Inr op \<Rightarrow>
          (let a = the p;
               s1 = (case action_callback of
                       None \<Rightarrow> s
                     | Some f \<Rightarrow> store a (op\<lparr>op_opaque := (op_opaque op)\<lparr>op_callback := Some f\<rparr>\<rparr>) s);
               t = (case recurring_actions s1 of None \<Rightarrow> Map.empty | Some t \<Rightarrow> t);
               s2 = s1\<lparr>recurring_actions := Some t\<rparr>
           in if op_interval op > 0
              then (case op_id op of
                      None \<Rightarrow> Inl NullDeref
                    | Some i \<Rightarrow> execute a False (s2\<lparr>recurring_actions := Some (t(i \<mapsto> a))\<rparr>))
              else execute a False s2))"

definition services_action_sync ::
  "(nat \<Rightarrow> bool \<Rightarrow> svc_state \<Rightarrow> bool svc_result) \<Rightarrow> nat option \<Rightarrow> svc_state \<Rightarrow> bool svc_result" where
  "services_action_sync execute p s =
     (case load p s of Inl e \<Rightarrow> Inl e | Inr op \<Rightarrow> execute (the p) True s)"

section \<open>Listing\<close>

definition get_directory_list :: "(string \<Rightarrow> bool \<Rightarrow> string list) \<Rightarrow> string \<Rightarrow> bool \<Rightarrow> string list" where
  "get_directory_list os_list root files = os_list root files"

text \<open>The Linux build.\<close>

definition resources_list_standards :: "'w file_ops \<Rightarrow> 'w \<Rightarrow> string list" where
  "resources_list_standards fo w =
     ([] @ [''ocf'']) @ [''lsb''] @ (if file_is_regular fo w SYSTEMCTL then [''systemd''] else [])"

definition resources_list_providers :: "string list \<Rightarrow> string \<Rightarrow> string list" where
  "resources_list_providers ocf_providers standard =
     (if strcasecmp standard ''ocf'' then ocf_providers else [])"

text \<open>\<open>ocf_agents\<close>, \<open>os_services\<close> and \<open>systemd_services\<close> are the listings of the operating system layer;
  the last one runs a program, so it has an effect.\<close>

definition resources_list_agents ::
  "(cptr \<Rightarrow> string list) \<Rightarrow> string list \<Rightarrow> (svc_state \<Rightarrow> (string list) svc_result) \<Rightarrow> string \<Rightarrow> cptr
   \<Rightarrow> svc_state \<Rightarrow> (string list) svc_result" where
  "resources_list_agents ocf_agents os_services systemd_services standard provider s =
     (if strcasecmp standard ''ocf'' then Inr (ocf_agents provider, s)
      else if strcasecmp standard ''lsb'' \<or> strcasecmp standard ''windows'' then Inr (os_services, s)
      else if strcasecmp standard ''systemd'' then systemd_services s
      else Inr ([], s))"

definition services_list ::
  "(cptr \<Rightarrow> string list) \<Rightarrow> string list \<Rightarrow> (svc_state \<Rightarrow> (string list) svc_result) \<Rightarrow> svc_state
   \<Rightarrow> (string list) svc_result" where
  "services_list ocf_agents os_services systemd_services s =
     resources_list_agents ocf_agents os_services systemd_services ''lsb'' None s"

section \<open>Lemmas\<close>

named_theorems svc_simps

lemma load_simps [svc_simps]:
  "load None s = Inl NullDeref"
  "svc_heap s a = None \<Longrightarrow> load (Some a) s = Inl UseAfterFree"
  "svc_heap s a = Some op \<Longrightarrow> load (Some a) s = Inr op"
  by (simp_all add: load_def)

lemma store_simps [simp]:
  "svc_heap (store a op s) = (svc_heap s)(a \<mapsto> op)"
  "recurring_actions (store a op s) = recurring_actions s"
  "operations (store a op s) = operations s"
  "svc_next (store a op s) = svc_next s"
  "open_fds (store a op s) = open_fds s"
  "svc_called (store a op s) = svc_called s"
  "svc_killed (store a op s) = svc_killed s"
  "svc_fault (store a op s) = svc_fault s"
  "svc_registry (store a op s) = svc_registry s"
  "ml_sources (store a op s) = ml_sources s"
  "process_table (store a op s) = process_table s"
  "mainloop_signals (store a op s) = mainloop_signals s"
  "installed (store a op s) = installed s"
  by (simp_all add: store_def)

lemma close_fd_simps [simp]:
  "svc_heap (close_fd fd s) = svc_heap s"
  "recurring_actions (close_fd fd s) = recurring_actions s"
  "operations (close_fd fd s) = operations s"
  "svc_next (close_fd fd s) = svc_next s"
  "open_fds (close_fd fd s) = open_fds s - {fd}"
  "svc_called (close_fd fd s) = svc_called s"
  "svc_killed (close_fd fd s) = svc_killed s"
  "svc_fault (close_fd fd s) = svc_fault s"
  "svc_registry (close_fd fd s) = svc_registry s"
  "ml_sources (close_fd fd s) = ml_sources s"
  "process_table (close_fd fd s) = process_table s"
  "mainloop_signals (close_fd fd s) = mainloop_signals s"
  "installed (close_fd fd s) = installed s"
  by (simp_all add: close_fd_def)

lemma g_source_remove_simps [simp]:
  "svc_heap (g_source_remove i s) = svc_heap s"
  "recurring_actions (g_source_remove i s) = recurring_actions s"
  "operations (g_source_remove i s) = operations s"
  "svc_next (g_source_remove i s) = svc_next s"
  "open_fds (g_source_remove i s) = open_fds s"
  "svc_called (g_source_remove i s) = svc_called s"
  "svc_killed (g_source_remove i s) = svc_killed s"
  "svc_fault (g_source_remove i s) = svc_fault s"
  "svc_registry (g_source_remove i s) = svc_registry s"
  "ml_sources (g_source_remove i s) = (ml_sources s)(i := None)"
  "process_table (g_source_remove i s) = process_table s"
  "mainloop_signals (g_source_remove i s) = mainloop_signals s"
  "installed (g_source_remove i s) = installed s"
  by (simp_all add: g_source_remove_def)

text \<open>What releasing an action does: exactly that object is gone, only the sources of its pipes are
  removed and only their descriptors are closed.\<close>

definition freed :: "nat \<Rightarrow> svc_action \<Rightarrow> svc_state \<Rightarrow> svc_state" where
  "freed a op s =
     s\<lparr>ml_sources := (\<lambda>i. if op_stderr_gsource (op_opaque op) = Some i \<or> op_stdout_gsource (op_opaque op) = Some i
                        then None else ml_sources s i),
       svc_heap := (svc_heap s)(a := None),
       open_fds := open_fds s - {fd. 2 < fd \<and>
         (op_stderr_gsource (op_opaque op) \<noteq> None \<and> fd = op_stderr_fd (op_opaque op) \<or>
          op_stdout_gsource (op_opaque op) \<noteq> None \<and> fd = op_stdout_fd (op_opaque op))}\<rparr>"

lemma services_action_free_live:
  assumes "svc_heap s a = Some op"
  shows "services_action_free (Some a) s = Inr ((), freed a op s)"
  using assms
  by (cases "op_stderr_gsource (op_opaque op)"; cases "op_stdout_gsource (op_opaque op)")
    (auto simp: services_action_free_def svc_simps pipe_err_done_def pipe_out_done_def Let_def fun_eq_iff freed_def
      intro!: svc_state.equality)

lemma freed_simps [simp]:
  "svc_heap (freed a op s) = (svc_heap s)(a := None)"
  "recurring_actions (freed a op s) = recurring_actions s"
  "operations (freed a op s) = operations s"
  "svc_next (freed a op s) = svc_next s"
  "svc_called (freed a op s) = svc_called s"
  "svc_killed (freed a op s) = svc_killed s"
  "svc_fault (freed a op s) = svc_fault s"
  "svc_registry (freed a op s) = svc_registry s"
  "process_table (freed a op s) = process_table s"
  "mainloop_signals (freed a op s) = mainloop_signals s"
  "installed (freed a op s) = installed s"
  by (simp_all add: freed_def)

lemma services_action_free_dead: "svc_heap s a = None \<Longrightarrow> services_action_free (Some a) s = Inl UseAfterFree"
  by (simp add: services_action_free_def svc_simps)

text \<open>The identifiers of actions: two names and actions can share one, because the separator may occur
  in both; without the separator in the names and actions they do not.\<close>

lemma split_at_first:
  "a @ c # x = b @ c # y \<Longrightarrow> c \<notin> set a \<Longrightarrow> c \<notin> set b \<Longrightarrow> a = b \<and> x = y"
proof (induction a arbitrary: b)
  case Nil
  then show ?case by (cases b) auto
next
  case (Cons d a)
  then show ?case by (cases b) auto
qed

lemma action_id_inject:
  assumes "action_id n a i = action_id n' a' i'" "CHR ''_'' \<notin> set n" "CHR ''_'' \<notin> set n'"
    "CHR ''_'' \<notin> set a" "CHR ''_'' \<notin> set a'"
  shows "n = n' \<and> a = a' \<and> i = i'"
proof -
  have "n @ CHR ''_'' # (a @ CHR ''_'' # show_int i) = n' @ CHR ''_'' # (a' @ CHR ''_'' # show_int i')"
    using assms(1) by (simp add: action_id_def)
  from split_at_first [OF this assms(2,3)] have "n = n'" "a @ CHR ''_'' # show_int i = a' @ CHR ''_'' # show_int i'"
    by simp_all
  with split_at_first [OF this(2) assms(4,5)] show ?thesis by simp
qed

text \<open>The state in which \<open>services_action_async\<close> calls the operating system layer.\<close>

definition async_setup :: "nat \<Rightarrow> nat option \<Rightarrow> svc_action \<Rightarrow> svc_state \<Rightarrow> svc_state" where
  "async_setup a cb op s =
     (let op1 = (case cb of None \<Rightarrow> op | Some f \<Rightarrow> op\<lparr>op_opaque := (op_opaque op)\<lparr>op_callback := Some f\<rparr>\<rparr>);
          t = (case recurring_actions s of None \<Rightarrow> Map.empty | Some t \<Rightarrow> t)
      in (store a op1 s)\<lparr>recurring_actions := Some (if op_interval op > 0 then t(the (op_id op) \<mapsto> a) else t)\<rparr>)"

lemma services_action_async_eq:
  assumes "svc_heap s a = Some op" "op_id op = Some i"
  shows "services_action_async execute (Some a) cb s = execute a False (async_setup a cb op s)"
proof (cases cb)
  case None
  have "store a op s = s" using assms(1) by (simp add: store_def fun_upd_idem)
  then show ?thesis using assms None
    by (simp add: services_action_async_def async_setup_def svc_simps Let_def)
next
  case (Some f)
  then show ?thesis using assms
    by (simp add: services_action_async_def async_setup_def svc_simps Let_def)
qed

lemma async_setup_heap:
  "\<exists>op1. svc_heap (async_setup a cb op s) = (svc_heap s)(a \<mapsto> op1) \<and> op_id op1 = op_id op \<and>
     op_interval op1 = op_interval op \<and> op_pid op1 = op_pid op"
  by (cases cb) (auto simp: async_setup_def Let_def)

section \<open>The contract of the operating system layer\<close>

definition args_ready :: "svc_action \<Rightarrow> bool" where
  "args_ready op \<longleftrightarrow> length (op_args (op_opaque op)) = 7 \<and> None \<in> set (op_args (op_opaque op)) \<and>
     op_exec (op_opaque op) \<noteq> None \<and> op_args (op_opaque op) ! 0 = op_exec (op_opaque op)"

definition heap_ok :: "svc_state \<Rightarrow> bool" where
  "heap_ok s \<longleftrightarrow> (\<forall>a\<ge>svc_next s. svc_heap s a = None)"

locale service_executor =
  fixes set_exec :: "svc_action \<Rightarrow> svc_action"
    and execute :: "nat \<Rightarrow> bool \<Rightarrow> svc_state \<Rightarrow> bool svc_result"
  assumes set_exec_opaque: "\<exists>q. set_exec op = op\<lparr>op_opaque := q\<rparr>"
    and execute_dead: "svc_heap s a = None \<Longrightarrow> execute a sync s = Inl UseAfterFree"
    and execute_frame: "svc_heap s a = Some op \<Longrightarrow> execute a sync s = Inr (ok, s') \<Longrightarrow>
      recurring_actions s' = recurring_actions s \<and> operations s' = operations s \<and> svc_next s' = svc_next s \<and>
      (\<exists>op'. svc_heap s' = (svc_heap s)(a \<mapsto> op') \<and> op_id op' = op_id op \<and> op_interval op' = op_interval op)"
begin

text \<open>A started action is in the table of recurring actions exactly when its interval is positive.\<close>

lemma async_registers:
  assumes "svc_heap s a = Some op" "op_id op = Some i" "services_action_async execute (Some a) cb s = Inr (ok, s')"
  shows "recurring_actions s' = Some (let t = (case recurring_actions s of None \<Rightarrow> Map.empty | Some t \<Rightarrow> t)
      in if op_interval op > 0 then t(i \<mapsto> a) else t)"
    "\<exists>op'. svc_heap s' = (svc_heap s)(a \<mapsto> op') \<and> op_id op' = Some i \<and> op_interval op' = op_interval op"
proof -
  let ?t = "case recurring_actions s of None \<Rightarrow> Map.empty | Some t \<Rightarrow> t"
  define s1 where "s1 = async_setup a cb op s"
  obtain op1 where s1_heap: "svc_heap s1 = (svc_heap s)(a \<mapsto> op1)" and op1: "op_id op1 = op_id op" "op_interval op1 = op_interval op"
    using async_setup_heap [of a cb op s] unfolding s1_def by blast
  have s1: "execute a False s1 = Inr (ok, s')"
    using assms services_action_async_eq [OF assms(1,2)] by (simp add: s1_def)
  have rec: "recurring_actions s1 = Some (if op_interval op > 0 then ?t(i \<mapsto> a) else ?t)"
    using assms(2) by (simp add: s1_def async_setup_def Let_def)
  have h: "svc_heap s1 a = Some op1" by (simp add: s1_heap)
  from execute_frame [OF h s1] obtain op' where
    "recurring_actions s' = recurring_actions s1" "svc_heap s' = (svc_heap s1)(a \<mapsto> op')"
    "op_id op' = op_id op1" "op_interval op' = op_interval op1" by blast
  with rec op1 assms(2) s1_heap
  show "recurring_actions s' = Some (let t = ?t in if op_interval op > 0 then t(i \<mapsto> a) else t)"
    "\<exists>op'. svc_heap s' = (svc_heap s)(a \<mapsto> op') \<and> op_id op' = Some i \<and> op_interval op' = op_interval op"
    by (simp_all add: Let_def) blast
qed

end

locale service_backend = service_executor +
  assumes set_exec_ready: "op_args (op_opaque op) = replicate 7 None \<Longrightarrow> args_ready (set_exec op)"
begin

text \<open>A valid request of a known standard gives a new object that carries the request, has a NULL
  terminated argument vector that begins with the program, and has the next sequence number.\<close>

lemma create_known:
  assumes "name \<noteq> []" "agent \<noteq> []" "action \<noteq> []" "\<And>k. asprintf_ok k" "heap_ok s"
    "strcasecmp standard ''ocf'' \<and> \<not> mh_strlen_zero provider \<or> strcasecmp standard ''lsb'' \<or>
     strcasecmp standard ''windows'' \<or> strcasecmp standard ''systemd''"
  shows "\<exists>op s'. resources_action_create set_exec asprintf_ok (Some name) (Some standard) provider (Some agent)
      (Some action) interval timeout params s = Inr (Some (svc_next s), s') \<and>
    svc_heap s' = (svc_heap s)(svc_next s \<mapsto> op) \<and> heap_ok s' \<and> recurring_actions s' = recurring_actions s \<and>
    op_id op = Some (action_id name action interval) \<and> op_rsc op = Some name \<and> op_action op = Some action \<and>
    op_interval op = interval \<and> op_timeout op = timeout \<and> op_agent op = Some agent \<and>
    op_rc op = 0 \<and> op_sequence op = int_of_u32 (operations s + 1) \<and> operations s' = operations s + 1 \<and>
    args_ready op"
proof -
  have six: "replicate 7 (None :: cptr) = [None, None, None, None, None, None, None]" by (simp add: eval_nat_numeral)
  have ne: "standard \<noteq> []" using assms(6) by auto
  have oth: "\<not> strcasecmp standard ''lsb'' \<and> \<not> strcasecmp standard ''windows'' \<and> \<not> strcasecmp standard ''systemd''"
    if "strcasecmp standard ''ocf''"
    using that by (auto simp: strcasecmp_def tolower_def)
  have sys: "\<not> strcasecmp standard ''lsb'' \<and> \<not> strcasecmp standard ''windows'' \<and> \<not> strcasecmp standard ''ocf''"
    if "strcasecmp standard ''systemd''"
    using that by (auto simp: strcasecmp_def tolower_def)
  have lsb: "\<not> strcasecmp standard ''ocf''" if "strcasecmp standard ''lsb'' \<or> strcasecmp standard ''windows''"
    using that by (auto simp: strcasecmp_def tolower_def)
  have heap: "\<forall>a\<ge>svc_next s. svc_heap s a = None" using assms(5) by (simp add: heap_ok_def)
  let ?create = "resources_action_create set_exec asprintf_ok (Some name) (Some standard) provider (Some agent)
      (Some action) interval timeout params s"
  let ?base = "svc_calloc\<lparr>op_rsc := Some name, op_action := Some action, op_interval := interval,
      op_timeout := timeout, op_standard := Some standard, op_agent := Some agent,
      op_sequence := int_of_u32 (operations s + 1)\<rparr>"
  let ?s2 = "snd (svc_alloc ?base (s\<lparr>operations := operations s + 1\<rparr>))"
  let ?op1 = "?base\<lparr>op_id := Some (action_id name action interval)\<rparr>"
  have fin: ?thesis if "?create = Inr (Some (svc_next s), store (svc_next s) op ?s2)"
    "op = ?op1\<lparr>op_provider := pr, op_params := ps, op_opaque := q\<rparr>" "args_ready op" for op pr ps q
    using that heap by (intro exI [of _ op] exI [of _ "store (svc_next s) op ?s2"] conjI) (simp_all add: svc_alloc_def heap_ok_def svc_calloc_def)
  consider p where "strcasecmp standard ''ocf''" "provider = Some p" "p \<noteq> []"
    | "strcasecmp standard ''lsb'' \<or> strcasecmp standard ''windows''" | "strcasecmp standard ''systemd''"
    using assms(6) by (cases provider) (auto simp: mh_strlen_zero_def)
  then show ?thesis
  proof cases
    case 1
    let ?exec = "OCF_ROOT @ ''/resource.d/'' @ p @ ''/'' @ agent"
    show ?thesis
      by (rule fin [where pr = provider and ps = params and
            q = "(op_opaque ?op1)\<lparr>op_exec := Some ?exec, op_args := (op_args (op_opaque ?op1))[0 := Some ?exec, 1 := Some action]\<rparr>", OF _ refl])
        (use 1 oth assms(1-4) ne in \<open>simp_all add: resources_action_create_def mh_strlen_zero_def svc_alloc_def
          svc_calloc_def args_ready_def six Let_def\<close>)
  next
    case 2
    obtain q where q: "set_exec ?op1 = ?op1\<lparr>op_opaque := q\<rparr>" using set_exec_opaque by blast
    have "args_ready (set_exec ?op1)" by (rule set_exec_ready) (simp add: svc_calloc_def)
    then show ?thesis
      by (intro fin [where op = "set_exec ?op1" and pr = None and ps = None and q = q])
        (use 2 lsb assms(1-4) ne q in \<open>simp_all add: resources_action_create_def mh_strlen_zero_def svc_alloc_def
          svc_calloc_def Let_def\<close>)
  next
    case 3
    show ?thesis
      by (rule fin [where pr = None and ps = None and
            q = "(op_opaque ?op1)\<lparr>op_exec := Some SYSTEMCTL,
              op_args := (op_args (op_opaque ?op1))[0 := Some SYSTEMCTL, 1 := Some action, 2 := Some (agent @ ''.service'')]\<rparr>", OF _ refl])
        (use 3 sys assms(1-4) ne in \<open>simp_all add: resources_action_create_def mh_strlen_zero_def svc_alloc_def
          svc_calloc_def args_ready_def six Let_def\<close>)
  qed
qed

end

lemma create_invalid:
  assumes "mh_strlen_zero name \<or> mh_strlen_zero standard \<or>
    strcasecmp (the standard) ''ocf'' \<and> mh_strlen_zero provider \<or> mh_strlen_zero agent \<or> mh_strlen_zero action"
  shows "resources_action_create set_exec asprintf_ok name standard provider agent action interval timeout params s
    = Inr (None, s)"
  using assms by (auto simp: resources_action_create_def)

end
