(* ===== verification/Services_Linux.thy ===== *)
theory Services_Linux
  imports Services
begin

text \<open>
  \<^verbatim>\<open>src/src/lib/services_linux.c\<close>: running an action as a child process, synchronously or tracked by the
  main loop, collecting its output, and listing services and resource agents.

  \<open>exec_env\<close> holds what the kernel answers during one call of \<open>services_os_action_execute\<close>: the two
  pipes (whether \<^verbatim>\<open>pipe\<close> succeeds, and the two descriptors, whose values are indeterminate when it
  fails), the result of \<^verbatim>\<open>fork\<close> in the parent, the results of \<^verbatim>\<open>waitpid\<close>, and for each descriptor the
  results of \<^verbatim>\<open>read\<close> in order. A list of read results that ends while the code still reads is \<open>NoReturn\<close>.
  The child's side of the \<^verbatim>\<open>fork\<close> is \<open>child_process\<close>.
\<close>

section \<open>Output of a child\<close>

record read_res =
  rd_rc :: int
  rd_errno :: int
  rd_data :: string

definition buf_read_len :: int where "buf_read_len = 499"

text \<open>The \<open>do\<close> loop of \<open>read_output\<close>. \<open>data\<close> is the C string collected so far and \<open>len\<close> the offset of the
  next write; text that is written behind a NUL does not become part of the string. The result is the
  final \<open>data\<close> and \<open>rc\<close>.\<close>

fun read_loop :: "read_res list \<Rightarrow> cptr \<Rightarrow> nat \<Rightarrow> (cptr \<times> int) option" where
  "read_loop [] data len = None"
| "read_loop (r # rs) data len =
     (if rd_rc r > 0
      then let d = (case data of None \<Rightarrow> [] | Some d \<Rightarrow> d);
               data' = Some (if length d = len then d @ cstr_of (rd_data r) else d);
               len' = len + nat (rd_rc r)
           in if rd_rc r = buf_read_len then read_loop rs data' len' else Some (data', rd_rc r)
      else if rd_errno r \<noteq> EINTR then Some (data, 0)
      else if rd_rc r < 0 then read_loop rs data len
      else Some (data, rd_rc r))"

definition read_output :: "read_res list \<Rightarrow> int \<Rightarrow> svc_action \<Rightarrow> (int \<times> svc_action) option" where
  "read_output reads fd op =
     (let is_err = (fd = op_stderr_fd (op_opaque op));
          data = (if is_err then op_stderr_data op else op_stdout_data op);
          len = (case data of None \<Rightarrow> 0 | Some d \<Rightarrow> length d)
      in case read_loop reads data len of
           None \<Rightarrow> None
         | Some (data', rc) \<Rightarrow>
             Some (rc, if data' \<noteq> None \<and> is_err then op\<lparr>op_stderr_data := data'\<rparr>
                       else if data' \<noteq> None then op\<lparr>op_stdout_data := data'\<rparr>
                       else op))"

section \<open>Environment of an OCF agent\<close>

type_synonym environ = "string \<rightharpoonup> string"

definition set_ocf_env :: "string \<Rightarrow> string \<Rightarrow> environ \<Rightarrow> environ" where
  "set_ocf_env key value env = env(key \<mapsto> value)"

definition set_ocf_env_with_prefix :: "string \<Rightarrow> string \<Rightarrow> environ \<Rightarrow> environ" where
  "set_ocf_env_with_prefix key value env = set_ocf_env (snprintf 500 (''OCF_RESKEY_'' @ key)) value env"

definition add_OCF_env_vars :: "svc_action \<Rightarrow> environ \<Rightarrow> environ" where
  "add_OCF_env_vars op env =
     (if op_standard op = None \<or> \<not> strcasecmp ''ocf'' (the (op_standard op)) then env
      else let e1 = (case op_params op of
                       None \<Rightarrow> env
                     | Some ps \<Rightarrow> fold (\<lambda>(k, v). set_ocf_env_with_prefix k v) ps env);
               e2 = set_ocf_env ''OCF_RA_VERSION_MAJOR'' ''1'' e1;
               e3 = set_ocf_env ''OCF_RA_VERSION_MINOR'' ''0'' e2;
               e4 = set_ocf_env ''OCF_ROOT'' OCF_ROOT e3;
               e5 = (case op_rsc op of None \<Rightarrow> e4 | Some v \<Rightarrow> set_ocf_env ''OCF_RESOURCE_INSTANCE'' v e4);
               e6 = (case op_agent op of None \<Rightarrow> e5 | Some v \<Rightarrow> set_ocf_env ''OCF_RESOURCE_TYPE'' v e5)
           in case op_provider op of None \<Rightarrow> e6 | Some v \<Rightarrow> set_ocf_env ''OCF_RESOURCE_PROVIDER'' v e6)"

section \<open>The child process\<close>

definition ENOENT :: int where "ENOENT = 2"
definition EACCES :: int where "EACCES = 13"
definition EISDIR :: int where "EISDIR = 21"

text \<open>The descriptor table of the child, a map to open files: the pipe ends \<open>(out0, out1)\<close> and
  \<open>(err0, err1)\<close>, and the size of the table.\<close>

definition child_fds :: "int \<Rightarrow> int \<times> int \<Rightarrow> int \<times> int \<Rightarrow> (int \<rightharpoonup> 'f) \<Rightarrow> (int \<rightharpoonup> 'f)" where
  "child_fds dtablesize outp errp tbl =
     (let t1 = (tbl(fst outp := None))(fst errp := None);
          t2 = (if snd outp \<noteq> 1 then (t1(1 := t1 (snd outp)))(snd outp := None) else t1);
          t3 = (if snd errp \<noteq> 2 then (t2(2 := t2 (snd errp)))(snd errp := None) else t2)
      in (\<lambda>fd. if 2 < fd \<and> fd < dtablesize then None else t3 fd))"

text \<open>The arguments \<^verbatim>\<open>execvp\<close> sees: the slots before the first NULL, \<open>None\<close> when no slot is NULL and it
  reads behind the array.\<close>

definition exec_argv :: "cptr list \<Rightarrow> string list option" where
  "exec_argv slots =
     (if None \<in> set slots then Some (map the (takeWhile (\<lambda>a. a \<noteq> None) slots)) else None)"

datatype child_end = Exec cptr "string list" environ | Exit_child int | Args_overrun

definition child_process :: "int option \<Rightarrow> svc_action \<Rightarrow> environ \<Rightarrow> child_end" where
  "child_process exec_errno op env =
     (case exec_argv (op_args (op_opaque op)) of
        None \<Rightarrow> Args_overrun
      | Some argv \<Rightarrow>
          (case exec_errno of
             None \<Rightarrow> Exec (op_exec (op_opaque op)) argv (add_OCF_env_vars op env)
           | Some e \<Rightarrow> Exit_child (if e = ENOENT \<or> e = EISDIR then OCF_NOT_INSTALLED
                                    else if e = EACCES then OCF_INSUFFICIENT_PRIV
                                    else OCF_UNKNOWN_ERROR)))"

section \<open>Running an action\<close>

record exec_env =
  ee_pipe_out :: "bool \<times> int \<times> int"
  ee_pipe_err :: "bool \<times> int \<times> int"
  ee_fork :: int
  ee_waitpid :: "nat \<Rightarrow> int \<times> int"
  ee_reads :: "int \<Rightarrow> read_res list"
  ee_new_id :: id_source

definition do_pipe :: "bool \<times> int \<times> int \<Rightarrow> svc_state \<Rightarrow> svc_state" where
  "do_pipe p s = (case p of (ok, r, w) \<Rightarrow> if ok then s\<lparr>open_fds := open_fds s \<union> {r, w}\<rparr> else s)"

text \<open>The \<open>while\<close> loop of the synchronous branch, one poll per second; the second component of a
  \<^verbatim>\<open>waitpid\<close> result is the status it stores when it reaps the child.\<close>

function wait_loop :: "(nat \<Rightarrow> int \<times> int) \<Rightarrow> nat \<Rightarrow> int \<Rightarrow> int \<Rightarrow> int \<times> int" where
  "wait_loop waitpid k timeout status =
     (if timeout > 0
      then if fst (waitpid k) \<le> 0 then wait_loop waitpid (Suc k) (timeout - 1) status
           else (timeout, snd (waitpid k))
      else (timeout, status))"
  by pat_completeness auto
termination by (relation "measure (\<lambda>(w, k, t, st). nat t)") auto

declare wait_loop.simps [simp del]

definition sync_outcome :: "svc_action \<Rightarrow> int \<times> int \<Rightarrow> svc_action" where
  "sync_outcome op r =
     (case r of (timeout, status) \<Rightarrow>
        if timeout = 0 then op\<lparr>op_status := LRM_OP_TIMEOUT\<rparr>
        else if WIFEXITED status then op\<lparr>op_status := LRM_OP_DONE, op_rc := WEXITSTATUS status\<rparr>
        else if WIFSIGNALED status then op\<lparr>op_status := LRM_OP_ERROR\<rparr>
        else op)"

definition fn_operation_finished :: nat where "fn_operation_finished = 1"
definition fn_read_output :: nat where "fn_read_output = 2"
definition fn_pipe_out_done :: nat where "fn_pipe_out_done = 3"
definition fn_pipe_err_done :: nat where "fn_pipe_err_done = 4"

definition execute_sync :: "exec_env \<Rightarrow> nat \<Rightarrow> svc_action \<Rightarrow> svc_state \<Rightarrow> bool svc_result" where
  "execute_sync env a op s =
     (let r = wait_loop (ee_waitpid env) 0 (1 + c_div (op_timeout op) 1000) 0;
          s1 = (if fst r = 0 then s\<lparr>svc_killed := svc_killed s @ [op_pid op]\<rparr> else s);
          op1 = sync_outcome op r;
          out_fd = op_stdout_fd (op_opaque op);
          err_fd = op_stderr_fd (op_opaque op)
      in case read_output (ee_reads env out_fd) out_fd op1 of
           None \<Rightarrow> Inl NoReturn
         | Some (_, op2) \<Rightarrow>
             (case read_output (ee_reads env err_fd) err_fd op2 of
                None \<Rightarrow> Inl NoReturn
              | Some (_, op3) \<Rightarrow> Inr (True, store a op3 s1)))"

definition execute_async :: "exec_env \<Rightarrow> nat \<Rightarrow> svc_action \<Rightarrow> svc_state \<Rightarrow> bool svc_result" where
  "execute_async env a op s =
     (case op_id op of
        None \<Rightarrow> Inl NullDeref
      | Some desc \<Rightarrow>
          (let s1 = mainloop_add_child (ee_new_id env) (op_pid op) (op_timeout op) desc (Some a)
                      fn_operation_finished s;
               (out, s2) = mainloop_add_fd (ee_new_id env) G_PRIORITY_LOW (op_stdout_fd (op_opaque op))
                             (Some fn_read_output) (Some fn_pipe_out_done) a s1;
               (err, s3) = mainloop_add_fd (ee_new_id env) G_PRIORITY_LOW (op_stderr_fd (op_opaque op))
                             (Some fn_read_output) (Some fn_pipe_err_done) a s2
           in Inr (True, store a (op\<lparr>op_opaque := (op_opaque op)\<lparr>op_stdout_gsource := Some (fd_id out),
                                     op_stderr_gsource := Some (fd_id err)\<rparr>\<rparr>) s3)))"

definition services_os_action_execute :: "exec_env \<Rightarrow> nat \<Rightarrow> bool \<Rightarrow> svc_state \<Rightarrow> bool svc_result" where
  "services_os_action_execute env a synchronous s =
     (case load (Some a) s of
        Inl e \<Rightarrow> Inl e
      | Inr op \<Rightarrow>
          (let (out0, out1) = snd (ee_pipe_out env);
               (err0, err1) = snd (ee_pipe_err env);
               s1 = do_pipe (ee_pipe_err env) (do_pipe (ee_pipe_out env) s);
               op1 = op\<lparr>op_pid := ee_fork env\<rparr>
           in if ee_fork env = - 1
              then Inr (False, store a op1 (close_fd err1 (close_fd err0 (close_fd out1 (close_fd out0 s1)))))
              else let s2 = close_fd err1 (close_fd out1 s1);
                       op2 = op1\<lparr>op_opaque := (op_opaque op1)\<lparr>op_stdout_fd := out0, op_stderr_fd := err0\<rparr>\<rparr>
                   in if synchronous then execute_sync env a op2 (store a op2 s2)
                      else execute_async env a op2 (store a op2 s2)))"

section \<open>Completion of a tracked action\<close>

text \<open>The lines of output that are logged, one per iteration of the \<open>do\<close> loops.\<close>

function output_lines :: "string \<Rightarrow> string list" where
  "output_lines offset =
     (let line = takeWhile (\<lambda>c. c \<noteq> CHR 0x0A) offset;
          next = tl (strchrnul offset (CHR 0x0A))
      in if next \<noteq> [] then line # output_lines next else [line])"
  by pat_completeness auto
termination by (relation "measure length") (auto dest: length_tl_strchrnul)

declare output_lines.simps [simp del]

definition finished_action :: "mainloop_child \<Rightarrow> int \<Rightarrow> int \<Rightarrow> svc_action \<Rightarrow> svc_action" where
  "finished_action p signo exitcode op =
     (if signo \<noteq> 0
      then if ch_timeout p then op\<lparr>op_status := LRM_OP_TIMEOUT, op_rc := OCF_TIMEOUT\<rparr>
           else op\<lparr>op_status := LRM_OP_ERROR, op_rc := OCF_SIGNAL\<rparr>
      else op\<lparr>op_status := LRM_OP_DONE, op_rc := exitcode\<rparr>)"

definition operation_finished ::
  "id_source \<Rightarrow> mainloop_child \<Rightarrow> int \<Rightarrow> int \<Rightarrow> int \<Rightarrow> svc_state \<Rightarrow> unit svc_result" where
  "operation_finished new_id p status signo exitcode s =
     (case load (ch_privatedata p) s of
        Inl e \<Rightarrow> Inl e
      | Inr op \<Rightarrow>
          if op_pid op \<noteq> ch_pid p then Inl AssertFailed
          else let a = the (ch_privatedata p);
                   op1 = finished_action p signo exitcode op;
                   (op2, s1) =
                     (if op_interval op1 \<noteq> 0
                      then case attach new_id (RepeatTimer (word_of_int (op_interval op1)) a) s of (i, s') \<Rightarrow>
                             (op1\<lparr>op_opaque := (op_opaque op1)\<lparr>op_repeat_timer := i\<rparr>\<rparr>, s')
                      else (op1, s));
                   op3 = op2\<lparr>op_pid := 0\<rparr>;
                   s2 = store a op3 s1;
                   s3 = (case op_callback (op_opaque op3) of
                           None \<Rightarrow> s2 | Some f \<Rightarrow> s2\<lparr>svc_called := svc_called s2 @ [(f, op3)]\<rparr>)
               in if op_interval op1 \<noteq> 0 then Inr ((), s3) else services_action_free (Some a) s3)"

definition operation_finished_cb ::
  "id_source \<Rightarrow> mainloop_child \<Rightarrow> int \<Rightarrow> int \<Rightarrow> int \<Rightarrow> svc_state \<Rightarrow> svc_state" where
  "operation_finished_cb new_id p status signo exitcode s =
     (case operation_finished new_id p status signo exitcode s of
        Inl e \<Rightarrow> s\<lparr>svc_fault := Some e\<rparr>
      | Inr (_, s') \<Rightarrow> s')"

definition recurring_action_timer :: "exec_env \<Rightarrow> nat \<Rightarrow> svc_state \<Rightarrow> bool svc_result" where
  "recurring_action_timer env a s =
     (case load (Some a) s of
        Inl e \<Rightarrow> Inl e
      | Inr op \<Rightarrow>
          (case services_action_async (services_os_action_execute env) (Some a) None
                  (store a (op\<lparr>op_stdout_data := None, op_stderr_data := None\<rparr>) s) of
             Inl e \<Rightarrow> Inl e
           | Inr (_, s') \<Rightarrow> Inr (False, s')))"

section \<open>Commands and listings\<close>

definition services_os_set_exec :: "svc_action \<Rightarrow> svc_action" where
  "services_os_set_exec op =
     (let run = (\<lambda>exec last. op\<lparr>op_opaque := (op_opaque op)\<lparr>op_exec := Some exec,
                   op_args := (op_args (op_opaque op))[0 := Some exec, 1 := op_agent op, 2 := last, 3 := None]\<rparr>\<rparr>)
      in if op_action op = Some ''enable'' then run ''/sbin/chkconfig'' (Some ''on'')
         else if op_action op = Some ''disable'' then run ''/sbin/chkconfig'' (Some ''off'')
         else run ''/sbin/service'' (op_action op))"

definition S_ISDIR :: "u32 \<Rightarrow> bool" where "S_ISDIR m \<longleftrightarrow> m AND 0xF000 = 0x4000"
definition S_ISREG :: "u32 \<Rightarrow> bool" where "S_ISREG m \<longleftrightarrow> m AND 0xF000 = 0x8000"
definition S_IXUSR :: u32 where "S_IXUSR = 64"
definition S_IXGRP :: u32 where "S_IXGRP = 8"
definition S_IXOTH :: u32 where "S_IXOTH = 1"

text \<open>The body of the loop over the directory entries: whether an entry of that mode is kept.\<close>

definition keep_entry :: "bool \<Rightarrow> u32 \<Rightarrow> bool" where
  "keep_entry files mode =
     (if S_ISDIR mode then \<not> files
      else if S_ISREG mode
      then files \<and> \<not> (mode AND S_IXUSR = 0 \<and> mode AND S_IXGRP = 0 \<and> mode AND S_IXOTH = 0)
      else True)"

text \<open>\<open>scandir\<close> gives the sorted names, \<open>None\<close> on failure; \<open>st\<close> is the mode \<^verbatim>\<open>stat\<close> stores for a path
  (indeterminate when it fails).\<close>

fun directory_loop :: "(string \<Rightarrow> u32) \<Rightarrow> string \<Rightarrow> bool \<Rightarrow> string list \<Rightarrow> string list \<Rightarrow> string list" where
  "directory_loop st root files [] list = list"
| "directory_loop st root files (n # ns) list =
     (if take 1 n = ''.'' then directory_loop st root files ns list
      else if \<not> keep_entry files (st (snprintf 4096 (root @ ''/'' @ n))) then directory_loop st root files ns list
      else directory_loop st root files ns (list @ [n]))"

definition services_os_get_directory_list ::
  "(string \<Rightarrow> string list option) \<Rightarrow> (string \<Rightarrow> u32) \<Rightarrow> string \<Rightarrow> bool \<Rightarrow> string list" where
  "services_os_get_directory_list scandir st root files =
     (case scandir root of None \<Rightarrow> [] | Some names \<Rightarrow> directory_loop st root files names [])"

definition services_os_list :: "(string \<Rightarrow> string list option) \<Rightarrow> (string \<Rightarrow> u32) \<Rightarrow> string list" where
  "services_os_list scandir st = get_directory_list (services_os_get_directory_list scandir st) LSB_ROOT True"

definition resources_os_list_ocf_providers :: "(string \<Rightarrow> string list option) \<Rightarrow> (string \<Rightarrow> u32) \<Rightarrow> string list" where
  "resources_os_list_ocf_providers scandir st =
     get_directory_list (services_os_get_directory_list scandir st) (OCF_ROOT @ ''/resource.d'') False"

definition resources_os_list_ocf_agents ::
  "(string \<Rightarrow> string list option) \<Rightarrow> (string \<Rightarrow> u32) \<Rightarrow> cptr \<Rightarrow> string list" where
  "resources_os_list_ocf_agents scandir st provider =
     (case provider of
        None \<Rightarrow> []
      | Some p \<Rightarrow> get_directory_list (services_os_get_directory_list scandir st)
                    (snprintf 500 (OCF_ROOT @ ''//resource.d/'' @ p)) True)"

text \<open>The loop over the lines of \<^verbatim>\<open>systemctl list-units\<close>: it moves to the next line and takes the text up
  to \<^verbatim>\<open>.service\<close>.\<close>

function systemd_names :: "string \<Rightarrow> string list" where
  "systemd_names ptr =
     (case strchr ptr (CHR 0x0A) of
        None \<Rightarrow> []
      | Some r \<Rightarrow>
          (let line = tl r
           in case strstr line ''.service'' of
                None \<Rightarrow> []
              | Some e \<Rightarrow> take (length line - length e) line # systemd_names line))"
  by pat_completeness auto
termination
proof (relation "measure length")
  fix ptr r line e
  assume "strchr ptr (CHR 0x0A) = Some r" "line = tl r"
  then show "(line, ptr) \<in> measure length" by (auto simp: strchr_Some)
qed simp

declare systemd_names.simps [simp del]

definition systemd_args :: "string list" where
  "systemd_args = [''list-units'', ''--all'', ''--type=service'', ''--full'', ''--no-pager'']"

definition resources_os_list_systemd_services :: "exec_env \<Rightarrow> svc_state \<Rightarrow> (string list) svc_result" where
  "resources_os_list_systemd_services env s =
     (case mh_services_action_create_generic SYSTEMCTL systemd_args s of (a, s1) \<Rightarrow>
        (case services_action_sync (services_os_action_execute env) (Some a) s1 of
           Inl e \<Rightarrow> Inl e
         | Inr (ok, s2) \<Rightarrow>
             if \<not> ok
             then (case services_action_free (Some a) s2 of Inl e \<Rightarrow> Inl e | Inr (_, s3) \<Rightarrow> Inr ([], s3))
             else (case load (Some a) s2 of
                     Inl e \<Rightarrow> Inl e
                   | Inr op \<Rightarrow>
                       (case op_stdout_data op of
                          None \<Rightarrow> Inl NullDeref
                        | Some out \<Rightarrow>
                            (case services_action_free (Some a) s2 of
                               Inl e \<Rightarrow> Inl e
                             | Inr (_, s3) \<Rightarrow> Inr (systemd_names out, s3))))))"

section \<open>Lemmas: the parent\<close>

lemma mainloop_add_child_frame:
  obtains t src where "mainloop_add_child new_id pid timeout desc pd cb s = s\<lparr>process_table := Some t, ml_sources := src\<rparr>"
    "t = (case process_table s of None \<Rightarrow> Map.empty | Some t \<Rightarrow> t)
       (\<bar>pid\<bar> \<mapsto> \<lparr>ch_pid = pid, ch_desc = desc, ch_timerid = (if timeout \<noteq> 0 then new_id (ml_sources s) else 0),
                ch_timeout = False, ch_privatedata = pd, ch_callback = cb\<rparr>)"
    "src = (if timeout \<noteq> 0 then (ml_sources s)(new_id (ml_sources s) \<mapsto> ChildTimer (word_of_int timeout) pid)
            else ml_sources s)"
proof (cases "timeout = 0")
  case True
  show ?thesis by (rule that [OF _ refl refl]) (simp add: mainloop_add_child_def True)
next
  case False
  show ?thesis by (rule that [OF _ refl refl]) (simp add: mainloop_add_child_def attach_pair False)
qed

lemma mainloop_add_fd_eq:
  "mainloop_add_fd new_id prio fd d n u s =
     (\<lparr>fd_id = new_id (ml_sources s), fd_fd = fd,
       fd_events = G_IO_ERR OR G_IO_NVAL OR G_IO_IN OR G_IO_PRI OR G_IO_HUP,
       fd_revents = 0, fd_user_data = u, fd_dnotify = n, fd_dispatch = d\<rparr>,
      s\<lparr>ml_sources := (ml_sources s)(new_id (ml_sources s) \<mapsto> FdSource prio fd)\<rparr>)"
  by (simp add: mainloop_add_fd_def attach_pair)

lemma read_output_frame:
  assumes "read_output reads fd op = Some (rc, op')"
  shows "\<exists>o1 e1. op' = op\<lparr>op_stdout_data := o1, op_stderr_data := e1\<rparr>"
proof -
  obtain data' where "op' = (if data' \<noteq> None \<and> fd = op_stderr_fd (op_opaque op) then op\<lparr>op_stderr_data := data'\<rparr>
      else if data' \<noteq> None then op\<lparr>op_stdout_data := data'\<rparr> else op)"
    using assms unfolding read_output_def Let_def by (auto split: option.splits prod.splits)
  then have "op' = op\<lparr>op_stdout_data := op_stdout_data op', op_stderr_data := op_stderr_data op'\<rparr>"
    by (simp split: if_splits)
  then show ?thesis by blast
qed

lemma do_pipe_simps [simp]:
  "svc_heap (do_pipe p s) = svc_heap s"
  "recurring_actions (do_pipe p s) = recurring_actions s"
  "operations (do_pipe p s) = operations s"
  "svc_next (do_pipe p s) = svc_next s"
  "svc_called (do_pipe p s) = svc_called s"
  "svc_killed (do_pipe p s) = svc_killed s"
  "svc_fault (do_pipe p s) = svc_fault s"
  "ml_sources (do_pipe p s) = ml_sources s"
  "process_table (do_pipe p s) = process_table s"
  "mainloop_signals (do_pipe p s) = mainloop_signals s"
  "installed (do_pipe p s) = installed s"
  "open_fds (do_pipe p s) = (if fst p then open_fds s \<union> {fst (snd p), snd (snd p)} else open_fds s)"
  by (simp_all add: do_pipe_def split: prod.splits)

text \<open>The fields of an action that running it does not change.\<close>

definition same_request :: "svc_action \<Rightarrow> svc_action \<Rightarrow> bool" where
  "same_request op op' \<longleftrightarrow> op_id op' = op_id op \<and> op_cb_data op' = op_cb_data op \<and>
     op_interval op' = op_interval op \<and> op_timeout op' = op_timeout op \<and>
     op_callback (op_opaque op') = op_callback (op_opaque op) \<and>
     op_repeat_timer (op_opaque op') = op_repeat_timer (op_opaque op)"

lemma execute_sync_frame:
  assumes "execute_sync env a op s = Inr (ok, s')"
  shows "ok \<and> recurring_actions s' = recurring_actions s \<and> operations s' = operations s \<and> svc_next s' = svc_next s \<and>
    ml_sources s' = ml_sources s \<and> process_table s' = process_table s \<and> open_fds s' = open_fds s \<and>
    (\<exists>o1 e1. svc_heap s' = (svc_heap s)(a \<mapsto>
       (sync_outcome op (wait_loop (ee_waitpid env) 0 (1 + c_div (op_timeout op) 1000) 0))
         \<lparr>op_stdout_data := o1, op_stderr_data := e1\<rparr>)) \<and>
    svc_killed s' = svc_killed s @
      (if fst (wait_loop (ee_waitpid env) 0 (1 + c_div (op_timeout op) 1000) 0) = 0 then [op_pid op] else [])"
proof -
  let ?r = "wait_loop (ee_waitpid env) 0 (1 + c_div (op_timeout op) 1000) 0"
  obtain rc1 op2 rc2 op3 where r: "read_output (ee_reads env (op_stdout_fd (op_opaque op))) (op_stdout_fd (op_opaque op))
      (sync_outcome op ?r) = Some (rc1, op2)"
    "read_output (ee_reads env (op_stderr_fd (op_opaque op))) (op_stderr_fd (op_opaque op)) op2 = Some (rc2, op3)"
    and s': "ok" "s' = store a op3 (if fst ?r = 0 then s\<lparr>svc_killed := svc_killed s @ [op_pid op]\<rparr> else s)"
    using assms by (auto simp: execute_sync_def Let_def split: option.splits prod.splits)
  obtain o1 e1 where "op2 = (sync_outcome op ?r)\<lparr>op_stdout_data := o1, op_stderr_data := e1\<rparr>"
    using read_output_frame [OF r(1)] by blast
  moreover obtain o2 e2 where "op3 = op2\<lparr>op_stdout_data := o2, op_stderr_data := e2\<rparr>"
    using read_output_frame [OF r(2)] by blast
  ultimately have "op3 = (sync_outcome op ?r)\<lparr>op_stdout_data := o2, op_stderr_data := e2\<rparr>" by simp
  with s' show ?thesis by auto
qed

lemma sync_outcome_request: "same_request op (sync_outcome op r)"
  by (simp add: same_request_def sync_outcome_def split: prod.splits)

lemma execute_async_eq:
  assumes "op_id op = Some desc"
  obtains t src og eg where "execute_async env a op s = Inr (True,
      store a (op\<lparr>op_opaque := (op_opaque op)\<lparr>op_stdout_gsource := Some og, op_stderr_gsource := Some eg\<rparr>\<rparr>)
        (s\<lparr>process_table := Some t, ml_sources := src\<rparr>))"
    "t = (case process_table s of None \<Rightarrow> Map.empty | Some t \<Rightarrow> t)
       (\<bar>op_pid op\<bar> \<mapsto> \<lparr>ch_pid = op_pid op, ch_desc = desc,
          ch_timerid = (if op_timeout op \<noteq> 0 then ee_new_id env (ml_sources s) else 0),
          ch_timeout = False, ch_privatedata = Some a, ch_callback = fn_operation_finished\<rparr>)"
    "src = (if op_timeout op \<noteq> 0
            then (ml_sources s)(ee_new_id env (ml_sources s) \<mapsto> ChildTimer (word_of_int (op_timeout op)) (op_pid op))
            else ml_sources s)(og \<mapsto> FdSource G_PRIORITY_LOW (op_stdout_fd (op_opaque op)),
                               eg \<mapsto> FdSource G_PRIORITY_LOW (op_stderr_fd (op_opaque op)))"
proof -
  obtain t src where add: "mainloop_add_child (ee_new_id env) (op_pid op) (op_timeout op) desc (Some a)
      fn_operation_finished s = s\<lparr>process_table := Some t, ml_sources := src\<rparr>"
    and t: "t = (case process_table s of None \<Rightarrow> Map.empty | Some t \<Rightarrow> t)
       (\<bar>op_pid op\<bar> \<mapsto> \<lparr>ch_pid = op_pid op, ch_desc = desc,
          ch_timerid = (if op_timeout op \<noteq> 0 then ee_new_id env (ml_sources s) else 0),
          ch_timeout = False, ch_privatedata = Some a, ch_callback = fn_operation_finished\<rparr>)"
    and src: "src = (if op_timeout op \<noteq> 0
            then (ml_sources s)(ee_new_id env (ml_sources s) \<mapsto> ChildTimer (word_of_int (op_timeout op)) (op_pid op))
            else ml_sources s)"
    by (rule mainloop_add_child_frame)
  define og where "og = ee_new_id env src"
  define eg where "eg = ee_new_id env (src(og \<mapsto> FdSource G_PRIORITY_LOW (op_stdout_fd (op_opaque op))))"
  show ?thesis
    by (rule that [where og = og and eg = eg, OF _ t]) (simp_all add: execute_async_def assms add mainloop_add_fd_eq og_def eg_def src)
qed

lemma execute_frame_linux:
  assumes "svc_heap s a = Some op" "services_os_action_execute env a sync s = Inr (ok, s')"
  shows "recurring_actions s' = recurring_actions s" "operations s' = operations s" "svc_next s' = svc_next s"
    "\<exists>op'. svc_heap s' = (svc_heap s)(a \<mapsto> op') \<and> same_request op op'"
proof -
  obtain out0 out1 err0 err1 where pipes: "snd (ee_pipe_out env) = (out0, out1)" "snd (ee_pipe_err env) = (err0, err1)"
    by fastforce
  define op2 where "op2 = op\<lparr>op_pid := ee_fork env, op_opaque := (op_opaque op)\<lparr>op_stdout_fd := out0, op_stderr_fd := err0\<rparr>\<rparr>"
  define s2 where "s2 = store a op2 (close_fd err1 (close_fd out1 (do_pipe (ee_pipe_err env) (do_pipe (ee_pipe_out env) s))))"
  have req: "same_request op op2" by (simp add: op2_def same_request_def)
  have ex: "services_os_action_execute env a sync s =
      (if ee_fork env = - 1
       then Inr (False, store a (op\<lparr>op_pid := ee_fork env\<rparr>) (close_fd err1 (close_fd err0 (close_fd out1
              (close_fd out0 (do_pipe (ee_pipe_err env) (do_pipe (ee_pipe_out env) s)))))))
       else if sync then execute_sync env a op2 s2 else execute_async env a op2 s2)"
    using assms(1) by (simp add: services_os_action_execute_def svc_simps pipes Let_def op2_def s2_def)
  have "recurring_actions s' = recurring_actions s \<and> operations s' = operations s \<and> svc_next s' = svc_next s \<and>
    (\<exists>op'. svc_heap s' = (svc_heap s)(a \<mapsto> op') \<and> same_request op op')"
  proof (cases "ee_fork env = - 1")
    case True
    then show ?thesis using assms(2) ex by (auto simp: same_request_def)
  next
    case False
    show ?thesis
    proof (cases sync)
      case True
      then have "execute_sync env a op2 s2 = Inr (ok, s')" using assms(2) ex False by simp
      from execute_sync_frame [OF this] obtain r o1 e1 where
        "svc_heap s' = (svc_heap s2)(a \<mapsto> (sync_outcome op2 r)\<lparr>op_stdout_data := o1, op_stderr_data := e1\<rparr>)"
        "recurring_actions s' = recurring_actions s2" "operations s' = operations s2" "svc_next s' = svc_next s2"
        by blast
      moreover have "same_request op ((sync_outcome op2 r)\<lparr>op_stdout_data := o1, op_stderr_data := e1\<rparr>)"
        using req sync_outcome_request [of op2 r] by (simp add: same_request_def)
      ultimately show ?thesis
        by (intro conjI exI [of _ "(sync_outcome op2 r)\<lparr>op_stdout_data := o1, op_stderr_data := e1\<rparr>"])
          (simp_all add: s2_def)
    next
      case async: False
      then have r: "execute_async env a op2 s2 = Inr (ok, s')" using assms(2) ex False by simp
      then obtain desc where "op_id op2 = Some desc" by (cases "op_id op2") (auto simp: execute_async_def)
      then obtain t src og eg where "execute_async env a op2 s2 = Inr (True,
          store a (op2\<lparr>op_opaque := (op_opaque op2)\<lparr>op_stdout_gsource := Some og, op_stderr_gsource := Some eg\<rparr>\<rparr>)
            (s2\<lparr>process_table := Some t, ml_sources := src\<rparr>))"
        by (rule execute_async_eq)
      with r have s': "s' = store a (op2\<lparr>op_opaque := (op_opaque op2)\<lparr>op_stdout_gsource := Some og, op_stderr_gsource := Some eg\<rparr>\<rparr>)
            (s2\<lparr>process_table := Some t, ml_sources := src\<rparr>)" by simp
      show ?thesis
        by (intro conjI exI [of _ "op2\<lparr>op_opaque := (op_opaque op2)\<lparr>op_stdout_gsource := Some og, op_stderr_gsource := Some eg\<rparr>\<rparr>"])
          (use req in \<open>simp_all add: s' s2_def same_request_def\<close>)
    qed
  qed
  then show "recurring_actions s' = recurring_actions s" "operations s' = operations s" "svc_next s' = svc_next s"
    "\<exists>op'. svc_heap s' = (svc_heap s)(a \<mapsto> op') \<and> same_request op op'" by blast+
qed

interpretation linux: service_backend services_os_set_exec "services_os_action_execute env"
proof
  show "\<exists>q. services_os_set_exec op = op\<lparr>op_opaque := q\<rparr>" for op
    by (rule exI [of _ "op_opaque (services_os_set_exec op)"]) (simp add: services_os_set_exec_def Let_def)
  show "args_ready (services_os_set_exec op)" if "op_args (op_opaque op) = replicate 7 None" for op
    using that by (simp add: services_os_set_exec_def Let_def args_ready_def eval_nat_numeral)
  show "services_os_action_execute env a sync s = Inl UseAfterFree" if "svc_heap s a = None" for s a sync
    using that by (simp add: services_os_action_execute_def svc_simps)
  show "recurring_actions s' = recurring_actions s \<and> operations s' = operations s \<and> svc_next s' = svc_next s \<and>
      (\<exists>op'. svc_heap s' = (svc_heap s)(a \<mapsto> op') \<and> op_id op' = op_id op \<and> op_interval op' = op_interval op)"
    if "svc_heap s a = Some op" "services_os_action_execute env a sync s = Inr (ok, s')" for s a op sync ok s'
    using execute_frame_linux [OF that] by (auto simp: same_request_def)
qed

section \<open>Lemmas: waiting and reading\<close>

lemma wait_loop_found:
  "\<forall>j<k. fst (w (n + j)) \<le> 0 \<Longrightarrow> 0 < fst (w (n + k)) \<Longrightarrow> int k < t \<Longrightarrow>
   wait_loop w n t st = (t - int k, snd (w (n + k)))"
proof (induction k arbitrary: n t)
  case 0
  then show ?case by (subst wait_loop.simps) simp
next
  case (Suc k)
  have "fst (w n) \<le> 0" using Suc.prems(1) by (metis add_0_right zero_less_Suc)
  then have "wait_loop w n t st = wait_loop w (Suc n) (t - 1) st"
    using Suc.prems(3) by (subst wait_loop.simps) simp
  also have "\<dots> = (t - 1 - int k, snd (w (Suc n + k)))"
    using Suc.prems by (intro Suc.IH) (auto simp: less_Suc_eq_0_disj)
  finally show ?case by simp
qed

lemma wait_loop_timeout:
  "\<forall>j<m. fst (w (n + j)) \<le> 0 \<Longrightarrow> wait_loop w n (int m) st = (0, st)"
proof (induction m arbitrary: n)
  case 0
  then show ?case by (subst wait_loop.simps) simp
next
  case (Suc m)
  have "fst (w n) \<le> 0" using Suc.prems by (metis add_0_right zero_less_Suc)
  then have "wait_loop w n (int (Suc m)) st = wait_loop w (Suc n) (int m) st"
    by (subst wait_loop.simps) simp
  also have "\<dots> = (0, st)" using Suc.prems by (intro Suc.IH) (auto simp: less_Suc_eq_0_disj)
  finally show ?case .
qed

lemma wait_loop_nonpos: "t \<le> 0 \<Longrightarrow> wait_loop w n t st = (t, st)"
  by (subst wait_loop.simps) simp

text \<open>A read result that makes the loop read again, and a list of results that ends it.\<close>

definition reads_on :: "read_res \<Rightarrow> bool" where
  "reads_on r \<longleftrightarrow> rd_rc r = buf_read_len \<or> rd_rc r < 0 \<and> rd_errno r = EINTR"

definition reads_end :: "read_res list \<Rightarrow> bool" where
  "reads_end rs \<longleftrightarrow> (\<exists>r\<in>set rs. \<not> reads_on r)"

lemma read_loop_returns: "reads_end rs \<Longrightarrow> \<exists>d rc. read_loop rs data len = Some (d, rc)"
proof (induction rs arbitrary: data len)
  case (Cons r rs)
  show ?case
  proof (cases "reads_on r")
    case True
    then have "reads_end rs" using Cons.prems by (simp add: reads_end_def)
    with True Cons.IH show ?thesis by (auto simp: reads_on_def buf_read_len_def Let_def)
  next
    case False
    then show ?thesis by (auto simp: reads_on_def Let_def)
  qed
qed (simp add: reads_end_def)

lemma read_output_returns:
  assumes "reads_end rs"
  shows "\<exists>rc op'. read_output rs fd op = Some (rc, op')"
proof -
  let ?data = "if fd = op_stderr_fd (op_opaque op) then op_stderr_data op else op_stdout_data op"
  obtain d rc where "read_loop rs ?data (case ?data of None \<Rightarrow> 0 | Some d \<Rightarrow> length d) = Some (d, rc)"
    using read_loop_returns [OF assms] by blast
  then show ?thesis by (simp add: read_output_def Let_def)
qed

lemma execute_sync_returns:
  assumes "\<And>fd. reads_end (ee_reads env fd)"
  shows "\<exists>s'. execute_sync env a op s = Inr (True, s')"
proof -
  obtain rc1 op2 where r1: "read_output (ee_reads env (op_stdout_fd (op_opaque op))) (op_stdout_fd (op_opaque op))
      (sync_outcome op (wait_loop (ee_waitpid env) 0 (1 + c_div (op_timeout op) 1000) 0)) = Some (rc1, op2)"
    using read_output_returns [OF assms] by blast
  obtain rc2 op3 where "read_output (ee_reads env (op_stderr_fd (op_opaque op))) (op_stderr_fd (op_opaque op)) op2 =
      Some (rc2, op3)"
    using read_output_returns [OF assms] by blast
  with r1 show ?thesis by (simp add: execute_sync_def Let_def)
qed

text \<open>The parent of a successful \<^verbatim>\<open>fork\<close> in the synchronous case, in closed form.\<close>

lemma execute_sync_parent:
  assumes "svc_heap s a = Some op" "ee_fork env \<noteq> - 1" "\<And>fd. reads_end (ee_reads env fd)"
    "snd (ee_pipe_out env) = (out0, out1)" "snd (ee_pipe_err env) = (err0, err1)"
  shows "\<exists>s' op' o1 e1. services_os_action_execute env a True s = Inr (True, s') \<and>
    svc_heap s' = (svc_heap s)(a \<mapsto> op') \<and>
    op' = (sync_outcome (op\<lparr>op_pid := ee_fork env, op_opaque := (op_opaque op)\<lparr>op_stdout_fd := out0, op_stderr_fd := err0\<rparr>\<rparr>)
             (wait_loop (ee_waitpid env) 0 (1 + c_div (op_timeout op) 1000) 0))\<lparr>op_stdout_data := o1, op_stderr_data := e1\<rparr> \<and>
    svc_killed s' = svc_killed s @
      (if fst (wait_loop (ee_waitpid env) 0 (1 + c_div (op_timeout op) 1000) 0) = 0 then [ee_fork env] else []) \<and>
    open_fds s' = open_fds (do_pipe (ee_pipe_err env) (do_pipe (ee_pipe_out env) s)) - {out1} - {err1} \<and>
    ml_sources s' = ml_sources s"
proof -
  define op2 where "op2 = op\<lparr>op_pid := ee_fork env, op_opaque := (op_opaque op)\<lparr>op_stdout_fd := out0, op_stderr_fd := err0\<rparr>\<rparr>"
  define s2 where "s2 = store a op2 (close_fd err1 (close_fd out1 (do_pipe (ee_pipe_err env) (do_pipe (ee_pipe_out env) s))))"
  have ex: "services_os_action_execute env a True s = execute_sync env a op2 s2"
    using assms(1,2) by (simp add: services_os_action_execute_def svc_simps assms(4,5) Let_def op2_def s2_def)
  obtain s' where s': "execute_sync env a op2 s2 = Inr (True, s')"
    using execute_sync_returns [of env, OF assms(3)] by blast
  from execute_sync_frame [OF s'] obtain o1 e1 where
    "svc_heap s' = (svc_heap s2)(a \<mapsto> (sync_outcome op2
       (wait_loop (ee_waitpid env) 0 (1 + c_div (op_timeout op2) 1000) 0))\<lparr>op_stdout_data := o1, op_stderr_data := e1\<rparr>)"
    "svc_killed s' = svc_killed s2 @
      (if fst (wait_loop (ee_waitpid env) 0 (1 + c_div (op_timeout op2) 1000) 0) = 0 then [op_pid op2] else [])"
    "open_fds s' = open_fds s2" "ml_sources s' = ml_sources s2" by blast
  then show ?thesis unfolding ex
    by (intro exI conjI) (rule s', simp_all add: s2_def op2_def)
qed

lemma c_div_nonneg: "0 \<le> t \<Longrightarrow> c_div t 1000 = t div 1000"
  by (cases "t = 0") (simp_all add: c_div_def)

lemma c_div_minus: "t \<le> - 2000 \<Longrightarrow> 1 + c_div t 1000 < 0"
proof -
  assume t: "t \<le> - 2000"
  then have "2 \<le> (- t) div 1000" by linarith
  moreover have "c_div t 1000 = - ((- t) div 1000)" using t by (simp add: c_div_def)
  ultimately show ?thesis by linarith
qed

section \<open>Properties\<close>

text \<open>C6: Running an action synchronously returns, if \<^verbatim>\<open>fork\<close> succeeds and reading the child's pipes comes to an end. The
  child is polled once a second, once for each whole second of the timeout and one extra time. A child that
  has ended at one of these polls is reported with its exit code, or as an error when a signal ended it; a child that
  is still running then is killed and reported as timed out. In the two latter cases the result code of
  the action keeps its old value. But with a timeout of minus two seconds or less (which is what an unsigned timeout
  of \<open>2 ^ 31\<close> milliseconds or more becomes, but for the last two seconds below \<open>2 ^ 32\<close>) there is no poll: the child is left running and the action is reported
  as done with the exit code 0.\<close>

theorem services_sync_outcome:
  assumes "svc_heap s a = Some op" "ee_fork env \<noteq> - 1" "\<And>fd. reads_end (ee_reads env fd)"
    and T: "T = 1 + c_div (op_timeout op) 1000"
  shows "\<exists>s' op'. services_action_sync (services_os_action_execute env) (Some a) s = Inr (True, s') \<and>
    svc_heap s' a = Some op' \<and>
    (\<forall>k. int k < T \<and> (\<forall>j<k. fst (ee_waitpid env j) \<le> 0) \<and> 0 < fst (ee_waitpid env k) \<longrightarrow>
       svc_killed s' = svc_killed s \<and>
       (WIFEXITED (snd (ee_waitpid env k)) \<longrightarrow>
          op_status op' = LRM_OP_DONE \<and> op_rc op' = WEXITSTATUS (snd (ee_waitpid env k))) \<and>
       (WIFSIGNALED (snd (ee_waitpid env k)) \<longrightarrow> op_status op' = LRM_OP_ERROR \<and> op_rc op' = op_rc op)) \<and>
    (0 \<le> T \<and> (\<forall>j. int j < T \<longrightarrow> fst (ee_waitpid env j) \<le> 0) \<longrightarrow>
       op_status op' = LRM_OP_TIMEOUT \<and> op_rc op' = op_rc op \<and> svc_killed s' = svc_killed s @ [ee_fork env]) \<and>
    (T < 0 \<longrightarrow> op_status op' = LRM_OP_DONE \<and> op_rc op' = 0 \<and> svc_killed s' = svc_killed s)"
proof -
  let ?r = "wait_loop (ee_waitpid env) 0 T 0"
  obtain out0 out1 err0 err1 where pipes: "snd (ee_pipe_out env) = (out0, out1)" "snd (ee_pipe_err env) = (err0, err1)"
    by fastforce
  define op2 where "op2 = op\<lparr>op_pid := ee_fork env, op_opaque := (op_opaque op)\<lparr>op_stdout_fd := out0, op_stderr_fd := err0\<rparr>\<rparr>"
  obtain s' op' o1 e1 where run: "services_os_action_execute env a True s = Inr (True, s')"
    "svc_heap s' a = Some op'" "op' = (sync_outcome op2 ?r)\<lparr>op_stdout_data := o1, op_stderr_data := e1\<rparr>"
    "svc_killed s' = svc_killed s @ (if fst ?r = 0 then [ee_fork env] else [])"
    using execute_sync_parent [OF assms(1-3) pipes] by (auto simp: T op2_def)
  have sync: "services_action_sync (services_os_action_execute env) (Some a) s = Inr (True, s')"
    using assms(1) run(1) by (simp add: services_action_sync_def svc_simps)
  have found: "svc_killed s' = svc_killed s \<and>
       (WIFEXITED (snd (ee_waitpid env k)) \<longrightarrow>
          op_status op' = LRM_OP_DONE \<and> op_rc op' = WEXITSTATUS (snd (ee_waitpid env k))) \<and>
       (WIFSIGNALED (snd (ee_waitpid env k)) \<longrightarrow> op_status op' = LRM_OP_ERROR \<and> op_rc op' = op_rc op)"
    if "int k < T" "\<forall>j<k. fst (ee_waitpid env j) \<le> 0" "0 < fst (ee_waitpid env k)" for k
  proof -
    have r: "?r = (T - int k, snd (ee_waitpid env k))"
      using wait_loop_found [of k "ee_waitpid env" 0 T 0] that by simp
    have ne: "T - int k \<noteq> 0" using that(1) by simp
    show ?thesis using ne unfolding run(3,4) r
      by (simp add: sync_outcome_def op2_def WIFEXITED_def WIFSIGNALED_def)
  qed
  have late: "op_status op' = LRM_OP_TIMEOUT \<and> op_rc op' = op_rc op \<and> svc_killed s' = svc_killed s @ [ee_fork env]"
    if "0 \<le> T" "\<forall>j. int j < T \<longrightarrow> fst (ee_waitpid env j) \<le> 0"
  proof -
    have "?r = (0, 0)" using wait_loop_timeout [of "nat T" "ee_waitpid env" 0 0] that by simp
    then show ?thesis unfolding run(3,4) by (simp add: sync_outcome_def op2_def)
  qed
  have none: "op_status op' = LRM_OP_DONE \<and> op_rc op' = 0 \<and> svc_killed s' = svc_killed s" if "T < 0"
  proof -
    have r: "?r = (T, 0)" using wait_loop_nonpos [of T] that by simp
    show ?thesis using wait_status_exit [of 0] that unfolding run(3,4) r by (simp add: sync_outcome_def op2_def)
  qed
  show ?thesis using sync run(2) found late none by blast
qed

text \<open>A concrete state with one action, and a kernel that lets the child exit with code 3 at the second
  poll.\<close>

definition svc_init :: svc_state where
  "svc_init = \<lparr>process_table = None, mainloop_signals = replicate 65 None, ml_sources = Map.empty, installed = {},
     operations = 0, svc_heap = Map.empty, svc_next = 1, recurring_actions = None, open_fds = {0, 1, 2},
     svc_called = [], svc_killed = [], svc_fault = None, svc_registry = []\<rparr>"

definition demo_action :: svc_action where
  "demo_action = svc_calloc\<lparr>op_id := Some ''x_start_0'', op_timeout := 5000\<rparr>"

definition demo_state :: svc_state where
  "demo_state = svc_init\<lparr>svc_heap := [7 \<mapsto> demo_action], svc_next := 8\<rparr>"

definition demo_env :: "(nat \<Rightarrow> int \<times> int) \<Rightarrow> exec_env" where
  "demo_env w = \<lparr>ee_pipe_out = (True, 10, 11), ee_pipe_err = (True, 12, 13), ee_fork = 42, ee_waitpid = w,
     ee_reads = (\<lambda>fd. [\<lparr>rd_rc = 0, rd_errno = 0, rd_data = []\<rparr>]), ee_new_id = least_id\<rparr>"

lemma demo_env_reads: "reads_end (ee_reads (demo_env w) fd)"
  by (simp add: demo_env_def reads_end_def reads_on_def buf_read_len_def)

theorem services_sync_outcome_witness:
  "\<exists>s' op'. services_action_sync (services_os_action_execute (demo_env (\<lambda>k. if k = 0 then (0, 0) else (42, 768))))
      (Some 7) demo_state = Inr (True, s') \<and> svc_heap s' 7 = Some op' \<and> op_rc op' = 3 \<and> op_status op' = LRM_OP_DONE"
proof -
  let ?w = "\<lambda>k :: nat. if k = 0 then (0, 0) else (42, 768 :: int)"
  have h: "svc_heap demo_state 7 = Some demo_action" by (simp add: demo_state_def)
  have e: "ee_fork (demo_env ?w) \<noteq> - 1" "6 = 1 + c_div (op_timeout demo_action) 1000"
    by (simp_all add: demo_env_def demo_action_def c_div_nonneg)
  have st: "WIFEXITED 768" "WEXITSTATUS 768 = 3" using wait_status_exit [of 3] by simp_all
  let ?wp = "ee_waitpid (demo_env ?w)"
  obtain s' op' where r: "services_action_sync (services_os_action_execute (demo_env ?w)) (Some 7) demo_state = Inr (True, s')"
    "svc_heap s' 7 = Some op'" and ended: "\<And>k. int k < 6 \<and> (\<forall>j<k. fst (?wp j) \<le> 0) \<and>
       0 < fst (?wp k) \<Longrightarrow> WIFEXITED (snd (?wp k)) \<Longrightarrow> op_status op' = LRM_OP_DONE \<and> op_rc op' = WEXITSTATUS (snd (?wp k))"
    using services_sync_outcome [OF h e(1) demo_env_reads e(2)] by blast
  have "op_status op' = LRM_OP_DONE \<and> op_rc op' = WEXITSTATUS (snd (?wp 1))"
    by (rule ended) (simp_all add: demo_env_def demo_action_def st)
  with st r show ?thesis by (simp add: demo_env_def)
qed

text \<open>With a timeout of minus two seconds or less (an unsigned timeout of the callers of at least
  \<open>2 ^ 31\<close> milliseconds becomes such a number) the synchronous run does not wait for the child at all
  and reports the exit code 0, whatever the child does.\<close>

theorem services_sync_negative_timeout:
  assumes "svc_heap s a = Some op" "ee_fork env \<noteq> - 1" "\<And>fd. reads_end (ee_reads env fd)" "op_timeout op \<le> - 2000"
  shows "\<exists>s' op'. services_action_sync (services_os_action_execute env) (Some a) s = Inr (True, s') \<and>
    svc_heap s' a = Some op' \<and> op_status op' = LRM_OP_DONE \<and> op_rc op' = 0 \<and> svc_killed s' = svc_killed s"
proof -
  obtain out0 out1 err0 err1 where pipes: "snd (ee_pipe_out env) = (out0, out1)" "snd (ee_pipe_err env) = (err0, err1)"
    by fastforce
  have neg: "1 + c_div (op_timeout op) 1000 < 0" using assms(4) by (rule c_div_minus)
  then have r: "wait_loop (ee_waitpid env) 0 (1 + c_div (op_timeout op) 1000) 0 = (1 + c_div (op_timeout op) 1000, 0)"
    by (simp add: wait_loop_nonpos)
  have "WIFEXITED 0" "WEXITSTATUS 0 = 0" using wait_status_exit [of 0] by simp_all
  with execute_sync_parent [OF assms(1-3) pipes] assms(1) neg show ?thesis
    unfolding r by (auto simp: services_action_sync_def svc_simps sync_outcome_def)
qed

theorem services_sync_negative_timeout_witness:
  "\<exists>s' op'. services_action_sync (services_os_action_execute (demo_env (\<lambda>k. (0, 0)))) (Some 7)
      (demo_state\<lparr>svc_heap := [7 \<mapsto> demo_action\<lparr>op_timeout := int_of_u32 4000000000\<rparr>]\<rparr>) = Inr (True, s') \<and>
    svc_heap s' 7 = Some op' \<and> op_status op' = LRM_OP_DONE \<and> op_rc op' = 0"
proof -
  let ?s = "demo_state\<lparr>svc_heap := [7 \<mapsto> demo_action\<lparr>op_timeout := int_of_u32 4000000000\<rparr>]\<rparr>"
  have "int_of_u32 4000000000 = - 294967296" by (simp add: int_of_u32_def)
  then have "svc_heap ?s 7 = Some (demo_action\<lparr>op_timeout := int_of_u32 4000000000\<rparr>)"
    "op_timeout (demo_action\<lparr>op_timeout := int_of_u32 4000000000\<rparr>) \<le> - 2000" by simp_all
  from services_sync_negative_timeout [OF this(1) _ demo_env_reads this(2), of "\<lambda>k. (0, 0)"] show ?thesis
    by (auto simp: demo_env_def)
qed

text \<open>A synchronous run leaves the read ends of both pipes open, also after the action is released:
  every synchronous action costs two descriptors.\<close>

theorem services_sync_leaks_descriptors:
  assumes "svc_heap s a = Some op" "ee_fork env \<noteq> - 1" "\<And>fd. reads_end (ee_reads env fd)"
    "ee_pipe_out env = (True, out0, out1)" "ee_pipe_err env = (True, err0, err1)" "distinct [out0, out1, err0, err1]"
    "op_stdout_gsource (op_opaque op) = None" "op_stderr_gsource (op_opaque op) = None"
  shows "\<exists>s1 s2. services_action_sync (services_os_action_execute env) (Some a) s = Inr (True, s1) \<and>
    services_action_free (Some a) s1 = Inr ((), s2) \<and> svc_heap s2 a = None \<and>
    open_fds s2 = (open_fds s \<union> {out0, err0}) - {out1, err1}"
proof -
  obtain s' op' where run: "services_os_action_execute env a True s = Inr (True, s')" "svc_heap s' a = Some op'"
    "op_stdout_gsource (op_opaque op') = None" "op_stderr_gsource (op_opaque op') = None"
    and fds: "open_fds s' = open_fds (do_pipe (ee_pipe_err env) (do_pipe (ee_pipe_out env) s)) - {out1} - {err1}"
    using execute_sync_parent [OF assms(1-3), of out0 out1 err0 err1] assms(4,5,7,8)
    by (auto simp: sync_outcome_def split: prod.splits)
  have "open_fds s' = (open_fds s \<union> {out0, err0}) - {out1, err1}"
    using fds assms(4-6) by auto
  with run assms(1) show ?thesis
    by (simp add: services_action_sync_def svc_simps services_action_free_live freed_def)
qed

theorem services_sync_leaks_descriptors_witness:
  "\<exists>s1 s2. services_action_sync (services_os_action_execute (demo_env (\<lambda>k. (42, 0)))) (Some 7) demo_state = Inr (True, s1) \<and>
    services_action_free (Some 7) s1 = Inr ((), s2) \<and> svc_heap s2 7 = None \<and> open_fds s2 = {0, 1, 2, 10, 12}"
proof -
  have h: "svc_heap demo_state 7 = Some demo_action" by (simp add: demo_state_def)
  have "(open_fds demo_state \<union> {10, 12}) - {11, 13} = {0, 1, 2, 10, 12}"
    by (auto simp: demo_state_def svc_init_def)
  with services_sync_leaks_descriptors [OF h _ demo_env_reads, of "\<lambda>k. (42, 0)" 10 11 12 13] show ?thesis
    by (simp add: demo_env_def demo_action_def svc_calloc_def)
qed

section \<open>Lemmas: listings and output\<close>

lemma directory_loop_filter:
  "directory_loop st root files ns list =
   list @ filter (\<lambda>n. take 1 n \<noteq> ''.'' \<and> keep_entry files (st (snprintf 4096 (root @ ''/'' @ n)))) ns"
  by (induction ns arbitrary: list) auto

text \<open>Chunks that fill the buffer, followed by a result that is not a chunk.\<close>

definition chunk :: "string \<Rightarrow> read_res" where
  "chunk d = \<lparr>rd_rc = int (length d), rd_errno = 0, rd_data = d\<rparr>"

lemma read_loop_chunks:
  assumes "\<forall>c\<in>set cs. length c = 499 \<and> is_cstr c" "is_cstr d0"
  shows "read_loop (map chunk cs @ rs) (Some d0) (length d0) =
    read_loop rs (Some (d0 @ concat cs)) (length (d0 @ concat cs))"
  using assms
proof (induction cs arbitrary: d0)
  case (Cons c cs)
  have "read_loop (map chunk (c # cs) @ rs) (Some d0) (length d0) =
      read_loop (map chunk cs @ rs) (Some (d0 @ c)) (length (d0 @ c))"
    using Cons.prems by (simp add: chunk_def buf_read_len_def Let_def)
  also have "\<dots> = read_loop rs (Some ((d0 @ c) @ concat cs)) (length ((d0 @ c) @ concat cs))"
    using Cons.prems by (intro Cons.IH) auto
  finally show ?case by simp
qed simp

lemma strstr_first:
  assumes "\<forall>k < length a. \<not> starts_with n (drop k (a @ n @ r))"
  shows "strstr (a @ n @ r) n = Some (n @ r)"
  using assms
proof (induction a)
  case Nil
  have "starts_with n (n @ r)" by (simp add: starts_with_prefix)
  then show ?case by (cases "n @ r") auto
next
  case (Cons c a)
  have "\<not> starts_with n (c # a @ n @ r)" using Cons.prems by (metis append_Cons drop0 length_greater_0_conv list.distinct(1))
  moreover have "\<forall>k < length a. \<not> starts_with n (drop k (a @ n @ r))"
    using Cons.prems by (metis Suc_less_eq append_Cons drop_Suc_Cons length_Cons)
  ultimately show ?case using Cons.IH by simp
qed

lemma starts_with_hd: "starts_with (c # n) s \<Longrightarrow> \<exists>t. s = c # t"
  by (cases s) auto

text \<open>A name without a dot ends at the first \<^verbatim>\<open>.service\<close>.\<close>

lemma strstr_service:
  assumes "CHR ''.'' \<notin> set a"
  shows "strstr (a @ ''.service'' @ r) ''.service'' = Some (''.service'' @ r)"
proof (rule strstr_first, intro allI impI notI)
  fix k
  assume k: "k < length a" and "starts_with ''.service'' (drop k (a @ ''.service'' @ r))"
  then obtain t where "drop k (a @ ''.service'' @ r) = CHR ''.'' # t"
    using starts_with_hd [of "CHR ''.''" "''service''" "drop k (a @ ''.service'' @ r)"] by blast
  moreover have "drop k (a @ ''.service'' @ r) = drop k a @ ''.service'' @ r" using k by simp
  moreover obtain c u where cu: "drop k a = c # u" using k by (cases "drop k a") auto
  ultimately have "c = CHR ''.''" by simp
  moreover have "c \<in> set a" using cu by (metis in_set_dropD list.set_intros(1))
  ultimately show False using assms by blast
qed

text \<open>A line of the listing: a unit name and the rest of the line.\<close>

definition unit_line :: "string \<times> string \<Rightarrow> string" where
  "unit_line u = CHR 0x0A # fst u @ ''.service'' @ snd u"

lemma systemd_names_line:
  assumes "CHR 0x0A \<notin> set pre" "CHR ''.'' \<notin> set n"
  shows "systemd_names (pre @ CHR 0x0A # n @ ''.service'' @ r) = n # systemd_names (n @ ''.service'' @ r)"
proof -
  have "strchr (pre @ CHR 0x0A # n @ ''.service'' @ r) (CHR 0x0A) = Some (CHR 0x0A # n @ ''.service'' @ r)"
    by (rule strchr_append [OF assms(1)])
  then show ?thesis
    using strstr_service [OF assms(2), of r] by (subst systemd_names.simps) (simp add: Let_def)
qed

lemma systemd_names_units:
  assumes "\<forall>u\<in>set us. CHR 0x0A \<notin> set (fst u) \<and> CHR ''.'' \<notin> set (fst u) \<and> CHR 0x0A \<notin> set (snd u)"
    "CHR 0x0A \<notin> set pre" "systemd_names (pre' @ foot) = []"
    "pre' = (if us = [] then pre else fst (last us) @ ''.service'' @ snd (last us))"
  shows "systemd_names (pre @ concat (map unit_line us) @ foot) = map fst us"
  using assms
proof (induction us arbitrary: pre)
  case (Cons u us)
  let ?line = "fst u @ ''.service'' @ snd u"
  have "systemd_names (pre @ concat (map unit_line (u # us)) @ foot) =
      fst u # systemd_names (?line @ concat (map unit_line us) @ foot)"
    using Cons.prems systemd_names_line [of pre "fst u" "snd u @ concat (map unit_line us) @ foot"]
    by (simp add: unit_line_def)
  also have "systemd_names (?line @ concat (map unit_line us) @ foot) = map fst us"
    using Cons.prems by (intro Cons.IH) (auto split: if_splits)
  finally show ?case by simp
qed simp

section \<open>Properties: listings and output\<close>

text \<open>From the output of \<^verbatim>\<open>systemctl list-units\<close>, a heading line, one line per unit and a footer in
  which no service is named, the code extracts exactly the names of the units, in order.\<close>

theorem systemd_names_correct:
  assumes "\<forall>u\<in>set us. CHR 0x0A \<notin> set (fst u) \<and> CHR ''.'' \<notin> set (fst u) \<and> CHR 0x0A \<notin> set (snd u)"
    "CHR 0x0A \<notin> set heading" "CHR ''.'' \<notin> set foot"
  shows "systemd_names (heading @ concat (map unit_line us) @ CHR 0x0A # foot) = map fst us"
proof (rule systemd_names_units [OF assms(1,2) _ refl])
  let ?pre = "if us = [] then heading else fst (last us) @ ''.service'' @ snd (last us)"
  have "CHR 0x0A \<notin> set ?pre" using assms(1,2) last_in_set [of us] by (auto split: if_splits)
  then have "strchr (?pre @ CHR 0x0A # foot) (CHR 0x0A) = Some (CHR 0x0A # foot)" by (rule strchr_append)
  moreover have "strstr foot ''.service'' = None"
  proof (cases "strstr foot ''.service''")
    case (Some r)
    then obtain a where "foot = a @ r" "starts_with ''.service'' r" using strstr_Some_suffix by blast
    then have "CHR ''.'' \<in> set foot" using starts_with_hd [of "CHR ''.''" "''service''" r] by auto
    then show ?thesis using assms(3) by blast
  qed simp
  ultimately show "systemd_names (?pre @ CHR 0x0A # foot) = []"
    by (subst systemd_names.simps) (simp add: Let_def)
qed

theorem systemd_names_correct_witness:
  "systemd_names (''UNIT LOAD'' @ concat (map unit_line [(''sshd'', '' loaded active''), (''ntpd'', '' loaded'')]) @
     CHR 0x0A # ''2 units listed'') = [''sshd'', ''ntpd'']"
  using systemd_names_correct [of "[(''sshd'', '' loaded active''), (''ntpd'', '' loaded'')]" "''UNIT LOAD''" "''2 units listed''"]
  by simp

text \<open>Output that arrives in full buffers and a last shorter piece is appended whole and the pipe
  stays watched; but when it fills the buffer exactly and the next read would block, the result is
  \<^verbatim>\<open>FALSE\<close>, on which the main loop drops the pipe, so what the child writes later is lost.\<close>

theorem read_output_chunks:
  assumes "\<forall>c\<in>set cs. length c = 499 \<and> is_cstr c" "op_stdout_data op = Some d0" "is_cstr d0"
    "fd \<noteq> op_stderr_fd (op_opaque op)"
  shows "(\<forall>d. is_cstr d \<and> 0 < length d \<and> length d < 499 \<longrightarrow>
      read_output (map chunk cs @ [chunk d]) fd op =
        Some (int (length d), op\<lparr>op_stdout_data := Some (d0 @ concat cs @ d)\<rparr>)) \<and>
    read_output (map chunk cs @ [\<lparr>rd_rc = - 1, rd_errno = EAGAIN, rd_data = []\<rparr>]) fd op =
        Some (0, op\<lparr>op_stdout_data := Some (d0 @ concat cs)\<rparr>)"
proof (intro conjI allI impI)
  note loop = read_loop_chunks [OF assms(1,3)]
  show "read_output (map chunk cs @ [chunk d]) fd op =
        Some (int (length d), op\<lparr>op_stdout_data := Some (d0 @ concat cs @ d)\<rparr>)"
    if "is_cstr d \<and> 0 < length d \<and> length d < 499" for d
    using assms(2,4) that by (auto simp: read_output_def loop chunk_def buf_read_len_def Let_def)
  show "read_output (map chunk cs @ [\<lparr>rd_rc = - 1, rd_errno = EAGAIN, rd_data = []\<rparr>]) fd op =
        Some (0, op\<lparr>op_stdout_data := Some (d0 @ concat cs)\<rparr>)"
    using assms(2,4) by (simp add: read_output_def loop EAGAIN_def EINTR_def Let_def)
qed

theorem read_output_chunks_witness:
  "read_output [chunk (replicate 499 (CHR ''x'')), \<lparr>rd_rc = - 1, rd_errno = EAGAIN, rd_data = []\<rparr>] 10
     (demo_action\<lparr>op_stdout_data := Some ''ab'', op_opaque := (op_opaque demo_action)\<lparr>op_stderr_fd := 12\<rparr>\<rparr>) =
   Some (0, demo_action\<lparr>op_stdout_data := Some (''ab'' @ replicate 499 (CHR ''x'')),
     op_opaque := (op_opaque demo_action)\<lparr>op_stderr_fd := 12\<rparr>\<rparr>)"
proof -
  let ?op = "demo_action\<lparr>op_stdout_data := Some ''ab'', op_opaque := (op_opaque demo_action)\<lparr>op_stderr_fd := 12\<rparr>\<rparr>"
  have c: "is_cstr (replicate 499 (CHR ''x''))" by (simp add: is_cstr_def NUL_def)
  then have "\<forall>c\<in>set [replicate 499 (CHR ''x'')]. length c = 499 \<and> is_cstr c" by simp
  from read_output_chunks [OF this, of ?op "''ab''" 10] show ?thesis
    by (simp add: NUL_def del: replicate.simps)
qed

section \<open>Properties: what the child runs\<close>

lemma fold_reskey_other:
  "\<forall>(k, v)\<in>set ps. snprintf 500 (''OCF_RESKEY_'' @ k) \<noteq> x \<Longrightarrow>
   fold (\<lambda>(k, v). set_ocf_env_with_prefix k v) ps env x = env x"
  by (induction ps arbitrary: env) (auto simp: set_ocf_env_with_prefix_def set_ocf_env_def)

lemma fold_reskey:
  assumes "(k, v) \<in> set ps" "distinct (map fst ps)" "\<forall>(k, v)\<in>set ps. length k < 489"
  shows "fold (\<lambda>(k, v). set_ocf_env_with_prefix k v) ps env (''OCF_RESKEY_'' @ k) = Some v"
  using assms
proof (induction ps arbitrary: env)
  case (Cons q ps)
  obtain k' v' where q: "q = (k', v')" by fastforce
  show ?case
  proof (cases "k' = k")
    case True
    then have "v' = v" "\<forall>(j, w)\<in>set ps. j \<noteq> k" using Cons.prems by (auto simp: q rev_image_eqI)
    then have "\<forall>(j, w)\<in>set ps. snprintf 500 (''OCF_RESKEY_'' @ j) \<noteq> ''OCF_RESKEY_'' @ k"
      using Cons.prems(3) by (fastforce simp: snprintf_fits)
    from fold_reskey_other [OF this, of "set_ocf_env_with_prefix k v env"]
    have "fold (\<lambda>(k, v). set_ocf_env_with_prefix k v) (q # ps) env (''OCF_RESKEY_'' @ k) =
        set_ocf_env_with_prefix k v env (''OCF_RESKEY_'' @ k)"
      using True \<open>v' = v\<close> by (simp only: q fold.simps comp_apply split_conv)
    also have "\<dots> = Some v"
      using Cons.prems(3) True by (simp add: q set_ocf_env_with_prefix_def set_ocf_env_def)
    finally show ?thesis .
  next
    case False
    then show ?thesis using Cons by (simp add: q)
  qed
qed simp

text \<open>C30: For a valid request of the OCF standard the created action makes its child execute the agent's
  script under the provider's directory, with the action as its only argument, and with an environment
  that has the version of the standard, its root, and the instance, type and provider of the resource, and every
  parameter under its prefixed name. The names of the parameters are distinct (they are the keys of a hash
  table) and shorter than 489 characters: longer ones are cut.\<close>

theorem ocf_child_runs_agent:
  assumes "name \<noteq> []" "agent \<noteq> []" "action \<noteq> []" "provider \<noteq> []" "strcasecmp standard ''ocf''"
    "distinct (map fst params)" "\<forall>(k, v)\<in>set params. length k < 489"
  shows "\<exists>a s' op env'. resources_action_create services_os_set_exec (\<lambda>k. True) (Some name) (Some standard)
      (Some provider) (Some agent) (Some action) interval timeout (Some params) s = Inr (Some a, s') \<and>
    svc_heap s' a = Some op \<and>
    child_process None op env =
      Exec (Some (OCF_ROOT @ ''/resource.d/'' @ provider @ ''/'' @ agent))
        [OCF_ROOT @ ''/resource.d/'' @ provider @ ''/'' @ agent, action] env' \<and>
    env' ''OCF_RA_VERSION_MAJOR'' = Some ''1'' \<and> env' ''OCF_RA_VERSION_MINOR'' = Some ''0'' \<and>
    env' ''OCF_ROOT'' = Some OCF_ROOT \<and> env' ''OCF_RESOURCE_INSTANCE'' = Some name \<and>
    env' ''OCF_RESOURCE_TYPE'' = Some agent \<and> env' ''OCF_RESOURCE_PROVIDER'' = Some provider \<and>
    (\<forall>(k, v)\<in>set params. env' (''OCF_RESKEY_'' @ k) = Some v)"
proof -
  let ?exec = "OCF_ROOT @ ''/resource.d/'' @ provider @ ''/'' @ agent"
  have seven: "replicate 7 (None :: cptr) = [None, None, None, None, None, None, None]" by (simp add: eval_nat_numeral)
  have ne: "standard \<noteq> []" using assms(5) by auto
  define op where "op = svc_calloc\<lparr>op_rsc := Some name, op_action := Some action, op_interval := interval,
      op_timeout := timeout, op_standard := Some standard, op_agent := Some agent,
      op_sequence := int_of_u32 (operations s + 1), op_id := Some (action_id name action interval),
      op_provider := Some provider, op_params := Some params,
      op_opaque := (op_opaque svc_calloc)\<lparr>op_exec := Some ?exec,
        op_args := [Some ?exec, Some action, None, None, None, None, None]\<rparr>\<rparr>"
  obtain s' where cr: "resources_action_create services_os_set_exec (\<lambda>k. True) (Some name) (Some standard)
      (Some provider) (Some agent) (Some action) interval timeout (Some params) s = Inr (Some (svc_next s), s')"
    "svc_heap s' (svc_next s) = Some op"
    using assms(1-5) ne
    by (simp add: resources_action_create_def mh_strlen_zero_def svc_alloc_def svc_calloc_def seven op_def Let_def)
  have ocf: "strcasecmp ''ocf'' standard" using assms(5) by (rule strcasecmp_sym)
  define env' where "env' = add_OCF_env_vars op env"
  have argv: "exec_argv (op_args (op_opaque op)) = Some [?exec, action]" by (simp add: exec_argv_def op_def)
  have vars: "env' ''OCF_RA_VERSION_MAJOR'' = Some ''1''" "env' ''OCF_RA_VERSION_MINOR'' = Some ''0''" "env' ''OCF_ROOT'' = Some OCF_ROOT" "env' ''OCF_RESOURCE_INSTANCE'' = Some name"
    "env' ''OCF_RESOURCE_TYPE'' = Some agent" "env' ''OCF_RESOURCE_PROVIDER'' = Some provider"
    using ocf by (simp_all add: env'_def add_OCF_env_vars_def op_def set_ocf_env_def Let_def)
  have pars: "env' (''OCF_RESKEY_'' @ k) = Some v" if "(k, v) \<in> set params" for k v
  proof -
    have "env' (''OCF_RESKEY_'' @ k) =
        fold (\<lambda>(k, v). set_ocf_env_with_prefix k v) params env (''OCF_RESKEY_'' @ k)"
      using ocf by (simp add: env'_def add_OCF_env_vars_def op_def set_ocf_env_def Let_def)
    then show ?thesis using fold_reskey [OF that assms(6,7)] by simp
  qed
  have "child_process None op env = Exec (Some ?exec) [?exec, action] env'"
    unfolding child_process_def argv by (simp add: env'_def op_def)
  then show ?thesis using cr vars pars by blast
qed

theorem ocf_child_runs_agent_witness:
  "\<exists>a s' op env'. resources_action_create services_os_set_exec (\<lambda>k. True) (Some ''ip'') (Some ''OCF'')
      (Some ''heartbeat'') (Some ''IPaddr'') (Some ''start'') 0 20000 (Some [(''ip'', ''10.0.0.1'')]) svc_init = Inr (Some a, s') \<and>
    svc_heap s' a = Some op \<and> child_process None op Map.empty =
      Exec (Some (OCF_ROOT @ ''/resource.d/'' @ ''heartbeat'' @ ''/'' @ ''IPaddr''))
        [OCF_ROOT @ ''/resource.d/'' @ ''heartbeat'' @ ''/'' @ ''IPaddr'', ''start''] env' \<and>
    env' (''OCF_RESKEY_'' @ ''ip'') = Some ''10.0.0.1''"
proof -
  have c: "strcasecmp ''OCF'' ''ocf''" by code_simp
  show ?thesis
    using ocf_child_runs_agent [of "''ip''" "''IPaddr''" "''start''" "''heartbeat''" "''OCF''" "[(''ip'', ''10.0.0.1'')]"
        0 20000 svc_init Map.empty, OF _ _ _ _ c]
    by (auto simp del: append.simps append_Cons)
qed

text \<open>Every valid request of a known standard gives an action that carries the request, has the next
  sequence number, and whose argument vector begins with the program and is NULL terminated within its
  seven slots; nothing else of the heap changes.\<close>

theorem resources_action_create_valid:
  assumes "name \<noteq> []" "agent \<noteq> []" "action \<noteq> []" "heap_ok s"
    "strcasecmp standard ''ocf'' \<and> \<not> mh_strlen_zero provider \<or> strcasecmp standard ''lsb'' \<or>
     strcasecmp standard ''windows'' \<or> strcasecmp standard ''systemd''"
  shows "\<exists>op s'. resources_action_create services_os_set_exec (\<lambda>k. True) (Some name) (Some standard) provider (Some agent)
      (Some action) interval timeout params s = Inr (Some (svc_next s), s') \<and>
    svc_heap s' = (svc_heap s)(svc_next s \<mapsto> op) \<and> heap_ok s' \<and> recurring_actions s' = recurring_actions s \<and>
    op_id op = Some (action_id name action interval) \<and> op_rsc op = Some name \<and> op_action op = Some action \<and>
    op_interval op = interval \<and> op_timeout op = timeout \<and> op_agent op = Some agent \<and>
    op_rc op = 0 \<and> op_sequence op = int_of_u32 (operations s + 1) \<and> operations s' = operations s + 1 \<and>
    args_ready op"
  by (rule linux.create_known) (use assms in simp_all)

theorem resources_action_create_valid_witness:
  "\<exists>op s'. resources_action_create services_os_set_exec (\<lambda>k. True) (Some ''ntpd'') (Some ''systemd'') None (Some ''ntpd'')
      (Some ''stop'') 0 20000 None svc_init = Inr (Some 1, s') \<and> op_sequence op = int_of_u32 1 \<and> args_ready op"
proof -
  have "heap_ok svc_init" by (simp add: svc_init_def heap_ok_def)
  from resources_action_create_valid [of "''ntpd''" "''ntpd''" "''stop''" svc_init "''systemd''" None 0 20000 None, OF _ _ _ this]
  show ?thesis by (auto simp: svc_init_def)
qed

end
