(* ===== verification/Services_Async.thy ===== *)
theory Services_Async
  imports Services_Linux
begin

text \<open>
  The asynchronous life of an action: \<open>services_action_async\<close> starts it, the main loop reports the end of
  its child to \<open>operation_finished\<close>, and a recurring action is started again by its timer. The step
  relation \<open>svc_step\<close> interleaves these calls in any order; \<open>svc_inv\<close> is the invariant that makes them
  safe: whatever the process table, the timers and the table of recurring actions refer to is a live
  action, and an action has at most one child or timer. It holds in every state that is reached
  without \<open>services_action_cancel\<close>, and does not survive that call.
\<close>

section \<open>The step relation\<close>

definition child_of :: "svc_state \<Rightarrow> int \<Rightarrow> nat \<Rightarrow> bool" where
  "child_of s pid a \<longleftrightarrow> (\<exists>c. tracked s pid = Some c \<and> ch_privatedata c = Some a)"

definition timer_of :: "svc_state \<Rightarrow> nat \<Rightarrow> nat \<Rightarrow> bool" where
  "timer_of s i a \<longleftrightarrow> (\<exists>ms. ml_sources s i = Some (RepeatTimer ms a))"

definition idle :: "svc_state \<Rightarrow> nat \<Rightarrow> bool" where
  "idle s a \<longleftrightarrow> (\<forall>pid. \<not> child_of s pid a) \<and> (\<forall>i. \<not> timer_of s i a)"

text \<open>The kernel gives a new child a positive number that no tracked process has.\<close>

definition fork_ok :: "exec_env \<Rightarrow> svc_state \<Rightarrow> bool" where
  "fork_ok env s \<longleftrightarrow> ee_fork env = - 1 \<or> 0 < ee_fork env \<and> tracked s (ee_fork env) = None"

text \<open>The firing of a repeat timer: the callback, and the removal of the source because it returns
  \<^verbatim>\<open>FALSE\<close>.\<close>

definition fire_repeat_timer :: "exec_env \<Rightarrow> nat \<Rightarrow> nat \<Rightarrow> svc_state \<Rightarrow> unit svc_result" where
  "fire_repeat_timer env i a s =
     (case recurring_action_timer env a s of
        Inl e \<Rightarrow> Inl e
      | Inr (_, s') \<Rightarrow> Inr ((), g_source_remove i s'))"

inductive svc_step :: "id_source \<Rightarrow> svc_state \<Rightarrow> svc_state \<Rightarrow> bool" for new_id where
  create: "resources_action_create services_os_set_exec (\<lambda>k. True) (Some name) (Some standard) provider (Some agent)
      (Some action) interval timeout params s = Inr (Some a, s') \<Longrightarrow> svc_step new_id s s'"
| start: "svc_heap s a = Some op \<Longrightarrow> op_id op \<noteq> None \<Longrightarrow> idle s a \<Longrightarrow> fork_ok env s \<Longrightarrow> ee_new_id env = new_id \<Longrightarrow>
    services_action_async (services_os_action_execute env) (Some a) cb s = Inr (ok, s') \<Longrightarrow> svc_step new_id s s'"
| death: "child_death_dispatch (operation_finished_cb new_id) wait3 n s = Some (m, s') \<Longrightarrow> svc_step new_id s s'"
| again: "timer_of s i a \<Longrightarrow> fork_ok env s \<Longrightarrow> ee_new_id env = new_id \<Longrightarrow>
    fire_repeat_timer env i a s = Inr ((), s') \<Longrightarrow> svc_step new_id s s'"
| expire: "svc_step new_id s (snd (fire_child_timer new_id kill_res i s))"

inductive_cases svc_stepE: "svc_step new_id s s'"

section \<open>The invariant\<close>

definition child_ok :: "svc_state \<Rightarrow> int \<Rightarrow> mainloop_child \<Rightarrow> bool" where
  "child_ok s pid c \<longleftrightarrow> ch_pid c = pid \<and> 0 < pid \<and>
     (\<exists>a op. ch_privatedata c = Some a \<and> svc_heap s a = Some op \<and> op_pid op = pid)"

definition svc_inv :: "svc_state \<Rightarrow> bool" where
  "svc_inv s \<longleftrightarrow>
     svc_fault s = None \<and> heap_ok s \<and> (\<forall>a op. svc_heap s a = Some op \<longrightarrow> op_id op \<noteq> None) \<and>
     (\<forall>pid c. tracked s pid = Some c \<longrightarrow> child_ok s pid c) \<and>
     (\<forall>i a. timer_of s i a \<longrightarrow> (\<exists>op. svc_heap s a = Some op \<and> op_interval op \<noteq> 0)) \<and>
     (\<forall>i j a. timer_of s i a \<and> timer_of s j a \<longrightarrow> i = j) \<and>
     (\<forall>i a pid. timer_of s i a \<longrightarrow> \<not> child_of s pid a) \<and>
     (\<forall>t k a. recurring_actions s = Some t \<and> t k = Some a \<longrightarrow>
        (\<exists>op. svc_heap s a = Some op \<and> op_id op = Some k \<and> 0 < op_interval op))"

lemma svc_invD:
  assumes "svc_inv s"
  shows "svc_fault s = None" "heap_ok s" "svc_heap s a = Some op \<Longrightarrow> op_id op \<noteq> None"
    "tracked s pid = Some c \<Longrightarrow> child_ok s pid c"
    "timer_of s i a \<Longrightarrow> \<exists>op. svc_heap s a = Some op \<and> op_interval op \<noteq> 0"
    "timer_of s i a \<Longrightarrow> timer_of s j a \<Longrightarrow> i = j"
    "timer_of s i a \<Longrightarrow> \<not> child_of s pid a"
    "recurring_actions s = Some t \<Longrightarrow> t k = Some a \<Longrightarrow>
       \<exists>op. svc_heap s a = Some op \<and> op_id op = Some k \<and> 0 < op_interval op"
  using assms unfolding svc_inv_def by blast+

lemma svc_invI:
  assumes "svc_fault s = None" "heap_ok s" "\<And>a op. svc_heap s a = Some op \<Longrightarrow> op_id op \<noteq> None"
    "\<And>pid c. tracked s pid = Some c \<Longrightarrow> child_ok s pid c"
    "\<And>i a. timer_of s i a \<Longrightarrow> \<exists>op. svc_heap s a = Some op \<and> op_interval op \<noteq> 0"
    "\<And>i j a. timer_of s i a \<Longrightarrow> timer_of s j a \<Longrightarrow> i = j"
    "\<And>i a pid. timer_of s i a \<Longrightarrow> \<not> child_of s pid a"
    "\<And>t k a. recurring_actions s = Some t \<Longrightarrow> t k = Some a \<Longrightarrow>
       \<exists>op. svc_heap s a = Some op \<and> op_id op = Some k \<and> 0 < op_interval op"
  shows "svc_inv s"
  using assms unfolding svc_inv_def by blast

text \<open>The child of an action is unique, because the action holds its number.\<close>

lemma child_unique:
  assumes "svc_inv s" "child_of s p a" "child_of s q a"
  shows "p = q"
proof -
  obtain c d where "tracked s p = Some c" "ch_privatedata c = Some a" "tracked s q = Some d" "ch_privatedata d = Some a"
    using assms(2,3) by (auto simp: child_of_def)
  then have "\<exists>op. svc_heap s a = Some op \<and> op_pid op = p" "\<exists>op. svc_heap s a = Some op \<and> op_pid op = q"
    using svc_invD(4) [OF assms(1)] by (metis child_ok_def option.inject)+
  then show ?thesis by auto
qed

lemma live_below_next: "heap_ok s \<Longrightarrow> svc_heap s a = Some op \<Longrightarrow> a < svc_next s"
  by (metis heap_ok_def linorder_not_less option.distinct(1))

section \<open>Starting an action\<close>

text \<open>The effect of \<open>services_os_action_execute\<close> without waiting: either \<^verbatim>\<open>fork\<close> failed and only the action
  and the descriptors changed, or the child is in the process table and no repeat timer was added.\<close>

lemma execute_async_effect:
  assumes "svc_heap s a = Some op" "services_os_action_execute env a False s = Inr (ok, s')"
  shows "\<exists>op'. svc_heap s' = (svc_heap s)(a \<mapsto> op') \<and> same_request op op' \<and> op_pid op' = ee_fork env \<and>
    svc_fault s' = svc_fault s \<and> svc_next s' = svc_next s \<and> recurring_actions s' = recurring_actions s \<and>
    (\<forall>i b. timer_of s' i b \<longrightarrow> timer_of s i b) \<and>
    (if ee_fork env = - 1 then process_table s' = process_table s
     else \<exists>c. ch_pid c = ee_fork env \<and> ch_privatedata c = Some a \<and> \<not> ch_timeout c \<and>
       (\<forall>pid. tracked s' pid = (if pid = \<bar>ee_fork env\<bar> then Some c else tracked s pid)))"
proof -
  obtain out0 out1 err0 err1 where pipes: "snd (ee_pipe_out env) = (out0, out1)" "snd (ee_pipe_err env) = (err0, err1)"
    by fastforce
  show ?thesis
  proof (cases "ee_fork env = - 1")
    case True
    then have "s' = store a (op\<lparr>op_pid := ee_fork env\<rparr>) (close_fd err1 (close_fd err0 (close_fd out1
          (close_fd out0 (do_pipe (ee_pipe_err env) (do_pipe (ee_pipe_out env) s))))))"
      using assms by (simp add: services_os_action_execute_def svc_simps pipes Let_def)
    then show ?thesis using True
      by (intro exI [of _ "op\<lparr>op_pid := ee_fork env\<rparr>"]) (simp add: same_request_def timer_of_def)
  next
    case False
    define op2 where "op2 = op\<lparr>op_pid := ee_fork env, op_opaque := (op_opaque op)\<lparr>op_stdout_fd := out0, op_stderr_fd := err0\<rparr>\<rparr>"
    define s2 where "s2 = store a op2 (close_fd err1 (close_fd out1 (do_pipe (ee_pipe_err env) (do_pipe (ee_pipe_out env) s))))"
    have r: "execute_async env a op2 s2 = Inr (ok, s')"
      using assms False by (simp add: services_os_action_execute_def svc_simps pipes Let_def op2_def s2_def)
    then obtain desc where "op_id op2 = Some desc" by (cases "op_id op2") (auto simp: execute_async_def)
    then obtain t src og eg where e: "execute_async env a op2 s2 = Inr (True,
        store a (op2\<lparr>op_opaque := (op_opaque op2)\<lparr>op_stdout_gsource := Some og, op_stderr_gsource := Some eg\<rparr>\<rparr>)
          (s2\<lparr>process_table := Some t, ml_sources := src\<rparr>))"
      and t: "t = (case process_table s2 of None \<Rightarrow> Map.empty | Some t \<Rightarrow> t)
       (\<bar>op_pid op2\<bar> \<mapsto> \<lparr>ch_pid = op_pid op2, ch_desc = desc,
          ch_timerid = (if op_timeout op2 \<noteq> 0 then ee_new_id env (ml_sources s2) else 0),
          ch_timeout = False, ch_privatedata = Some a, ch_callback = fn_operation_finished\<rparr>)"
      and src: "src = (if op_timeout op2 \<noteq> 0
            then (ml_sources s2)(ee_new_id env (ml_sources s2) \<mapsto> ChildTimer (word_of_int (op_timeout op2)) (op_pid op2))
            else ml_sources s2)(og \<mapsto> FdSource G_PRIORITY_LOW (op_stdout_fd (op_opaque op2)),
                               eg \<mapsto> FdSource G_PRIORITY_LOW (op_stderr_fd (op_opaque op2)))"
      by (rule execute_async_eq)
    define op3 where "op3 = op2\<lparr>op_opaque := (op_opaque op2)\<lparr>op_stdout_gsource := Some og, op_stderr_gsource := Some eg\<rparr>\<rparr>"
    have s': "s' = store a op3 (s2\<lparr>process_table := Some t, ml_sources := src\<rparr>)"
      using r e by (simp add: op3_def)
    define c where "c = \<lparr>ch_pid = op_pid op2, ch_desc = desc,
          ch_timerid = (if op_timeout op2 \<noteq> 0 then ee_new_id env (ml_sources s2) else 0),
          ch_timeout = False, ch_privatedata = Some a, ch_callback = fn_operation_finished\<rparr>"
    have "timer_of s i b" if "timer_of s' i b" for i b
      using that by (auto simp: s' timer_of_def src s2_def split: if_splits)
    moreover have "tracked s' pid = (if pid = \<bar>ee_fork env\<bar> then Some c else tracked s pid)" for pid
      by (auto simp: s' tracked_def t s2_def op2_def c_def split: option.splits)
    moreover have "ch_pid c = ee_fork env" "ch_privatedata c = Some a" "\<not> ch_timeout c" by (simp_all add: c_def op2_def)
    ultimately show ?thesis using False
      by (intro exI [of _ op3]) (auto simp: s' s2_def op3_def op2_def same_request_def)
  qed
qed

lemma tracked_cong: "process_table s' = process_table s \<Longrightarrow> tracked s' = tracked s"
  by (simp add: tracked_def fun_eq_iff)

lemma inv_execute:
  assumes inv: "svc_inv s" and op: "svc_heap s a = Some op" and nochild: "\<And>pid. \<not> child_of s pid a"
    and fk: "fork_ok env s" and ex: "services_os_action_execute env a False s = Inr (ok, s1)"
    and s': "svc_heap s' = svc_heap s1" "svc_fault s' = svc_fault s1" "svc_next s' = svc_next s1"
      "recurring_actions s' = recurring_actions s1" "process_table s' = process_table s1"
    and tim: "\<And>i b. timer_of s' i b \<Longrightarrow> timer_of s1 i b \<and> b \<noteq> a"
  shows "svc_inv s'"
proof -
  note D = svc_invD [OF inv]
  obtain op' where heap: "svc_heap s' = (svc_heap s)(a \<mapsto> op')" and req: "same_request op op'" "op_pid op' = ee_fork env"
    and fr: "svc_fault s' = svc_fault s" "svc_next s' = svc_next s" "recurring_actions s' = recurring_actions s"
    and old: "\<forall>i b. timer_of s1 i b \<longrightarrow> timer_of s i b"
    and pt0: "if ee_fork env = - 1 then process_table s1 = process_table s
     else \<exists>c. ch_pid c = ee_fork env \<and> ch_privatedata c = Some a \<and> \<not> ch_timeout c \<and>
       (\<forall>pid. tracked s1 pid = (if pid = \<bar>ee_fork env\<bar> then Some c else tracked s pid))"
    using execute_async_effect [OF op ex] s' by auto
  have tr: "tracked s' = tracked s1" by (rule tracked_cong) (rule s'(5))
  have pt: "if ee_fork env = - 1 then process_table s' = process_table s
     else \<exists>c. ch_pid c = ee_fork env \<and> ch_privatedata c = Some a \<and> \<not> ch_timeout c \<and>
       (\<forall>pid. tracked s' pid = (if pid = \<bar>ee_fork env\<bar> then Some c else tracked s pid))"
    using pt0 unfolding tr s'(5) .
  have keep: "\<exists>op1. svc_heap s' b = Some op1 \<and> op_id op1 = op_id op0 \<and> op_interval op1 = op_interval op0"
    if "svc_heap s b = Some op0" for b op0
    using that op req by (auto simp: heap same_request_def)
  have other: "child_ok s' pid c" if c: "tracked s pid = Some c" for pid c
  proof -
    from D(4) [OF c] obtain b ob where b: "ch_pid c = pid" "0 < pid" "ch_privatedata c = Some b"
      "svc_heap s b = Some ob" "op_pid ob = pid" by (auto simp: child_ok_def)
    have "b \<noteq> a" using nochild [of pid] c b(3) by (auto simp: child_of_def)
    with b show ?thesis by (auto simp: child_ok_def heap)
  qed
  have new: "child_of s' pid b \<Longrightarrow> child_of s pid b \<or> b = a" for pid b
  proof (cases "ee_fork env = - 1")
    case True
    then have "tracked s' = tracked s" using pt by (intro tracked_cong) simp
    then show "child_of s' pid b \<Longrightarrow> child_of s pid b \<or> b = a" by (simp add: child_of_def)
  next
    case False
    then obtain c0 where c0: "ch_privatedata c0 = Some a"
      "\<forall>pid. tracked s' pid = (if pid = \<bar>ee_fork env\<bar> then Some c0 else tracked s pid)" using pt by auto
    assume "child_of s' pid b"
    then show "child_of s pid b \<or> b = a"
      using c0 by (cases "pid = \<bar>ee_fork env\<bar>") (auto simp: child_of_def)
  qed
  show ?thesis
  proof (rule svc_invI)
    show "heap_ok s'" using D(2) live_below_next [OF D(2) op] by (auto simp: heap_ok_def heap fr(2))
    show "op_id op1 \<noteq> None" if "svc_heap s' b = Some op1" for b op1
      using that D(3) [of b op1] D(3) [OF op] req by (auto simp: heap same_request_def split: if_splits)
    show "child_ok s' pid c" if c: "tracked s' pid = Some c" for pid c
    proof (cases "ee_fork env = - 1")
      case True
      then have "tracked s' = tracked s" using pt by (intro tracked_cong) simp
      then show ?thesis using c other by simp
    next
      case False
      then have pos: "0 < ee_fork env" using fk by (simp add: fork_ok_def)
      obtain c0 where c0: "ch_pid c0 = ee_fork env" "ch_privatedata c0 = Some a"
        "\<forall>pid. tracked s' pid = (if pid = \<bar>ee_fork env\<bar> then Some c0 else tracked s pid)"
        using pt False by auto
      show ?thesis
      proof (cases "pid = ee_fork env")
        case True
        then have "c = c0" using c c0(3) pos by simp
        then show ?thesis using True pos c0 req by (simp add: child_ok_def heap)
      next
        case False
        then show ?thesis using c c0(3) pos other by simp
      qed
    qed
    show "\<exists>op1. svc_heap s' b = Some op1 \<and> op_interval op1 \<noteq> 0" if "timer_of s' i b" for i b
      using D(5) [of i b] tim [OF that] old keep by metis
    show "i = j" if "timer_of s' i b" "timer_of s' j b" for i j b
      using D(6) tim [OF that(1)] tim [OF that(2)] old by blast
    show "\<not> child_of s' pid b" if "timer_of s' i b" for i b pid
      using D(7) [of i b pid] tim [OF that] old new [of pid b] by blast
    show "\<exists>op1. svc_heap s' b = Some op1 \<and> op_id op1 = Some k \<and> 0 < op_interval op1"
      if "recurring_actions s' = Some t" "t k = Some b" for t k b
      using D(8) [of t k b] that keep unfolding fr(3) by metis
  qed (use D(1) fr(1) in simp)
qed

lemma async_setup_frame [simp]:
  "process_table (async_setup a cb op s) = process_table s"
  "ml_sources (async_setup a cb op s) = ml_sources s"
  "svc_fault (async_setup a cb op s) = svc_fault s"
  "svc_next (async_setup a cb op s) = svc_next s"
  by (simp_all add: async_setup_def Let_def)

lemma inv_setup:
  assumes inv: "svc_inv s" and op: "svc_heap s a = Some op"
  shows "svc_inv (async_setup a cb op s)" (is "svc_inv ?s")
proof -
  note D = svc_invD [OF inv]
  obtain op1 where heap: "svc_heap ?s = (svc_heap s)(a \<mapsto> op1)"
    and op1: "op_id op1 = op_id op" "op_interval op1 = op_interval op" "op_pid op1 = op_pid op"
    using async_setup_heap [of a cb op s] by blast
  have keep: "\<exists>ob1. svc_heap ?s b = Some ob1 \<and> op_id ob1 = op_id ob \<and> op_interval ob1 = op_interval ob \<and> op_pid ob1 = op_pid ob"
    if "svc_heap s b = Some ob" for b ob
    using that op op1 by (auto simp: heap)
  have tr: "tracked ?s = tracked s" by (rule tracked_cong) simp
  have tm: "timer_of ?s = timer_of s" by (simp add: timer_of_def fun_eq_iff)
  have ch: "child_of ?s = child_of s" by (simp add: child_of_def fun_eq_iff tr)
  show ?thesis
  proof (rule svc_invI)
    show "heap_ok ?s" using D(2) live_below_next [OF D(2) op] by (auto simp: heap_ok_def heap)
    show "op_id ob \<noteq> None" if "svc_heap ?s b = Some ob" for b ob
      using that D(3) [of b ob] D(3) [OF op] op1 by (auto simp: heap split: if_splits)
    show "child_ok ?s pid c" if "tracked ?s pid = Some c" for pid c
      using D(4) [of pid c] that keep unfolding tr child_ok_def by metis
    show "\<exists>ob. svc_heap ?s b = Some ob \<and> op_interval ob \<noteq> 0" if "timer_of ?s i b" for i b
      using D(5) [of i b] that keep unfolding tm by metis
    show "i = j" if "timer_of ?s i b" "timer_of ?s j b" for i j b using D(6) that unfolding tm by blast
    show "\<not> child_of ?s pid b" if "timer_of ?s i b" for i b pid using D(7) that unfolding tm ch by blast
    show "\<exists>ob. svc_heap ?s b = Some ob \<and> op_id ob = Some k \<and> 0 < op_interval ob"
      if "recurring_actions ?s = Some t" "t k = Some b" for t k b
    proof (cases "0 < op_interval op \<and> op_id op = Some k \<and> b = a")
      case True
      then show ?thesis using op1 by (simp add: heap)
    next
      case False
      then have "\<exists>t0. recurring_actions s = Some t0 \<and> t0 k = Some b"
        using that D(3) [OF op] by (auto simp: async_setup_def Let_def split: if_splits option.splits)
      then show ?thesis using D(8) keep by metis
    qed
  qed (use D(1) in simp)
qed

lemma idle_setup: "idle (async_setup a cb op s) b = idle s b"
proof -
  have "tracked (async_setup a cb op s) = tracked s" by (rule tracked_cong) simp
  then show ?thesis by (simp add: idle_def child_of_def timer_of_def)
qed

lemma fork_ok_setup: "fork_ok env (async_setup a cb op s) = fork_ok env s"
proof -
  have "tracked (async_setup a cb op s) = tracked s" by (rule tracked_cong) simp
  then show ?thesis by (simp add: fork_ok_def)
qed

lemma inv_start:
  assumes "svc_inv s" "svc_heap s a = Some op" "idle s a" "fork_ok env s"
    "services_action_async (services_os_action_execute env) (Some a) cb s = Inr (ok, s')"
  shows "svc_inv s'"
proof -
  obtain i where i: "op_id op = Some i" using svc_invD(3) [OF assms(1,2)] by auto
  obtain op1 where h: "svc_heap (async_setup a cb op s) a = Some op1"
    using async_setup_heap [of a cb op s] by auto
  have "services_os_action_execute env a False (async_setup a cb op s) = Inr (ok, s')"
    using assms(5) services_action_async_eq [OF assms(2) i] by simp
  note ex = this
  have id: "idle (async_setup a cb op s) a" and fk: "fork_ok env (async_setup a cb op s)"
    using assms(3,4) by (simp_all add: idle_setup fork_ok_setup)
  show ?thesis
  proof (rule inv_execute [OF inv_setup [OF assms(1,2)] h _ fk ex refl refl refl refl refl])
    show "\<not> child_of (async_setup a cb op s) pid a" for pid using id by (simp add: idle_def)
    show "timer_of s' i b \<and> b \<noteq> a" if "timer_of s' i b" for i b
      using that id execute_async_effect [OF h ex] by (auto simp: idle_def)
  qed
qed

section \<open>The end of a child\<close>

text \<open>The action as the callback and the tables see it after its child has ended.\<close>

definition completed :: "mainloop_child \<Rightarrow> int \<Rightarrow> nat \<Rightarrow> svc_action \<Rightarrow> svc_action" where
  "completed p status i op =
     (let op1 = finished_action p (fst (exit_of status)) (snd (exit_of status)) op
      in (if op_interval op \<noteq> 0 then op1\<lparr>op_opaque := (op_opaque op1)\<lparr>op_repeat_timer := i\<rparr>\<rparr> else op1)\<lparr>op_pid := 0\<rparr>)"

lemma finished_action_fields [simp]:
  "op_id (finished_action p signo code op) = op_id op"
  "op_interval (finished_action p signo code op) = op_interval op"
  "op_opaque (finished_action p signo code op) = op_opaque op"
  by (simp_all add: finished_action_def)

lemma completed_fields [simp]:
  "op_id (completed p status i op) = op_id op"
  "op_interval (completed p status i op) = op_interval op"
  "op_callback (op_opaque (completed p status i op)) = op_callback (op_opaque op)"
  by (simp_all add: completed_def Let_def)

lemma store_called_same [simp]: "(store a op s)\<lparr>svc_called := svc_called s\<rparr> = store a op s"
  by (simp add: store_def)

lemma operation_finished_eq:
  assumes "ch_privatedata p = Some a" "svc_heap s a = Some op" "op_pid op = ch_pid p"
    "exit_of status = (signo, code)"
  shows "operation_finished new_id p status signo code s =
    (let i = new_id (ml_sources s);
         op' = completed p status i op;
         s1 = (if op_interval op \<noteq> 0 then snd (attach new_id (RepeatTimer (word_of_int (op_interval op)) a) s) else s);
         s2 = (store a op' s1)\<lparr>svc_called := svc_called s @
                (case op_callback (op_opaque op) of None \<Rightarrow> [] | Some f \<Rightarrow> [(f, op')])\<rparr>
     in Inr ((), if op_interval op \<noteq> 0 then s2 else freed a op' s2))"
proof (cases "op_interval op = 0")
  case False
  then show ?thesis using assms
    by (cases "op_callback (op_opaque op)")
      (simp_all add: operation_finished_def svc_simps attach_pair completed_def Let_def)
next
  case True
  define op' where "op' = completed p status (new_id (ml_sources s)) op"
  define s2 where "s2 = (store a op' s)\<lparr>svc_called := svc_called s @
                (case op_callback (op_opaque op) of None \<Rightarrow> [] | Some f \<Rightarrow> [(f, op')])\<rparr>"
  have "svc_heap s2 a = Some op'" by (simp add: s2_def)
  from services_action_free_live [OF this] have f: "services_action_free (Some a) s2 = Inr ((), freed a op' s2)" .
  have "operation_finished new_id p status signo code s = services_action_free (Some a) s2"
    using True assms
    by (cases "op_callback (op_opaque op)")
      (simp_all add: operation_finished_def svc_simps completed_def Let_def op'_def s2_def)
  then have "operation_finished new_id p status signo code s = Inr ((), freed a op' s2)" using f by simp
  then show ?thesis using True unfolding op'_def s2_def Let_def by simp
qed

lemma handle_child_effect:
  assumes inv: "svc_inv s" and p: "tracked s pid = Some p"
  shows "\<exists>a op i op' s'. handle_child (operation_finished_cb new_id) pid status p s = s' \<and>
    ch_privatedata p = Some a \<and> svc_heap s a = Some op \<and> op' = completed (p\<lparr>ch_timerid := 0\<rparr>) status i op \<and>
    svc_fault s' = None \<and> svc_next s' = svc_next s \<and> recurring_actions s' = recurring_actions s \<and>
    tracked s' = (tracked s)(pid := None) \<and>
    svc_called s' = svc_called s @ (case op_callback (op_opaque op) of None \<Rightarrow> [] | Some f \<Rightarrow> [(f, op')]) \<and>
    (if op_interval op \<noteq> 0
     then svc_heap s' = (svc_heap s)(a \<mapsto> op') \<and> (\<forall>j b. timer_of s' j b \<longrightarrow> timer_of s j b \<or> j = i \<and> b = a)
     else svc_heap s' = (svc_heap s)(a := None) \<and> (\<forall>j b. timer_of s' j b \<longrightarrow> timer_of s j b))"
proof -
  let ?p1 = "p\<lparr>ch_timerid := 0\<rparr>"
  from svc_invD(4) [OF inv p] obtain a op where a: "ch_pid p = pid" "ch_privatedata p = Some a"
    "svc_heap s a = Some op" "op_pid op = pid" by (auto simp: child_ok_def)
  obtain t where t: "process_table s = Some t" "t pid = Some p" using p by (auto simp: tracked_def split: bind_splits)
  define sc where "sc = (if ch_timerid p \<noteq> 0 then g_source_remove (ch_timerid p) s else s)\<lparr>process_table := Some (t(pid \<mapsto> ?p1))\<rparr>"
  have sc: "svc_heap sc = svc_heap s" "svc_fault sc = svc_fault s" "svc_next sc = svc_next s" "svc_called sc = svc_called s"
    "recurring_actions sc = recurring_actions s" "process_table sc = Some (t(pid \<mapsto> ?p1))"
    by (simp_all add: sc_def)
  have sct: "timer_of sc j b \<Longrightarrow> timer_of s j b" for j b
    by (auto simp: sc_def timer_of_def split: if_splits)
  obtain signo code where e: "exit_of status = (signo, code)" by fastforce
  define i where "i = new_id (ml_sources sc)"
  define op' where "op' = completed ?p1 status i op"
  define s1 where "s1 = (if op_interval op \<noteq> 0 then snd (attach new_id (RepeatTimer (word_of_int (op_interval op)) a) sc) else sc)"
  define s2 where "s2 = (store a op' s1)\<lparr>svc_called := svc_called sc @
                (case op_callback (op_opaque op) of None \<Rightarrow> [] | Some f \<Rightarrow> [(f, op')])\<rparr>"
  define s3 where "s3 = (if op_interval op \<noteq> 0 then s2 else freed a op' s2)"
  have "operation_finished new_id ?p1 status signo code sc = Inr ((), s3)"
    using operation_finished_eq [of ?p1 a sc op status signo code new_id] a e
    unfolding s3_def s2_def s1_def op'_def i_def Let_def by (simp add: sc)
  then have cb: "operation_finished_cb new_id ?p1 status signo code sc = s3"
    by (simp add: operation_finished_cb_def)
  define s' where "s' = s3\<lparr>process_table := map_option (\<lambda>t. t(pid := None)) (process_table s3)\<rparr>"
  have h: "handle_child (operation_finished_cb new_id) pid status p s = s'"
    unfolding s'_def cb [symmetric] sc_def using t e
    by (cases "ch_timerid p = 0") (simp_all add: handle_child_def Let_def)
  have fr: "svc_fault s1 = svc_fault s" "svc_next s1 = svc_next s" "recurring_actions s1 = recurring_actions s"
    "process_table s1 = process_table sc" "svc_heap s1 = svc_heap s"
    by (simp_all add: s1_def attach_pair sc)
  have tr: "tracked s' = (tracked s)(pid := None)"
    using t by (auto simp: s'_def s3_def s2_def tracked_def fun_eq_iff fr sc)
  have tm: "timer_of s' j b \<Longrightarrow> timer_of s2 j b" for j b
    by (auto simp: s'_def s3_def timer_of_def freed_def split: if_splits)
  have tm2: "timer_of s2 j b \<Longrightarrow> timer_of s j b \<or> op_interval op \<noteq> 0 \<and> j = i \<and> b = a" for j b
    using sct [of j b] by (auto simp: s2_def s1_def timer_of_def attach_pair i_def split: if_splits)
  have heap: "svc_heap s' = (if op_interval op \<noteq> 0 then (svc_heap s)(a \<mapsto> op') else (svc_heap s)(a := None))"
    by (simp add: s'_def s3_def s2_def fr)
  have rest: "svc_fault s' = None" "svc_next s' = svc_next s" "recurring_actions s' = recurring_actions s"
    "svc_called s' = svc_called s @ (case op_callback (op_opaque op) of None \<Rightarrow> [] | Some f \<Rightarrow> [(f, op')])"
    using svc_invD(1) [OF inv] by (simp_all add: s'_def s3_def s2_def fr sc)
  have tms: "if op_interval op \<noteq> 0
     then svc_heap s' = (svc_heap s)(a \<mapsto> op') \<and> (\<forall>j b. timer_of s' j b \<longrightarrow> timer_of s j b \<or> j = i \<and> b = a)
     else svc_heap s' = (svc_heap s)(a := None) \<and> (\<forall>j b. timer_of s' j b \<longrightarrow> timer_of s j b)"
    using heap tm tm2 by (cases "op_interval op = 0") auto
  show ?thesis using h a op'_def rest tr tms by blast
qed

lemma inv_handle_child:
  assumes inv: "svc_inv s" and p: "tracked s pid = Some p"
  shows "svc_inv (handle_child (operation_finished_cb new_id) pid status p s)" (is "svc_inv ?s")
proof -
  note D = svc_invD [OF inv]
  obtain a op i op' where pd: "ch_privatedata p = Some a" and op: "svc_heap s a = Some op"
    and op': "op' = completed (p\<lparr>ch_timerid := 0\<rparr>) status i op"
    and fr: "svc_fault ?s = None" "svc_next ?s = svc_next s" "recurring_actions ?s = recurring_actions s"
      "tracked ?s = (tracked s)(pid := None)"
    and eff: "if op_interval op \<noteq> 0
     then svc_heap ?s = (svc_heap s)(a \<mapsto> op') \<and> (\<forall>j b. timer_of ?s j b \<longrightarrow> timer_of s j b \<or> j = i \<and> b = a)
     else svc_heap ?s = (svc_heap s)(a := None) \<and> (\<forall>j b. timer_of ?s j b \<longrightarrow> timer_of s j b)"
    using handle_child_effect [OF inv p, of new_id status] by blast
  have ca: "child_of s pid a" using p pd by (simp add: child_of_def)
  have nt: "\<not> timer_of s j a" for j using D(7) ca by blast
  have other: "svc_heap ?s b = svc_heap s b" if "b \<noteq> a" for b using eff that by (simp split: if_splits)
  have tim: "timer_of s j b \<and> b \<noteq> a \<or> j = i \<and> b = a \<and> op_interval op \<noteq> 0" if "timer_of ?s j b" for j b
    using eff that nt by (auto split: if_splits)
  have chd: "child_of s q b \<and> b \<noteq> a" if "child_of ?s q b" for q b
  proof -
    from that have c: "child_of s q b" "q \<noteq> pid" by (auto simp: child_of_def fr(4) split: if_splits)
    then show ?thesis using child_unique [OF inv ca, of q] by blast
  qed
  show ?thesis
  proof (rule svc_invI)
    show "heap_ok ?s" using D(2) eff live_below_next [OF D(2) op]
      by (auto simp: heap_ok_def fr(2) split: if_splits)
    show "op_id ob \<noteq> None" if "svc_heap ?s b = Some ob" for b ob
      using that D(3) [of b ob] D(3) [OF op] other [of b] eff by (cases "b = a") (auto simp: op' split: if_splits)
    show "child_ok ?s q c" if c: "tracked ?s q = Some c" for q c
    proof -
      have tq: "tracked s q = Some c" using c by (auto simp: fr(4) split: if_splits)
      from D(4) [OF tq] obtain b ob where b: "ch_pid c = q" "0 < q" "ch_privatedata c = Some b"
        "svc_heap s b = Some ob" "op_pid ob = q" by (auto simp: child_ok_def)
      have "b \<noteq> a" using chd [of q b] c b(3) by (auto simp: child_of_def)
      with b other [of b] show ?thesis by (auto simp: child_ok_def)
    qed
    show "\<exists>ob. svc_heap ?s b = Some ob \<and> op_interval ob \<noteq> 0" if "timer_of ?s j b" for j b
      using tim [OF that] D(5) [of j b] other [of b] eff op' by (auto split: if_splits)
    show "j = k" if "timer_of ?s j b" "timer_of ?s k b" for j k b
      using tim [OF that(1)] tim [OF that(2)] D(6) [of j b k] by auto
    show "\<not> child_of ?s q b" if "timer_of ?s j b" for j b q
      using tim [OF that] chd [of q b] D(7) [of j b q] by auto
    show "\<exists>ob. svc_heap ?s b = Some ob \<and> op_id ob = Some k \<and> 0 < op_interval ob"
      if "recurring_actions ?s = Some t" "t k = Some b" for t k b
    proof -
      from that D(8) obtain ob where ob: "svc_heap s b = Some ob" "op_id ob = Some k" "0 < op_interval ob"
        by (metis fr(3))
      show ?thesis
      proof (cases "b = a")
        case True
        then have "ob = op" using ob op by simp
        then show ?thesis using True ob eff op' by (simp split: if_splits)
      next
        case False
        then show ?thesis using ob other by simp
      qed
    qed
  qed (rule fr(1))
qed

section \<open>The repeat timer\<close>

lemma inv_remove_source:
  assumes "svc_inv s"
  shows "svc_inv (g_source_remove i s)" (is "svc_inv ?s")
proof -
  note D = svc_invD [OF assms]
  have tm: "timer_of ?s j b \<Longrightarrow> timer_of s j b" for j b by (auto simp: timer_of_def split: if_splits)
  have tr: "tracked ?s = tracked s" by (rule tracked_cong) simp
  have ch: "child_of ?s = child_of s" by (simp add: child_of_def fun_eq_iff tr)
  show ?thesis
  proof (rule svc_invI)
    show "heap_ok ?s" using D(2) by (simp add: heap_ok_def)
    show "op_id ob \<noteq> None" if "svc_heap ?s b = Some ob" for b ob using D(3) that by simp
    show "child_ok ?s q c" if "tracked ?s q = Some c" for q c using D(4) [of q c] that tr by (simp add: child_ok_def)
    show "\<exists>ob. svc_heap ?s b = Some ob \<and> op_interval ob \<noteq> 0" if "timer_of ?s j b" for j b
      using D(5) [OF tm [OF that]] by simp
    show "j = k" if "timer_of ?s j b" "timer_of ?s k b" for j k b using D(6) tm that by blast
    show "\<not> child_of ?s q b" if "timer_of ?s j b" for j b q using D(7) tm [OF that] ch by simp
    show "\<exists>ob. svc_heap ?s b = Some ob \<and> op_id ob = Some k \<and> 0 < op_interval ob"
      if "recurring_actions ?s = Some t" "t k = Some b" for t k b
      using D(8) [of t k b] that by simp
  qed (use D(1) in simp)
qed

text \<open>Clearing the old output of an action.\<close>

lemma inv_store_same:
  assumes "svc_inv s" "svc_heap s a = Some op"
    and same: "op_id op' = op_id op" "op_interval op' = op_interval op" "op_pid op' = op_pid op"
  shows "svc_inv (store a op' s)" (is "svc_inv ?s")
proof -
  note D = svc_invD [OF assms(1)]
  have keep: "\<exists>ob1. svc_heap ?s b = Some ob1 \<and> op_id ob1 = op_id ob \<and> op_interval ob1 = op_interval ob \<and> op_pid ob1 = op_pid ob"
    if "svc_heap s b = Some ob" for b ob
    using that assms(2) same by auto
  have tr: "tracked ?s = tracked s" by (rule tracked_cong) simp
  have tm: "timer_of ?s = timer_of s" by (simp add: timer_of_def fun_eq_iff)
  have ch: "child_of ?s = child_of s" by (simp add: child_of_def fun_eq_iff tr)
  show ?thesis
  proof (rule svc_invI)
    show "heap_ok ?s" using D(2) live_below_next [OF D(2) assms(2)] by (auto simp: heap_ok_def)
    show "op_id ob \<noteq> None" if "svc_heap ?s b = Some ob" for b ob
      using that D(3) [of b ob] D(3) [OF assms(2)] same by (auto split: if_splits)
    show "child_ok ?s q c" if "tracked ?s q = Some c" for q c
      using D(4) [of q c] that keep unfolding tr child_ok_def by metis
    show "\<exists>ob. svc_heap ?s b = Some ob \<and> op_interval ob \<noteq> 0" if "timer_of ?s i b" for i b
      using D(5) [of i b] that keep unfolding tm by metis
    show "j = k" if "timer_of ?s j b" "timer_of ?s k b" for j k b using D(6) that unfolding tm by blast
    show "\<not> child_of ?s q b" if "timer_of ?s j b" for j b q using D(7) that unfolding tm ch by blast
    show "\<exists>ob. svc_heap ?s b = Some ob \<and> op_id ob = Some k \<and> 0 < op_interval ob"
      if "recurring_actions ?s = Some t" "t k = Some b" for t k b
      using D(8) [of t k b] that keep by (simp only: store_simps) metis
  qed (use D(1) in simp)
qed

lemma inv_clear_output:
  assumes "svc_inv s" "svc_heap s a = Some op"
  shows "svc_inv (store a (op\<lparr>op_stdout_data := None, op_stderr_data := None\<rparr>) s)"
  by (rule inv_store_same [OF assms]) simp_all

lemma inv_again:
  assumes inv: "svc_inv s" and tm: "timer_of s i a" and fk: "fork_ok env s"
    and fire: "fire_repeat_timer env i a s = Inr ((), s')"
  shows "svc_inv s'"
proof -
  note D = svc_invD [OF inv]
  obtain op where op: "svc_heap s a = Some op" using D(5) [OF tm] by blast
  obtain k where k: "op_id op = Some k" using D(3) [OF op] by auto
  define op0 where "op0 = op\<lparr>op_stdout_data := None, op_stderr_data := None\<rparr>"
  define s0 where "s0 = store a op0 s"
  have h0: "svc_heap s0 a = Some op0" and k0: "op_id op0 = Some k" using k by (simp_all add: s0_def op0_def)
  obtain ok s1 where a0: "services_action_async (services_os_action_execute env) (Some a) None s0 = Inr (ok, s1)"
    and s': "s' = g_source_remove i s1"
    using fire op by (auto simp: fire_repeat_timer_def recurring_action_timer_def svc_simps s0_def op0_def
        split: sum.splits)
  let ?st = "async_setup a None op0 s0"
  obtain op1 where h: "svc_heap ?st a = Some op1" using async_setup_heap [of a None op0 s0] by auto
  have ex: "services_os_action_execute env a False ?st = Inr (ok, s1)"
    using a0 services_action_async_eq [OF h0 k0] by simp
  have tr: "tracked ?st = tracked s" by (rule tracked_cong) (simp add: s0_def)
  have tms: "timer_of ?st = timer_of s" by (simp add: timer_of_def fun_eq_iff s0_def)
  have inv0: "svc_inv s0" unfolding s0_def op0_def by (rule inv_clear_output [OF inv op])
  show ?thesis
  proof (rule inv_execute [OF inv_setup [OF inv0 h0] h _ _ ex])
    show "\<not> child_of ?st pid a" for pid using D(7) [OF tm] by (simp add: child_of_def tr)
    show "fork_ok env ?st" using fk by (simp add: fork_ok_def tr)
    show "timer_of s1 j b \<and> b \<noteq> a" if t: "timer_of s' j b" for j b
    proof -
      have j: "j \<noteq> i" "timer_of s1 j b" using t by (auto simp: s' timer_of_def split: if_splits)
      then have "timer_of s j b" using execute_async_effect [OF h ex] tms by auto
      with j D(6) tm show ?thesis by blast
    qed
  qed (simp_all add: s')
qed

text \<open>In a state of the invariant the timer of an action never fails.\<close>

lemma execute_async_ok:
  assumes "svc_heap s a = Some op" "op_id op \<noteq> None"
  shows "\<exists>s'. services_os_action_execute env a False s = Inr (ee_fork env \<noteq> - 1, s')"
  using assms by (auto simp: services_os_action_execute_def execute_async_def svc_simps Let_def split: prod.splits)

lemma fire_repeat_timer_ok:
  assumes inv: "svc_inv s" and tm: "timer_of s i a"
  shows "\<exists>s'. fire_repeat_timer env i a s = Inr ((), s')"
proof -
  note D = svc_invD [OF inv]
  obtain op where op: "svc_heap s a = Some op" using D(5) [OF tm] by blast
  obtain k where k: "op_id op = Some k" using D(3) [OF op] by auto
  define op0 where "op0 = op\<lparr>op_stdout_data := None, op_stderr_data := None\<rparr>"
  define s0 where "s0 = store a op0 s"
  have h0: "svc_heap s0 a = Some op0" and k0: "op_id op0 = Some k" using k by (simp_all add: s0_def op0_def)
  obtain op1 where h: "svc_heap (async_setup a None op0 s0) a = Some op1" "op_id op1 = Some k"
    using async_setup_heap [of a None op0 s0] k0 by auto
  then obtain ok s1 where "services_os_action_execute env a False (async_setup a None op0 s0) = Inr (ok, s1)"
    using execute_async_ok by blast
  then have "services_action_async (services_os_action_execute env) (Some a) None s0 = Inr (ok, s1)"
    using services_action_async_eq [OF h0 k0] by simp
  then show ?thesis
    using op by (simp add: fire_repeat_timer_def recurring_action_timer_def svc_simps s0_def op0_def)
qed

section \<open>Creating an action\<close>

lemma set_exec_id [simp]: "op_id (services_os_set_exec op) = op_id op"
  by (simp add: services_os_set_exec_def Let_def)

lemma create_effect:
  assumes "resources_action_create services_os_set_exec (\<lambda>k. True) (Some name) (Some standard) provider (Some agent)
      (Some action) interval timeout params s = Inr (Some a, s')"
  shows "a = svc_next s \<and> svc_next s' = Suc (svc_next s) \<and> svc_fault s' = svc_fault s \<and>
    recurring_actions s' = recurring_actions s \<and> process_table s' = process_table s \<and> ml_sources s' = ml_sources s \<and>
    (\<exists>op. svc_heap s' = (svc_heap s)(a \<mapsto> op) \<and> op_id op \<noteq> None)"
  using assms
  by (auto simp: resources_action_create_def svc_alloc_def Let_def split: if_splits sum.splits)

lemma inv_new:
  assumes inv: "svc_inv s" and heap: "svc_heap s' = (svc_heap s)(a \<mapsto> op)" and op: "op_id op \<noteq> None"
    and fr: "a = svc_next s" "svc_next s' = Suc (svc_next s)" "svc_fault s' = svc_fault s"
      "recurring_actions s' = recurring_actions s" "process_table s' = process_table s" "ml_sources s' = ml_sources s"
  shows "svc_inv s'"
proof -
  note D = svc_invD [OF inv]
  have new: "svc_heap s a = None" using D(2) by (simp add: heap_ok_def fr(1))
  then have keep: "svc_heap s b = Some ob \<Longrightarrow> svc_heap s' b = Some ob" for b ob by (auto simp: heap)
  have tr: "tracked s' = tracked s" by (rule tracked_cong) (rule fr(5))
  have tm: "timer_of s' = timer_of s" by (simp add: timer_of_def fun_eq_iff fr(6))
  have ch: "child_of s' = child_of s" by (simp add: child_of_def fun_eq_iff tr)
  show ?thesis
  proof (rule svc_invI)
    show "heap_ok s'" using D(2) by (auto simp: heap_ok_def heap fr(1,2))
    show "op_id ob \<noteq> None" if "svc_heap s' b = Some ob" for b ob
      using that D(3) [of b ob] op by (auto simp: heap split: if_splits)
    show "child_ok s' q c" if "tracked s' q = Some c" for q c
      using D(4) [of q c] that keep unfolding tr child_ok_def by blast
    show "\<exists>ob. svc_heap s' b = Some ob \<and> op_interval ob \<noteq> 0" if "timer_of s' i b" for i b
      using D(5) [of i b] that keep unfolding tm by blast
    show "j = k" if "timer_of s' j b" "timer_of s' k b" for j k b using D(6) that unfolding tm by blast
    show "\<not> child_of s' q b" if "timer_of s' j b" for j b q using D(7) that unfolding tm ch by blast
    show "\<exists>ob. svc_heap s' b = Some ob \<and> op_id ob = Some k \<and> 0 < op_interval ob"
      if "recurring_actions s' = Some t" "t k = Some b" for t k b
      using D(8) [of t k b] that keep unfolding fr(4) by blast
  qed (use D(1) fr(3) in simp)
qed

lemma new_idle:
  assumes inv: "svc_inv s" and fr: "process_table s' = process_table s" "ml_sources s' = ml_sources s"
  shows "idle s' (svc_next s)"
proof -
  have new: "svc_heap s (svc_next s) = None" using svc_invD(2) [OF inv] by (simp add: heap_ok_def)
  have "tracked s' = tracked s" by (rule tracked_cong) (rule fr(1))
  then have "\<not> child_of s' pid (svc_next s)" for pid
    using svc_invD(4) [OF inv] new by (fastforce simp: child_of_def child_ok_def)
  moreover have "\<not> timer_of s' i (svc_next s)" for i
    using svc_invD(5) [OF inv, of i "svc_next s"] new by (auto simp: timer_of_def fr(2))
  ultimately show ?thesis by (simp add: idle_def)
qed

lemma inv_create:
  assumes inv: "svc_inv s" and cr: "resources_action_create services_os_set_exec (\<lambda>k. True) (Some name) (Some standard)
      provider (Some agent) (Some action) interval timeout params s = Inr (Some a, s')"
  shows "svc_inv s'"
proof -
  from create_effect [OF cr] obtain op where "svc_heap s' = (svc_heap s)(a \<mapsto> op)" "op_id op \<noteq> None"
    "a = svc_next s" "svc_next s' = Suc (svc_next s)" "svc_fault s' = svc_fault s"
    "recurring_actions s' = recurring_actions s" "process_table s' = process_table s" "ml_sources s' = ml_sources s"
    by blast
  then show ?thesis by (rule inv_new [OF inv])
qed

lemma inv_init: "svc_inv svc_init"
  by (rule svc_invI) (simp_all add: svc_init_def heap_ok_def tracked_def timer_of_def)

text \<open>The timer of a child: the child is marked and its timer replaced, and nothing else changes.\<close>

lemma child_timeout_effect:
  fixes s :: svc_state
  assumes "tracked s pid = Some p"
  obtains j s' where "snd (child_timeout_callback new_id kill_res pid s) = s'"
    "tracked s' = (tracked s)(pid \<mapsto> p\<lparr>ch_timeout := True, ch_timerid := j\<rparr>)" "svc_heap s' = svc_heap s" "svc_fault s' = svc_fault s"
    "svc_next s' = svc_next s" "recurring_actions s' = recurring_actions s" "svc_called s' = svc_called s"
    "\<And>i a. timer_of s' i a \<Longrightarrow> timer_of s i a"
proof -
  obtain t where t: "process_table s = Some t" "t pid = Some p" using assms by (auto simp: tracked_def split: bind_splits)
  let ?s = "snd (child_timeout_callback new_id kill_res pid s)"
  have "\<exists>j. tracked ?s = (tracked s)(pid \<mapsto> p\<lparr>ch_timeout := True, ch_timerid := j\<rparr>)"
  proof (intro exI)
    show "tracked ?s = (tracked s)(pid \<mapsto> p\<lparr>ch_timeout := True, ch_timerid :=
        if ch_timeout p \<or> kill_res (ch_pid p) = Some ESRCH then 0 else new_id (ml_sources s)\<rparr>)"
      using t by (cases p) (auto simp: child_timeout_callback_def attach_pair tracked_def Let_def fun_eq_iff)
  qed
  moreover have "svc_heap ?s = svc_heap s" "svc_fault ?s = svc_fault s" "svc_next ?s = svc_next s"
    "recurring_actions ?s = recurring_actions s" "svc_called ?s = svc_called s"
    by (simp_all add: child_timeout_callback_def attach_pair Let_def split: option.split)
  moreover have "timer_of s i a" if "timer_of ?s i a" for i a
    using that by (auto simp: child_timeout_callback_def attach_pair timer_of_def Let_def split: option.splits if_splits)
  ultimately show ?thesis using that by blast
qed

lemma inv_child_timeout:
  assumes inv: "svc_inv s"
  shows "svc_inv (snd (child_timeout_callback new_id kill_res pid s))"
proof (cases "tracked s pid")
  case None
  then show ?thesis using inv by (simp add: child_timeout_callback_def tracked_def)
next
  case (Some p)
  obtain j s' where e: "snd (child_timeout_callback new_id kill_res pid s) = s'"
    "tracked s' = (tracked s)(pid \<mapsto> p\<lparr>ch_timeout := True, ch_timerid := j\<rparr>)" "svc_heap s' = svc_heap s" "svc_fault s' = svc_fault s"
    "svc_next s' = svc_next s" "recurring_actions s' = recurring_actions s" "\<And>i a. timer_of s' i a \<Longrightarrow> timer_of s i a"
    using child_timeout_effect [OF Some] by metis
  have child: "child_of s q a" if "child_of s' q a" for q a
    using that Some by (auto simp: child_of_def e(2) split: if_splits)
  note D = svc_invD [OF inv]
  have "svc_inv s'"
  proof (rule svc_invI)
    fix q c assume "tracked s' q = Some c"
    then show "child_ok s' q c" using D(4) [of q] D(4) [OF Some] by (auto simp: e(2,3) child_ok_def split: if_splits)
  next
    show "\<not> child_of s' q a" if "timer_of s' i a" for i a q using that e(7) child D(7) by blast
    show "i = j" if "timer_of s' i a" "timer_of s' j a" for i j a using that e(7) D(6) by blast
    show "\<exists>op. svc_heap s' a = Some op \<and> op_interval op \<noteq> 0" if "timer_of s' i a" for i a using D(5) [OF e(7) [OF that]] e(3) by simp
  qed (use D(1-3,8) e in \<open>simp_all add: heap_ok_def\<close>)
  then show ?thesis by (simp add: e(1))
qed

lemma inv_child_timer:
  assumes "svc_inv s"
  shows "svc_inv (snd (fire_child_timer new_id kill_res i s))"
proof -
  have "svc_inv (g_source_remove i (snd (child_timeout_callback new_id kill_res p s)))" for p
    by (rule inv_remove_source [OF inv_child_timeout [OF assms]])
  then show ?thesis
    by (auto simp: fire_child_timer_def assms case_prod_beta split: option.split src.split)
qed

lemma svc_step_inv:
  assumes "svc_step new_id s s'" "svc_inv s"
  shows "svc_inv s'"
  using assms(1)
proof cases
  case create
  then show ?thesis using inv_create [OF assms(2)] by blast
next
  case start
  then show ?thesis using inv_start [OF assms(2)] by blast
next
  case (death wait3 n m)
  from child_death_dispatch_result [OF this] show ?thesis
    using assms(2) inv_handle_child [OF assms(2)] by blast
next
  case again
  then show ?thesis using inv_again [OF assms(2)] by blast
next
  case expire
  then show ?thesis using inv_child_timer [OF assms(2)] by simp
qed

section \<open>Properties\<close>

text \<open>C1: In every state reached by creating and starting actions, by the ends of children and by repeat
  timers and the timers of children, in any order, no callback has failed, and whatever the main loop and the table of recurring
  actions still refer to is a live action: the action of a tracked child holds the number of that
  child, a repeat timer belongs to a live recurring action without a child and can fire without an
  error, and an entry of the table is the live action with that identifier.\<close>

theorem async_engine_safe:
  assumes "(svc_step new_id)\<^sup>*\<^sup>* svc_init s"
  shows "svc_fault s = None \<and>
    (\<forall>pid c. tracked s pid = Some c \<longrightarrow>
       (\<exists>a op. ch_privatedata c = Some a \<and> svc_heap s a = Some op \<and> op_pid op = pid)) \<and>
    (\<forall>i ms a. ml_sources s i = Some (RepeatTimer ms a) \<longrightarrow>
       (\<exists>op. svc_heap s a = Some op \<and> op_interval op \<noteq> 0) \<and> (\<forall>pid. \<not> child_of s pid a) \<and>
       (\<forall>env. \<exists>s'. fire_repeat_timer env i a s = Inr ((), s'))) \<and>
    (\<forall>t k a. recurring_actions s = Some t \<and> t k = Some a \<longrightarrow>
       (\<exists>op. svc_heap s a = Some op \<and> op_id op = Some k \<and> 0 < op_interval op))"
proof -
  have inv: "svc_inv s" using assms
  proof (induction rule: rtranclp_induct)
    case base
    then show ?case by (rule inv_init)
  next
    case (step s s')
    then show ?case using svc_step_inv by blast
  qed
  note D = svc_invD [OF inv]
  have tm: "timer_of s i a" if "ml_sources s i = Some (RepeatTimer ms a)" for i ms a
    using that by (auto simp: timer_of_def)
  show ?thesis
  proof (intro conjI allI impI)
    show "\<exists>a op. ch_privatedata c = Some a \<and> svc_heap s a = Some op \<and> op_pid op = pid"
      if "tracked s pid = Some c" for pid c
      using D(4) [OF that] by (auto simp: child_ok_def)
    show "\<exists>s'. fire_repeat_timer env i a s = Inr ((), s')" if "ml_sources s i = Some (RepeatTimer ms a)" for i ms a env
      using fire_repeat_timer_ok [OF inv tm [OF that]] .
  qed (use D(1,5,7,8) tm in blast)+
qed

theorem async_engine_safe_witness:
  "\<exists>s a op. (svc_step least_id)\<^sup>*\<^sup>* svc_init s \<and> svc_heap s a = Some op \<and> svc_fault s = None"
proof -
  have h: "heap_ok svc_init" by (simp add: svc_init_def heap_ok_def)
  obtain op s where cr: "resources_action_create services_os_set_exec (\<lambda>k. True) (Some ''db'') (Some ''lsb'') None (Some ''db'')
      (Some ''monitor'') 1000 5000 None svc_init = Inr (Some (svc_next svc_init), s)"
    and op: "svc_heap s = (svc_heap svc_init)(svc_next svc_init \<mapsto> op)"
    using linux.create_known [of "''db''" "''db''" "''monitor''" "\<lambda>k. True" svc_init "''lsb''" None 1000 5000 None, OF _ _ _ _ h]
    by auto
  have reach: "(svc_step least_id)\<^sup>*\<^sup>* svc_init s"
    by (rule r_into_rtranclp) (rule svc_step.create [OF cr])
  have "svc_fault s = None" using async_engine_safe [OF reach] by blast
  moreover have "svc_heap s (svc_next svc_init) = Some op" by (simp add: op)
  ultimately show ?thesis using reach by blast
qed

text \<open>C7: When the child of a tracked action ends, the callback of the action is called exactly once,
  with the exit code as its result, or with the codes for a timeout or a signal; then an action
  without an interval is released, and one with an interval stays alive; the entry of the child is
  removed and all others are kept.\<close>

theorem operation_finished_reports:
  assumes "svc_inv s" "tracked s pid = Some p"
  shows "\<exists>a op op'. ch_privatedata p = Some a \<and> svc_heap s a = Some op \<and>
    (let s' = handle_child (operation_finished_cb new_id) pid status p s;
         (signo, code) = exit_of status
     in svc_inv s' \<and> tracked s' = (tracked s)(pid := None) \<and>
        svc_called s' = svc_called s @ (case op_callback (op_opaque op) of None \<Rightarrow> [] | Some f \<Rightarrow> [(f, op')]) \<and>
        op_id op' = op_id op \<and>
        (signo = 0 \<longrightarrow> op_status op' = LRM_OP_DONE \<and> op_rc op' = code) \<and>
        (signo \<noteq> 0 \<and> ch_timeout p \<longrightarrow> op_status op' = LRM_OP_TIMEOUT \<and> op_rc op' = OCF_TIMEOUT) \<and>
        (signo \<noteq> 0 \<and> \<not> ch_timeout p \<longrightarrow> op_status op' = LRM_OP_ERROR \<and> op_rc op' = OCF_SIGNAL) \<and>
        svc_heap s' = (svc_heap s)(a := if op_interval op = 0 then None else Some op'))"
proof -
  obtain a op i op' where e: "ch_privatedata p = Some a" "svc_heap s a = Some op"
    "op' = completed (p\<lparr>ch_timerid := 0\<rparr>) status i op"
    "tracked (handle_child (operation_finished_cb new_id) pid status p s) = (tracked s)(pid := None)"
    "svc_called (handle_child (operation_finished_cb new_id) pid status p s) =
       svc_called s @ (case op_callback (op_opaque op) of None \<Rightarrow> [] | Some f \<Rightarrow> [(f, op')])"
    "svc_heap (handle_child (operation_finished_cb new_id) pid status p s) =
       (svc_heap s)(a := if op_interval op = 0 then None else Some op')"
    using handle_child_effect [OF assms, of new_id status] by (auto split: if_splits)
  obtain signo code where ex: "exit_of status = (signo, code)" by fastforce
  have "op_status op' = (if signo \<noteq> 0 then if ch_timeout p then LRM_OP_TIMEOUT else LRM_OP_ERROR else LRM_OP_DONE)"
    "op_rc op' = (if signo \<noteq> 0 then if ch_timeout p then OCF_TIMEOUT else OCF_SIGNAL else code)"
    "op_id op' = op_id op"
    by (simp_all add: e(3) completed_def ex finished_action_def Let_def)
  with e(1,2,4-6) inv_handle_child [OF assms, of new_id status] show ?thesis
    by (intro exI [of _ a] exI [of _ op] exI [of _ op']) (simp add: ex Let_def)
qed

definition demo_child :: mainloop_child where
  "demo_child = \<lparr>ch_pid = 42, ch_desc = ''x'', ch_timerid = 0, ch_timeout = False, ch_privatedata = Some 7,
     ch_callback = fn_operation_finished\<rparr>"

definition demo_running :: svc_state where
  "demo_running = demo_state\<lparr>process_table := Some [42 \<mapsto> demo_child],
     recurring_actions := Some [''x_start_5'' \<mapsto> 7],
     svc_heap := [7 \<mapsto> demo_action\<lparr>op_id := Some ''x_start_5'', op_interval := 5, op_pid := 42,
       op_opaque := (op_opaque demo_action)\<lparr>op_callback := Some 9\<rparr>\<rparr>]\<rparr>"

lemma demo_running_inv: "svc_inv demo_running" "tracked demo_running 42 = Some demo_child"
proof -
  show "svc_inv demo_running"
    by (rule svc_invI)
      (auto simp: demo_running_def demo_child_def demo_state_def svc_init_def heap_ok_def tracked_def timer_of_def
        child_ok_def split: if_splits)
  show "tracked demo_running 42 = Some demo_child" by (simp add: demo_running_def tracked_def)
qed

theorem operation_finished_reports_witness:
  "\<exists>op'. svc_called (handle_child (operation_finished_cb least_id) 42 768 demo_child demo_running) = [(9, op')] \<and>
     op_rc op' = 3"
proof -
  have ex: "exit_of 768 = (0, 3)" using wait_status_exit [of 3] by (simp add: exit_of_def)
  obtain a op op' where r: "ch_privatedata demo_child = Some a" "svc_heap demo_running a = Some op"
    "svc_called (handle_child (operation_finished_cb least_id) 42 768 demo_child demo_running) =
       svc_called demo_running @ (case op_callback (op_opaque op) of None \<Rightarrow> [] | Some f \<Rightarrow> [(f, op')])" "op_rc op' = 3"
    using operation_finished_reports [OF demo_running_inv, of least_id 768] by (auto simp: ex Let_def)
  from r(1,2) have "op_callback (op_opaque op) = Some 9" by (auto simp: demo_child_def demo_running_def)
  moreover have "svc_called demo_running = []" by (simp add: demo_running_def demo_state_def svc_init_def)
  ultimately show ?thesis using r(3,4) by auto
qed

text \<open>Cancelling a recurring action releases it but leaves its entry in the table of recurring
  actions, so that cancelling the same action again reads the released object.\<close>

theorem cancel_twice_use_after_free:
  assumes "recurring_actions s = Some t" "t (snprintf 512 (action_id name action interval)) = Some a"
    "svc_heap s a = Some op"
  shows "\<exists>s'. services_action_cancel name action interval s = Inr (True, s') \<and> svc_heap s' a = None \<and>
    (op_repeat_timer (op_opaque op) \<noteq> 0 \<longrightarrow> ml_sources s' (op_repeat_timer (op_opaque op)) = None) \<and>
    services_action_cancel name action interval s' = Inl UseAfterFree"
proof -
  define s1 where "s1 = (if op_repeat_timer (op_opaque op) \<noteq> 0
    then g_source_remove (op_repeat_timer (op_opaque op)) s else s)"
  have h: "svc_heap s1 a = Some op" and rec: "recurring_actions s1 = Some t" using assms by (simp_all add: s1_def)
  have c: "services_action_cancel name action interval s = Inr (True, freed a op s1)"
    using assms services_action_free_live [OF h] by (simp add: services_action_cancel_def svc_simps s1_def Let_def)
  have d: "services_action_cancel name action interval (freed a op s1) = Inl UseAfterFree"
    using rec assms(2) by (simp add: services_action_cancel_def svc_simps Let_def)
  have "op_repeat_timer (op_opaque op) \<noteq> 0 \<longrightarrow> ml_sources (freed a op s1) (op_repeat_timer (op_opaque op)) = None"
    by (simp add: s1_def freed_def)
  with c d show ?thesis by simp
qed

theorem cancel_twice_use_after_free_witness:
  "\<exists>s'. services_action_cancel ''x'' ''start'' 5 demo_running = Inr (True, s') \<and>
    services_action_cancel ''x'' ''start'' 5 s' = Inl UseAfterFree"
proof -
  have k: "snprintf 512 (action_id ''x'' ''start'' 5) = ''x_start_5''" by code_simp
  have t: "recurring_actions demo_running = Some [''x_start_5'' \<mapsto> 7]" by (simp add: demo_running_def)
  obtain op where "svc_heap demo_running 7 = Some op" by (simp add: demo_running_def)
  from cancel_twice_use_after_free [OF t _ this, of "''x''" "''start''" 5] k show ?thesis by auto
qed

text \<open>Cancelling a recurring action while its child is running releases the action but not the entry
  of the child, so that the end of the child makes the main loop's callback read the released object.\<close>

theorem cancel_running_use_after_free:
  assumes "svc_inv s" "tracked s pid = Some p" "ch_privatedata p = Some a"
    "recurring_actions s = Some t" "t (snprintf 512 (action_id name action interval)) = Some a"
  shows "\<exists>s'. services_action_cancel name action interval s = Inr (True, s') \<and> tracked s' pid = Some p \<and>
    svc_fault (handle_child (operation_finished_cb new_id) pid status p s') = Some UseAfterFree"
proof -
  obtain op where op: "svc_heap s a = Some op" using svc_invD(4) [OF assms(1,2)] assms(3) by (auto simp: child_ok_def)
  define s1 where "s1 = (if op_repeat_timer (op_opaque op) \<noteq> 0
    then g_source_remove (op_repeat_timer (op_opaque op)) s else s)"
  have h: "svc_heap s1 a = Some op" using op by (simp add: s1_def)
  have c: "services_action_cancel name action interval s = Inr (True, freed a op s1)"
    using assms(4,5) op services_action_free_live [OF h] by (simp add: services_action_cancel_def svc_simps s1_def Let_def)
  have tr: "tracked (freed a op s1) = tracked s" by (rule tracked_cong) (simp add: s1_def)
  have "svc_fault (handle_child (operation_finished_cb new_id) pid status p (freed a op s1)) = Some UseAfterFree"
    using assms(3) by (simp add: handle_child_def operation_finished_cb_def operation_finished_def svc_simps Let_def
        split: prod.splits)
  with c tr assms(2) show ?thesis by auto
qed

theorem cancel_running_use_after_free_witness:
  "\<exists>s'. services_action_cancel ''x'' ''start'' 5 demo_running = Inr (True, s') \<and>
    svc_fault (handle_child (operation_finished_cb least_id) 42 0 demo_child s') = Some UseAfterFree"
proof -
  have k: "snprintf 512 (action_id ''x'' ''start'' 5) = ''x_start_5''" by code_simp
  have "recurring_actions demo_running = Some [''x_start_5'' \<mapsto> 7]" "ch_privatedata demo_child = Some 7"
    by (simp_all add: demo_running_def demo_child_def)
  from cancel_running_use_after_free [OF demo_running_inv this(2,1), of "''x''" "''start''" 5 least_id 0] k
  show ?thesis by auto
qed

end
