(* ===== verification/Dbus.thy ===== *)
theory Dbus
  imports Utilities
begin

text \<open>
  \<^verbatim>\<open>src/src/lib/mh_dbus_common.c\<close> and \<^verbatim>\<open>dbus_common.h\<close>: the part the D-Bus agents share, that is
  authorization through PolicyKit, the property table of the exported object, reading and writing
  properties, dictionaries, and starting the server.

  A method handler runs on the state \<open>'w\<close> of its agent and gives the reply it sends (or \<open>Pending\<close> when
  a callback will reply later), the \<^verbatim>\<open>gboolean\<close> it returns and the new state; \<open>None\<close> is a crash by
  reading through a NULL pointer. PolicyKit, GObject and the bus are arguments. \<open>guarded\<close> is the
  text with which every handler of the four agents begins. The locale \<open>dbus_agent\<close> states what an
  agent owes its callers: a request that is not authorized is answered with an error and changes
  nothing. Each agent theory interprets it.
\<close>

section \<open>Values and replies\<close>

datatype gvalue =
    GString cptr
  | GBool bool
  | GInt int
  | GUint u32
  | GUint64 u64
  | GDouble u64
  | GStrv "string list"
  | GMap "(string \<times> gvalue) list"

datatype reply = Returned "gvalue list" | Failed "gerror option" | Pending

type_synonym 'w handler = "'w \<Rightarrow> ((reply \<times> bool) \<times> 'w) option"

definition matahari_error :: "mh_result \<Rightarrow> gerror" where
  "matahari_error res =
     \<lparr>gerr_code = mh_result_code res, gerr_message = mh_result_to_str (mh_result_code res)\<rparr>"

section \<open>Authorization\<close>

text \<open>PolicyKit as the code sees it: whether the synchronous constructor is compiled in, the error it
  reports, whether the older constructor returns an authority, and the answer for a caller and an
  action (an error message or the decision). A context is the bus name of the caller, \<open>None\<close> is NULL.\<close>

record polkit =
  pk_have_get_sync :: bool
  pk_get_sync_error :: "string option"
  pk_authority_get :: bool
  pk_check :: "string \<Rightarrow> string \<Rightarrow> string + bool"

definition check_authorization :: "polkit \<Rightarrow> string \<Rightarrow> cptr \<Rightarrow> bool \<times> gerror option" where
  "check_authorization pk action context =
     (case context of
        None \<Rightarrow> (False, None)
      | Some sender \<Rightarrow>
          if \<not> pk_have_get_sync pk \<and> \<not> pk_authority_get pk then (False, None)
          else case (if pk_have_get_sync pk then pk_get_sync_error pk else None) of
                 Some message \<Rightarrow>
                   (False, Some \<lparr>gerr_code = mh_result_code MH_RES_AUTHENTICATION_ERROR, gerr_message = message\<rparr>)
               | None \<Rightarrow>
                   (case pk_check pk sender action of
                      Inl message \<Rightarrow>
                        (False, Some \<lparr>gerr_code = mh_result_code MH_RES_AUTHENTICATION_ERROR,
                                      gerr_message = message\<rparr>)
                    | Inr res \<Rightarrow>
                        (res, if res then None else Some (matahari_error MH_RES_AUTHENTICATION_ERROR))))"

definition authorized :: "polkit \<Rightarrow> string \<Rightarrow> cptr \<Rightarrow> bool" where
  "authorized pk action context = fst (check_authorization pk action context)"

definition guarded :: "polkit \<Rightarrow> string \<Rightarrow> cptr \<Rightarrow> 'w handler \<Rightarrow> 'w handler" where
  "guarded pk action context body w =
     (case check_authorization pk action context of (ok, error) \<Rightarrow>
        if \<not> ok then Some ((Failed error, False), w) else body w)"

section \<open>The property table\<close>

record property_entry =
  prop_id :: int
  prop_name :: cptr
  prop_nick :: string
  prop_desc :: string
  prop_flags :: nat
  prop_type :: char

datatype gtype = G_TYPE_VALUE | G_TYPE_INT | G_TYPE_DOUBLE

datatype value_spec =
    SpecString
  | SpecBoolean
  | SpecInt int int
  | SpecInt64 int int
  | SpecUint nat nat
  | SpecUint64 nat nat
  | SpecDouble
  | SpecBoxedMap gtype

record param_spec =
  spec_name :: cptr
  spec_nick :: string
  spec_desc :: string
  spec_flags :: nat
  spec_value :: value_spec

text \<open>\<open>None\<close> is the result \<^verbatim>\<open>FALSE\<close>; \<open>dict_type\<close> is the agent's \<open>matahari_dict_type\<close>.\<close>

definition get_paramspec_from_property :: "(int \<Rightarrow> gtype) \<Rightarrow> property_entry \<Rightarrow> param_spec option" where
  "get_paramspec_from_property dict_type p =
     (let spec = (\<lambda>v. Some \<lparr>spec_name = prop_name p, spec_nick = prop_nick p, spec_desc = prop_desc p,
                            spec_flags = prop_flags p, spec_value = v\<rparr>);
          t = prop_type p
      in if t = CHR ''s'' then spec SpecString
         else if t = CHR ''b'' then spec SpecBoolean
         else if t = CHR ''n'' \<or> t = CHR ''i'' then spec (SpecInt (- (2 ^ 31)) (2 ^ 31 - 1))
         else if t = CHR ''x'' then spec (SpecInt64 (- (2 ^ 63)) (2 ^ 63 - 1))
         else if t = CHR ''y'' \<or> t = CHR ''q'' \<or> t = CHR ''u'' then spec (SpecUint 0 (2 ^ 32 - 1))
         else if t = CHR ''t'' then spec (SpecUint64 0 (2 ^ 64 - 1))
         else if t = CHR ''d'' then spec SpecDouble
         else if t = CHR ''e'' then spec (SpecBoxedMap (dict_type (prop_id p)))
         else None)"

text \<open>The loop of \<open>matahari_class_init\<close> over the table, which ends at the entry without a name: the
  properties installed, with their identifiers.\<close>

fun matahari_class_init :: "(int \<Rightarrow> gtype) \<Rightarrow> property_entry list \<Rightarrow> (int \<times> param_spec) list" where
  "matahari_class_init dict_type [] = []"
| "matahari_class_init dict_type (p # ps) =
     (if prop_name p = None then []
      else case get_paramspec_from_property dict_type p of
             None \<Rightarrow> matahari_class_init dict_type ps
           | Some pspec \<Rightarrow> (prop_id p, pspec) # matahari_class_init dict_type ps)"

section \<open>Reading and writing properties\<close>

text \<open>\<open>find_property\<close> and \<open>get_property\<close> stand for GObject: whether the class has the property, and the
  value of it, computed by the agent's \<open>matahari_get_property\<close>, which may change the agent's state.\<close>

definition matahari_get ::
  "polkit \<Rightarrow> (string \<Rightarrow> bool) \<Rightarrow> (string \<Rightarrow> 'w \<Rightarrow> gvalue \<times> 'w) \<Rightarrow> string \<Rightarrow> string \<Rightarrow> cptr \<Rightarrow> 'w handler" where
  "matahari_get pk find_property get_property interface name context =
     guarded pk (interface @ ''.'' @ name) context
       (\<lambda>w. if \<not> find_property name
            then Some ((Failed (Some (matahari_error MH_RES_INVALID_ARGS)), False), w)
            else (case get_property name w of (value, w') \<Rightarrow> Some ((Returned [value], True), w')))"

definition matahari_set ::
  "polkit \<Rightarrow> (string \<Rightarrow> gvalue \<Rightarrow> 'w \<Rightarrow> 'w) \<Rightarrow> string \<Rightarrow> string \<Rightarrow> gvalue \<Rightarrow> cptr \<Rightarrow> 'w handler" where
  "matahari_set pk set_property interface name value context =
     guarded pk (interface @ ''.'' @ name) context
       (\<lambda>w. Some ((Returned [], True), set_property name value w))"

text \<open>A dictionary under construction: \<open>dict_new\<close> starts an empty map in the caller's value,
  \<open>dict_add\<close> appends an entry to it.\<close>

definition dict_new :: "(string \<times> gvalue) list" where
  "dict_new = []"

definition dict_add :: "(string \<times> gvalue) list \<Rightarrow> string \<Rightarrow> gvalue \<Rightarrow> (string \<times> gvalue) list" where
  "dict_add dict key value = dict @ [(key, value)]"

section \<open>Starting the server\<close>

datatype server_event =
    LogInit string
  | BusGet
  | RegisterObject string
  | RequestName string
  | TrackChildren
  | RunLoop

text \<open>What the bus answers: whether a connection is given, whether the name request succeeds and the
  reply code of it (1 is \<^verbatim>\<open>DBUS_REQUEST_NAME_REPLY_PRIMARY_OWNER\<close>).\<close>

definition run_dbus_server :: "bool \<Rightarrow> nat option \<Rightarrow> string \<Rightarrow> string \<Rightarrow> int \<times> server_event list" where
  "run_dbus_server connected request_name_ret bus_name object_path =
     (let started = [LogInit bus_name, BusGet]
      in if \<not> connected then (1, started)
         else let named = started @ [RegisterObject object_path, RequestName bus_name]
              in case request_name_ret of
                   None \<Rightarrow> (1, named)
                 | Some ret \<Rightarrow> if ret = 1 then (0, named @ [TrackChildren, RunLoop]) else (1, named))"

section \<open>Lemmas\<close>

named_theorems dbus_simps

lemma guarded_denied [dbus_simps]:
  "\<not> authorized pk action context \<Longrightarrow>
   guarded pk action context body w = Some ((Failed (snd (check_authorization pk action context)), False), w)"
  by (auto simp: guarded_def authorized_def split: prod.splits)

lemma guarded_allowed [dbus_simps]:
  "authorized pk action context \<Longrightarrow> guarded pk action context body w = body w"
  by (auto simp: guarded_def authorized_def split: prod.splits)

lemma guarded_cases:
  assumes "guarded pk action context body w = Some ((rep, ret), w')"
  obtains "body w = Some ((rep, ret), w')" | e where "rep = Failed e" "w' = w"
  using assms by (auto simp: guarded_def split: prod.splits if_splits)

lemma authorized_iff:
  "authorized pk action context \<longleftrightarrow>
     (\<exists>sender. context = Some sender \<and> pk_check pk sender action = Inr True \<and>
        (if pk_have_get_sync pk then pk_get_sync_error pk = None else pk_authority_get pk))"
  by (auto simp: authorized_def check_authorization_def split: option.splits sum.splits if_splits)

lemma check_authorization_error:
  "snd (check_authorization pk action context) = None \<longleftrightarrow>
     authorized pk action context \<or> context = None \<or> \<not> pk_have_get_sync pk \<and> \<not> pk_authority_get pk"
  by (auto simp: authorized_def check_authorization_def split: option.splits sum.splits if_splits)

text \<open>A PolicyKit that allows exactly the listed actions.\<close>

definition allow_only :: "string list \<Rightarrow> polkit" where
  "allow_only actions = \<lparr>pk_have_get_sync = True, pk_get_sync_error = None, pk_authority_get = True,
     pk_check = (\<lambda>sender action. Inr (action \<in> set actions))\<rparr>"

lemma authorized_allow_only [simp]:
  "authorized (allow_only actions) action (Some sender) \<longleftrightarrow> action \<in> set actions"
  by (simp add: authorized_iff allow_only_def)

section \<open>The contract of an agent\<close>

text \<open>Serving a sequence of requests, each with its context: the replies and the final state.\<close>

fun serve ::
  "(cptr \<Rightarrow> 'req \<Rightarrow> 'w handler) \<Rightarrow> (cptr \<times> 'req) list \<Rightarrow> 'w \<Rightarrow> ((reply \<times> bool) list \<times> 'w) option" where
  "serve handle [] w = Some ([], w)"
| "serve handle ((ctx, r) # reqs) w =
     (case handle ctx r w of
        None \<Rightarrow> None
      | Some (rep, w1) \<Rightarrow>
          (case serve handle reqs w1 of None \<Rightarrow> None | Some (reps, w2) \<Rightarrow> Some (rep # reps, w2)))"

locale dbus_agent =
  fixes handle :: "polkit \<Rightarrow> cptr \<Rightarrow> 'req \<Rightarrow> 'w handler"
    and action_of :: "'req \<Rightarrow> string"
  assumes denied: "\<not> authorized pk (action_of r) ctx \<Longrightarrow>
    handle pk ctx r w = Some ((Failed (snd (check_authorization pk (action_of r) ctx)), False), w)"
begin

text \<open>Requests none of which is authorized: every reply is an error and the state is the same.\<close>

lemma serve_denied:
  "\<forall>(ctx, r)\<in>set reqs. \<not> authorized pk (action_of r) ctx \<Longrightarrow>
   serve (handle pk) reqs w =
     Some (map (\<lambda>(ctx, r). (Failed (snd (check_authorization pk (action_of r) ctx)), False)) reqs, w)"
  by (induction reqs) (auto simp: denied)

text \<open>Hence a state change, or a crash, needs an authorized request.\<close>

lemma effect_authorized:
  assumes "serve (handle pk) reqs w = res" "\<forall>reps. res \<noteq> Some (reps, w)"
  shows "\<exists>(ctx, r)\<in>set reqs. authorized pk (action_of r) ctx"
  using serve_denied [of reqs pk w] assms by fastforce

text \<open>The requests that are not authorized can be left out without any effect on the final state.\<close>

lemma serve_filter:
  "map_option snd (serve (handle pk) reqs w) =
   map_option snd (serve (handle pk) (filter (\<lambda>(ctx, r). authorized pk (action_of r) ctx) reqs) w)"
proof (induction reqs arbitrary: w)
  case (Cons req reqs)
  obtain ctx r where req: "req = (ctx, r)" by fastforce
  show ?case
  proof (cases "authorized pk (action_of r) ctx")
    case True
    have step: "map_option snd (serve (handle pk) ((ctx, r) # rest) w) =
        Option.bind (handle pk ctx r w) (\<lambda>x. map_option snd (serve (handle pk) rest (snd x)))" for rest
      by (auto split: option.splits)
    show ?thesis using True by (simp only: req filter.simps split_conv if_True step Cons.IH)
  next
    case False
    have "map_option snd (serve (handle pk) (req # reqs) w) = map_option snd (serve (handle pk) reqs w)"
      by (auto simp: req denied [OF False] split: option.splits)
    with Cons.IH False show ?thesis by (simp add: req)
  qed
qed simp

end

end
