(* ===== verification/Service_Agent.thy ===== *)
theory Service_Agent
  imports Services_Async Dbus
begin

text \<open>
  \<^verbatim>\<open>src/src/service/service-dbus.c\<close>: the D-Bus agent for services and resources. Its state is the state
  of the service library; a failure of the library (a NULL pointer, a released object) is a crash of
  the agent. \<open>agent_env\<close> holds the answers of the kernel and of the file system. The reply of
  \<open>Resources_invoke\<close> is sent by \<open>invoke_cb\<close> when the action completes.
\<close>

record 'f agent_env =
  ae_exec :: exec_env
  ae_scandir :: "string \<Rightarrow> string list option"
  ae_stat :: "string \<Rightarrow> u32"
  ae_file_ops :: "'f file_ops"
  ae_files :: 'f

definition SERVICES_BUS_NAME :: string where
  "SERVICES_BUS_NAME = ''org.matahariproject.Services''"

definition RESOURCES_INTERFACE_NAME :: string where
  "RESOURCES_INTERFACE_NAME = ''org.matahariproject.Resources''"

definition TIMEOUT_MS :: int where "TIMEOUT_MS = 60000"

definition list_agents :: "'f agent_env \<Rightarrow> string \<Rightarrow> cptr \<Rightarrow> svc_state \<Rightarrow> (string list) svc_result" where
  "list_agents env standard provider s =
     resources_list_agents (resources_os_list_ocf_agents (ae_scandir env) (ae_stat env))
       (services_os_list (ae_scandir env) (ae_stat env))
       (resources_os_list_systemd_services (ae_exec env)) standard provider s"

text \<open>A result that is sent as it is, and the crash of a failed call.\<close>

definition reply_value :: "('a \<Rightarrow> gvalue) \<Rightarrow> 'a svc_result \<Rightarrow> ((reply \<times> bool) \<times> svc_state) option" where
  "reply_value f r = (case r of Inl e \<Rightarrow> None | Inr (v, s) \<Rightarrow> Some ((Returned [f v], True), s))"

section \<open>Services\<close>

definition Services_list :: "'f agent_env \<Rightarrow> polkit \<Rightarrow> cptr \<Rightarrow> svc_state handler" where
  "Services_list env pk context =
     guarded pk (SERVICES_BUS_NAME @ ''.list'') context
       (\<lambda>s. reply_value GStrv (list_agents env ''lsb'' None s))"

text \<open>Create the action, run it, release it: the result of the run (\<open>enable\<close>, \<open>disable\<close>), or the result
  code of the action (\<open>start\<close>, \<open>stop\<close>, \<open>status\<close>).\<close>

definition run_for_result :: "'f agent_env \<Rightarrow> string \<Rightarrow> string \<Rightarrow> svc_state \<Rightarrow> bool svc_result" where
  "run_for_result env name action s =
     (case services_action_create services_os_set_exec (\<lambda>k. True) (Some name) (Some action) 0 TIMEOUT_MS s of
        Inl e \<Rightarrow> Inl e
      | Inr (op, s1) \<Rightarrow>
          (case services_action_sync (services_os_action_execute (ae_exec env)) op s1 of
             Inl e \<Rightarrow> Inl e
           | Inr (res, s2) \<Rightarrow>
               (case services_action_free op s2 of Inl e \<Rightarrow> Inl e | Inr (_, s3) \<Rightarrow> Inr (res, s3))))"

definition run_for_rc :: "'f agent_env \<Rightarrow> string \<Rightarrow> string \<Rightarrow> u32 \<Rightarrow> svc_state \<Rightarrow> int svc_result" where
  "run_for_rc env name action timeout s =
     (case services_action_create services_os_set_exec (\<lambda>k. True) (Some name) (Some action) 0 (int_of_u32 timeout) s of
        Inl e \<Rightarrow> Inl e
      | Inr (op, s1) \<Rightarrow>
          (case services_action_sync (services_os_action_execute (ae_exec env)) op s1 of
             Inl e \<Rightarrow> Inl e
           | Inr (_, s2) \<Rightarrow>
               (case load op s2 of
                  Inl e \<Rightarrow> Inl e
                | Inr x \<Rightarrow>
                    (case services_action_free op s2 of Inl e \<Rightarrow> Inl e | Inr (_, s3) \<Rightarrow> Inr (op_rc x, s3)))))"

definition Services_enable :: "'f agent_env \<Rightarrow> polkit \<Rightarrow> string \<Rightarrow> cptr \<Rightarrow> svc_state handler" where
  "Services_enable env pk name context =
     guarded pk (SERVICES_BUS_NAME @ ''.enable'') context
       (\<lambda>s. case run_for_result env name ''enable'' s of
              Inl e \<Rightarrow> None | Inr (res, s') \<Rightarrow> Some ((Returned [GBool res], res), s'))"

definition Services_disable :: "'f agent_env \<Rightarrow> polkit \<Rightarrow> string \<Rightarrow> cptr \<Rightarrow> svc_state handler" where
  "Services_disable env pk name context =
     guarded pk (SERVICES_BUS_NAME @ ''.disable'') context
       (\<lambda>s. case run_for_result env name ''disable'' s of
              Inl e \<Rightarrow> None | Inr (res, s') \<Rightarrow> Some ((Returned [GBool res], res), s'))"

definition Services_start :: "'f agent_env \<Rightarrow> polkit \<Rightarrow> string \<Rightarrow> u32 \<Rightarrow> cptr \<Rightarrow> svc_state handler" where
  "Services_start env pk name timeout context =
     guarded pk (SERVICES_BUS_NAME @ ''.start'') context
       (\<lambda>s. reply_value GInt (run_for_rc env name ''start'' timeout s))"

definition Services_stop :: "'f agent_env \<Rightarrow> polkit \<Rightarrow> string \<Rightarrow> u32 \<Rightarrow> cptr \<Rightarrow> svc_state handler" where
  "Services_stop env pk name timeout context =
     guarded pk (SERVICES_BUS_NAME @ ''.stop'') context
       (\<lambda>s. reply_value GInt (run_for_rc env name ''stop'' timeout s))"

definition Services_status :: "'f agent_env \<Rightarrow> polkit \<Rightarrow> string \<Rightarrow> u32 \<Rightarrow> cptr \<Rightarrow> svc_state handler" where
  "Services_status env pk name timeout context =
     guarded pk (SERVICES_BUS_NAME @ ''.status'') context
       (\<lambda>s. reply_value GInt (run_for_rc env name ''status'' timeout s))"

definition Services_describe :: "polkit \<Rightarrow> string \<Rightarrow> cptr \<Rightarrow> svc_state handler" where
  "Services_describe pk name context =
     guarded pk (SERVICES_BUS_NAME @ ''.describe'') context
       (\<lambda>s. Some ((Failed (Some (matahari_error MH_RES_NOT_IMPLEMENTED)), True), s))"

section \<open>Resources\<close>

definition Resources_list_standards :: "'f agent_env \<Rightarrow> polkit \<Rightarrow> cptr \<Rightarrow> svc_state handler" where
  "Resources_list_standards env pk context =
     guarded pk (RESOURCES_INTERFACE_NAME @ ''.list_standards'') context
       (\<lambda>s. Some ((Returned [GStrv (resources_list_standards (ae_file_ops env) (ae_files env))], True), s))"

definition Resources_list_providers :: "'f agent_env \<Rightarrow> polkit \<Rightarrow> string \<Rightarrow> cptr \<Rightarrow> svc_state handler" where
  "Resources_list_providers env pk standard context =
     guarded pk (RESOURCES_INTERFACE_NAME @ ''.list_providers'') context
       (\<lambda>s. Some ((Returned [GStrv (resources_list_providers
              (resources_os_list_ocf_providers (ae_scandir env) (ae_stat env)) standard)], True), s))"

definition Resources_list :: "'f agent_env \<Rightarrow> polkit \<Rightarrow> string \<Rightarrow> string \<Rightarrow> cptr \<Rightarrow> svc_state handler" where
  "Resources_list env pk standard provider context =
     guarded pk (RESOURCES_INTERFACE_NAME @ ''.list'') context
       (\<lambda>s. let standard' = (if standard = [] then ''ocf'' else standard);
                provider' = (if provider = [] then ''heartbeat'' else provider)
            in reply_value GStrv (list_agents env standard' (Some provider') s))"

definition Resources_describe :: "polkit \<Rightarrow> string \<Rightarrow> string \<Rightarrow> string \<Rightarrow> cptr \<Rightarrow> svc_state handler" where
  "Resources_describe pk standard provider agent context =
     guarded pk (RESOURCES_INTERFACE_NAME @ ''.describe'') context
       (\<lambda>s. Some ((Failed (Some (matahari_error MH_RES_NOT_IMPLEMENTED)), True), s))"

text \<open>The reply that the completion of an invoked action sends.\<close>

definition invoke_cb :: "string \<Rightarrow> svc_action \<Rightarrow> reply" where
  "invoke_cb userdata op = Returned [GInt (op_rc op), GInt (op_sequence op), GString (Some userdata)]"

definition fn_invoke_cb :: nat where "fn_invoke_cb = 5"

text \<open>\<open>data\<close> is the address of the callback data, \<open>None\<close> when \<^verbatim>\<open>malloc\<close> fails. The argument \<open>interval\<close> of the
  method is not used.\<close>

definition Resources_invoke ::
  "'f agent_env \<Rightarrow> polkit \<Rightarrow> nat option \<Rightarrow> string \<Rightarrow> string \<Rightarrow> string \<Rightarrow> string \<Rightarrow> string \<Rightarrow> u32
   \<Rightarrow> (string \<times> string) list \<Rightarrow> u32 \<Rightarrow> u32 \<Rightarrow> cptr \<Rightarrow> svc_state handler" where
  "Resources_invoke env pk data name standard provider agent action interval parameters timeout expected_rc context =
     guarded pk (RESOURCES_INTERFACE_NAME @ ''.invoke'') context
       (\<lambda>s. if \<not> list_ex (\<lambda>x. strcasecmp x standard) (resources_list_standards (ae_file_ops env) (ae_files env))
            then Some ((Failed (Some \<lparr>gerr_code = mh_result_code MH_RES_NOT_IMPLEMENTED,
                          gerr_message = standard @ '' is not a known resource standard''\<rparr>), False), s)
            else case resources_action_create services_os_set_exec (\<lambda>k. True) (Some name) (Some standard)
                        (Some provider) (Some agent) (Some action) 0 (int_of_u32 timeout) (Some parameters) s of
                   Inl e \<Rightarrow> None
                 | Inr (op, s1) \<Rightarrow>
                     (case load op s1 of
                        Inl e \<Rightarrow> None
                      | Inr x \<Rightarrow>
                          (let x1 = x\<lparr>op_expected_rc := int_of_u32 expected_rc\<rparr>
                           in case data of
                                None \<Rightarrow>
                                  (case services_action_free op (store (the op) x1 s1) of
                                     Inl e \<Rightarrow> None | Inr (_, s2) \<Rightarrow> Some ((Pending, False), s2))
                              | Some d \<Rightarrow>
                                  (case services_action_async (services_os_action_execute (ae_exec env)) op
                                          (Some fn_invoke_cb) (store (the op) (x1\<lparr>op_cb_data := Some d\<rparr>) s1) of
                                     Inl e \<Rightarrow> None | Inr (_, s2) \<Rightarrow> Some ((Pending, False), s2)))))"

definition Resources_cancel ::
  "polkit \<Rightarrow> string \<Rightarrow> string \<Rightarrow> u32 \<Rightarrow> u32 \<Rightarrow> cptr \<Rightarrow> svc_state handler" where
  "Resources_cancel pk name action interval timeout context =
     guarded pk (RESOURCES_INTERFACE_NAME @ ''.cancel'') context
       (\<lambda>s. case services_action_cancel name action 0 s of
              Inl e \<Rightarrow> None | Inr (_, s') \<Rightarrow> Some ((Returned [], True), s'))"

definition Resources_fail :: "polkit \<Rightarrow> string \<Rightarrow> u32 \<Rightarrow> cptr \<Rightarrow> svc_state handler" where
  "Resources_fail pk name rc context =
     guarded pk (RESOURCES_INTERFACE_NAME @ ''.fail'') context
       (\<lambda>s. Some ((Failed (Some (matahari_error MH_RES_NOT_IMPLEMENTED)), True), s))"

section \<open>The agent\<close>

datatype service_request =
    Svc_list
  | Svc_enable string
  | Svc_disable string
  | Svc_start string u32
  | Svc_stop string u32
  | Svc_status string u32
  | Svc_describe string
  | Res_list_standards
  | Res_list_providers string
  | Res_list string string
  | Res_describe string string string
  | Res_invoke "nat option" string string string string string u32 "(string \<times> string) list" u32 u32
  | Res_cancel string string u32 u32
  | Res_fail string u32

fun service_action :: "service_request \<Rightarrow> string" where
  "service_action Svc_list = SERVICES_BUS_NAME @ ''.list''"
| "service_action (Svc_enable _) = SERVICES_BUS_NAME @ ''.enable''"
| "service_action (Svc_disable _) = SERVICES_BUS_NAME @ ''.disable''"
| "service_action (Svc_start _ _) = SERVICES_BUS_NAME @ ''.start''"
| "service_action (Svc_stop _ _) = SERVICES_BUS_NAME @ ''.stop''"
| "service_action (Svc_status _ _) = SERVICES_BUS_NAME @ ''.status''"
| "service_action (Svc_describe _) = SERVICES_BUS_NAME @ ''.describe''"
| "service_action Res_list_standards = RESOURCES_INTERFACE_NAME @ ''.list_standards''"
| "service_action (Res_list_providers _) = RESOURCES_INTERFACE_NAME @ ''.list_providers''"
| "service_action (Res_list _ _) = RESOURCES_INTERFACE_NAME @ ''.list''"
| "service_action (Res_describe _ _ _) = RESOURCES_INTERFACE_NAME @ ''.describe''"
| "service_action (Res_invoke _ _ _ _ _ _ _ _ _ _) = RESOURCES_INTERFACE_NAME @ ''.invoke''"
| "service_action (Res_cancel _ _ _ _) = RESOURCES_INTERFACE_NAME @ ''.cancel''"
| "service_action (Res_fail _ _) = RESOURCES_INTERFACE_NAME @ ''.fail''"

fun service_handle :: "'f agent_env \<Rightarrow> polkit \<Rightarrow> cptr \<Rightarrow> service_request \<Rightarrow> svc_state handler" where
  "service_handle env pk ctx Svc_list = Services_list env pk ctx"
| "service_handle env pk ctx (Svc_enable n) = Services_enable env pk n ctx"
| "service_handle env pk ctx (Svc_disable n) = Services_disable env pk n ctx"
| "service_handle env pk ctx (Svc_start n t) = Services_start env pk n t ctx"
| "service_handle env pk ctx (Svc_stop n t) = Services_stop env pk n t ctx"
| "service_handle env pk ctx (Svc_status n t) = Services_status env pk n t ctx"
| "service_handle env pk ctx (Svc_describe n) = Services_describe pk n ctx"
| "service_handle env pk ctx Res_list_standards = Resources_list_standards env pk ctx"
| "service_handle env pk ctx (Res_list_providers st) = Resources_list_providers env pk st ctx"
| "service_handle env pk ctx (Res_list st pr) = Resources_list env pk st pr ctx"
| "service_handle env pk ctx (Res_describe st pr ag) = Resources_describe pk st pr ag ctx"
| "service_handle env pk ctx (Res_invoke d n st pr ag ac i ps t x) = Resources_invoke env pk d n st pr ag ac i ps t x ctx"
| "service_handle env pk ctx (Res_cancel n ac i t) = Resources_cancel pk n ac i t ctx"
| "service_handle env pk ctx (Res_fail n rc) = Resources_fail pk n rc ctx"

datatype service_prop = SVC_PROP_0 | SERVICES_HOSTNAME | RESOURCES_HOSTNAME | SERVICES_UUID | RESOURCES_UUID | SVC_QMF_GEN_NO_CRASH

definition service_get_property ::
  "'w file_ops \<Rightarrow> 'w \<Rightarrow> sigar_net_info \<Rightarrow> service_prop \<Rightarrow> util_state \<Rightarrow> gvalue option \<times> util_state" where
  "service_get_property fo w netinfo p s =
     (case p of
        SVC_PROP_0 \<Rightarrow> (None, s)
      | SERVICES_HOSTNAME \<Rightarrow> (case mh_hostname fo w netinfo s of (h, s') \<Rightarrow> (Some (GString (Some h)), s'))
      | RESOURCES_HOSTNAME \<Rightarrow> (case mh_hostname fo w netinfo s of (h, s') \<Rightarrow> (Some (GString (Some h)), s'))
      | SERVICES_UUID \<Rightarrow> (case mh_uuid fo w s of (u, s') \<Rightarrow> (Some (GString (Some u)), s'))
      | RESOURCES_UUID \<Rightarrow> (case mh_uuid fo w s of (u, s') \<Rightarrow> (Some (GString (Some u)), s'))
      | SVC_QMF_GEN_NO_CRASH \<Rightarrow> (None, s))"

lemmas service_handler_defs =
  Services_list_def Services_enable_def Services_disable_def Services_start_def Services_stop_def Services_status_def
  Services_describe_def Resources_list_standards_def Resources_list_providers_def Resources_list_def
  Resources_describe_def Resources_invoke_def Resources_cancel_def Resources_fail_def

interpretation service_agent: dbus_agent "service_handle env" service_action
proof
  fix pk ctx r w
  assume "\<not> authorized pk (service_action r) ctx"
  then show "service_handle env pk ctx r w =
      Some ((Failed (snd (check_authorization pk (service_action r) ctx)), False), w)"
    by (cases r) (simp_all add: service_handler_defs guarded_denied)
qed

section \<open>Properties\<close>

lemma create_service:
  assumes "name \<noteq> []" "action \<noteq> []" "heap_ok s"
  obtains op s' where "services_action_create services_os_set_exec (\<lambda>k. True) (Some name) (Some action) 0 timeout s =
      Inr (Some (svc_next s), s')" "svc_heap s' (svc_next s) = Some op" "op_rc op = 0" "op_timeout op = timeout"
proof -
  have "strcasecmp ''lsb'' ''ocf'' \<and> \<not> mh_strlen_zero None \<or> strcasecmp ''lsb'' ''lsb'' \<or>
     strcasecmp ''lsb'' ''windows'' \<or> strcasecmp ''lsb'' ''systemd''" by simp
  from linux.create_known [OF assms(1,1,2) _ assms(3) this, of "\<lambda>k. True" 0 timeout None] that show ?thesis
    by (auto simp: services_action_create_def)
qed

lemma create_service_killed:
  "services_action_create services_os_set_exec (\<lambda>k. True) (Some name) (Some action) 0 timeout s = Inr (Some a, s') \<Longrightarrow>
   svc_killed s' = svc_killed s"
  by (auto simp: services_action_create_def resources_action_create_def svc_alloc_def Let_def split: if_splits sum.splits)

text \<open>C40: A service that has not started when the agent stops waiting is reported to the caller as started: for an
  authorized call with a nonempty name, when \<^verbatim>\<open>fork\<close> succeeds, reading the child's pipes comes to an end and the child
  does not end, the reply is the result code 0, as for success, whatever the timeout. With a timeout below
  \<open>2 ^ 31\<close> milliseconds the child has been killed; with one that is minus two seconds or less when it is read as
  a signed number, it is left running.\<close>

theorem Services_start_timeout_replies_success:
  assumes "authorized pk (SERVICES_BUS_NAME @ ''.start'') ctx" "name \<noteq> []" "heap_ok s"
    "ee_fork (ae_exec env) \<noteq> - 1" "\<And>fd. reads_end (ee_reads (ae_exec env) fd)"
    "\<forall>j. fst (ee_waitpid (ae_exec env) j) \<le> 0"
  shows "\<exists>s'. Services_start env pk name timeout ctx s = Some ((Returned [GInt 0], True), s') \<and>
    (unat timeout < 2 ^ 31 \<longrightarrow> svc_killed s' = svc_killed s @ [ee_fork (ae_exec env)]) \<and>
    (int_of_u32 timeout \<le> - 2000 \<longrightarrow> svc_killed s' = svc_killed s)"
proof -
  obtain op s1 where cr: "services_action_create services_os_set_exec (\<lambda>k. True) (Some name) (Some ''start'') 0
      (int_of_u32 timeout) s = Inr (Some (svc_next s), s1)"
    "svc_heap s1 (svc_next s) = Some op" "op_rc op = 0" "op_timeout op = int_of_u32 timeout"
    by (rule create_service [OF assms(2) _ assms(3), of "''start''" "int_of_u32 timeout"]) simp
  let ?T = "1 + c_div (op_timeout op) 1000" and ?pid = "ee_fork (ae_exec env)"
  have w: "wait_loop (ee_waitpid (ae_exec env)) 0 ?T 0 = (min 0 ?T, 0)"
  proof (cases "0 \<le> ?T")
    case True
    then show ?thesis using wait_loop_timeout [of "nat ?T" "ee_waitpid (ae_exec env)" 0 0] assms(6) by simp
  qed (simp add: wait_loop_nonpos)
  have pos: "0 \<le> ?T" if "unat timeout < 2 ^ 31"
    using that sint_of_nat_small [of "unat timeout"] div_int_pos_iff [of "int (unat timeout)" 1000]
    by (simp add: cr(4) int_of_u32_def c_div_nonneg)
  have neg: "?T < 0" if "int_of_u32 timeout \<le> - 2000" using c_div_minus [OF that] by (simp add: cr(4))
  obtain out0 out1 err0 err1 where pipes: "snd (ee_pipe_out (ae_exec env)) = (out0, out1)"
    "snd (ee_pipe_err (ae_exec env)) = (err0, err1)" by fastforce
  have "WIFEXITED 0 \<and> WEXITSTATUS 0 = 0" using wait_status_exit [of 0] by simp
  then obtain s2 op2 where run: "services_os_action_execute (ae_exec env) (svc_next s) True s1 = Inr (True, s2)"
    "svc_heap s2 (svc_next s) = Some op2" "op_rc op2 = 0" "svc_killed s2 = svc_killed s1 @ (if 0 \<le> ?T then [?pid] else [])"
    using execute_sync_parent [OF cr(2) assms(4,5) pipes] cr(3) unfolding w by (auto simp: sync_outcome_def min_def)
  have "run_for_rc env name ''start'' timeout s = Inr (0, freed (svc_next s) op2 s2)"
    using cr(1,2) run by (simp add: run_for_rc_def services_action_sync_def svc_simps services_action_free_live)
  moreover have "svc_killed s1 = svc_killed s" using cr(1) by (rule create_service_killed)
  ultimately show ?thesis
    using assms(1) run(4) pos neg by (auto simp: Services_start_def guarded_allowed reply_value_def)
qed

definition demo_agent :: "store agent_env" where
  "demo_agent = \<lparr>ae_exec = demo_env (\<lambda>k. (0, 0)), ae_scandir = (\<lambda>p. None), ae_stat = (\<lambda>p. 0),
     ae_file_ops = store_ops, ae_files = Map.empty\<rparr>"

theorem Services_start_timeout_replies_success_witness:
  "\<exists>s'. Services_start demo_agent (allow_only [SERVICES_BUS_NAME @ ''.start'']) ''ntpd'' 5000 (Some '':1.9'') svc_init
     = Some ((Returned [GInt 0], True), s')"
proof -
  have r: "\<And>fd. reads_end (ee_reads (ae_exec demo_agent) fd)" by (simp add: demo_agent_def demo_env_reads)
  have "heap_ok svc_init" by (simp add: svc_init_def heap_ok_def)
  from Services_start_timeout_replies_success [OF _ _ this _ r, of "allow_only [SERVICES_BUS_NAME @ ''.start'']"
      "Some '':1.9''" "''ntpd''" 5000]
  show ?thesis by (auto simp: demo_agent_def demo_env_def)
qed

text \<open>The agent does not check what the library returns for a request without a name: an authorized
  call to start, stop, query, enable or disable the service with the empty name crashes it.\<close>

theorem empty_service_name_crashes:
  assumes "authorized pk (service_action r) ctx"
    "r \<in> {Svc_start [] t, Svc_stop [] t, Svc_status [] t, Svc_enable [], Svc_disable []}"
  shows "service_handle env pk ctx r s = None"
proof -
  have "services_action_create services_os_set_exec (\<lambda>k. True) (Some []) (Some action) 0 timeout s = Inr (None, s)"
    for action timeout
    by (simp add: services_action_create_def create_invalid mh_strlen_zero_def)
  then show ?thesis using assms
    by (auto simp: service_handler_defs guarded_allowed run_for_rc_def run_for_result_def services_action_sync_def
        svc_simps reply_value_def)
qed

theorem empty_service_name_crashes_witness:
  "service_handle demo_agent (allow_only [service_action (Svc_stop [] 5)]) (Some '':1.9'') (Svc_stop [] 5) svc_init = None"
  by (rule empty_service_name_crashes [of _ _ _ 5]) (simp_all only: authorized_allow_only list.set insertI1 insertI2)

end
