(* ===== verification/Services_Windows.thy ===== *)
theory Services_Windows
  imports Services
begin

text \<open>
  \<^verbatim>\<open>src/src/lib/services_windows.c\<close>: the Windows layer of the services library, which runs \<^verbatim>\<open>sc.exe\<close>.

  Handles are numbers in \<open>open_fds\<close>, terminated processes are recorded in \<open>svc_killed\<close> and values written to the
  registry in \<open>svc_registry\<close>. What Windows answers are the fields of \<open>win_env\<close>: \<open>we_exit\<close> is the exit code that
  can be read once the wait for the given time is over, \<open>we_reads\<close> are the results of \<^verbatim>\<open>ReadFile\<close> on the pipe,
  \<open>None\<close> for a failure, and \<open>we_stack\<close> what the uninitialised buffer of \<open>read_output\<close> holds. A format that expects a wide
  string is given a narrow one by \<open>create_service_key\<close>; \<open>we_wide\<close> is what it reads there. Closing a handle
  is taken to succeed.
\<close>

section \<open>Environment\<close>

definition LSB_OK :: int where "LSB_OK = 0"
definition LSB_OTHER_ERROR :: int where "LSB_OTHER_ERROR = 199"
definition LSB_STATUS_OTHER_ERROR :: int where "LSB_STATUS_OTHER_ERROR = 199"

definition SERVICE_AUTO_START :: int where "SERVICE_AUTO_START = 2"
definition SERVICE_DISABLED :: int where "SERVICE_DISABLED = 4"
definition STILL_ACTIVE :: u32 where "STILL_ACTIVE = 259"
definition BUFSIZE :: nat where "BUFSIZE = 4096"

record win_env =
  we_windir :: cptr
  we_wide :: "cptr \<Rightarrow> string"
  we_reg_open :: "string \<Rightarrow> bool"
  we_reg_set :: "string \<Rightarrow> string \<Rightarrow> bool"
  we_pipe :: "(int \<times> int) option"
  we_set_handle :: bool
  we_create :: "cptr \<Rightarrow> int option"
  we_exit :: "cptr \<Rightarrow> u32 \<Rightarrow> u32 option"
  we_reads :: "cptr \<Rightarrow> string option list"
  we_stack :: "nat \<Rightarrow> char"
  we_heap :: "nat \<Rightarrow> char"

section \<open>The registry\<close>

definition services_path :: string where
  "services_path = ''SYSTEM'' @ [CHR 0x5C] @ ''CurrentControlSet'' @ [CHR 0x5C] @ ''services'' @ [CHR 0x5C]"

definition create_service_key :: "win_env \<Rightarrow> nat \<Rightarrow> cptr \<Rightarrow> string" where
  "create_service_key env sz name = snprintf sz (services_path @ we_wide env name)"

definition windows_service_control :: "win_env \<Rightarrow> cptr \<Rightarrow> int \<Rightarrow> svc_state \<Rightarrow> bool \<times> svc_state" where
  "windows_service_control env name command s =
     (let szRegistryPath = create_service_key env 1024 name
      in if \<not> we_reg_open env szRegistryPath then (False, s)
         else let value = show_int command
              in if we_reg_set env szRegistryPath value
                 then (True, s\<lparr>svc_registry := svc_registry s @ [(szRegistryPath, value)]\<rparr>)
                 else (False, s))"

section \<open>Output of the child\<close>

text \<open>The loop of \<open>read_output\<close>: \<open>buf\<close> is the array of 4096 characters, \<open>data\<close> the \<open>len\<close> characters stored so far. A
  read fills the beginning of \<open>buf\<close>; \<^verbatim>\<open>sprintf\<close> then copies the string in \<open>buf\<close> and its NUL into a block that has
  room for the characters read and one more. \<open>None\<close> is an access outside \<open>buf\<close> or the block.\<close>

fun read_loop_windows :: "(nat \<Rightarrow> char) \<Rightarrow> char list \<Rightarrow> char list option \<Rightarrow> string option list \<Rightarrow> char list option option" where
  "read_loop_windows fresh buf data [] = Some data"
| "read_loop_windows fresh buf data (r # rs) =
     (case r of
        None \<Rightarrow> Some data
      | Some c \<Rightarrow>
          if c = [] then Some data
          else let buf' = c @ drop (length c) buf;
                   old = (case data of None \<Rightarrow> [] | Some d \<Rightarrow> d);
                   str = cstr_of buf'
               in if NUL \<notin> set buf' \<or> length str > length c then None
                  else read_loop_windows fresh buf'
                         (Some (old @ take (length c) (str @ NUL # map fresh [length old + length str + 1 ..< length old + length c])))
                         rs)"

definition read_output_windows :: "win_env \<Rightarrow> string option list \<Rightarrow> char list option option" where
  "read_output_windows env reads = read_loop_windows (we_heap env) (map (we_stack env) [0..<BUFSIZE]) None reads"

text \<open>\<^verbatim>\<open>sscanf\<close> with \<open>%d\<close>: the number and the rest, \<open>None\<close> if there is no number. The number is read into a 32-bit
  \<^verbatim>\<open>int\<close>; one that does not fit, which the C standard leaves undefined, keeps its low 32 bits.\<close>

definition scan_int :: "string \<Rightarrow> (int \<times> string) option" where
  "scan_int s =
     (let s1 = dropWhile is_space s;
          neg = (take 1 s1 = ''-'');
          s2 = (if neg \<or> take 1 s1 = ''+'' then tl s1 else s1);
          ds = takeWhile is_digit s2
      in if ds = [] then None
         else Some (int_of_u32 (of_int (if neg then - int (digits_val ds) else int (digits_val ds))), dropWhile is_digit s2))"

text \<open>The call of \<^verbatim>\<open>sscanf\<close> in \<open>extract_service_status\<close>: the name and the number when all three fields
  are found. A field of 512 characters or more does not fit into its array.\<close>

definition scan_status :: "string \<Rightarrow> svc_failure + (string \<times> int) option" where
  "scan_status next =
     (let s1 = dropWhile is_space next;
          name = takeWhile (\<lambda>c. c \<noteq> CHR '':'') s1;
          s2 = drop (length name) s1
      in if name = [] then Inr None
         else if 512 \<le> length name then Inl Overrun
         else if s2 = [] then Inr None
         else case scan_int (tl s2) of
                None \<Rightarrow> Inr None
              | Some (number, s3) \<Rightarrow>
                  (let val = takeWhile (\<lambda>c. c \<noteq> CHR '':'') (dropWhile is_space s3)
                   in if val = [] then Inr None
                      else if 512 \<le> length val then Inl Overrun
                      else Inr (Some (name, number))))"

definition state_rc :: "int \<Rightarrow> int" where
  "state_rc number =
     (if number = 1 then LSB_STATUS_NOT_RUNNING
      else if number = 3 then LSB_STATUS_OK
      else if number = 4 then LSB_STATUS_OK
      else LSB_STATUS_OTHER_ERROR)"

text \<open>The loop over the output; \<open>cur\<close> are the characters from \<open>last\<close> on.\<close>

fun state_loop :: "char list \<Rightarrow> string \<Rightarrow> svc_failure + int" where
  "state_loop [] cur = Inr LSB_STATUS_OTHER_ERROR"
| "state_loop (c # cs) cur =
     (if c = CHR 0x0A \<or> c = CHR 0x0D \<or> c = NUL
      then if length cur > 1
           then if 2048 \<le> length cur then Inl Overrun
                else (case scan_status cur of
                        Inl e \<Rightarrow> Inl e
                      | Inr None \<Rightarrow> state_loop cs []
                      | Inr (Some (name, number)) \<Rightarrow>
                          if strncmp ''STATE'' name 5 then Inr (state_rc number) else state_loop cs [])
           else state_loop cs []
      else state_loop cs (cur @ [c]))"

definition extract_service_status :: "char list option \<Rightarrow> svc_failure + int" where
  "extract_service_status unmutable =
     (case unmutable of
        None \<Rightarrow> Inr LSB_STATUS_OTHER_ERROR
      | Some data \<Rightarrow> if length data < 10 then Inr LSB_STATUS_OTHER_ERROR else state_loop data [])"

section \<open>Running an action\<close>

definition exit_outcome :: "string \<Rightarrow> u32 \<Rightarrow> svc_action \<Rightarrow> svc_action" where
  "exit_outcome action status op =
     (if status = STILL_ACTIVE then op\<lparr>op_rc := LSB_OTHER_ERROR, op_status := LRM_OP_TIMEOUT\<rparr>
      else if status = 1062 \<and> action = ''stop'' then op\<lparr>op_status := LRM_OP_DONE, op_rc := LSB_OK\<rparr>
      else if status = 1056 \<and> action = ''start'' then op\<lparr>op_status := LRM_OP_DONE, op_rc := LSB_OK\<rparr>
      else if status = 0 then op\<lparr>op_status := LRM_OP_DONE, op_rc := LSB_OK\<rparr>
      else op\<lparr>op_status := LRM_OP_ERROR, op_rc := LSB_OTHER_ERROR\<rparr>)"

definition status_rc :: "bool \<Rightarrow> int \<Rightarrow> int" where
  "status_rc is_status_op rc = (if is_status_op \<and> rc = LSB_OTHER_ERROR then LSB_STATUS_OTHER_ERROR else rc)"

definition execute_fail :: "nat \<Rightarrow> svc_action \<Rightarrow> bool \<Rightarrow> svc_state \<Rightarrow> bool \<times> svc_state" where
  "execute_fail a op is_status_op s =
     (False, store a (op\<lparr>op_status := LRM_OP_ERROR, op_rc := status_rc is_status_op LSB_OTHER_ERROR\<rparr>) s)"

definition services_os_action_execute_windows :: "win_env \<Rightarrow> nat \<Rightarrow> bool \<Rightarrow> svc_state \<Rightarrow> bool svc_result" where
  "services_os_action_execute_windows env a synchronous s =
     (case load (Some a) s of
        Inl e \<Rightarrow> Inl e
      | Inr op \<Rightarrow>
          (case op_action op of
             None \<Rightarrow> Inl NullDeref
           | Some action \<Rightarrow>
               (let is_status_op = (action = ''status''); exec = op_exec (op_opaque op)
                in if action = ''disable'' then Inr (windows_service_control env (op_rsc op) SERVICE_DISABLED s)
                   else if action = ''enable'' then Inr (windows_service_control env (op_rsc op) SERVICE_AUTO_START s)
                   else case we_pipe env of
                          None \<Rightarrow> Inr (execute_fail a op is_status_op s)
                        | Some (child_pipe_rd, child_pipe_wr) \<Rightarrow>
                            (let s1 = s\<lparr>open_fds := open_fds s \<union> {child_pipe_rd, child_pipe_wr}\<rparr>
                             in if \<not> we_set_handle env then Inr (execute_fail a op is_status_op s1)
                                else case we_create env exec of
                                       None \<Rightarrow> Inr (execute_fail a op is_status_op s1)
                                     | Some pid \<Rightarrow>
                                         (let status = (case we_exit env exec (word_of_int (op_timeout op)) of
                                                          None \<Rightarrow> STILL_ACTIVE | Some st \<Rightarrow> st);
                                              op1 = exit_outcome action status op;
                                              s2 = (if status = STILL_ACTIVE
                                                    then s1\<lparr>svc_killed := svc_killed s1 @ [pid]\<rparr> else s1);
                                              s3 = close_fd child_pipe_wr s2
                                          in case read_output_windows env (we_reads env exec) of
                                               None \<Rightarrow> Inl Overrun
                                             | Some data \<Rightarrow>
                                                 (case (if is_status_op \<and> op_status op1 = LRM_OP_DONE
                                                        then extract_service_status data else Inr (op_rc op1)) of
                                                    Inl e \<Rightarrow> Inl e
                                                  | Inr rc \<Rightarrow>
                                                      Inr (True, store a (op1\<lparr>op_stdout_data := map_option cstr_of data,
                                                                              op_rc := status_rc is_status_op rc\<rparr>)
                                                                   (close_fd child_pipe_rd s3))))))))"

text \<open>GLib prints a NULL string as \<open>(null)\<close>.\<close>

definition or_null :: "cptr \<Rightarrow> string" where
  "or_null p = (case p of None \<Rightarrow> ''(null)'' | Some t \<Rightarrow> t)"

definition services_os_set_exec_windows :: "win_env \<Rightarrow> svc_action \<Rightarrow> svc_action" where
  "services_os_set_exec_windows env op =
     (let sc = or_null (we_windir env) @ [CHR 0x5C] @ ''system32'' @ [CHR 0x5C] @ ''sc.exe '';
          exec = (if op_action op = Some ''status'' then sc @ ''query '' @ or_null (op_rsc op)
                  else sc @ or_null (op_action op) @ '' '' @ or_null (op_rsc op))
      in op\<lparr>op_opaque := (op_opaque op)\<lparr>op_exec := Some exec\<rparr>\<rparr>)"

definition services_os_get_directory_list_windows :: "string \<Rightarrow> bool \<Rightarrow> string list" where
  "services_os_get_directory_list_windows root files = []"

definition services_os_list_windows :: "string list" where
  "services_os_list_windows = []"

definition resources_os_list_ocf_providers_windows :: "string list" where
  "resources_os_list_ocf_providers_windows = []"

definition resources_os_list_ocf_agents_windows :: "cptr \<Rightarrow> string list" where
  "resources_os_list_ocf_agents_windows provider = []"

section \<open>Lemmas: the layer in \<^verbatim>\<open>services.c\<close>\<close>

lemma control_frame [simp]:
  "svc_heap (snd (windows_service_control env n c s)) = svc_heap s"
  "recurring_actions (snd (windows_service_control env n c s)) = recurring_actions s"
  "operations (snd (windows_service_control env n c s)) = operations s"
  "svc_next (snd (windows_service_control env n c s)) = svc_next s"
  "svc_called (snd (windows_service_control env n c s)) = svc_called s"
  "process_table (snd (windows_service_control env n c s)) = process_table s"
  "ml_sources (snd (windows_service_control env n c s)) = ml_sources s"
  by (simp_all add: windows_service_control_def Let_def)

lemma exit_outcome_same [simp]:
  "op_id (exit_outcome action st op) = op_id op" "op_interval (exit_outcome action st op) = op_interval op"
  "op_opaque (exit_outcome action st op) = op_opaque op"
  by (simp_all add: exit_outcome_def)

lemma upd_exI: "P v \<Longrightarrow> \<exists>x. m(a \<mapsto> v) = m(a \<mapsto> x) \<and> P x"
  by blast

lemma execute_frame_windows:
  assumes "svc_heap s a = Some op" and "services_os_action_execute_windows env a sync s = Inr (ok, s')"
  shows "recurring_actions s' = recurring_actions s \<and> operations s' = operations s \<and> svc_next s' = svc_next s \<and>
    svc_called s' = svc_called s \<and> process_table s' = process_table s \<and> ml_sources s' = ml_sources s \<and>
    (\<exists>op'. svc_heap s' = (svc_heap s)(a \<mapsto> op') \<and> op_id op' = op_id op \<and> op_interval op' = op_interval op \<and>
       op_callback (op_opaque op') = op_callback (op_opaque op))"
proof -
  have same: ?thesis if "windows_service_control env n c s = (ok, s')" for n c
  proof -
    have "s' = snd (windows_service_control env n c s)" using that by simp
    with assms(1) show ?thesis by (auto intro!: exI [of _ op])
  qed
  obtain action where action: "op_action op = Some action"
    using assms by (cases "op_action op") (simp_all add: services_os_action_execute_windows_def svc_simps)
  show ?thesis
  proof (cases "action = ''disable'' \<or> action = ''enable''")
    case True
    then have "windows_service_control env (op_rsc op)
        (if action = ''disable'' then SERVICE_DISABLED else SERVICE_AUTO_START) s = (ok, s')"
      using assms action by (auto simp: services_os_action_execute_windows_def svc_simps Let_def)
    then show ?thesis by (rule same)
  next
    case False
    show ?thesis
      using assms(2) False
      by (simp add: services_os_action_execute_windows_def svc_simps assms(1) action Let_def execute_fail_def
          split: option.splits if_splits sum.splits prod.splits)
        (auto intro!: upd_exI)
  qed
qed

interpretation windows: service_executor "services_os_set_exec_windows env" "services_os_action_execute_windows env"
proof
  show "\<exists>q. services_os_set_exec_windows env op = op\<lparr>op_opaque := q\<rparr>" for op
    by (auto simp: services_os_set_exec_windows_def Let_def)
  show "services_os_action_execute_windows env a sync s = Inl UseAfterFree" if "svc_heap s a = None" for s a sync
    using that by (simp add: services_os_action_execute_windows_def svc_simps)
qed (use execute_frame_windows in blast)

section \<open>Lemmas: the output of \<^verbatim>\<open>sc.exe\<close>\<close>

definition plain :: "string \<Rightarrow> bool" where
  "plain t \<longleftrightarrow> CHR 0x0A \<notin> set t \<and> CHR 0x0D \<notin> set t \<and> NUL \<notin> set t"

lemma state_loop_plain: "plain t \<Longrightarrow> state_loop (t @ cs) cur = state_loop cs (cur @ t)"
  by (induction t arbitrary: cur) (auto simp: plain_def)

text \<open>A line that does not give the state: too short, or with other fields.\<close>

definition other_line :: "string \<Rightarrow> bool" where
  "other_line t \<longleftrightarrow> plain t \<and> length t < 2048 \<and>
     (1 < length t \<longrightarrow> (case scan_status t of
        Inl e \<Rightarrow> False | Inr None \<Rightarrow> True | Inr (Some (name, number)) \<Rightarrow> \<not> strncmp ''STATE'' name 5))"

definition crlf :: string where "crlf = [CHR 0x0D, CHR 0x0A]"

lemma state_loop_other:
  assumes "other_line t"
  shows "state_loop (t @ crlf @ cs) [] = state_loop cs []"
  using assms
  by (auto simp: other_line_def state_loop_plain crlf_def split: sum.splits option.splits)

lemma state_loop_others:
  "\<forall>t\<in>set ls. other_line t \<Longrightarrow> state_loop (concat (map (\<lambda>t. t @ crlf) ls) @ cs) [] = state_loop cs []"
  by (induction ls) (simp_all add: state_loop_other)

text \<open>A line with a name, a number and a text.\<close>

definition field_line :: "string \<Rightarrow> nat \<Rightarrow> string \<Rightarrow> string" where
  "field_line name number val = replicate 8 (CHR '' '') @ name @ '': '' @ show_nat number @ ''  '' @ val"

definition field_ok :: "string \<Rightarrow> bool" where
  "field_ok t \<longleftrightarrow> t \<noteq> [] \<and> \<not> is_space (hd t) \<and> CHR '':'' \<notin> set t \<and> length t < 512 \<and> plain t"

lemma show_nat_field:
  "takeWhile is_digit (show_nat n @ CHR '' '' # u) = show_nat n" "dropWhile is_digit (show_nat n @ CHR '' '' # u) = CHR '' '' # u"
proof -
  have "\<not> is_digit (CHR '' '')" by code_simp
  then show "takeWhile is_digit (show_nat n @ CHR '' '' # u) = show_nat n"
    "dropWhile is_digit (show_nat n @ CHR '' '' # u) = CHR '' '' # u"
    using show_nat_digits [of n] by (simp_all add: takeWhile_append2 dropWhile_append2)
qed

lemma scan_int_show_nat:
  assumes n: "n < 2 ^ 31"
  shows "scan_int (CHR '' '' # show_nat n @ CHR '' '' # u) = Some (int n, CHR '' '' # u)"
proof -
  obtain d ds where d: "show_nat n = d # ds" by (cases "show_nat n") simp_all
  have "is_digit d" using show_nat_digits [of n] d by simp
  moreover have "is_space (CHR '' '')" by code_simp
  ultimately show ?thesis
    using show_nat_field [of n u] is_digit_neq [of d] digits_val_show_nat [of n] sint_of_nat_small [of n] n
    by (simp add: scan_int_def d int_of_u32_def)
qed

lemma scan_status_field:
  assumes "field_ok name" and "field_ok val" and "number < 2 ^ 31"
  shows "scan_status (field_line name number val) = Inr (Some (name, int number))"
proof -
  have sp: "is_space (CHR '' '')" by code_simp
  have "dropWhile is_space (field_line name number val) = name @ CHR '':'' # CHR '' '' # show_nat number @ CHR '' '' # CHR '' '' # val"
    using assms(1) sp by (simp add: field_line_def field_ok_def eval_nat_numeral dropWhile_hd)
  moreover have "dropWhile is_space (CHR '' '' # CHR '' '' # val) = val"
    using assms(2) sp dropWhile_hd [of val is_space "[]"] by (simp add: field_ok_def)
  ultimately show ?thesis
    using assms
    by (simp add: scan_status_def takeWhile_absent field_ok_def scan_int_show_nat Let_def)
qed

lemma field_line_plain:
  assumes "field_ok name" and "field_ok val"
  shows "plain (field_line name number val)"
proof -
  have "CHR 0x0A \<notin> set (show_nat number)" "CHR 0x0D \<notin> set (show_nat number)" "NUL \<notin> set (show_nat number)"
    using show_nat_digits [of number] by (auto simp: is_digit_def NUL_def)
  then show ?thesis using assms by (auto simp: plain_def field_line_def field_ok_def NUL_def)
qed

lemma state_loop_state:
  assumes "field_ok name" and "field_ok val" and "strncmp ''STATE'' name 5" and "number < 2 ^ 31"
  shows "state_loop (field_line name number val @ crlf @ cs) [] = Inr (state_rc (int number))"
proof -
  have "length (show_nat number) \<le> 10" using length_show_nat [of number 10] assms(4) by simp
  then have "length (field_line name number val) < 2048" "1 < length (field_line name number val)"
    using assms by (simp_all add: field_line_def field_ok_def)
  then show ?thesis
    using assms scan_status_field [OF assms(1,2,4)] field_line_plain [OF assms(1,2)]
    by (simp add: state_loop_plain crlf_def)
qed

lemma read_one:
  assumes "is_cstr c" and "c \<noteq> []" and "length c < BUFSIZE" and "we_stack env (length c) = NUL"
  shows "read_output_windows env [Some c] = Some (Some c)"
proof -
  let ?buf = "map (we_stack env) [0..<BUFSIZE]"
  have "drop (length c) ?buf = NUL # drop (Suc (length c)) ?buf"
    using assms(3,4) by (simp add: Cons_nth_drop_Suc [symmetric])
  then show ?thesis using assms(1,2) by (simp add: read_output_windows_def Let_def)
qed

text \<open>The environment of a run of \<^verbatim>\<open>sc.exe\<close> that is started and ends in time.\<close>

definition runs_to_end :: "win_env \<Rightarrow> svc_action \<Rightarrow> u32 \<Rightarrow> bool" where
  "runs_to_end env op status \<longleftrightarrow> we_pipe env \<noteq> None \<and> we_set_handle env \<and>
     we_create env (op_exec (op_opaque op)) \<noteq> None \<and>
     we_exit env (op_exec (op_opaque op)) (word_of_int (op_timeout op)) = Some status \<and> status \<noteq> STILL_ACTIVE"

lemma execute_runs:
  assumes "svc_heap s a = Some op" and "op_action op = Some action" and "action \<notin> {''enable'', ''disable''}"
    and "runs_to_end env op status" and "read_output_windows env (we_reads env (op_exec (op_opaque op))) = Some data"
  shows "\<exists>s1. svc_heap s1 = svc_heap s \<and> svc_killed s1 = svc_killed s \<and>
     services_os_action_execute_windows env a sync s =
       (case (if action = ''status'' \<and> op_status (exit_outcome action status op) = LRM_OP_DONE
              then extract_service_status data else Inr (op_rc (exit_outcome action status op))) of
          Inl e \<Rightarrow> Inl e
        | Inr rc \<Rightarrow> Inr (True, store a ((exit_outcome action status op)\<lparr>op_stdout_data := map_option cstr_of data,
                       op_rc := status_rc (action = ''status'') rc\<rparr>) s1))"
proof -
  obtain rd wr pid where env: "we_pipe env = Some (rd, wr)" "we_set_handle env"
    "we_create env (op_exec (op_opaque op)) = Some pid"
    "we_exit env (op_exec (op_opaque op)) (word_of_int (op_timeout op)) = Some status" "status \<noteq> STILL_ACTIVE"
    using assms(4) by (auto simp: runs_to_end_def)
  have action: "action \<noteq> ''disable''" "action \<noteq> ''enable''" using assms(3) by simp_all
  show ?thesis
    unfolding services_os_action_execute_windows_def load_simps(3) [OF assms(1)] sum.case assms(2) option.case Let_def
      if_not_P [OF action(1)] if_not_P [OF action(2)] env(1-4) prod.case
    by (rule exI [of _ "close_fd rd (close_fd wr (s\<lparr>open_fds := open_fds s \<union> {rd, wr}\<rparr>))"])
      (simp add: env(2,5) assms(5))
qed

text \<open>One piece of output: the copy is outside the block, or the loop goes on with that piece in the buffer.\<close>

lemma read_loop_step:
  assumes "c \<noteq> []"
  shows "length c < length (cstr_of (c @ drop (length c) buf)) \<Longrightarrow> read_loop_windows fresh buf data (Some c # rs) = None"
    and "read_loop_windows fresh buf data (Some c # rs) = None \<or>
      (\<exists>data'. read_loop_windows fresh buf data (Some c # rs) = read_loop_windows fresh (c @ drop (length c) buf) data' rs)"
  using assms by (simp_all only: read_loop_windows.simps option.case Let_def if_False simp_thms split: if_splits) blast

text \<open>A run of \<^verbatim>\<open>sc.exe\<close> that prints the state of a service.\<close>

definition sc_lines :: "string list" where
  "sc_lines = [[], ''SERVICE_NAME: w32time'', ''        TYPE               : 20  WIN32_SHARE_PROCESS  '']"

definition sc_out :: string where
  "sc_out = concat (map (\<lambda>t. t @ crlf) sc_lines) @ field_line ''STATE              '' 4 ''RUNNING '' @ crlf @ crlf"

definition win_demo :: "u32 \<Rightarrow> win_env" where
  "win_demo status = \<lparr>we_windir = None, we_wide = (\<lambda>p. []), we_reg_open = (\<lambda>k. True), we_reg_set = (\<lambda>k v. True),
     we_pipe = Some (10, 11), we_set_handle = True, we_create = (\<lambda>c. Some 99), we_exit = (\<lambda>c t. Some status),
     we_reads = (\<lambda>c. [Some sc_out]), we_stack = (\<lambda>i. NUL), we_heap = (\<lambda>i. NUL)\<rparr>"

definition win_op :: "string \<Rightarrow> svc_action" where
  "win_op action = svc_calloc\<lparr>op_id := Some ''w32time_x_0'', op_rsc := Some ''w32time'', op_action := Some action,
     op_timeout := 5000\<rparr>"

definition win_state :: "string \<Rightarrow> svc_state" where
  "win_state action = \<lparr>process_table = None, mainloop_signals = [], ml_sources = Map.empty, installed = {},
     operations = 1, svc_heap = [7 \<mapsto> win_op action], svc_next = 8, recurring_actions = None, open_fds = {},
     svc_called = [], svc_killed = [], svc_fault = None, svc_registry = []\<rparr>"

lemma sc_out_facts:
  "\<forall>t\<in>set sc_lines. other_line t" "field_ok ''STATE              ''" "field_ok ''RUNNING ''" "is_cstr sc_out"
  "length sc_out < BUFSIZE" "sc_out \<noteq> []"
  by code_simp+

lemma win_facts:
  "svc_heap (win_state action) 7 = Some (win_op action)" "op_action (win_op action) = Some action"
  "status \<noteq> STILL_ACTIVE \<Longrightarrow> runs_to_end (win_demo status) (win_op action) status"
  "we_reads (win_demo status) c = [Some sc_out]" "we_stack (win_demo status) i = NUL"
  by (simp_all add: win_state_def win_op_def runs_to_end_def win_demo_def)

section \<open>Properties\<close>

text \<open>C35: Asking for the status of a service reports what \<^verbatim>\<open>sc.exe\<close> prints. If it runs to its end within the timeout with
  the exit code 0, and its output has any lines without a state (each shorter than 2048 characters), then a line with
  the state, that is a name that begins with \<^verbatim>\<open>STATE\<close>, a number below \<open>2 ^ 31\<close> and a text (name and text shorter than
  512 characters and without a colon), and is read in one piece that is shorter than the buffer and followed by a
  NUL there, then the action ends with the code for that state: running for 3 (stop pending) and 4, not
  running for 1, an error for all other numbers.\<close>

theorem windows_status_correct:
  assumes "svc_heap s a = Some op" and "op_action op = Some ''status''"
    and "runs_to_end env op 0"
    and "we_reads env (op_exec (op_opaque op)) = [Some out]"
    and "out = concat (map (\<lambda>t. t @ crlf) pre) @ field_line name number val @ crlf @ rest"
    and "\<forall>t\<in>set pre. other_line t" and "field_ok name" and "field_ok val" and "strncmp ''STATE'' name 5"
    and "number < 2 ^ 31" and "is_cstr out" and "length out < BUFSIZE" and "we_stack env (length out) = NUL"
  shows "\<exists>op' s'. services_action_sync (services_os_action_execute_windows env) (Some a) s = Inr (True, s') \<and>
    svc_heap s' a = Some op' \<and> op_status op' = LRM_OP_DONE \<and>
    op_rc op' = (if number = 3 \<or> number = 4 then LSB_STATUS_OK else if number = 1 then LSB_STATUS_NOT_RUNNING
                 else LSB_STATUS_OTHER_ERROR) \<and>
    op_stdout_data op' = Some out"
proof -
  have len: "10 \<le> length out"
    by (simp add: assms(5) field_line_def)
  then have "out \<noteq> []" by auto
  from read_one [OF assms(11) this assms(12,13)]
  have read: "read_output_windows env (we_reads env (op_exec (op_opaque op))) = Some (Some out)"
    by (simp add: assms(4))
  have status: "extract_service_status (Some out) = Inr (state_rc (int number))"
    using len state_loop_others [OF assms(6)] state_loop_state [OF assms(7-10)]
    by (simp add: extract_service_status_def assms(5))
  have cs: "cstr_of out = out" using assms(11) by simp
  have rc: "status_rc True (state_rc (int number)) = (if number = 3 \<or> number = 4 then LSB_STATUS_OK
      else if number = 1 then LSB_STATUS_NOT_RUNNING else LSB_STATUS_OTHER_ERROR)"
    by (simp add: status_rc_def state_rc_def LSB_STATUS_OTHER_ERROR_def LSB_OTHER_ERROR_def)
  have eo: "exit_outcome ''status'' 0 op = op\<lparr>op_status := LRM_OP_DONE, op_rc := LSB_OK\<rparr>"
    by (simp add: exit_outcome_def STILL_ACTIVE_def)
  show ?thesis
    using execute_runs [OF assms(1,2) _ assms(3) read, of True] assms(1)
    by (auto simp: services_action_sync_def svc_simps eo status rc cs)
qed

theorem windows_status_correct_witness:
  "\<exists>op' s'. services_action_sync (services_os_action_execute_windows (win_demo 0)) (Some 7) (win_state ''status'') = Inr (True, s') \<and>
    svc_heap s' 7 = Some op' \<and> op_status op' = LRM_OP_DONE \<and> op_rc op' = LSB_STATUS_OK \<and> op_stdout_data op' = Some sc_out"
  using windows_status_correct [OF win_facts(1,2,3,4) sc_out_def sc_out_facts(1,2,3) _ _ sc_out_facts(4,5) win_facts(5)]
  by (simp add: STILL_ACTIVE_def strncmp_def)

text \<open>The other actions: a run of \<^verbatim>\<open>sc.exe\<close> that ends is done with code 0 exactly if it ended with 0, or found a
  service that was to be stopped not running (1062) or one that was to be started running (1056); any other
  exit code is an error.\<close>

theorem windows_action_outcome:
  assumes "svc_heap s a = Some op" and "op_action op = Some action" and "action \<notin> {''enable'', ''disable'', ''status''}"
    and "runs_to_end env op status" and "read_output_windows env (we_reads env (op_exec (op_opaque op))) = Some data"
  shows "\<exists>op' s'. services_action_sync (services_os_action_execute_windows env) (Some a) s = Inr (True, s') \<and>
    svc_heap s' a = Some op' \<and> svc_killed s' = svc_killed s \<and>
    (if status = 0 \<or> status = 1062 \<and> action = ''stop'' \<or> status = 1056 \<and> action = ''start''
     then op_status op' = LRM_OP_DONE \<and> op_rc op' = LSB_OK
     else op_status op' = LRM_OP_ERROR \<and> op_rc op' = LSB_OTHER_ERROR)"
proof -
  have n: "action \<notin> {''enable'', ''disable''}" "action \<noteq> ''status''" "status \<noteq> STILL_ACTIVE"
    using assms(3,4) by (auto simp: runs_to_end_def)
  obtain s1 where s1: "svc_killed s1 = svc_killed s"
    "services_os_action_execute_windows env a True s = Inr (True, store a ((exit_outcome action status op)
       \<lparr>op_stdout_data := map_option cstr_of data, op_rc := op_rc (exit_outcome action status op)\<rparr>) s1)"
    using execute_runs [OF assms(1,2) n(1) assms(4,5), of True] n(2) by (auto simp: status_rc_def)
  show ?thesis
    using s1 assms(1) n(3) by (auto simp: services_action_sync_def svc_simps exit_outcome_def)
qed

theorem windows_action_outcome_witness:
  "\<exists>op' s'. services_action_sync (services_os_action_execute_windows (win_demo 1062)) (Some 7) (win_state ''stop'') = Inr (True, s') \<and>
    svc_heap s' 7 = Some op' \<and> svc_killed s' = [] \<and> op_status op' = LRM_OP_DONE \<and> op_rc op' = LSB_OK"
proof -
  have "read_output_windows (win_demo 1062) [Some sc_out] = Some (Some sc_out)"
    by (rule read_one [OF sc_out_facts(4,6,5) win_facts(5)])
  then have r: "read_output_windows (win_demo 1062) (we_reads (win_demo 1062) (op_exec (op_opaque (win_op ''stop'')))) = Some (Some sc_out)"
    by (simp only: win_facts(4))
  have "svc_killed (win_state ''stop'') = []" by (simp add: win_state_def)
  then show ?thesis
    using windows_action_outcome [OF win_facts(1,2) _ win_facts(3) r] by (simp add: STILL_ACTIVE_def)
qed

text \<open>An action that is started asynchronously on Windows never reports: it is run to its end before the call
  returns, but its callback is not called, no child is tracked and no timer is set, so nothing can
  call it later, although the action still has the callback. A recurring action runs once.\<close>

theorem windows_async_never_reports:
  assumes "svc_heap s a = Some op" and "op_id op = Some i"
    and "services_action_async (services_os_action_execute_windows env) (Some a) (Some cb) s = Inr (ok, s')"
  shows "svc_called s' = svc_called s \<and> process_table s' = process_table s \<and> ml_sources s' = ml_sources s \<and>
    (\<exists>op'. svc_heap s' a = Some op' \<and> op_callback (op_opaque op') = Some cb)"
proof -
  let ?op1 = "op\<lparr>op_opaque := (op_opaque op)\<lparr>op_callback := Some cb\<rparr>\<rparr>"
  have e: "services_os_action_execute_windows env a False (async_setup a (Some cb) op s) = Inr (ok, s')"
    using services_action_async_eq [OF assms(1,2)] assms(3) by simp
  have h: "svc_heap (async_setup a (Some cb) op s) a = Some ?op1"
    by (simp add: async_setup_def Let_def)
  show ?thesis using execute_frame_windows [OF h e] by (auto simp: async_setup_def Let_def)
qed

theorem windows_async_never_reports_witness:
  "\<exists>s'. services_action_async (services_os_action_execute_windows (win_demo 0)) (Some 7) (Some 1) (win_state ''start'') = Inr (True, s') \<and>
     svc_called s' = [] \<and> process_table s' = None \<and> ml_sources s' = Map.empty"
proof -
  let ?op1 = "(win_op ''start'')\<lparr>op_opaque := (op_opaque (win_op ''start''))\<lparr>op_callback := Some 1\<rparr>\<rparr>"
  have i: "op_id (win_op ''start'') = Some ''w32time_x_0''" by (simp add: win_op_def)
  have h: "svc_heap (async_setup 7 (Some 1) (win_op ''start'') (win_state ''start'')) 7 = Some ?op1"
    by (simp add: async_setup_def Let_def)
  have r: "runs_to_end (win_demo 0) ?op1 0" "op_action ?op1 = Some ''start''"
    by (simp_all add: runs_to_end_def win_demo_def STILL_ACTIVE_def win_op_def)
  have "read_output_windows (win_demo 0) [Some sc_out] = Some (Some sc_out)"
    by (rule read_one [OF sc_out_facts(4,6,5) win_facts(5)])
  then have d: "read_output_windows (win_demo 0) (we_reads (win_demo 0) (op_exec (op_opaque ?op1))) = Some (Some sc_out)"
    by (simp only: win_facts(4))
  obtain s' where s': "services_action_async (services_os_action_execute_windows (win_demo 0)) (Some 7) (Some 1) (win_state ''start'')
      = Inr (True, s')"
    using execute_runs [OF h r(2) _ r(1) d, of False] services_action_async_eq [OF win_facts(1) i] by auto
  from windows_async_never_reports [OF win_facts(1) i s'] s' show ?thesis
    by (simp add: win_state_def)
qed

text \<open>Output that arrives in two pieces, the second of them shorter than the first, makes \<open>read_output\<close> write outside
  its block, whatever the stack held: the string that is copied is not ended behind the second piece, where
  the rest of the first one still is.\<close>

theorem windows_read_output_overrun:
  assumes "is_cstr c1" and "is_cstr c2" and "0 < length c2" and "length c2 < length c1"
  shows "read_output_windows env (Some c1 # Some c2 # rs) = None"
proof -
  have ne: "c1 \<noteq> []" "c2 \<noteq> []" using assms(3,4) by auto
  have long: "length c2 < length (cstr_of (c2 @ drop (length c2) (c1 @ u)))" for u
  proof -
    have "\<forall>x\<in>set (c2 @ drop (length c2) c1). x \<noteq> NUL"
      using assms(1,2) by (auto simp: is_cstr_def dest: in_set_dropD)
    then have "cstr_of (c2 @ drop (length c2) (c1 @ u)) = c2 @ drop (length c2) c1 @ cstr_of u"
      using assms(4) by (simp add: cstr_of_def)
    then show ?thesis using assms(4) by simp
  qed
  have stop: "read_loop_windows fresh (c1 @ u) data (Some c2 # rs) = None" for fresh u data
    using read_loop_step(1) [OF ne(2)] long [of u] by blast
  show ?thesis
    using read_loop_step(2) [OF ne(1)] stop unfolding read_output_windows_def by metis
qed

theorem windows_read_output_overrun_witness: "read_output_windows (win_demo 0) [Some ''running'', Some ''ok''] = None"
  using windows_read_output_overrun [of "''running''" "''ok''"] by (simp add: is_cstr_def NUL_def)

end
