(* ===== verification/Sysconfig.thy ===== *)
theory Sysconfig
  imports Dbus Services_Linux
begin

text \<open>
  \<^verbatim>\<open>src/src/lib/sysconfig.c\<close> and \<^verbatim>\<open>src/src/lib/sysconfig_linux.c\<close>: configuration runs with Puppet and
  Augeas. Every run has a key; the result of the run is stored in a file named after it, and a key
  that has such a file is not run again unless the request forces it.

  The state has the file system, the static \<open>_keys_dir\<close>, the statics of the utility library (for
  \<open>mh_curl_init\<close>), the state of the service library (a Puppet run is an asynchronous action of it) and
  the live objects of \<open>struct action_data\<close>. Files, curl, Puppet, Augeas, \<^verbatim>\<open>mkstemp\<close> and the random
  generator are the fields of \<open>sys_env\<close>. A result callback is a number; \<open>call\<close> says what calling it
  does. The agent of \<^verbatim>\<open>sysconfig-dbus.c\<close> is in \<^verbatim>\<open>Sysconfig_Agent\<close>.
\<close>

section \<open>State\<close>

record action_data =
  ad_key :: string
  ad_filename :: cptr
  ad_result_cb :: nat
  ad_cb_data :: nat

record 'w sysconf =
  sc_files :: 'w
  keys_dir :: string
  sc_util :: util_state
  sc_svc :: svc_state
  sc_actions :: "nat \<rightharpoonup> action_data"
  sc_next :: nat

section \<open>Keys (sysconfig.c)\<close>

definition PATH_MAX :: nat where "PATH_MAX = 4096"

definition DEFAULT_KEYS_DIR :: string where
  "DEFAULT_KEYS_DIR = ''/var/lib/matahari/sysconfig-keys/''"

definition keys_dir_get :: "('w, 'z) sysconf_scheme \<Rightarrow> string \<times> ('w, 'z) sysconf_scheme" where
  "keys_dir_get s =
     (let s' = (if keys_dir s = [] then s\<lparr>keys_dir := copied PATH_MAX DEFAULT_KEYS_DIR\<rparr> else s)
      in (keys_dir s', s'))"

definition mh_sysconfig_keys_dir_set :: "string \<Rightarrow> ('w, 'z) sysconf_scheme \<Rightarrow> ('w, 'z) sysconf_scheme" where
  "mh_sysconfig_keys_dir_set path s = s\<lparr>keys_dir := copied PATH_MAX path\<rparr>"

definition VALID_CHARS :: string where
  "VALID_CHARS = ''0123456789abcdefghijklmnopqrstuvwxyzABCDEFGHIJKLMNOPQRSTUVWXYZ_-.''"

definition g_strcanon :: "string \<Rightarrow> string \<Rightarrow> char \<Rightarrow> string" where
  "g_strcanon s valid subst = map (\<lambda>c. if c \<in> set valid then c else subst) s"

definition check_key_sanity :: "cptr \<Rightarrow> int" where
  "check_key_sanity key =
     (if mh_strlen_zero key then - 1
      else if starts_with ''.'' (the key) then - 1
      else let sanitized_key = g_strcanon (copied PATH_MAX (the key)) VALID_CHARS (CHR ''!'')
           in if strchr sanitized_key (CHR ''!'') \<noteq> None then - 1 else 0)"

definition set_key ::
  "'w file_ops \<Rightarrow> cptr \<Rightarrow> string \<Rightarrow> ('w, 'z) sysconf_scheme \<Rightarrow> mh_result \<times> ('w, 'z) sysconf_scheme" where
  "set_key fo key contents s =
     (if check_key_sanity key \<noteq> 0 then (MH_RES_INVALID_ARGS, s)
      else let (dir, s1) = keys_dir_get s;
               (made, w1) = (if file_is_dir fo (sc_files s1) dir then (True, sc_files s1)
                             else file_mkdir fo (sc_files s1) dir)
           in if \<not> made then (MH_RES_OTHER_ERROR, s1\<lparr>sc_files := w1\<rparr>)
              else let key_file = snprintf PATH_MAX (dir @ the key)
                   in case file_set fo w1 key_file contents of
                        (Some e, w2) \<Rightarrow> (MH_RES_OTHER_ERROR, s1\<lparr>sc_files := w2\<rparr>)
                      | (None, w2) \<Rightarrow> (MH_RES_SUCCESS, s1\<lparr>sc_files := w2\<rparr>))"

definition get_key ::
  "'w file_ops \<Rightarrow> cptr \<Rightarrow> ('w, 'z) sysconf_scheme \<Rightarrow> cptr \<times> ('w, 'z) sysconf_scheme" where
  "get_key fo key s =
     (if check_key_sanity key \<noteq> 0 then (None, s)
      else let (dir, s1) = keys_dir_get s;
               key_file = snprintf PATH_MAX (dir @ the key)
           in if file_exists fo (sc_files s1) key_file
              then (case file_get fo (sc_files s1) key_file of
                      Inr contents \<Rightarrow> (Some contents, s1)
                    | Inl e \<Rightarrow> (None, s1))
              else (None, s1))"

definition mh_sysconfig_set_configured ::
  "'w file_ops \<Rightarrow> cptr \<Rightarrow> string \<Rightarrow> ('w, 'z) sysconf_scheme \<Rightarrow> mh_result \<times> ('w, 'z) sysconf_scheme" where
  "mh_sysconfig_set_configured fo key contents s = set_key fo key contents s"

definition mh_sysconfig_is_configured ::
  "'w file_ops \<Rightarrow> cptr \<Rightarrow> ('w, 'z) sysconf_scheme \<Rightarrow> cptr \<times> ('w, 'z) sysconf_scheme" where
  "mh_sysconfig_is_configured fo key s = get_key fo key s"

section \<open>Lemmas on keys\<close>

named_theorems key_simps

definition sane_key :: "string \<Rightarrow> bool" where
  "sane_key key \<longleftrightarrow> key \<noteq> [] \<and> hd key \<noteq> CHR ''.'' \<and> set (take 4095 key) \<subseteq> set VALID_CHARS"

lemma bang_not_valid: "CHR ''!'' \<notin> set VALID_CHARS"
  by (simp add: VALID_CHARS_def)

lemma strcanon_bang: "CHR ''!'' \<notin> set (g_strcanon s VALID_CHARS (CHR ''!'')) \<longleftrightarrow> set s \<subseteq> set VALID_CHARS"
  using bang_not_valid by (auto simp: g_strcanon_def split: if_splits)

lemma check_key_sanity_iff:
  "is_cstr key \<Longrightarrow> check_key_sanity (Some key) = 0 \<longleftrightarrow> sane_key key"
  using strcanon_bang [of "take 4095 key"]
  by (cases key) (auto simp: check_key_sanity_def sane_key_def mh_strlen_zero_def copied_eq PATH_MAX_def strchr_None Let_def)

lemma slash_not_valid: "CHR ''/'' \<notin> set VALID_CHARS"
  by (simp add: VALID_CHARS_def)

definition dir_of :: "('w, 'z) sysconf_scheme \<Rightarrow> string" where
  "dir_of s = fst (keys_dir_get s)"

lemma DEFAULT_KEYS_DIR_facts: "is_cstr DEFAULT_KEYS_DIR" "DEFAULT_KEYS_DIR \<noteq> []" "length DEFAULT_KEYS_DIR < 4096"
  by (simp_all add: DEFAULT_KEYS_DIR_def is_cstr_def NUL_def)

lemma keys_dir_get_eq [key_simps]:
  "keys_dir_get s = (dir_of s, s\<lparr>keys_dir := dir_of s\<rparr>)"
  by (simp add: dir_of_def keys_dir_get_def Let_def)

lemma dir_of_eq: "dir_of s = (if keys_dir s = [] then DEFAULT_KEYS_DIR else keys_dir s)"
  using DEFAULT_KEYS_DIR_facts by (simp add: dir_of_def keys_dir_get_def Let_def copied_eq PATH_MAX_def)

lemma dir_of_simps [simp]:
  "dir_of s \<noteq> []"
  "dir_of (s\<lparr>keys_dir := dir_of s\<rparr>) = dir_of s"
  "dir_of (s\<lparr>sc_files := w\<rparr>) = dir_of s"
  "dir_of (s\<lparr>keys_dir := dir_of s, sc_files := w\<rparr>) = dir_of s"
  using DEFAULT_KEYS_DIR_facts by (simp_all add: dir_of_eq)

definition key_path :: "('w, 'z) sysconf_scheme \<Rightarrow> string \<Rightarrow> string" where
  "key_path s key = snprintf PATH_MAX (dir_of s @ key)"

text \<open>A key whose file name is not cut.\<close>

definition key_fits :: "string \<Rightarrow> ('w, 'z) sysconf_scheme \<Rightarrow> bool" where
  "key_fits key s \<longleftrightarrow> is_cstr key \<and> sane_key key \<and> length (dir_of s @ key) < PATH_MAX"

lemma key_path_fits: "key_fits key s \<Longrightarrow> key_path s key = dir_of s @ key \<and> key \<noteq> []"
  by (simp add: key_path_def key_fits_def sane_key_def)

lemma get_key_eq [key_simps]:
  "get_key fo (Some key) s =
     (if check_key_sanity (Some key) \<noteq> 0 then (None, s)
      else (if file_exists fo (sc_files s) (key_path s key)
            then case file_get fo (sc_files s) (key_path s key) of Inr c \<Rightarrow> Some c | Inl e \<Rightarrow> None
            else None, s\<lparr>keys_dir := dir_of s\<rparr>))"
  by (simp add: get_key_def keys_dir_get_eq key_path_def Let_def split: sum.splits)

text \<open>\<open>set_key\<close> prepares the directory and writes one file.\<close>

definition with_dir :: "'w file_ops \<Rightarrow> string \<Rightarrow> 'w \<Rightarrow> bool \<times> 'w" where
  "with_dir fo dir w = (if file_is_dir fo w dir then (True, w) else file_mkdir fo w dir)"

lemma set_key_eq [key_simps]:
  "set_key fo (Some key) contents s =
     (if check_key_sanity (Some key) \<noteq> 0 then (MH_RES_INVALID_ARGS, s)
      else case with_dir fo (dir_of s) (sc_files s) of (made, w1) \<Rightarrow>
             if \<not> made then (MH_RES_OTHER_ERROR, s\<lparr>keys_dir := dir_of s, sc_files := w1\<rparr>)
             else case file_set fo w1 (key_path s key) contents of (e, w2) \<Rightarrow>
                    (if e = None then MH_RES_SUCCESS else MH_RES_OTHER_ERROR,
                     s\<lparr>keys_dir := dir_of s, sc_files := w2\<rparr>))"
  by (simp add: set_key_def keys_dir_get_eq key_path_def with_dir_def Let_def split: prod.splits option.splits)

lemma dir_of_set_key [simp]: "dir_of (snd (set_key fo (Some key) contents s)) = dir_of s"
  by (simp add: set_key_eq split: prod.splits)

lemma dir_of_get_key [simp]: "dir_of (snd (get_key fo (Some key) s)) = dir_of s"
  by (simp add: get_key_eq)

lemma with_dir_frame:
  "file_laws fo \<Longrightarrow> with_dir fo dir w = (made, w1) \<Longrightarrow> q \<noteq> dir \<Longrightarrow> same_files fo w w1 q"
  using file_frame(1) [of fo q dir w] by (auto simp: with_dir_def same_files_def split: if_splits)

text \<open>Writing a key changes at most its file and the directory.\<close>

lemma set_key_frame:
  assumes laws: "file_laws fo" and q: "q \<noteq> dir_of s" "q \<noteq> key_path s key \<or> fst (set_key fo (Some key) c s) \<noteq> MH_RES_SUCCESS"
  shows "same_files fo (sc_files s) (sc_files (snd (set_key fo (Some key) c s))) q"
proof (cases "check_key_sanity (Some key) = 0")
  case True
  obtain made w1 where w1: "with_dir fo (dir_of s) (sc_files s) = (made, w1)" by fastforce
  obtain e w2 where w2: "file_set fo w1 (key_path s key) c = (e, w2)" by fastforce
  have s1: "same_files fo (sc_files s) w1 q" using with_dir_frame [OF laws w1 q(1)] .
  have "same_files fo w1 w2 q" if made
  proof (cases e)
    case None
    with q(2) that True have "q \<noteq> key_path s key" by (auto simp: set_key_eq w1 w2)
    then show ?thesis using file_set_ok(3) [OF laws, of w1 "key_path s key" c w2 q] w2 None by blast
  next
    case (Some e')
    then show ?thesis using file_set_err [OF laws, of w1 "key_path s key" c e' w2 q] w2 by blast
  qed
  then show ?thesis
    using s1 same_files_trans [OF s1] True by (auto simp: set_key_eq w1 w2)
qed (simp add: set_key_eq same_files_def)

lemma set_key_success:
  assumes "file_laws fo" "fst (set_key fo (Some key) c s) = MH_RES_SUCCESS"
  shows "check_key_sanity (Some key) = 0"
    "file_exists fo (sc_files (snd (set_key fo (Some key) c s))) (key_path s key)"
    "file_get fo (sc_files (snd (set_key fo (Some key) c s))) (key_path s key) = Inr c"
proof -
  obtain made w1 where w1: "with_dir fo (dir_of s) (sc_files s) = (made, w1)" by fastforce
  obtain e w2 where w2: "file_set fo w1 (key_path s key) c = (e, w2)" by fastforce
  have ok: "check_key_sanity (Some key) = 0" "made" "e = None"
    using assms(2) by (auto simp: set_key_eq w1 w2 split: if_splits)
  show "check_key_sanity (Some key) = 0" by (rule ok)
  have "sc_files (snd (set_key fo (Some key) c s)) = w2" using ok by (simp add: set_key_eq w1 w2)
  then show "file_exists fo (sc_files (snd (set_key fo (Some key) c s))) (key_path s key)"
    "file_get fo (sc_files (snd (set_key fo (Some key) c s))) (key_path s key) = Inr c"
    using file_set_ok(1,2) [OF assms(1), of w1 "key_path s key" c w2] w2 ok by simp_all
qed

lemma key_path_cong: "dir_of s' = dir_of s \<Longrightarrow> key_path s' key = key_path s key"
  by (simp add: key_path_def)

section \<open>The contract of the key files\<close>

text \<open>A sequence of writes with an operation \<open>put\<close>: the writes that succeeded, and the final state.\<close>

fun put_all :: "('k \<Rightarrow> 'v \<Rightarrow> 's \<Rightarrow> mh_result \<times> 's) \<Rightarrow> ('k \<times> 'v) list \<Rightarrow> 's \<Rightarrow> ('k \<times> 'v) list \<times> 's" where
  "put_all put [] s = ([], s)"
| "put_all put ((k, v) # kvs) s =
     (let (res, s1) = put k v s; (written, s2) = put_all put kvs s1
      in (if res = MH_RES_SUCCESS then (k, v) # written else written, s2))"

text \<open>A store of values under keys whose operations work on a larger state: \<open>ok k s\<close> says that the key
  is usable there, \<open>sound\<close> is what the store assumes of the layer below.\<close>

locale key_store =
  fixes sound :: bool
    and ok :: "'k \<Rightarrow> 's \<Rightarrow> bool"
    and put :: "'k \<Rightarrow> 'v \<Rightarrow> 's \<Rightarrow> mh_result \<times> 's"
    and get :: "'k \<Rightarrow> 's \<Rightarrow> 'v option \<times> 's"
  assumes put_get: "sound \<Longrightarrow> fst (put k v s) = MH_RES_SUCCESS \<Longrightarrow> fst (get k (snd (put k v s))) = Some v"
    and put_frame: "sound \<Longrightarrow> ok k s \<Longrightarrow> ok k' s \<Longrightarrow> k' \<noteq> k \<or> fst (put k v s) \<noteq> MH_RES_SUCCESS \<Longrightarrow>
      fst (get k' (snd (put k v s))) = fst (get k' s)"
    and put_ok: "ok k' (snd (put k v s)) = ok k' s"
    and get_frame: "fst (get k' (snd (get k s))) = fst (get k' s)"
begin

text \<open>The abstract store is a map; a sequence of writes acts on it like the writes that succeeded.\<close>

definition contents :: "'s \<Rightarrow> 'k \<rightharpoonup> 'v" where
  "contents s k = fst (get k s)"

lemma contents_put:
  assumes sound "ok k s" "ok k' s"
  shows "contents (snd (put k v s)) k' =
    (if fst (put k v s) = MH_RES_SUCCESS then (contents s)(k \<mapsto> v) else contents s) k'"
  using put_get put_frame [OF assms] assms(1) by (auto simp: contents_def)

lemma contents_put_all:
  assumes sound "\<forall>(k, v)\<in>set kvs. ok k s" "ok k' s"
  shows "contents (snd (put_all put kvs s)) k' = (contents s ++ map_of (rev (fst (put_all put kvs s)))) k'"
  using assms(2,3)
proof (induction kvs arbitrary: s)
  case (Cons kv kvs)
  obtain k v where kv: "kv = (k, v)" by fastforce
  let ?s1 = "snd (put k v s)"
  have step: "snd (put_all put (kv # kvs) s) = snd (put_all put kvs ?s1)"
    "fst (put_all put (kv # kvs) s) = (if fst (put k v s) = MH_RES_SUCCESS then [(k, v)] else []) @ fst (put_all put kvs ?s1)"
    by (simp_all add: kv Let_def split: prod.splits)
  have "contents (snd (put_all put kvs ?s1)) k' = (contents ?s1 ++ map_of (rev (fst (put_all put kvs ?s1)))) k'"
    using Cons.prems by (intro Cons.IH) (auto simp: put_ok)
  moreover have "contents ?s1 k' = (if fst (put k v s) = MH_RES_SUCCESS then (contents s)(k \<mapsto> v) else contents s) k'"
    using Cons.prems kv by (intro contents_put [OF assms(1)]) auto
  ultimately show ?case unfolding step by (auto simp: map_add_def split: option.splits)
qed (simp add: contents_def)

end

interpretation keys: key_store "file_laws fo" "key_fits"
  "\<lambda>k. mh_sysconfig_set_configured fo (Some k)" "\<lambda>k. mh_sysconfig_is_configured fo (Some k)" for fo :: "'w file_ops"
proof (unfold_locales, goal_cases)
  case (1 k v s)
  let ?s' = "snd (set_key fo (Some k) v s)"
  have "key_path ?s' k = key_path s k" by (rule key_path_cong) simp
  with set_key_success [OF 1(1) 1(2) [unfolded mh_sysconfig_set_configured_def]] show ?case
    by (simp add: mh_sysconfig_set_configured_def mh_sysconfig_is_configured_def get_key_eq)
next
  case (2 k s k' v)
  let ?s' = "snd (set_key fo (Some k) v s)"
  have path: "key_path ?s' k' = key_path s k'" by (rule key_path_cong) simp
  have "same_files fo (sc_files s) (sc_files ?s') (key_path s k')"
    using 2 key_path_fits [OF 2(2)] key_path_fits [OF 2(3)]
    by (intro set_key_frame) (auto simp: mh_sysconfig_set_configured_def)
  then show ?case
    by (simp add: mh_sysconfig_set_configured_def mh_sysconfig_is_configured_def get_key_eq path same_files_def)
next
  case (3 k' k v s)
  then show ?case by (simp add: key_fits_def mh_sysconfig_set_configured_def)
next
  case (4 k' k s)
  have "key_path (s\<lparr>keys_dir := dir_of s\<rparr>) k' = key_path s k'" by (rule key_path_cong) simp
  then show ?case by (simp add: mh_sysconfig_is_configured_def get_key_eq)
qed

section \<open>Properties of the keys\<close>

text \<open>C12: Whatever key a client sends, \<open>mh_sysconfig_set_configured\<close> changes no file outside the keys
  directory: a file that changed is the directory itself or is directly in it, under a name that has
  no slash, does not begin with a dot and begins the key.\<close>

theorem set_configured_confined:
  assumes laws: "file_laws fo" and key: "is_cstr key" and dir: "length (dir_of s) < PATH_MAX"
    and changed: "\<not> same_files fo (sc_files s)
      (sc_files (snd (mh_sysconfig_set_configured fo (Some key) contents s))) q"
  shows "q = dir_of s \<or>
    (\<exists>name. q = dir_of s @ name \<and> prefix name key \<and> CHR ''/'' \<notin> set name \<and> take 1 name \<noteq> ''.'')"
proof (cases "q = dir_of s")
  case False
  have "q = key_path s key" "fst (set_key fo (Some key) contents s) = MH_RES_SUCCESS"
    using set_key_frame [OF laws False] changed by (auto simp: mh_sysconfig_set_configured_def)
  then have sane: "sane_key key" and q: "q = dir_of s @ take (4095 - length (dir_of s)) key"
    using set_key_success(1) [OF laws] check_key_sanity_iff [OF key] dir
    by (auto simp: key_path_def snprintf_def PATH_MAX_def)
  let ?name = "take (4095 - length (dir_of s)) key"
  have "set ?name \<subseteq> set (take 4095 key)" by (rule set_take_subset_set_take) simp
  then have "CHR ''/'' \<notin> set ?name" using sane slash_not_valid by (auto simp: sane_key_def)
  moreover have "take 1 ?name \<noteq> ''.''" using sane by (cases key) (auto simp: sane_key_def take_Cons split: nat.splits)
  ultimately show ?thesis using q take_is_prefix by blast
qed simp

definition sc_demo :: "store sysconf" where
  "sc_demo = \<lparr>sc_files = Map.empty, keys_dir = ''/k/'', sc_util = util_init, sc_svc = svc_init,
     sc_actions = Map.empty, sc_next = 0\<rparr>"

lemma sc_demo_simps [simp]: "dir_of sc_demo = ''/k/''" "sc_files sc_demo = Map.empty"
  by (simp_all add: sc_demo_def dir_of_eq)

lemma demo_key_fits: "key_fits ''a'' sc_demo" "key_fits ''b'' sc_demo"
  by (simp_all add: key_fits_def PATH_MAX_def sane_key_def VALID_CHARS_def is_cstr_def NUL_def)

lemma demo_set_key: "key_fits k s \<Longrightarrow> dir_of s = ''/k/'' \<Longrightarrow>
  set_key store_ops (Some k) c s =
    (MH_RES_SUCCESS, s\<lparr>keys_dir := ''/k/'', sc_files := (sc_files s)(''/k/'' @ k \<mapsto> c)\<rparr>)"
  using key_path_fits [of k s] check_key_sanity_iff [of k]
  by (simp add: set_key_eq with_dir_def file_simps key_fits_def)

theorem set_configured_confined_witness:
  "\<exists>name. ''/k/a'' = dir_of sc_demo @ name \<and> prefix name ''a'' \<and> CHR ''/'' \<notin> set name \<and> take 1 name \<noteq> ''.''"
proof -
  have "\<not> same_files store_ops (sc_files sc_demo)
      (sc_files (snd (mh_sysconfig_set_configured store_ops (Some ''a'') ''v'' sc_demo))) ''/k/a''"
    using demo_set_key [OF demo_key_fits(1)]
    by (simp add: mh_sysconfig_set_configured_def same_files_def file_simps)
  from set_configured_confined [OF store_ops_laws _ _ this] show ?thesis
    using demo_key_fits(1) by (simp add: PATH_MAX_def key_fits_def)
qed

text \<open>C13: The key files refine a map: after any sequence of writes under usable keys, reading a usable key
  gives the last value whose write succeeded, or what was there before.\<close>

theorem configured_refines_map:
  assumes "file_laws fo" "\<forall>(k, v)\<in>set kvs. key_fits k s" "key_fits key s"
  shows "fst (mh_sysconfig_is_configured fo (Some key) (snd (put_all (\<lambda>k. mh_sysconfig_set_configured fo (Some k)) kvs s))) =
    ((\<lambda>k. fst (mh_sysconfig_is_configured fo (Some k) s)) ++ map_of (rev (fst (put_all (\<lambda>k. mh_sysconfig_set_configured fo (Some k)) kvs s)))) key"
  using keys.contents_put_all [OF assms] by (simp add: keys.contents_def [abs_def])

theorem configured_refines_map_witness:
  "fst (mh_sysconfig_is_configured store_ops (Some ''a'')
     (snd (put_all (\<lambda>k. mh_sysconfig_set_configured store_ops (Some k)) [(''a'', ''x''), (''b'', ''y''), (''a'', ''z'')] sc_demo)))
   = Some ''z''"
proof -
  let ?put = "\<lambda>k. mh_sysconfig_set_configured store_ops (Some k)"
  let ?kvs = "[(''a'', ''x''), (''b'', ''y''), (''a'', ''z'')]"
  have fits: "key_fits k (sc_demo\<lparr>keys_dir := ''/k/'', sc_files := w\<rparr>) = key_fits k sc_demo" for k w
    by (simp add: key_fits_def dir_of_eq sc_demo_def)
  have put: "?put k c (sc_demo\<lparr>keys_dir := ''/k/'', sc_files := w\<rparr>) =
      (MH_RES_SUCCESS, sc_demo\<lparr>keys_dir := ''/k/'', sc_files := w(''/k/'' @ k \<mapsto> c)\<rparr>)"
    if "key_fits k sc_demo" for k c w
    using that by (simp add: mh_sysconfig_set_configured_def demo_set_key fits dir_of_eq)
  have start: "sc_demo = sc_demo\<lparr>keys_dir := ''/k/'', sc_files := Map.empty\<rparr>" by (simp add: sc_demo_def)
  have written: "fst (put_all ?put ?kvs sc_demo) = ?kvs"
    by (subst start) (simp add: put demo_key_fits)
  have "fst (mh_sysconfig_is_configured store_ops (Some ''a'') (snd (put_all ?put ?kvs sc_demo))) =
      ((\<lambda>k. fst (mh_sysconfig_is_configured store_ops (Some k) sc_demo)) ++ map_of (rev (fst (put_all ?put ?kvs sc_demo)))) ''a''"
    by (rule configured_refines_map [OF store_ops_laws]) (simp_all add: demo_key_fits)
  then show ?thesis by (simp only: written) simp
qed

end
