(* ===== verification/Sysconfig_Linux.thy ===== *)
theory Sysconfig_Linux
  imports Sysconfig Services_Async
begin

text \<open>
  \<^verbatim>\<open>src/src/lib/sysconfig_linux.c\<close>: downloading a configuration, running Puppet as an asynchronous
  action of the service library, running and querying Augeas, and the entry points that choose
  between them; and the entry points of \<^verbatim>\<open>sysconfig.c\<close> that call them.

  curl, Puppet, Augeas, \<^verbatim>\<open>mkstemp\<close>, \<^verbatim>\<open>fdopen\<close> and the random generator are fields of \<open>sys_env\<close>. A result
  callback is a number and \<open>call\<close> says what calling it does to the state. \<open>Buf_overrun\<close> is a write
  outside a local array, \<open>Bad_pointer\<close> an access through a pointer that is NULL or whose object was
  released, \<open>Svc_failed\<close> a failure of the service library. Memory that is not released and the text of
  log messages are not modelled, except for the array in which the arguments of Puppet are collected.
\<close>

section \<open>The environment\<close>

record 'w augeas_lib =
  aug_init :: bool
  aug_srun :: "string \<Rightarrow> string \<Rightarrow> 'w \<Rightarrow> int \<times> 'w"
  aug_get :: "string \<Rightarrow> cptr"

record 'w sys_env =
  se_files :: "'w file_ops"
  se_curl_global :: bool
  se_curl_easy :: bool
  se_setopt_url :: bool
  se_setopt_writedata :: bool
  se_perform :: "string \<Rightarrow> string \<Rightarrow> 'w \<Rightarrow> bool \<times> 'w"
  se_response :: "string \<Rightarrow> int"
  se_puppet_version :: "gerror + string"
  se_uninit :: u32
  se_mkstemp :: "string \<Rightarrow> 'w \<Rightarrow> cptr \<times> 'w"
  se_fdopen :: "string \<Rightarrow> bool"
  se_random :: u32
  se_exec :: exec_env
  se_augeas :: "'w augeas_lib option"

datatype sys_failure = Svc_failed svc_failure | Buf_overrun | Bad_pointer

section \<open>Download\<close>

text \<open>\<open>fp\<close> is the file the stream writes to. The test of \<open>curl_res\<close> after \<^verbatim>\<open>curl_easy_getinfo\<close> reads the
  result of \<^verbatim>\<open>curl_easy_perform\<close>, which is \<^verbatim>\<open>CURLE_OK\<close> there.\<close>

definition sysconfig_os_download ::
  "'w sys_env \<Rightarrow> string \<Rightarrow> string \<Rightarrow> ('w, 'z) sysconf_scheme \<Rightarrow> mh_result \<times> ('w, 'z) sysconf_scheme" where
  "sysconfig_os_download env uri fp s =
     (case mh_curl_init (se_curl_global env) (sc_util s) of (res, u) \<Rightarrow>
        let s1 = s\<lparr>sc_util := u\<rparr>
        in if res \<noteq> MH_RES_SUCCESS then (res, s1)
           else if \<not> se_curl_easy env then (MH_RES_OTHER_ERROR, s1)
           else if \<not> se_setopt_url env then (MH_RES_OTHER_ERROR, s1)
           else if \<not> se_setopt_writedata env then (MH_RES_OTHER_ERROR, s1)
           else case se_perform env uri fp (sc_files s1) of (ok, w) \<Rightarrow>
                  let s2 = s1\<lparr>sc_files := w\<rparr>
                  in if \<not> ok then (MH_RES_DOWNLOAD_ERROR, s2)
                     else if strncasecmp uri ''http'' 4 \<or> strncasecmp uri ''ftp'' 3
                     then if se_response env uri < 200 \<or> se_response env uri > 299
                          then (MH_RES_DOWNLOAD_ERROR, s2) else (res, s2)
                     else (res, s2))"

definition unlink_file :: "'w sys_env \<Rightarrow> string \<Rightarrow> ('w, 'z) sysconf_scheme \<Rightarrow> ('w, 'z) sysconf_scheme" where
  "unlink_file env path s = s\<lparr>sc_files := file_unlink (se_files env) (sc_files s) path\<rparr>"

text \<open>\<^verbatim>\<open>mkstemp\<close> with the given template, \<^verbatim>\<open>fdopen\<close>, the download and its error paths, as \<open>run_puppet\<close> and
  \<open>run_augeas\<close> have it: the name of the file or the error to return.\<close>

definition fetch_uri ::
  "'w sys_env \<Rightarrow> string \<Rightarrow> string \<Rightarrow> ('w, 'z) sysconf_scheme \<Rightarrow> (mh_result + string) \<times> ('w, 'z) sysconf_scheme" where
  "fetch_uri env template uri s =
     (case se_mkstemp env template (sc_files s) of (name, w) \<Rightarrow>
        let s1 = s\<lparr>sc_files := w\<rparr>
        in case name of
             None \<Rightarrow> (Inl MH_RES_OTHER_ERROR, s1)
           | Some filename \<Rightarrow>
               if \<not> se_fdopen env filename then (Inl MH_RES_OTHER_ERROR, unlink_file env filename s1)
               else (case sysconfig_os_download env uri filename s1 of (res, s2) \<Rightarrow>
                       if res \<noteq> MH_RES_SUCCESS then (Inl res, unlink_file env filename s2)
                       else (Inr filename, s2)))"

section \<open>Puppet\<close>

definition fn_action_cb :: nat where "fn_action_cb = 5"

definition action_cb ::
  "'w sys_env \<Rightarrow> (nat \<Rightarrow> nat \<Rightarrow> int \<Rightarrow> ('w, 'z) sysconf_scheme \<Rightarrow> ('w, 'z) sysconf_scheme) \<Rightarrow> svc_action
   \<Rightarrow> ('w, 'z) sysconf_scheme \<Rightarrow> sys_failure + svc_action \<times> ('w, 'z) sysconf_scheme" where
  "action_cb env call action s =
     (case Option.bind (op_cb_data action) (sc_actions s) of
        None \<Rightarrow> Inl Bad_pointer
      | Some ad \<Rightarrow>
          (let buf = (if op_rc action \<noteq> 0 then snprintf 32 (''FAILED'' @ [CHR 0x0A] @ show_int (op_rc action)) else ''OK'');
               s1 = snd (mh_sysconfig_set_configured (se_files env) (Some (ad_key ad)) buf s);
               s2 = call (ad_result_cb ad) (ad_cb_data ad) (op_rc action) s1;
               s3 = (case ad_filename ad of None \<Rightarrow> s2 | Some f \<Rightarrow> unlink_file env f s2)
           in Inr (action\<lparr>op_cb_data := None\<rparr>, s3\<lparr>sc_actions := (sc_actions s3)(the (op_cb_data action) := None)\<rparr>)))"

text \<open>The result and the value left in \<open>use_apply\<close>; when \<^verbatim>\<open>sscanf\<close> finds no number, \<open>major\<close> is read
  uninitialised.\<close>

definition check_puppet :: "'w sys_env \<Rightarrow> bool \<Rightarrow> int \<times> bool" where
  "check_puppet env use_apply =
     (case se_puppet_version env of
        Inl error \<Rightarrow> (- 1, use_apply)
      | Inr out \<Rightarrow>
          (case strchr out (CHR ''.'') of
             None \<Rightarrow> (- 1, use_apply)
           | Some dot \<Rightarrow>
               (case scan_unsigned (take (length out - length dot) out) of
                  None \<Rightarrow> (- 1, 2 \<le> se_uninit env)
                | Some major \<Rightarrow> (0, 2 \<le> (ucast major :: u32)))))"

text \<open>Where the configuration comes from: the name of a file (empty for a Puppet master) and the domain
  of the master, or the error to return.\<close>

definition puppet_source ::
  "'w sys_env \<Rightarrow> cptr \<Rightarrow> cptr \<Rightarrow> ('w, 'z) sysconf_scheme
   \<Rightarrow> (mh_result + string \<times> string) \<times> ('w, 'z) sysconf_scheme" where
  "puppet_source env uri data s =
     (case uri of
        Some u \<Rightarrow>
          if strncasecmp u ''puppet://'' 9
          then (case strstr u ''//'' of
                  None \<Rightarrow> (Inl MH_RES_INVALID_ARGS, s)
                | Some domain \<Rightarrow>
                    if length domain < 3 then (Inl MH_RES_INVALID_ARGS, s)
                    else if strstr (drop 2 domain) ''/'' \<noteq> None then (Inl MH_RES_INVALID_ARGS, s)
                    else (Inr ([], drop 2 domain), s))
          else (case fetch_uri env ''puppet_conf_XXXXXX'' u s of
                  (Inl res, s1) \<Rightarrow> (Inl res, s1)
                | (Inr filename, s1) \<Rightarrow> (Inr (filename, []), s1))
      | None \<Rightarrow>
          (case data of
             Some d \<Rightarrow>
               (let filename = ''puppet_conf_'' @ show_nat (unat (se_random env))
                in (Inr (filename, []), s\<lparr>sc_files := snd (file_set (se_files env) (sc_files s) filename d)\<rparr>))
           | None \<Rightarrow> (Inl MH_RES_INVALID_ARGS, s)))"

definition puppet_args :: "bool \<Rightarrow> bool \<Rightarrow> string \<Rightarrow> string \<Rightarrow> string list" where
  "puppet_args use_apply oneoff filename domain =
     (if filename \<noteq> []
      then if use_apply then [''apply'', filename] else [filename]
      else [''agent'', ''--server'', domain] @ (if oneoff then [''--test''] else []))"

text \<open>The loop that collects the arguments in \<open>buf\<close>, an array of 128 characters: the space left is
  computed as a 64-bit unsigned number. \<open>None\<close> is a write outside the array.\<close>

fun args_text :: "nat \<Rightarrow> nat \<Rightarrow> string list \<Rightarrow> nat option" where
  "args_text i written [] = Some written"
| "args_text i written (a # as) =
     (let text = (if i \<noteq> 0 then '' '' else []) @ a;
          size = unat (128 - of_nat written :: u64)
      in if size \<noteq> 0 \<and> written + min (length text) (size - 1) \<ge> 128 then None
         else args_text (Suc i) (written + length text) as)"

definition run_puppet ::
  "'w sys_env \<Rightarrow> cptr \<Rightarrow> bool \<Rightarrow> cptr \<Rightarrow> string \<Rightarrow> nat \<Rightarrow> nat \<Rightarrow> ('w, 'z) sysconf_scheme
   \<Rightarrow> sys_failure + mh_result \<times> ('w, 'z) sysconf_scheme" where
  "run_puppet env uri oneoff data key result_cb cb_data s =
     (case check_puppet env False of (failed, use_apply) \<Rightarrow>
      if failed \<noteq> 0 then Inr (MH_RES_BACKEND_ERROR, s)
      else case puppet_source env uri data s of
        (Inl res, s1) \<Rightarrow> Inr (res, s1)
      | (Inr (filename, domain), s1) \<Rightarrow>
          (let args = puppet_args use_apply oneoff filename domain;
               (a, v1) = mh_services_action_create_generic ''puppet'' args (sc_svc s1);
               d = sc_next s1;
               ad = \<lparr>ad_key = key, ad_filename = (if filename \<noteq> [] then Some filename else None),
                     ad_result_cb = result_cb, ad_cb_data = cb_data\<rparr>
           in case load (Some a) v1 of
                Inl e \<Rightarrow> Inl (Svc_failed e)
              | Inr op \<Rightarrow>
                  (let v2 = store a (op\<lparr>op_cb_data := Some d, op_id := Some ''puppet''\<rparr>) v1;
                       s2 = s1\<lparr>sc_svc := v2, sc_actions := (sc_actions s1)(d \<mapsto> ad), sc_next := Suc d\<rparr>
                   in case args_text 0 0 args of
                        None \<Rightarrow> Inl Buf_overrun
                      | Some written \<Rightarrow>
                          (case services_action_async (services_os_action_execute (se_exec env)) (Some a)
                                  (Some fn_action_cb) v2 of
                             Inl e \<Rightarrow> Inl (Svc_failed e)
                           | Inr (ok, v3) \<Rightarrow>
                               if ok then Inr (MH_RES_SUCCESS, s2\<lparr>sc_svc := v3\<rparr>)
                               else (case services_action_free (Some a) v3 of
                                       Inl e \<Rightarrow> Inl (Svc_failed e)
                                     | Inr (_, v4) \<Rightarrow>
                                         (let s4 = s2\<lparr>sc_svc := v4, sc_actions := (sc_actions s2)(d := None)\<rparr>;
                                              s5 = snd (mh_sysconfig_set_configured (se_files env) (Some key) ''ERROR'' s4)
                                          in Inr (MH_RES_BACKEND_ERROR, unlink_file env filename s5)))))))"

section \<open>Augeas\<close>

text \<open>The text to run: downloaded, or the given data.\<close>

definition augeas_text ::
  "'w sys_env \<Rightarrow> cptr \<Rightarrow> cptr \<Rightarrow> ('w, 'z) sysconf_scheme \<Rightarrow> (mh_result + string) \<times> ('w, 'z) sysconf_scheme" where
  "augeas_text env uri data s =
     (case uri of
        Some u \<Rightarrow>
          (case fetch_uri env ''augeas_conf_XXXXXX'' u s of
             (Inl res, s1) \<Rightarrow> (Inl res, s1)
           | (Inr filename, s1) \<Rightarrow>
               (case file_get (se_files env) (sc_files s1) filename of
                  Inl e \<Rightarrow> (Inl MH_RES_DOWNLOAD_ERROR, unlink_file env filename s1)
                | Inr text \<Rightarrow> (Inr text, unlink_file env filename s1)))
      | None \<Rightarrow> (case data of Some d \<Rightarrow> (Inr d, s) | None \<Rightarrow> (Inl MH_RES_INVALID_ARGS, s)))"

definition run_augeas ::
  "'w sys_env \<Rightarrow> (nat \<Rightarrow> nat \<Rightarrow> int \<Rightarrow> ('w, 'z) sysconf_scheme \<Rightarrow> ('w, 'z) sysconf_scheme) \<Rightarrow> cptr \<Rightarrow> cptr \<Rightarrow> string
   \<Rightarrow> nat \<Rightarrow> nat \<Rightarrow> ('w, 'z) sysconf_scheme \<Rightarrow> mh_result \<times> ('w, 'z) sysconf_scheme" where
  "run_augeas env call uri data key result_cb cb_data s =
     (case se_augeas env of
        None \<Rightarrow> (MH_RES_NOT_IMPLEMENTED, s)
      | Some aug \<Rightarrow>
          (case augeas_text env uri data s of
             (Inl res, s1) \<Rightarrow> (res, s1)
           | (Inr text, s1) \<Rightarrow>
               (case se_mkstemp env ''augeas_conf_XXXXXX'' (sc_files s1) of (name, w) \<Rightarrow>
                  let s2 = s1\<lparr>sc_files := w\<rparr>
                  in case name of
                       None \<Rightarrow> (MH_RES_OTHER_ERROR, s2)
                     | Some filename \<Rightarrow>
                         if \<not> se_fdopen env filename then (MH_RES_OTHER_ERROR, unlink_file env filename s2)
                         else if \<not> aug_init aug then (MH_RES_BACKEND_ERROR, unlink_file env filename s2)
                         else (case aug_srun aug (cstr_of text) filename (sc_files s2) of (result, w3) \<Rightarrow>
                                 let s3 = s2\<lparr>sc_files := w3\<rparr>
                                 in case file_get (se_files env) (sc_files s3) filename of
                                      Inl e \<Rightarrow> (MH_RES_BACKEND_ERROR, unlink_file env filename s3)
                                    | Inr contents \<Rightarrow>
                                        (let result_str =
                                               (if result < 0
                                                then ''FAILED'' @ [CHR 0x0A] @ show_int result @ [CHR 0x0A] @ cstr_of contents
                                                else ''OK'' @ [CHR 0x0A] @ cstr_of contents);
                                             s4 = snd (mh_sysconfig_set_configured (se_files env) (Some key) result_str s3);
                                             s5 = call result_cb cb_data (mh_result_code MH_RES_SUCCESS) s4
                                         in (MH_RES_SUCCESS, unlink_file env filename s5))))))"

definition sysconfig_os_query_augeas :: "'w sys_env \<Rightarrow> string \<Rightarrow> sys_failure + cptr" where
  "sysconfig_os_query_augeas env query =
     (case se_augeas env of
        None \<Rightarrow> Inr None
      | Some aug \<Rightarrow> if aug_init aug then Inr (aug_get aug query) else Inl Bad_pointer)"

section \<open>Entry points\<close>

definition MH_SYSCONFIG_FLAG_FORCE :: u32 where "MH_SYSCONFIG_FLAG_FORCE = 1"

definition sysconfig_os_run_uri ::
  "'w sys_env \<Rightarrow> (nat \<Rightarrow> nat \<Rightarrow> int \<Rightarrow> ('w, 'z) sysconf_scheme \<Rightarrow> ('w, 'z) sysconf_scheme) \<Rightarrow> string \<Rightarrow> u32 \<Rightarrow> string
   \<Rightarrow> string \<Rightarrow> nat \<Rightarrow> nat \<Rightarrow> ('w, 'z) sysconf_scheme \<Rightarrow> sys_failure + mh_result \<times> ('w, 'z) sysconf_scheme" where
  "sysconfig_os_run_uri env call uri flags scheme key result_cb cb_data s =
     (case mh_sysconfig_is_configured (se_files env) (Some key) s of (status, s1) \<Rightarrow>
        if status \<noteq> None \<and> flags AND MH_SYSCONFIG_FLAG_FORCE = 0
        then Inr (MH_RES_SUCCESS, call result_cb cb_data (mh_result_code MH_RES_SUCCESS) s1)
        else if strcasecmp scheme ''puppet'' then run_puppet env (Some uri) True None key result_cb cb_data s1
        else if strcasecmp scheme ''augeas'' then Inr (run_augeas env call (Some uri) None key result_cb cb_data s1)
        else Inr (MH_RES_INVALID_ARGS, s1))"

definition sysconfig_os_run_string ::
  "'w sys_env \<Rightarrow> (nat \<Rightarrow> nat \<Rightarrow> int \<Rightarrow> ('w, 'z) sysconf_scheme \<Rightarrow> ('w, 'z) sysconf_scheme) \<Rightarrow> string \<Rightarrow> u32 \<Rightarrow> string
   \<Rightarrow> string \<Rightarrow> nat \<Rightarrow> nat \<Rightarrow> ('w, 'z) sysconf_scheme \<Rightarrow> sys_failure + mh_result \<times> ('w, 'z) sysconf_scheme" where
  "sysconfig_os_run_string env call string flags scheme key result_cb cb_data s =
     (case mh_sysconfig_is_configured (se_files env) (Some key) s of (status, s1) \<Rightarrow>
        if status \<noteq> None \<and> flags AND MH_SYSCONFIG_FLAG_FORCE = 0
        then Inr (MH_RES_SUCCESS, call result_cb cb_data (mh_result_code MH_RES_SUCCESS) s1)
        else if strcasecmp scheme ''puppet'' then run_puppet env None False (Some string) key result_cb cb_data s1
        else if strcasecmp scheme ''augeas'' then Inr (run_augeas env call None (Some string) key result_cb cb_data s1)
        else Inr (MH_RES_INVALID_ARGS, s1))"

definition sysconfig_os_query :: "'w sys_env \<Rightarrow> string \<Rightarrow> u32 \<Rightarrow> string \<Rightarrow> sys_failure + cptr" where
  "sysconfig_os_query env query flags scheme =
     (if strcasecmp scheme ''augeas'' then sysconfig_os_query_augeas env query else Inr None)"

definition mh_sysconfig_run_uri ::
  "'w sys_env \<Rightarrow> (nat \<Rightarrow> nat \<Rightarrow> int \<Rightarrow> ('w, 'z) sysconf_scheme \<Rightarrow> ('w, 'z) sysconf_scheme) \<Rightarrow> string \<Rightarrow> u32 \<Rightarrow> string
   \<Rightarrow> cptr \<Rightarrow> nat \<Rightarrow> nat \<Rightarrow> ('w, 'z) sysconf_scheme \<Rightarrow> sys_failure + mh_result \<times> ('w, 'z) sysconf_scheme" where
  "mh_sysconfig_run_uri env call uri flags scheme key result_cb cb_data s =
     (if check_key_sanity key \<noteq> 0 then Inr (MH_RES_INVALID_ARGS, s)
      else sysconfig_os_run_uri env call uri flags scheme (the key) result_cb cb_data s)"

definition mh_sysconfig_run_string ::
  "'w sys_env \<Rightarrow> (nat \<Rightarrow> nat \<Rightarrow> int \<Rightarrow> ('w, 'z) sysconf_scheme \<Rightarrow> ('w, 'z) sysconf_scheme) \<Rightarrow> string \<Rightarrow> u32 \<Rightarrow> string
   \<Rightarrow> cptr \<Rightarrow> nat \<Rightarrow> nat \<Rightarrow> ('w, 'z) sysconf_scheme \<Rightarrow> sys_failure + mh_result \<times> ('w, 'z) sysconf_scheme" where
  "mh_sysconfig_run_string env call string flags scheme key result_cb cb_data s =
     (if check_key_sanity key \<noteq> 0 then Inr (MH_RES_INVALID_ARGS, s)
      else sysconfig_os_run_string env call string flags scheme (the key) result_cb cb_data s)"

definition mh_sysconfig_query :: "'w sys_env \<Rightarrow> string \<Rightarrow> u32 \<Rightarrow> string \<Rightarrow> sys_failure + cptr" where
  "mh_sysconfig_query env query flags scheme = sysconfig_os_query env query flags scheme"

section \<open>Lemmas\<close>

lemma args_text_inside:
  assumes "written \<le> 128"
  shows "args_text i written (a # as) =
    args_text (Suc i) (written + length ((if i \<noteq> 0 then '' '' else []) @ a)) as"
proof -
  have "unat (128 - of_nat written :: u64) = 128 - written"
  proof -
    have "(128 :: u64) - of_nat written = of_nat (128 - written)" using assms by (simp add: of_nat_diff)
    moreover have "unat (of_nat (128 - written) :: u64) = 128 - written" by (simp add: unat_of_nat take_bit_nat_eq_self)
    ultimately show ?thesis by simp
  qed
  then show ?thesis by (simp only: args_text.simps Let_def) auto
qed

lemma args_text_outside:
  assumes "128 < written" "written < 2 ^ 63"
  shows "args_text i written (a # as) = None"
proof -
  have "unat (128 - of_nat written :: u64) \<noteq> 0"
  proof
    assume "unat (128 - of_nat written :: u64) = 0"
    then have "of_nat 128 = (of_nat written :: u64)" by (simp add: unat_eq_0)
    then have "unat (of_nat 128 :: u64) = unat (of_nat written :: u64)" by simp
    moreover have "unat (of_nat written :: u64) = written" using assms by (simp add: unat_of_nat take_bit_nat_eq_self)
    ultimately show False using assms by simp
  qed
  then show ?thesis using assms by (simp only: args_text.simps Let_def) simp
qed

declare args_text.simps [simp del]

lemma args_text_Nil [simp]: "args_text i written [] = Some written"
  by (simp add: args_text.simps)

lemma args_text_agent:
  assumes "length domain < 2 ^ 32"
  shows "args_text 0 0 [''agent'', ''--server'', domain, ''--test''] = None \<longleftrightarrow> 113 < length domain"
proof -
  have pre: "args_text 0 0 [''agent'', ''--server'', domain, ''--test''] =
      args_text 3 (15 + length domain) [''--test'']"
    by (simp add: args_text_inside numeral_3_eq_3 eval_nat_numeral)
  show ?thesis
  proof (cases "113 < length domain")
    case True
    then show ?thesis unfolding pre using assms args_text_outside [of "15 + length domain" 3] by simp
  next
    case False
    then show ?thesis unfolding pre using args_text_inside [of "15 + length domain" 3 "''--test''" "[]"] by simp
  qed
qed

lemma strstr_notin: "c \<notin> set s \<Longrightarrow> strstr s [c] = None"
  by (induction s) auto

lemma puppet_source_master:
  assumes "domain \<noteq> []" "CHR ''/'' \<notin> set domain"
  shows "puppet_source env (Some (''puppet://'' @ domain)) data s = (Inr ([], domain), s)"
proof -
  have "strstr (''puppet://'' @ domain) ''//'' = Some (''//'' @ domain)" by simp
  moreover have "strncasecmp (''puppet://'' @ domain) ''puppet://'' 9" by (simp add: strncasecmp_def)
  ultimately show ?thesis
    using assms by (cases domain) (simp_all add: puppet_source_def strstr_notin)
qed

lemma create_generic_load:
  "mh_services_action_create_generic exec args v = (a, v1) \<Longrightarrow>
   a = svc_next v \<and> (\<exists>op. load (Some a) v1 = Inr op \<and> svc_heap v1 = (svc_heap v)(a \<mapsto> op) \<and> op_interval op = 0 \<and>
     op_exec (op_opaque op) = Some exec \<and> op_args (op_opaque op) = generic_args ((replicate 7 None)[0 := Some exec]) 1 args
     \<and> v1 = v\<lparr>svc_heap := (svc_heap v)(a \<mapsto> op), svc_next := Suc (svc_next v)\<rparr>)"
  by (auto simp: mh_services_action_create_generic_def svc_alloc_def svc_calloc_def load_def Let_def)

section \<open>Properties\<close>

text \<open>A request for a key that has been configured and that does not force a new run starts nothing:
  the result callback is called with success at once and nothing else changes (the directory name
  may get its default).\<close>

theorem configured_not_run_again:
  assumes "is_cstr key" "fst (mh_sysconfig_is_configured (se_files env) (Some key) s) \<noteq> None" "flags AND 1 = 0"
  shows "mh_sysconfig_run_uri env call uri flags scheme (Some key) cb d s =
      Inr (MH_RES_SUCCESS, call cb d 0 (s\<lparr>keys_dir := dir_of s\<rparr>)) \<and>
    mh_sysconfig_run_string env call txt flags scheme (Some key) cb d s =
      Inr (MH_RES_SUCCESS, call cb d 0 (s\<lparr>keys_dir := dir_of s\<rparr>))"
proof -
  have sane: "check_key_sanity (Some key) = 0"
    using assms(2) by (auto simp: mh_sysconfig_is_configured_def get_key_eq split: if_splits)
  obtain c where "get_key (se_files env) (Some key) s = (Some c, s\<lparr>keys_dir := dir_of s\<rparr>)"
    using assms(2) sane by (auto simp: mh_sysconfig_is_configured_def get_key_eq)
  then show ?thesis
    using assms(3) sane
    by (simp add: mh_sysconfig_run_uri_def mh_sysconfig_run_string_def sysconfig_os_run_uri_def
        sysconfig_os_run_string_def mh_sysconfig_is_configured_def MH_SYSCONFIG_FLAG_FORCE_def)
qed

lemma unlink_file_frame [simp]:
  "sc_svc (unlink_file env p s) = sc_svc s" "sc_next (unlink_file env p s) = sc_next s"
  "sc_actions (unlink_file env p s) = sc_actions s" "keys_dir (unlink_file env p s) = keys_dir s"
  by (simp_all add: unlink_file_def)

lemma download_frame:
  "sysconfig_os_download env uri fp s = (res, s') \<Longrightarrow>
   sc_svc s' = sc_svc s \<and> sc_next s' = sc_next s \<and> sc_actions s' = sc_actions s \<and> keys_dir s' = keys_dir s"
  by (auto simp: sysconfig_os_download_def Let_def split: prod.splits if_splits)

lemma fetch_uri_frame:
  "fetch_uri env template uri s = (r, s') \<Longrightarrow>
   sc_svc s' = sc_svc s \<and> sc_next s' = sc_next s \<and> sc_actions s' = sc_actions s \<and> keys_dir s' = keys_dir s"
  by (auto simp: fetch_uri_def Let_def dest!: download_frame split: prod.splits if_splits option.splits)

lemma puppet_source_frame:
  "puppet_source env uri data s = (r, s') \<Longrightarrow>
   sc_svc s' = sc_svc s \<and> sc_next s' = sc_next s \<and> sc_actions s' = sc_actions s \<and> keys_dir s' = keys_dir s"
  by (auto simp: puppet_source_def Let_def dest!: fetch_uri_frame split: prod.splits if_splits option.splits sum.splits)

text \<open>A new action with an identifier that is started and given a callback: its child is tracked and
  the action carries what it carried before.\<close>

lemma start_new_action:
  assumes inv: "svc_inv v" and id: "op_id op \<noteq> None" and fk: "fork_ok env v"
    and v2: "v2 = v\<lparr>svc_heap := (svc_heap v)(svc_next v \<mapsto> op), svc_next := Suc (svc_next v)\<rparr>"
    and ex: "services_action_async (services_os_action_execute env) (Some (svc_next v)) (Some f) v2 = Inr (True, v3)"
  shows "svc_inv v3 \<and> (\<exists>p op'. tracked v3 (ee_fork env) = Some p \<and> ch_privatedata p = Some (svc_next v) \<and>
    svc_heap v3 (svc_next v) = Some op' \<and> op_cb_data op' = op_cb_data op \<and> op_interval op' = op_interval op \<and>
    op_callback (op_opaque op') = Some f)"
proof -
  let ?a = "svc_next v"
  have inv2: "svc_inv v2" by (rule inv_new [OF inv, where a = ?a and op = op]) (simp_all add: v2 id)
  have idle: "idle v2 ?a" by (rule new_idle [OF inv]) (simp_all add: v2)
  have heap2: "svc_heap v2 ?a = Some op" by (simp add: v2)
  have "tracked v2 = tracked v" by (rule tracked_cong) (simp add: v2)
  then have fk2: "fork_ok env v2" using fk by (simp add: fork_ok_def)
  have inv3: "svc_inv v3" by (rule inv_start [OF inv2 heap2 idle fk2 ex])
  obtain i where i: "op_id op = Some i" using id by auto
  define w where "w = async_setup ?a (Some f) op v2"
  have exw: "services_os_action_execute env ?a False w = Inr (True, v3)"
    using ex services_action_async_eq [OF heap2 i] by (simp add: w_def)
  define op1 where "op1 = op\<lparr>op_opaque := (op_opaque op)\<lparr>op_callback := Some f\<rparr>\<rparr>"
  have heapw: "svc_heap w ?a = Some op1" by (simp add: w_def async_setup_def op1_def Let_def)
  have nofail: "ee_fork env \<noteq> - 1"
    using exw heapw by (auto simp: services_os_action_execute_def svc_simps Let_def split: prod.splits if_splits)
  then have pos: "0 < ee_fork env" using fk by (simp add: fork_ok_def)
  obtain op' where "svc_heap v3 = (svc_heap w)(?a \<mapsto> op')" "same_request op1 op'"
    "\<exists>c. ch_pid c = ee_fork env \<and> ch_privatedata c = Some ?a \<and>
       (\<forall>pid. tracked v3 pid = (if pid = \<bar>ee_fork env\<bar> then Some c else tracked w pid))"
    using execute_async_effect [OF heapw exw] nofail by auto
  then show ?thesis using inv3 pos by (auto simp: same_request_def op1_def)
qed

lemma puppet_started:
  assumes run: "run_puppet env uri oneoff data key cb d s = Inr (MH_RES_SUCCESS, s1)"
    and inv: "svc_inv (sc_svc s)" and fk: "fork_ok (se_exec env) (sc_svc s)"
  shows "svc_inv (sc_svc s1) \<and> (\<exists>p a op filename domain. tracked (sc_svc s1) (ee_fork (se_exec env)) = Some p \<and>
    ch_privatedata p = Some a \<and> svc_heap (sc_svc s1) a = Some op \<and> op_cb_data op = Some (sc_next s) \<and>
    op_interval op = 0 \<and> op_callback (op_opaque op) = Some fn_action_cb \<and>
    fst (puppet_source env uri data s) = Inr (filename, domain) \<and>
    sc_actions s1 = (sc_actions s)(sc_next s \<mapsto> \<lparr>ad_key = key, ad_filename = (if filename \<noteq> [] then Some filename else None),
      ad_result_cb = cb, ad_cb_data = d\<rparr>))"
proof -
  obtain use_apply where pc: "check_puppet env False = (0, use_apply)"
    using run by (auto simp: run_puppet_def split: prod.splits if_splits)
  obtain r s0 where src: "puppet_source env uri data s = (r, s0)" by fastforce
  have "\<exists>x. r = Inr x"
  proof (rule ccontr)
    assume "\<nexists>x. r = Inr x"
    then obtain res where r: "r = Inl res" by (cases r) auto
    then have "res = MH_RES_SUCCESS" using run by (simp add: run_puppet_def pc src)
    then show False using src r
      by (auto simp: puppet_source_def fetch_uri_def Let_def split: option.splits if_splits prod.splits sum.splits)
  qed
  then obtain filename domain where r: "r = Inr (filename, domain)" by auto
  note fr = puppet_source_frame [OF src]
  define args where "args = puppet_args use_apply oneoff filename domain"
  obtain a v1 where cr: "mh_services_action_create_generic ''puppet'' args (sc_svc s0) = (a, v1)" by fastforce
  from create_generic_load [OF cr] obtain op where a: "a = svc_next (sc_svc s0)" and ld: "load (Some a) v1 = Inr op"
    and int: "op_interval op = 0"
    and v1: "v1 = (sc_svc s0)\<lparr>svc_heap := (svc_heap (sc_svc s0))(a \<mapsto> op), svc_next := Suc (svc_next (sc_svc s0))\<rparr>"
    by blast
  define op0 where "op0 = op\<lparr>op_cb_data := Some (sc_next s0), op_id := Some ''puppet''\<rparr>"
  define f where "f = (if filename \<noteq> [] then Some filename else None)"
  define ad where "ad = \<lparr>ad_key = key, ad_filename = f, ad_result_cb = cb, ad_cb_data = d\<rparr>"
  define s2 where "s2 = s0\<lparr>sc_svc := store a op0 v1, sc_actions := (sc_actions s0)(sc_next s0 \<mapsto> ad), sc_next := Suc (sc_next s0)\<rparr>"
  obtain written where tx: "args_text 0 0 args = Some written"
    using run by (auto simp: run_puppet_def pc src r cr ld args_def [symmetric] Let_def split: option.splits)
  obtain ok v3 where asy: "services_action_async (services_os_action_execute (se_exec env)) (Some a) (Some fn_action_cb)
      (store a op0 v1) = Inr (ok, v3)"
    using run by (auto simp: run_puppet_def pc src r cr ld args_def [symmetric] op0_def Let_def split: option.splits sum.splits)
  have ok: "ok" "s1 = s2\<lparr>sc_svc := v3\<rparr>"
    using run asy tx
    by (auto simp: run_puppet_def pc src r cr ld args_def [symmetric] op0_def [symmetric] s2_def ad_def f_def Let_def
        split: option.splits sum.splits if_splits)
  have v2: "store a op0 v1 = (sc_svc s0)\<lparr>svc_heap := (svc_heap (sc_svc s0))(svc_next (sc_svc s0) \<mapsto> op0),
      svc_next := Suc (svc_next (sc_svc s0))\<rparr>"
    by (simp add: v1 store_def a)
  have "svc_inv v3 \<and> (\<exists>p op'. tracked v3 (ee_fork (se_exec env)) = Some p \<and> ch_privatedata p = Some a \<and>
    svc_heap v3 a = Some op' \<and> op_cb_data op' = op_cb_data op0 \<and> op_interval op' = op_interval op0 \<and>
    op_callback (op_opaque op') = Some fn_action_cb)"
    unfolding a using asy ok(1) inv fk fr
    by (intro start_new_action [where op = op0 and v = "sc_svc s0", OF _ _ _ v2]) (simp_all add: op0_def a)
  then show ?thesis using fr int ok src r by (auto simp: s2_def ad_def op0_def f_def)
qed

lemma run_uri_puppet:
  assumes "is_cstr key" "sane_key key"
    and "fst (mh_sysconfig_is_configured (se_files env) (Some key) s) = None \<or> flags AND 1 \<noteq> 0"
    and "strcasecmp scheme ''puppet''"
  shows "mh_sysconfig_run_uri env call uri flags scheme (Some key) cb d s =
    run_puppet env (Some uri) True None key cb d (s\<lparr>keys_dir := dir_of s\<rparr>)"
proof -
  obtain c where conf: "mh_sysconfig_is_configured (se_files env) (Some key) s = (c, s\<lparr>keys_dir := dir_of s\<rparr>)"
    using assms(1,2) check_key_sanity_iff [of key] by (auto simp: mh_sysconfig_is_configured_def get_key_eq)
  have "\<not> (c \<noteq> None \<and> flags AND 1 = 0)" using assms(3) conf by auto
  then show ?thesis using assms(1,2,4) check_key_sanity_iff [of key]
    by (auto simp: mh_sysconfig_run_uri_def sysconfig_os_run_uri_def conf MH_SYSCONFIG_FLAG_FORCE_def)
qed

text \<open>For a request that names a Puppet master, \<open>mh_sysconfig_run_uri\<close> writes behind its array of 128
  characters exactly when the name of the master has more than 113 characters: the space left is
  computed in unsigned arithmetic from the lengths the texts would have had.\<close>

theorem puppet_master_overrun:
  assumes "is_cstr key" "sane_key key"
    and "fst (mh_sysconfig_is_configured (se_files env) (Some key) s) = None \<or> flags AND 1 \<noteq> 0"
    and "fst (check_puppet env False) = 0" "strcasecmp scheme ''puppet''"
    and "domain \<noteq> []" "CHR ''/'' \<notin> set domain" "length domain < 2 ^ 32"
  shows "mh_sysconfig_run_uri env call (''puppet://'' @ domain) flags scheme (Some key) cb d s = Inl Buf_overrun
    \<longleftrightarrow> 113 < length domain"
proof -
  obtain ua where pc: "check_puppet env False = (0, ua)" using assms(4) by (metis prod.collapse)
  obtain s0 where "mh_sysconfig_run_uri env call (''puppet://'' @ domain) flags scheme (Some key) cb d s =
      run_puppet env (Some (''puppet://'' @ domain)) True None key cb d s0"
    using run_uri_puppet [OF assms(1,2,3,5)] by blast
  moreover have "run_puppet env (Some (''puppet://'' @ domain)) True None key cb d s0 = Inl Buf_overrun
      \<longleftrightarrow> args_text 0 0 [''agent'', ''--server'', domain, ''--test''] = None"
  proof -
    define args where "args = [''agent'', ''--server'', domain, ''--test'']"
    have pa: "puppet_args ua True [] domain = args" by (simp add: puppet_args_def args_def)
    obtain a v1 where cr: "mh_services_action_create_generic ''puppet'' args (sc_svc s0) = (a, v1)" by fastforce
    from create_generic_load [OF cr] obtain op where ld: "load (Some a) v1 = Inr op" by blast
    define u where "u = ''puppet://'' @ domain"
    have ps: "puppet_source env (Some u) None s0 = (Inr ([], domain), s0)"
      unfolding u_def by (rule puppet_source_master [OF assms(6,7)])
    show ?thesis unfolding args_def [symmetric] u_def [symmetric]
      by (simp add: run_puppet_def pc ps pa cr ld Let_def
          split: option.splits sum.splits)
  qed
  ultimately show ?thesis using args_text_agent [OF assms(8)] by simp
qed

text \<open>C27: A Puppet run that was started, with a child that \<^verbatim>\<open>fork\<close> made new, reports its end: when its child exits, the
  action's callback \<open>action_cb\<close> is called once; it stores the result under the key of the run (and if that write
  succeeds, asking for the key gives this result), calls the result callback of the request with the exit code
  on the state after that, removes the very file that the configuration was downloaded or written to (there
  is none if it came from a Puppet master), and releases the data of the run.\<close>

theorem puppet_run_recorded:
  assumes run: "run_puppet env uri oneoff data key cb d s = Inr (MH_RES_SUCCESS, s1)"
    and inv: "svc_inv (sc_svc s)" and fk: "fork_ok (se_exec env) (sc_svc s)"
    and laws: "file_laws (se_files env)" and exit: "exit_of status = (0, code)"
  shows "\<exists>p v op' filename domain t.
    tracked (sc_svc s1) (ee_fork (se_exec env)) = Some p \<and>
    v = handle_child (operation_finished_cb new_id) (ee_fork (se_exec env)) status p (sc_svc s1) \<and>
    svc_called v = svc_called (sc_svc s1) @ [(fn_action_cb, op')] \<and>
    fst (puppet_source env uri data s) = Inr (filename, domain) \<and>
    action_cb env call op' (s1\<lparr>sc_svc := v\<rparr>) = Inr (op'\<lparr>op_cb_data := None\<rparr>,
      let t' = (if filename = [] then call cb d code t else unlink_file env filename (call cb d code t))
      in t'\<lparr>sc_actions := (sc_actions t')(sc_next s := None)\<rparr>) \<and>
    (let result = (if code = 0 then ''OK'' else ''FAILED'' @ [CHR 0x0A] @ show_int code)
     in t = snd (mh_sysconfig_set_configured (se_files env) (Some key) result (s1\<lparr>sc_svc := v\<rparr>)) \<and>
        (fst (mh_sysconfig_set_configured (se_files env) (Some key) result (s1\<lparr>sc_svc := v\<rparr>)) = MH_RES_SUCCESS \<longrightarrow>
         fst (mh_sysconfig_is_configured (se_files env) (Some key) t) = Some result))"
proof -
  from puppet_started [OF run inv fk] obtain p a op filename domain where inv1: "svc_inv (sc_svc s1)"
    and p: "tracked (sc_svc s1) (ee_fork (se_exec env)) = Some p" "ch_privatedata p = Some a"
    and op: "svc_heap (sc_svc s1) a = Some op" "op_cb_data op = Some (sc_next s)" "op_callback (op_opaque op) = Some fn_action_cb"
    and src: "fst (puppet_source env uri data s) = Inr (filename, domain)"
    and ad: "sc_actions s1 (sc_next s) = Some \<lparr>ad_key = key, ad_filename = (if filename \<noteq> [] then Some filename else None),
      ad_result_cb = cb, ad_cb_data = d\<rparr>"
    by auto
  define v where "v = handle_child (operation_finished_cb new_id) (ee_fork (se_exec env)) status p (sc_svc s1)"
  from handle_child_effect [OF inv1 p(1), of new_id status] p(2) op
  obtain i op' where op': "op' = completed (p\<lparr>ch_timerid := 0\<rparr>) status i op"
    and called: "svc_called v = svc_called (sc_svc s1) @ [(fn_action_cb, op')]"
    unfolding v_def by auto
  have rc: "op_rc op' = code" "op_cb_data op' = Some (sc_next s)"
    using op(2) by (simp_all add: op' completed_def exit finished_action_def Let_def)
  define result where "result = (if code = 0 then ''OK'' else ''FAILED'' @ [CHR 0x0A] @ show_int code)"
  have range: "0 \<le> code" "code < 1000"
    using exit WEXITSTATUS_range [of status] by (auto simp: exit_of_def split: if_splits)
  then have "length (show_int code) \<le> 3" using length_show_nat [of "nat code" 3] by (simp add: show_int_def)
  then have cut: "(if code \<noteq> 0 then snprintf 32 (''FAILED'' @ [CHR 0x0A] @ show_int code) else ''OK'') = result"
    by (simp add: result_def)
  define t where "t = snd (mh_sysconfig_set_configured (se_files env) (Some key) result (s1\<lparr>sc_svc := v\<rparr>))"
  have "action_cb env call op' (s1\<lparr>sc_svc := v\<rparr>) = Inr (op'\<lparr>op_cb_data := None\<rparr>,
      let t' = (if filename = [] then call cb d code t else unlink_file env filename (call cb d code t))
      in t'\<lparr>sc_actions := (sc_actions t')(sc_next s := None)\<rparr>)"
    unfolding t_def action_cb_def rc by (simp only: cut bind.simps) (simp add: ad Let_def)
  moreover have "fst (mh_sysconfig_is_configured (se_files env) (Some key) t) = Some result"
    if "fst (mh_sysconfig_set_configured (se_files env) (Some key) result (s1\<lparr>sc_svc := v\<rparr>)) = MH_RES_SUCCESS"
    unfolding t_def by (rule keys.put_get [OF laws that])
  ultimately show ?thesis
    using p(1) called src t_def unfolding v_def result_def Let_def by blast
qed

section \<open>Instances\<close>

definition sy_demo :: "store sys_env" where
  "sy_demo = \<lparr>se_files = store_ops, se_curl_global = True, se_curl_easy = True, se_setopt_url = True,
     se_setopt_writedata = True, se_perform = (\<lambda>uri fp w. (True, w(fp \<mapsto> ''x''))), se_response = (\<lambda>uri. 200),
     se_puppet_version = Inr ''2.7'', se_uninit = 0, se_mkstemp = (\<lambda>t w. (Some ''t'', w(''t'' \<mapsto> []))),
     se_fdopen = (\<lambda>f. True), se_random = 7, se_exec = demo_env (\<lambda>k. (0, 0)), se_augeas = None\<rparr>"

lemma demo_check_puppet: "check_puppet sy_demo False = (0, True)"
proof -
  have "scan_unsigned ''2'' = Some 2" by (simp add: scan_unsigned_def is_space_def is_digit_def digits_val_def digit_val_def strtoul_def)
  then show ?thesis by (simp add: check_puppet_def sy_demo_def strchr_def strchrnul_def)
qed

lemma demo_not_configured: "fst (mh_sysconfig_is_configured (se_files sy_demo) (Some ''a'') sc_demo) = None"
  using check_key_sanity_iff [of "''a''"] demo_key_fits(1)
  by (simp add: mh_sysconfig_is_configured_def get_key_eq key_fits_def sy_demo_def file_simps)

theorem configured_not_run_again_witness:
  "mh_sysconfig_run_string sy_demo (\<lambda>f d rc s. s\<lparr>sc_next := d\<rparr>) ''x'' 2 ''puppet'' (Some ''a'') 3 9
     (sc_demo\<lparr>sc_files := [''/k/a'' \<mapsto> ''OK'']\<rparr>) =
   Inr (MH_RES_SUCCESS, sc_demo\<lparr>sc_files := [''/k/a'' \<mapsto> ''OK''], sc_next := 9\<rparr>)"
proof -
  let ?s = "sc_demo\<lparr>sc_files := [''/k/a'' \<mapsto> ''OK'']\<rparr>"
  have dir: "dir_of ?s = ''/k/''" by simp
  have fits: "key_fits ''a'' ?s" using demo_key_fits(1) by (simp add: key_fits_def)
  have "fst (mh_sysconfig_is_configured (se_files sy_demo) (Some ''a'') ?s) \<noteq> None"
    using check_key_sanity_iff [of "''a''"] fits key_path_fits [OF fits]
    by (simp add: mh_sysconfig_is_configured_def get_key_eq key_fits_def sy_demo_def file_simps)
  from configured_not_run_again [OF _ this, of 2] fits show ?thesis
    by (simp add: key_fits_def sc_demo_def dir_of_eq)
qed

theorem puppet_master_overrun_witness:
  "mh_sysconfig_run_uri sy_demo (\<lambda>f d rc s. s) (''puppet://'' @ replicate 114 (CHR ''x'')) 0 ''puppet'' (Some ''a'') 3 9 sc_demo
     = Inl Buf_overrun"
  using demo_key_fits(1) demo_not_configured
  by (subst puppet_master_overrun) (simp_all only: key_fits_def demo_check_puppet, simp_all)

lemma demo_run_puppet:
  "\<exists>s1. run_puppet sy_demo None False (Some ''y'') ''a'' 3 9 sc_demo = Inr (MH_RES_SUCCESS, s1)"
proof -
  define fn where "fn = ''puppet_conf_'' @ show_nat 7"
  define args where "args = puppet_args True False fn []"
  define s0 where "s0 = sc_demo\<lparr>sc_files := [fn \<mapsto> ''y'']\<rparr>"
  have src: "puppet_source sy_demo None (Some ''y'') sc_demo = (Inr (fn, []), s0)"
    by (simp add: puppet_source_def sy_demo_def file_simps fn_def s0_def Let_def)
  have "fn \<noteq> []" by (simp add: fn_def)
  then have "args = [''apply'', fn]" by (simp add: args_def puppet_args_def)
  then have tx: "args_text 0 0 args = Some (6 + length fn)" by (simp add: args_text_inside)
  obtain a v1 where cr: "mh_services_action_create_generic ''puppet'' args (sc_svc s0) = (a, v1)" by fastforce
  from create_generic_load [OF cr] obtain op where ld: "load (Some a) v1 = Inr op" and int: "op_interval op = 0" by blast
  define op0 where "op0 = op\<lparr>op_cb_data := Some (sc_next s0), op_id := Some ''puppet''\<rparr>"
  have h: "svc_heap (store a op0 v1) a = Some op0" "op_id op0 = Some ''puppet''" by (simp_all add: op0_def)
  obtain op1 where h1: "svc_heap (async_setup a (Some fn_action_cb) op0 (store a op0 v1)) a = Some op1" "op_id op1 = Some ''puppet''"
    using async_setup_heap [of a "Some fn_action_cb" op0 "store a op0 v1"] h by auto
  obtain v3 where ex: "services_os_action_execute (se_exec sy_demo) a False
      (async_setup a (Some fn_action_cb) op0 (store a op0 v1)) = Inr (True, v3)"
    using execute_async_ok [OF h1(1), of "se_exec sy_demo"] h1(2) by (auto simp: sy_demo_def demo_env_def)
  then have "services_action_async (services_os_action_execute (se_exec sy_demo)) (Some a) (Some fn_action_cb)
      (store a op0 v1) = Inr (True, v3)"
    using services_action_async_eq [OF h] by simp
  then show ?thesis
    by (simp add: run_puppet_def demo_check_puppet src args_def [symmetric] cr ld tx op0_def Let_def)
qed

theorem puppet_run_recorded_witness:
  "\<exists>s1 p v op'. run_puppet sy_demo None False (Some ''y'') ''a'' 3 9 sc_demo = Inr (MH_RES_SUCCESS, s1) \<and>
    v = handle_child (operation_finished_cb least_id) 42 512 p (sc_svc s1) \<and>
    svc_called v = svc_called (sc_svc s1) @ [(fn_action_cb, op')]"
proof -
  obtain s1 where r: "run_puppet sy_demo None False (Some ''y'') ''a'' 3 9 sc_demo = Inr (MH_RES_SUCCESS, s1)"
    using demo_run_puppet by blast
  have inv: "svc_inv (sc_svc sc_demo)" using inv_init by (simp add: sc_demo_def)
  have fk: "fork_ok (se_exec sy_demo) (sc_svc sc_demo)"
    by (simp add: fork_ok_def sy_demo_def demo_env_def sc_demo_def svc_init_def tracked_def)
  have laws: "file_laws (se_files sy_demo)" using store_ops_laws by (simp add: sy_demo_def)
  have ex: "exit_of 512 = (0, 2)" using wait_status_exit [of 2] by (simp add: exit_of_def)
  have "ee_fork (se_exec sy_demo) = 42" by (simp add: sy_demo_def demo_env_def)
  with puppet_run_recorded [OF r inv fk laws ex, of least_id "\<lambda>f d rc s. s"] r show ?thesis by auto
qed

end
