(* ===== verification/Sysconfig_Agent.thy ===== *)
theory Sysconfig_Agent
  imports Sysconfig_Linux
begin

text \<open>
  \<^verbatim>\<open>src/src/sysconfig/sysconfig-dbus.c\<close>: the D-Bus agent for configuration runs. A request to run a
  configuration is answered either at once with an error or later by \<open>result_cb\<close>, which is given an
  object with the context of the request and its key. The live objects are in \<open>ag_async\<close>, the answers
  that \<open>result_cb\<close> sent in \<open>ag_replies\<close>; \<open>ag_fault\<close> says that it was given an object that was released.
\<close>

section \<open>State and callback\<close>

record AsyncCBData =
  cb_context :: cptr
  cb_key :: string

record 'w sysagent = "'w sysconf" +
  ag_async :: "nat \<rightharpoonup> AsyncCBData"
  ag_next :: nat
  ag_replies :: "(cptr \<times> gvalue) list"
  ag_fault :: bool

definition result_cb :: "'w sys_env \<Rightarrow> nat \<Rightarrow> int \<Rightarrow> 'w sysagent \<Rightarrow> 'w sysagent" where
  "result_cb env data result s =
     (case ag_async s data of
        None \<Rightarrow> s\<lparr>ag_fault := True\<rparr>
      | Some asynccb \<Rightarrow>
          (case mh_sysconfig_is_configured (se_files env) (Some (cb_key asynccb)) s of (status, s1) \<Rightarrow>
             s1\<lparr>ag_replies := ag_replies s1 @ [(cb_context asynccb, GString status)],
                ag_async := (ag_async s1)(data := None)\<rparr>))"

definition fn_result_cb :: nat where "fn_result_cb = 1"

text \<open>The only result callback that the agent passes on.\<close>

definition call_result :: "'w sys_env \<Rightarrow> nat \<Rightarrow> nat \<Rightarrow> int \<Rightarrow> 'w sysagent \<Rightarrow> 'w sysagent" where
  "call_result env f data result s = (if f = fn_result_cb then result_cb env data result s else s)"

section \<open>Methods\<close>

definition SYSCONFIG_BUS_NAME :: string where "SYSCONFIG_BUS_NAME = ''org.matahariproject.Sysconfig''"

text \<open>The part that \<open>Sysconfig_run_uri\<close> and \<open>Sysconfig_run_string\<close> have in common: the object for the
  callback, the run and its error path. \<open>run\<close> is the library call with the callback data.\<close>

definition start_run ::
  "(nat \<Rightarrow> 'w sysagent \<Rightarrow> sys_failure + mh_result \<times> 'w sysagent) \<Rightarrow> string \<Rightarrow> cptr \<Rightarrow> 'w sysagent handler" where
  "start_run run key context s =
     (let d = ag_next s;
          s1 = s\<lparr>ag_async := (ag_async s)(d \<mapsto> \<lparr>cb_context = context, cb_key = key\<rparr>), ag_next := Suc d\<rparr>
      in case run d s1 of
           Inl e \<Rightarrow> None
         | Inr (res, s2) \<Rightarrow>
             if res \<noteq> MH_RES_SUCCESS
             then Some ((Failed (Some (matahari_error res)), False), s2\<lparr>ag_async := (ag_async s2)(d := None)\<rparr>)
             else Some ((Pending, True), s2))"

definition Sysconfig_run_uri ::
  "'w sys_env \<Rightarrow> polkit \<Rightarrow> string \<Rightarrow> u32 \<Rightarrow> string \<Rightarrow> string \<Rightarrow> cptr \<Rightarrow> 'w sysagent handler" where
  "Sysconfig_run_uri env pk uri flags scheme key context =
     guarded pk (SYSCONFIG_BUS_NAME @ ''.run_uri'') context
       (start_run (mh_sysconfig_run_uri env (call_result env) uri flags scheme (Some key) fn_result_cb) key context)"

definition Sysconfig_run_string ::
  "'w sys_env \<Rightarrow> polkit \<Rightarrow> string \<Rightarrow> u32 \<Rightarrow> string \<Rightarrow> string \<Rightarrow> cptr \<Rightarrow> 'w sysagent handler" where
  "Sysconfig_run_string env pk txt flags scheme key context =
     guarded pk (SYSCONFIG_BUS_NAME @ ''.run_string'') context
       (start_run (mh_sysconfig_run_string env (call_result env) txt flags scheme (Some key) fn_result_cb) key context)"

definition or_unknown :: "cptr \<Rightarrow> gvalue" where
  "or_unknown status = GString (if status \<noteq> None then status else Some ''unknown'')"

definition Sysconfig_query ::
  "'w sys_env \<Rightarrow> polkit \<Rightarrow> string \<Rightarrow> u32 \<Rightarrow> string \<Rightarrow> cptr \<Rightarrow> 'w sysagent handler" where
  "Sysconfig_query env pk txt flags scheme context =
     guarded pk (SYSCONFIG_BUS_NAME @ ''.query'') context
       (\<lambda>s. case mh_sysconfig_query env txt flags scheme of
              Inl e \<Rightarrow> None
            | Inr status \<Rightarrow> Some ((Returned [or_unknown status], True), s))"

definition Sysconfig_is_configured ::
  "'w sys_env \<Rightarrow> polkit \<Rightarrow> string \<Rightarrow> cptr \<Rightarrow> 'w sysagent handler" where
  "Sysconfig_is_configured env pk key context =
     guarded pk (SYSCONFIG_BUS_NAME @ ''.is_configured'') context
       (\<lambda>s. case mh_sysconfig_is_configured (se_files env) (Some key) s of (status, s1) \<Rightarrow>
              Some ((Returned [or_unknown status], True), s1))"

datatype sysconfig_request =
    Sys_run_uri string u32 string string
  | Sys_run_string string u32 string string
  | Sys_query string u32 string
  | Sys_is_configured string

fun sysconfig_action :: "sysconfig_request \<Rightarrow> string" where
  "sysconfig_action (Sys_run_uri _ _ _ _) = SYSCONFIG_BUS_NAME @ ''.run_uri''"
| "sysconfig_action (Sys_run_string _ _ _ _) = SYSCONFIG_BUS_NAME @ ''.run_string''"
| "sysconfig_action (Sys_query _ _ _) = SYSCONFIG_BUS_NAME @ ''.query''"
| "sysconfig_action (Sys_is_configured _) = SYSCONFIG_BUS_NAME @ ''.is_configured''"

fun sysconfig_handle :: "'w sys_env \<Rightarrow> polkit \<Rightarrow> cptr \<Rightarrow> sysconfig_request \<Rightarrow> 'w sysagent handler" where
  "sysconfig_handle env pk ctx (Sys_run_uri uri flags scheme key) = Sysconfig_run_uri env pk uri flags scheme key ctx"
| "sysconfig_handle env pk ctx (Sys_run_string t flags scheme key) = Sysconfig_run_string env pk t flags scheme key ctx"
| "sysconfig_handle env pk ctx (Sys_query t flags scheme) = Sysconfig_query env pk t flags scheme ctx"
| "sysconfig_handle env pk ctx (Sys_is_configured key) = Sysconfig_is_configured env pk key ctx"

interpretation sysconfig_agent: dbus_agent "sysconfig_handle env" sysconfig_action for env :: "'w sys_env"
proof (unfold_locales, goal_cases)
  case (1 pk r ctx s)
  then show ?case
    by (cases r) (simp_all add: Sysconfig_run_uri_def Sysconfig_run_string_def Sysconfig_query_def
        Sysconfig_is_configured_def guarded_denied)
qed

text \<open>Reading the properties of the object; \<open>None\<close> leaves the value as it is.\<close>

datatype sysconfig_prop =
  SYS_PROP_0 | SYSCONFIG_UUID | SYSCONFIG_HOSTNAME | SYSCONFIG_IS_POSTBOOT_CONFIGURED | SYS_QMF_GEN_NO_CRASH

definition sysconfig_get_property ::
  "'w file_ops \<Rightarrow> 'w \<Rightarrow> sigar_net_info \<Rightarrow> sysconfig_prop \<Rightarrow> util_state \<Rightarrow> gvalue option \<times> util_state" where
  "sysconfig_get_property fo w netinfo p s =
     (case p of
        SYS_PROP_0 \<Rightarrow> (None, s)
      | SYSCONFIG_UUID \<Rightarrow> (case mh_uuid fo w s of (u, s') \<Rightarrow> (Some (GString (Some u)), s'))
      | SYSCONFIG_HOSTNAME \<Rightarrow> (case mh_hostname fo w netinfo s of (h, s') \<Rightarrow> (Some (GString (Some h)), s'))
      | SYSCONFIG_IS_POSTBOOT_CONFIGURED \<Rightarrow> (None, s)
      | SYS_QMF_GEN_NO_CRASH \<Rightarrow> (None, s))"

section \<open>What the library leaves alone\<close>

text \<open>The fields of the agent are behind those of the library: only the result callback changes them.\<close>

lemma more_cong:
  assumes "sysconf.more s' = sysconf.more s"
  shows "ag_async s' = ag_async s" "ag_next s' = ag_next s" "ag_replies s' = ag_replies s" "ag_fault s' = ag_fault s"
  using assms by (cases s; cases s'; simp)+

lemma get_key_more [simp]: "sysconf.more (snd (mh_sysconfig_is_configured fo key s)) = sysconf.more s"
  by (cases key) (simp_all add: mh_sysconfig_is_configured_def get_key_eq, simp add: get_key_def check_key_sanity_def mh_strlen_zero_def)

lemma set_key_more [simp]: "sysconf.more (snd (mh_sysconfig_set_configured fo (Some key) c s)) = sysconf.more s"
  by (simp add: mh_sysconfig_set_configured_def set_key_eq split: prod.splits)

lemma unlink_file_more [simp]: "sysconf.more (unlink_file env p s) = sysconf.more s"
  by (simp add: unlink_file_def)

lemma download_more: "sysconfig_os_download env uri fp s = (res, s') \<Longrightarrow> sysconf.more s' = sysconf.more s"
  by (auto simp: sysconfig_os_download_def Let_def split: prod.splits if_splits)

lemma fetch_uri_more: "fetch_uri env template uri s = (r, s') \<Longrightarrow> sysconf.more s' = sysconf.more s"
  by (auto simp: fetch_uri_def Let_def dest!: download_more split: prod.splits if_splits option.splits)

lemma puppet_source_more: "puppet_source env uri data s = (r, s') \<Longrightarrow> sysconf.more s' = sysconf.more s"
  by (auto simp: puppet_source_def Let_def dest!: fetch_uri_more split: prod.splits if_splits option.splits sum.splits)

lemma run_puppet_more: "run_puppet env uri oneoff data key cb d s = Inr (res, s') \<Longrightarrow> sysconf.more s' = sysconf.more s"
  by (auto simp: run_puppet_def Let_def dest!: puppet_source_more split: prod.splits if_splits option.splits sum.splits)

lemma augeas_text_more: "augeas_text env uri data s = (r, s') \<Longrightarrow> sysconf.more s' = sysconf.more s"
  by (auto simp: augeas_text_def dest!: fetch_uri_more split: prod.splits option.splits sum.splits)

text \<open>A run of Augeas that does not succeed calls nothing; one that succeeds calls the result callback
  once.\<close>

lemma run_augeas_calls:
  assumes "run_augeas env call uri data key cb d s = (res, s')"
  shows "if res = MH_RES_SUCCESS
    then \<exists>t. sysconf.more t = sysconf.more s \<and> sysconf.more s' = sysconf.more (call cb d 0 t)
    else sysconf.more s' = sysconf.more s"
proof (cases "se_augeas env")
  case None
  with assms show ?thesis by (auto simp: run_augeas_def)
next
  case (Some aug)
  obtain r s1 where r: "augeas_text env uri data s = (r, s1)" by fastforce
  note m1 = augeas_text_more [OF r]
  show ?thesis
  proof (cases r)
    case (Inl res1)
    moreover have "res1 \<noteq> MH_RES_SUCCESS"
      using r Inl by (auto simp: augeas_text_def fetch_uri_def Let_def split: option.splits if_splits prod.splits sum.splits)
    ultimately show ?thesis using assms Some r m1 by (auto simp: run_augeas_def)
  next
    case (Inr body)
    obtain name w where mk: "se_mkstemp env ''augeas_conf_XXXXXX'' (sc_files s1) = (name, w)" by fastforce
    show ?thesis
    proof (cases "name = None \<or> \<not> se_fdopen env (the name) \<or> \<not> aug_init aug")
      case True
      then show ?thesis using assms Some r Inr mk m1 by (cases name) (auto simp: run_augeas_def Let_def split: if_splits)
    next
      case False
      then obtain filename where fn: "name = Some filename" by auto
      obtain result w3 where ar: "aug_srun aug (cstr_of body) filename w = (result, w3)" by fastforce
      show ?thesis
      proof (cases "file_get (se_files env) w3 filename")
        case (Inl e)
        then show ?thesis using assms Some r \<open>r = Inr body\<close> mk fn ar False m1 by (auto simp: run_augeas_def Let_def)
      next
        case (Inr contents)
        define t where "t = snd (mh_sysconfig_set_configured (se_files env) (Some key)
          (if result < 0 then ''FAILED'' @ [CHR 0x0A] @ show_int result @ [CHR 0x0A] @ cstr_of contents
           else ''OK'' @ [CHR 0x0A] @ cstr_of contents) (s1\<lparr>sc_files := w3\<rparr>))"
        have "sysconf.more t = sysconf.more s" using m1 by (simp add: t_def)
        moreover have "res = MH_RES_SUCCESS" "s' = unlink_file env filename (call cb d 0 t)"
          using assms Some r \<open>r = Inr body\<close> mk fn ar False Inr unfolding t_def
          by (simp_all add: run_augeas_def Let_def)
        ultimately show ?thesis by auto
      qed
    qed
  qed
qed

text \<open>The three outcomes of a request to run a configuration, as far as the callback is concerned.\<close>

definition run_outcome ::
  "(nat \<Rightarrow> nat \<Rightarrow> int \<Rightarrow> ('w, 'z) sysconf_scheme \<Rightarrow> ('w, 'z) sysconf_scheme) \<Rightarrow> nat \<Rightarrow> nat \<Rightarrow> mh_result
   \<Rightarrow> ('w, 'z) sysconf_scheme \<Rightarrow> ('w, 'z) sysconf_scheme \<Rightarrow> bool" where
  "run_outcome call cb d res s s' \<longleftrightarrow>
     (if res = MH_RES_SUCCESS
      then (\<exists>t. sysconf.more t = sysconf.more s \<and> sysconf.more s' = sysconf.more (call cb d 0 t)) \<or>
           sysconf.more s' = sysconf.more s \<and>
           (\<exists>i ad. sc_actions s' i = Some ad \<and> ad_result_cb ad = cb \<and> ad_cb_data ad = d)
      else sysconf.more s' = sysconf.more s)"

lemma run_puppet_outcome:
  assumes "run_puppet env uri oneoff data key cb d s = Inr (res, s')"
  shows "run_outcome call cb d res s s'"
proof (cases "res = MH_RES_SUCCESS")
  case True
  have "\<exists>i ad. sc_actions s' i = Some ad \<and> ad_result_cb ad = cb \<and> ad_cb_data ad = d"
    using assms True
    by (auto simp: run_puppet_def puppet_source_def fetch_uri_def Let_def
        split: prod.splits if_splits option.splits sum.splits)
  then show ?thesis using run_puppet_more [OF assms] True by (auto simp: run_outcome_def)
qed (use run_puppet_more [OF assms] in \<open>simp add: run_outcome_def\<close>)

lemma run_outcome_start:
  assumes "sysconf.more s1 = sysconf.more s" "run_outcome call cb d res s1 s'"
  shows "run_outcome call cb d res s s'"
  using assms(2) unfolding run_outcome_def assms(1) .

lemma run_outcome_called: "sysconf.more t = sysconf.more s \<Longrightarrow> run_outcome call cb d MH_RES_SUCCESS s (call cb d 0 t)"
  by (auto simp: run_outcome_def)

lemma run_outcome_error: "sysconf.more s' = sysconf.more s \<Longrightarrow> res \<noteq> MH_RES_SUCCESS \<Longrightarrow> run_outcome call cb d res s s'"
  by (simp add: run_outcome_def)

lemma run_augeas_outcome:
  "run_augeas env call uri data key cb d s = (res, s') \<Longrightarrow> run_outcome call cb d res s s'"
  by (drule run_augeas_calls) (auto simp: run_outcome_def split: if_splits)

lemmas run_outcomes = run_outcome_called run_outcome_error run_puppet_outcome run_augeas_outcome

lemma is_configured_more:
  "mh_sysconfig_is_configured fo key s = (status, s1) \<Longrightarrow> sysconf.more s1 = sysconf.more s"
  using get_key_more [of fo key s] by simp

lemma run_uri_outcome:
  assumes "mh_sysconfig_run_uri env call uri flags scheme (Some key) cb d s = Inr (res, s')"
  shows "run_outcome call cb d res s s'"
proof (cases "check_key_sanity (Some key) = 0")
  case True
  obtain status s1 where g: "mh_sysconfig_is_configured (se_files env) (Some key) s = (status, s1)" by fastforce
  have "run_outcome call cb d res s1 s'"
    using assms True by (auto simp: mh_sysconfig_run_uri_def sysconfig_os_run_uri_def g intro: run_outcomes split: if_splits)
  then show ?thesis by (rule run_outcome_start [OF is_configured_more [OF g]])
qed (use assms in \<open>simp add: mh_sysconfig_run_uri_def run_outcome_def\<close>)

lemma run_string_outcome:
  assumes "mh_sysconfig_run_string env call txt flags scheme (Some key) cb d s = Inr (res, s')"
  shows "run_outcome call cb d res s s'"
proof (cases "check_key_sanity (Some key) = 0")
  case True
  obtain status s1 where g: "mh_sysconfig_is_configured (se_files env) (Some key) s = (status, s1)" by fastforce
  have "run_outcome call cb d res s1 s'"
    using assms True by (auto simp: mh_sysconfig_run_string_def sysconfig_os_run_string_def g intro: run_outcomes split: if_splits)
  then show ?thesis by (rule run_outcome_start [OF is_configured_more [OF g]])
qed (use assms in \<open>simp add: mh_sysconfig_run_string_def run_outcome_def\<close>)

lemma result_cb_more:
  assumes "ag_async t d = Some a"
  shows "\<exists>v. ag_replies (result_cb env d rc t) = ag_replies t @ [(cb_context a, v)]"
    "ag_async (result_cb env d rc t) = (ag_async t)(d := None)" "ag_fault (result_cb env d rc t) = ag_fault t"
  using assms more_cong [OF is_configured_more [of "se_files env" "Some (cb_key a)" t]]
  by (auto simp: result_cb_def split: prod.splits)

section \<open>Properties\<close>

definition answer_due :: "'w sysagent \<Rightarrow> nat \<Rightarrow> cptr \<Rightarrow> string \<Rightarrow> bool" where
  "answer_due s d ctx key \<longleftrightarrow>
     ag_async s d = Some \<lparr>cb_context = ctx, cb_key = key\<rparr> \<and>
     (\<exists>i ad. sc_actions s i = Some ad \<and> ad_result_cb ad = fn_result_cb \<and> ad_cb_data ad = d)"

lemma start_run_answers:
  assumes out: "\<And>d s res s'. run d s = Inr (res, s') \<Longrightarrow> run_outcome (call_result env) fn_result_cb d res s s'"
    and run: "start_run run key ctx s = Some ((rep, ret), s')" and fresh: "ag_async s (ag_next s) = None"
  shows "ag_fault s' = ag_fault s \<and>
    (case rep of
       Failed e \<Rightarrow> ag_replies s' = ag_replies s \<and> ag_async s' = ag_async s
     | Pending \<Rightarrow>
         (\<exists>v. ag_replies s' = ag_replies s @ [(ctx, v)]) \<and> ag_async s' = ag_async s \<or>
         ag_replies s' = ag_replies s \<and> answer_due s' (ag_next s) ctx key
     | Returned vs \<Rightarrow> False)"
proof -
  define d where "d = ag_next s"
  define a where "a = \<lparr>cb_context = ctx, cb_key = key\<rparr>"
  define s1 where "s1 = s\<lparr>ag_async := (ag_async s)(d \<mapsto> a), ag_next := Suc d\<rparr>"
  have s1: "ag_async s1 = (ag_async s)(d \<mapsto> a)" "ag_replies s1 = ag_replies s" "ag_fault s1 = ag_fault s"
    by (simp_all add: s1_def)
  have undo: "(ag_async s)(d := None) = ag_async s" using fresh by (auto simp: d_def)
  obtain res s2 where r: "run d s1 = Inr (res, s2)"
    using run by (auto simp: start_run_def Let_def d_def [symmetric] a_def [symmetric] s1_def [symmetric] split: sum.splits)
  note o = out [OF r]
  show ?thesis
  proof (cases "res = MH_RES_SUCCESS")
    case False
    have "rep = Failed (Some (matahari_error res))" "s' = s2\<lparr>ag_async := (ag_async s2)(d := None)\<rparr>"
      using run False r
      by (auto simp: start_run_def Let_def d_def [symmetric] a_def [symmetric] s1_def [symmetric])
    moreover have "sysconf.more s2 = sysconf.more s1" using o False by (simp add: run_outcome_def)
    ultimately show ?thesis using more_cong [of s2 s1] s1 undo by simp
  next
    case True
    have rep: "rep = Pending" "s' = s2"
      using run True r
      by (auto simp: start_run_def Let_def d_def [symmetric] a_def [symmetric] s1_def [symmetric])
    from o True consider t where "sysconf.more t = sysconf.more s1" "sysconf.more s2 = sysconf.more (result_cb env d 0 t)"
      | "sysconf.more s2 = sysconf.more s1" "\<exists>i ad. sc_actions s2 i = Some ad \<and> ad_result_cb ad = fn_result_cb \<and> ad_cb_data ad = d"
      by (auto simp: run_outcome_def call_result_def)
    then show ?thesis
    proof cases
      case (1 t)
      have "ag_async t d = Some a" using more_cong(1) [OF 1(1)] s1 by simp
      from result_cb_more [OF this, of env 0] show ?thesis
        using more_cong [OF 1(1)] more_cong [OF 1(2)] s1 undo by (simp add: rep a_def)
    next
      case 2
      then show ?thesis using more_cong [OF 2(1)] s1 by (simp add: rep answer_due_def a_def d_def)
    qed
  qed
qed

text \<open>A request to the configuration agent is never answered twice and never forgotten: if the method
  returns an error, no callback has answered or will answer; otherwise either the callback has
  answered exactly once, or it has not, and a Puppet action that will call it is registered with the
  context of the request. The callback is never given an object that was released.\<close>

theorem sysconfig_request_answered_once:
  assumes "Sysconfig_run_uri env pk uri flags scheme key ctx s = Some ((rep, ret), s') \<or>
      Sysconfig_run_string env pk uri flags scheme key ctx s = Some ((rep, ret), s')"
    and "ag_async s (ag_next s) = None"
  shows "ag_fault s' = ag_fault s \<and>
    (case rep of
       Failed e \<Rightarrow> ag_replies s' = ag_replies s \<and> ag_async s' = ag_async s
     | Pending \<Rightarrow>
         (\<exists>v. ag_replies s' = ag_replies s @ [(ctx, v)]) \<and> ag_async s' = ag_async s \<or>
         ag_replies s' = ag_replies s \<and> answer_due s' (ag_next s) ctx key
     | Returned vs \<Rightarrow> False)"
  using assms(1)
proof
  assume "Sysconfig_run_uri env pk uri flags scheme key ctx s = Some ((rep, ret), s')"
  then show ?thesis unfolding Sysconfig_run_uri_def
    by (rule guarded_cases) (rule start_run_answers [OF run_uri_outcome _ assms(2)], assumption+, simp)
next
  assume "Sysconfig_run_string env pk uri flags scheme key ctx s = Some ((rep, ret), s')"
  then show ?thesis unfolding Sysconfig_run_string_def
    by (rule guarded_cases) (rule start_run_answers [OF run_string_outcome _ assms(2)], assumption+, simp)
qed

definition sa_demo :: "store sysagent" where
  "sa_demo = sysconf.extend sc_demo \<lparr>ag_async = Map.empty, ag_next = 0, ag_replies = [], ag_fault = False\<rparr>"

theorem sysconfig_request_answered_once_witness:
  "\<exists>s'. Sysconfig_run_string sy_demo (allow_only [SYSCONFIG_BUS_NAME @ ''.run_string'']) ''x'' 0 ''puppet'' [] (Some ''c'') sa_demo =
     Some ((Failed (Some (matahari_error MH_RES_INVALID_ARGS)), False), s') \<and>
     ag_replies s' = [] \<and> ag_async s' = Map.empty \<and> \<not> ag_fault s'"
proof -
  let ?pk = "allow_only [SYSCONFIG_BUS_NAME @ ''.run_string'']"
  obtain s' where r: "Sysconfig_run_string sy_demo ?pk ''x'' 0 ''puppet'' [] (Some ''c'') sa_demo =
     Some ((Failed (Some (matahari_error MH_RES_INVALID_ARGS)), False), s')"
    by (simp add: Sysconfig_run_string_def guarded_allowed start_run_def mh_sysconfig_run_string_def
        check_key_sanity_def mh_strlen_zero_def Let_def)
  have "ag_async sa_demo = Map.empty" "ag_replies sa_demo = []" "\<not> ag_fault sa_demo"
    by (simp_all add: sa_demo_def sc_demo_def sysconf.extend_def)
  with sysconfig_request_answered_once [OF disjI2 [OF r]] r show ?thesis by simp
qed

end
