(* ===== verification/Sysconfig_Windows.thy ===== *)
theory Sysconfig_Windows
  imports Sysconfig
begin

text \<open>
  \<^verbatim>\<open>src/src/lib/sysconfig_windows.c\<close>: configuration runs on Windows, which import a registry file. \<open>spawn\<close> is
  \<^verbatim>\<open>g_spawn_sync\<close>: the exit status, \<open>None\<close> if the program cannot be run, and what it does to the machine. The key was
  tested by \<^verbatim>\<open>sysconfig.c\<close>, as in \<open>mh_sysconfig_run_string_windows\<close>.
\<close>

definition run_regedit :: "(string list \<Rightarrow> 'w \<Rightarrow> int option \<times> 'w) \<Rightarrow> string \<Rightarrow> ('w, 'z) sysconf_scheme \<Rightarrow> mh_result \<times> ('w, 'z) sysconf_scheme" where
  "run_regedit spawn registry_file s =
     (case spawn [''REGEDIT'', ''/S'', registry_file] (sc_files s) of (r, w) \<Rightarrow>
        (case r of
           None \<Rightarrow> MH_RES_BACKEND_ERROR
         | Some res \<Rightarrow> if res > 0 then MH_RES_SUCCESS else MH_RES_BACKEND_ERROR,
         s\<lparr>sc_files := w\<rparr>))"

definition sysconfig_os_run_uri_windows :: "('w, 'z) sysconf_scheme \<Rightarrow> mh_result \<times> ('w, 'z) sysconf_scheme" where
  "sysconfig_os_run_uri_windows s = (MH_RES_NOT_IMPLEMENTED, s)"

definition registry_file :: "cptr \<Rightarrow> string \<Rightarrow> string" where
  "registry_file temp key =
     snprintf PATH_MAX ((case temp of None \<Rightarrow> ''(null)'' | Some t \<Rightarrow> t) @ [CHR 0x5C] @ key @ ''.REG'')"

definition sysconfig_os_run_string_windows ::
  "'w file_ops \<Rightarrow> (string list \<Rightarrow> 'w \<Rightarrow> int option \<times> 'w) \<Rightarrow> cptr
   \<Rightarrow> (nat \<Rightarrow> nat \<Rightarrow> int \<Rightarrow> ('w, 'z) sysconf_scheme \<Rightarrow> ('w, 'z) sysconf_scheme) \<Rightarrow> string \<Rightarrow> u32 \<Rightarrow> string
   \<Rightarrow> string \<Rightarrow> nat \<Rightarrow> nat \<Rightarrow> ('w, 'z) sysconf_scheme \<Rightarrow> mh_result \<times> ('w, 'z) sysconf_scheme" where
  "sysconfig_os_run_string_windows fo spawn temp call string flags scheme key result_cb cb_data s =
     (if strcasecmp scheme ''registry''
      then let filename = registry_file temp key;
               s1 = s\<lparr>sc_files := snd (file_set fo (sc_files s) filename string)\<rparr>
           in case run_regedit spawn filename s1 of (res, s2) \<Rightarrow>
                (res, if mh_result_code res = 0 then call result_cb cb_data (mh_result_code res) s2 else s2)
      else (MH_RES_INVALID_ARGS, s))"

definition sysconfig_os_query_windows :: "string \<Rightarrow> u32 \<Rightarrow> string \<Rightarrow> cptr" where
  "sysconfig_os_query_windows query flags scheme = None"

definition mh_sysconfig_run_string_windows ::
  "'w file_ops \<Rightarrow> (string list \<Rightarrow> 'w \<Rightarrow> int option \<times> 'w) \<Rightarrow> cptr
   \<Rightarrow> (nat \<Rightarrow> nat \<Rightarrow> int \<Rightarrow> ('w, 'z) sysconf_scheme \<Rightarrow> ('w, 'z) sysconf_scheme) \<Rightarrow> string \<Rightarrow> u32 \<Rightarrow> string
   \<Rightarrow> cptr \<Rightarrow> nat \<Rightarrow> nat \<Rightarrow> ('w, 'z) sysconf_scheme \<Rightarrow> mh_result \<times> ('w, 'z) sysconf_scheme" where
  "mh_sysconfig_run_string_windows fo spawn temp call string flags scheme key result_cb cb_data s =
     (if check_key_sanity key \<noteq> 0 then (MH_RES_INVALID_ARGS, s)
      else sysconfig_os_run_string_windows fo spawn temp call string flags scheme (the key) result_cb cb_data s)"

section \<open>Properties\<close>

text \<open>A registry file is imported with the result turned round: for a valid request the text is written to the file
  of its key and \<^verbatim>\<open>REGEDIT\<close> is run on it; if it ends with exit status 0, the caller is told that the backend failed
  and its callback is not called, and if it ends with a positive exit status the caller is told that
  the run succeeded and the callback is called with success.\<close>

theorem regedit_result_inverted:
  assumes "check_key_sanity (Some key) = 0" and "strcasecmp scheme ''registry''"
    and "file_set fo (sc_files s) (registry_file temp key) data = (None, w1)"
    and "spawn [''REGEDIT'', ''/S'', registry_file temp key] w1 = (Some status, w2)"
  shows "mh_sysconfig_run_string_windows fo spawn temp call data flags scheme (Some key) cb d s =
    (if status > 0 then (MH_RES_SUCCESS, call cb d 0 (s\<lparr>sc_files := w2\<rparr>))
     else (MH_RES_BACKEND_ERROR, s\<lparr>sc_files := w2\<rparr>))"
  using assms
  by (simp add: mh_sysconfig_run_string_windows_def sysconfig_os_run_string_windows_def run_regedit_def Let_def)

theorem regedit_result_inverted_witness:
  "mh_sysconfig_run_string_windows store_ops (\<lambda>args w. (Some 0, w)) (Some ''T'') (\<lambda>f d rc s. s\<lparr>sc_next := d\<rparr>) ''x'' 0
     ''registry'' (Some ''a'') 3 9 sc_demo =
   (MH_RES_BACKEND_ERROR, sc_demo\<lparr>sc_files := (sc_files sc_demo)(registry_file (Some ''T'') ''a'' \<mapsto> ''x'')\<rparr>)"
proof -
  have k: "check_key_sanity (Some ''a'') = 0" using demo_key_fits(1) check_key_sanity_iff by (simp add: key_fits_def)
  have c: "strcasecmp ''registry'' ''registry''" by (simp add: strcasecmp_def)
  show ?thesis
    by (subst regedit_result_inverted [OF k c, where ?w1.0 = "(sc_files sc_demo)(registry_file (Some ''T'') ''a'' \<mapsto> ''x'')" and status = 0])
      (simp_all add: store_ops_simps)
qed

end
