(* ===== verification/Host.thy ===== *)
theory Host
  imports Dbus
begin

text \<open>
  \<^verbatim>\<open>src/src/lib/host.c\<close> and \<^verbatim>\<open>src/src/lib/host_private.h\<close>: information about the host, its identifiers
  with their lifetimes, and its power profiles, independent of the operating system.

  The operations of \<^verbatim>\<open>host_private.h\<close>, with \<open>mh_uuid\<close> and \<open>mh_hostname\<close>, are the fields of \<open>host_os\<close>; they
  work on the state \<open>'o\<close> of the operating system layer. The record \<open>host\<close> has that state and the
  statics of \<^verbatim>\<open>host.c\<close>. What sigar stores for a query is a field of \<open>sigar\<close>. The locale \<open>host_backend\<close> states
  what the identifiers rely on; the theories of the Linux and of the Windows layer interpret it.
\<close>

section \<open>Interfaces and state\<close>

record sigar_procs =
  pr_total :: u64
  pr_idle :: u64
  pr_zombie :: u64
  pr_running :: u64
  pr_stopped :: u64
  pr_sleeping :: u64

record sigar =
  sg_vendor_name :: string
  sg_version :: string
  sg_arch :: string
  sg_mem_total :: u64
  sg_mem_free :: u64
  sg_swap_total :: u64
  sg_swap_free :: u64
  sg_cpus :: "(string \<times> u32) list"
  sg_loadavg :: "u64 \<times> u64 \<times> u64"
  sg_procs :: sigar_procs

record 'o host_os =
  os_uuid :: "'o \<Rightarrow> string \<times> 'o"
  os_hostname :: "'o \<Rightarrow> string \<times> 'o"
  os_get_cpu_flags :: "'o \<Rightarrow> string \<times> 'o"
  os_reboot :: "'o \<Rightarrow> 'o"
  os_shutdown :: "'o \<Rightarrow> 'o"
  os_identify :: "'o \<Rightarrow> int \<times> 'o"
  os_machine_uuid :: "'o \<Rightarrow> cptr \<times> 'o"
  os_ec2_instance_id :: "'o \<Rightarrow> cptr \<times> 'o"
  os_custom_uuid :: "'o \<Rightarrow> cptr \<times> 'o"
  os_reboot_uuid :: "'o \<Rightarrow> cptr \<times> 'o"
  os_agent_uuid :: "'o \<Rightarrow> cptr \<times> 'o"
  os_set_custom_uuid :: "cptr \<Rightarrow> 'o \<Rightarrow> int \<times> 'o"
  os_set_power_profile :: "cptr \<Rightarrow> 'o \<Rightarrow> mh_result \<times> 'o"
  os_get_power_profile :: "cptr \<Rightarrow> 'o \<Rightarrow> (mh_result \<times> cptr) \<times> 'o"
  os_list_power_profiles :: "'o \<Rightarrow> string list \<times> 'o"

record 'o host =
  h_os :: 'o
  sigar_init :: bool
  operating_system :: cptr
  arch :: cptr
  cpu_model :: cptr
  cpu_cpus :: u32
  cpu_cores :: u32
  custom_uuid :: cptr
  immutable_uuid :: cptr
  hardware_uuid :: cptr
  reboot_uuid :: cptr
  agent_uuid :: cptr

definition host_start :: "'o \<Rightarrow> 'o host" where
  "host_start osv = \<lparr>h_os = osv, sigar_init = False, operating_system = None, arch = None, cpu_model = None,
     cpu_cpus = 0, cpu_cores = 0, custom_uuid = None, immutable_uuid = None, hardware_uuid = None,
     reboot_uuid = None, agent_uuid = None\<rparr>"

text \<open>A call into the operating system layer.\<close>

definition os_call :: "('o \<Rightarrow> 'a \<times> 'o) \<Rightarrow> 'o host \<Rightarrow> 'a \<times> 'o host" where
  "os_call f s = (case f (h_os s) of (r, o1) \<Rightarrow> (r, s\<lparr>h_os := o1\<rparr>))"

section \<open>Information\<close>

definition init :: "'o host \<Rightarrow> 'o host" where
  "init s = (if sigar_init s then s else s\<lparr>sigar_init := True\<rparr>)"

definition mh_host_get_hostname :: "'o host_os \<Rightarrow> 'o host \<Rightarrow> string \<times> 'o host" where
  "mh_host_get_hostname os s = os_call (os_hostname os) s"

definition mh_host_get_operating_system :: "sigar \<Rightarrow> 'o host \<Rightarrow> string \<times> 'o host" where
  "mh_host_get_operating_system sg s =
     (let s1 = init s
      in case operating_system s1 of
           Some v \<Rightarrow> (v, s1)
         | None \<Rightarrow> (let v = sg_vendor_name sg @ '' ('' @ sg_version sg @ '')''
                    in (v, s1\<lparr>operating_system := Some v\<rparr>)))"

definition mh_host_get_cpu_wordsize :: int where
  "mh_host_get_cpu_wordsize = 8 * 8"

definition mh_host_get_architecture :: "sigar \<Rightarrow> 'o host \<Rightarrow> string \<times> 'o host" where
  "mh_host_get_architecture sg s =
     (let s1 = init s
      in case arch s1 of
           Some v \<Rightarrow> (v, s1)
         | None \<Rightarrow> (sg_arch sg, s1\<lparr>arch := Some (sg_arch sg)\<rparr>))"

definition mh_host_reboot :: "'o host_os \<Rightarrow> 'o host \<Rightarrow> 'o host" where
  "mh_host_reboot os s = s\<lparr>h_os := os_reboot os (h_os s)\<rparr>"

definition mh_host_shutdown :: "'o host_os \<Rightarrow> 'o host \<Rightarrow> 'o host" where
  "mh_host_shutdown os s = s\<lparr>h_os := os_shutdown os (h_os s)\<rparr>"

definition host_get_cpu_details :: "sigar \<Rightarrow> 'o host \<Rightarrow> 'o host" where
  "host_get_cpu_details sg s =
     (if cpu_cpus s \<noteq> 0 then s
      else let s1 = init s;
               s2 = s1\<lparr>cpu_cpus := of_nat (length (sg_cpus sg))\<rparr>
           in case sg_cpus sg of
                [] \<Rightarrow> s2
              | (model, total_cores) # _ \<Rightarrow> s2\<lparr>cpu_model := Some model, cpu_cores := total_cores\<rparr>)"

definition mh_host_get_cpu_model :: "sigar \<Rightarrow> 'o host \<Rightarrow> cptr \<times> 'o host" where
  "mh_host_get_cpu_model sg s = (let s1 = host_get_cpu_details sg s in (cpu_model s1, s1))"

definition mh_host_get_cpu_flags :: "'o host_os \<Rightarrow> 'o host \<Rightarrow> string \<times> 'o host" where
  "mh_host_get_cpu_flags os s = os_call (os_get_cpu_flags os) s"

definition mh_host_get_cpu_count :: "sigar \<Rightarrow> 'o host \<Rightarrow> int \<times> 'o host" where
  "mh_host_get_cpu_count sg s = (let s1 = host_get_cpu_details sg s in (int_of_u32 (cpu_cpus s1), s1))"

definition mh_host_get_cpu_number_of_cores :: "sigar \<Rightarrow> 'o host \<Rightarrow> int \<times> 'o host" where
  "mh_host_get_cpu_number_of_cores sg s = (let s1 = host_get_cpu_details sg s in (int_of_u32 (cpu_cores s1), s1))"

definition mh_host_get_load_averages :: "sigar \<Rightarrow> 'o host \<Rightarrow> (u64 \<times> u64 \<times> u64) \<times> 'o host" where
  "mh_host_get_load_averages sg s = (sg_loadavg sg, init s)"

definition mh_host_get_processes :: "sigar \<Rightarrow> 'o host \<Rightarrow> sigar_procs \<times> 'o host" where
  "mh_host_get_processes sg s = (sg_procs sg, init s)"

definition mh_host_get_memory :: "sigar \<Rightarrow> 'o host \<Rightarrow> u64 \<times> 'o host" where
  "mh_host_get_memory sg s = (sg_mem_total sg div 1024, init s)"

definition mh_host_get_mem_free :: "sigar \<Rightarrow> 'o host \<Rightarrow> u64 \<times> 'o host" where
  "mh_host_get_mem_free sg s = (sg_mem_free sg div 1024, init s)"

definition mh_host_get_swap :: "sigar \<Rightarrow> 'o host \<Rightarrow> u64 \<times> 'o host" where
  "mh_host_get_swap sg s = (sg_swap_total sg div 1024, init s)"

definition mh_host_get_swap_free :: "sigar \<Rightarrow> 'o host \<Rightarrow> u64 \<times> 'o host" where
  "mh_host_get_swap_free sg s = (sg_swap_free sg div 1024, init s)"

definition mh_host_identify :: "'o host_os \<Rightarrow> 'o host \<Rightarrow> int \<times> 'o host" where
  "mh_host_identify os s = os_call (os_identify os) s"

section \<open>Identifiers\<close>

definition G_FILE_ERROR_NOSYS :: int where "G_FILE_ERROR_NOSYS = 23"

definition mh_host_get_uuid :: "'o host_os \<Rightarrow> cptr \<Rightarrow> 'o host \<Rightarrow> string \<times> 'o host" where
  "mh_host_get_uuid os lifetime s =
     (let (uuid, s') =
        (if mh_strlen_zero lifetime \<or> strcasecmp ''filesystem'' (the lifetime)
         then let s1 = (if immutable_uuid s = None
                        then case os_call (os_uuid os) s of (u, t) \<Rightarrow> t\<lparr>immutable_uuid := Some u\<rparr> else s)
              in (immutable_uuid s1, s1)
         else if strcasecmp ''hardware'' (the lifetime)
         then let s1 = (if hardware_uuid s = None
                        then case os_call (os_machine_uuid os) s of (u, t) \<Rightarrow> t\<lparr>hardware_uuid := u\<rparr> else s);
                  s2 = (if hardware_uuid s1 = None
                        then case os_call (os_ec2_instance_id os) s1 of (u, t) \<Rightarrow> t\<lparr>hardware_uuid := u\<rparr> else s1)
              in (hardware_uuid s2, s2)
         else if strcasecmp ''reboot'' (the lifetime)
         then let s1 = (if reboot_uuid s = None
                        then case os_call (os_reboot_uuid os) s of (u, t) \<Rightarrow> t\<lparr>reboot_uuid := u\<rparr> else s)
              in (reboot_uuid s1, s1)
         else if strcasecmp ''agent'' (the lifetime)
         then let s1 = (if agent_uuid s = None
                        then case os_call (os_agent_uuid os) s of (u, t) \<Rightarrow> t\<lparr>agent_uuid := u\<rparr> else s)
              in (agent_uuid s1, s1)
         else if strcasecmp ''custom'' (the lifetime)
         then let s1 = (if custom_uuid s = None
                        then case os_call (os_custom_uuid os) s of (u, t) \<Rightarrow> t\<lparr>custom_uuid := u\<rparr> else s)
              in (custom_uuid s1, s1)
         else (Some ''invalid-lifetime'', s))
      in (if mh_strlen_zero uuid then ''not-available'' else the uuid, s'))"

definition mh_host_set_uuid :: "'o host_os \<Rightarrow> cptr \<Rightarrow> cptr \<Rightarrow> 'o host \<Rightarrow> int \<times> 'o host" where
  "mh_host_set_uuid os lifetime uuid s =
     (if \<not> mh_strlen_zero lifetime \<and> strcasecmp ''custom'' (the lifetime)
      then case os_call (os_set_custom_uuid os uuid) s of (rc, s1) \<Rightarrow>
             (case os_call (os_custom_uuid os) s1 of (u, s2) \<Rightarrow> (rc, s2\<lparr>custom_uuid := u\<rparr>))
      else (G_FILE_ERROR_NOSYS, s))"

section \<open>Power profiles\<close>

definition mh_host_set_power_profile :: "'o host_os \<Rightarrow> cptr \<Rightarrow> 'o host \<Rightarrow> mh_result \<times> 'o host" where
  "mh_host_set_power_profile os profile s = os_call (os_set_power_profile os profile) s"

definition mh_host_get_power_profile :: "'o host_os \<Rightarrow> cptr \<Rightarrow> 'o host \<Rightarrow> (mh_result \<times> cptr) \<times> 'o host" where
  "mh_host_get_power_profile os profile s = os_call (os_get_power_profile os profile) s"

definition mh_host_list_power_profiles :: "'o host_os \<Rightarrow> 'o host \<Rightarrow> string list \<times> 'o host" where
  "mh_host_list_power_profiles os s = os_call (os_list_power_profiles os) s"

section \<open>The caches of the identifiers\<close>

datatype lifetime = Filesystem | Hardware | Reboot | Agent | Custom

text \<open>The lifetime that a request names, \<open>None\<close> if it is not known.\<close>

definition lifetime_of :: "cptr \<Rightarrow> lifetime option" where
  "lifetime_of l =
     (if mh_strlen_zero l \<or> strcasecmp ''filesystem'' (the l) then Some Filesystem
      else if strcasecmp ''hardware'' (the l) then Some Hardware
      else if strcasecmp ''reboot'' (the l) then Some Reboot
      else if strcasecmp ''agent'' (the l) then Some Agent
      else if strcasecmp ''custom'' (the l) then Some Custom
      else None)"

fun cached :: "lifetime \<Rightarrow> 'o host \<Rightarrow> cptr" where
  "cached Filesystem s = immutable_uuid s"
| "cached Hardware s = hardware_uuid s"
| "cached Reboot s = reboot_uuid s"
| "cached Agent s = agent_uuid s"
| "cached Custom s = custom_uuid s"

text \<open>Filling a cache: the value asked of the operating system if there is none yet.\<close>

fun fill :: "'o host_os \<Rightarrow> lifetime \<Rightarrow> 'o host \<Rightarrow> 'o host" where
  "fill os Filesystem s = (case os_call (os_uuid os) s of (u, t) \<Rightarrow> t\<lparr>immutable_uuid := Some u\<rparr>)"
| "fill os Hardware s =
     (let s1 = (case os_call (os_machine_uuid os) s of (u, t) \<Rightarrow> t\<lparr>hardware_uuid := u\<rparr>)
      in if hardware_uuid s1 = None
         then case os_call (os_ec2_instance_id os) s1 of (u, t) \<Rightarrow> t\<lparr>hardware_uuid := u\<rparr> else s1)"
| "fill os Reboot s = (case os_call (os_reboot_uuid os) s of (u, t) \<Rightarrow> t\<lparr>reboot_uuid := u\<rparr>)"
| "fill os Agent s = (case os_call (os_agent_uuid os) s of (u, t) \<Rightarrow> t\<lparr>agent_uuid := u\<rparr>)"
| "fill os Custom s = (case os_call (os_custom_uuid os) s of (u, t) \<Rightarrow> t\<lparr>custom_uuid := u\<rparr>)"

definition shown :: "cptr \<Rightarrow> string" where
  "shown uuid = (if mh_strlen_zero uuid then ''not-available'' else the uuid)"

lemma get_uuid_eq:
  "mh_host_get_uuid os l s =
     (case lifetime_of l of
        None \<Rightarrow> (''invalid-lifetime'', s)
      | Some k \<Rightarrow> (let s1 = (if cached k s = None then fill os k s else s) in (shown (cached k s1), s1)))"
proof -
  consider (f) "mh_strlen_zero l \<or> strcasecmp ''filesystem'' (the l)"
    | (h) "\<not> (mh_strlen_zero l \<or> strcasecmp ''filesystem'' (the l))" "strcasecmp ''hardware'' (the l)"
    | (r) "\<not> (mh_strlen_zero l \<or> strcasecmp ''filesystem'' (the l))" "\<not> (strcasecmp ''hardware'' (the l))" "strcasecmp ''reboot'' (the l)"
    | (a) "\<not> (mh_strlen_zero l \<or> strcasecmp ''filesystem'' (the l))" "\<not> (strcasecmp ''hardware'' (the l))" "\<not> (strcasecmp ''reboot'' (the l))" "strcasecmp ''agent'' (the l)"
    | (c) "\<not> (mh_strlen_zero l \<or> strcasecmp ''filesystem'' (the l))" "\<not> (strcasecmp ''hardware'' (the l))" "\<not> (strcasecmp ''reboot'' (the l))" "\<not> (strcasecmp ''agent'' (the l))" "strcasecmp ''custom'' (the l)"
    | (n) "\<not> (mh_strlen_zero l \<or> strcasecmp ''filesystem'' (the l))" "\<not> (strcasecmp ''hardware'' (the l))" "\<not> (strcasecmp ''reboot'' (the l))" "\<not> (strcasecmp ''agent'' (the l))" "\<not> (strcasecmp ''custom'' (the l))"
    by blast
  then show ?thesis
  proof cases
    case f
    show ?thesis unfolding mh_host_get_uuid_def lifetime_of_def if_P [OF f]
      by (simp add: shown_def Let_def split: prod.split)
  next
    case h
    show ?thesis unfolding mh_host_get_uuid_def lifetime_of_def if_not_P [OF h(1)] if_P [OF h(2)]
      by (cases "hardware_uuid s") (simp_all add: shown_def Let_def split: prod.split)
  next
    case r
    show ?thesis unfolding mh_host_get_uuid_def lifetime_of_def if_not_P [OF r(1)] if_not_P [OF r(2)] if_P [OF r(3)]
      by (simp add: shown_def Let_def split: prod.split)
  next
    case a
    show ?thesis unfolding mh_host_get_uuid_def lifetime_of_def if_not_P [OF a(1)] if_not_P [OF a(2)] if_not_P [OF a(3)] if_P [OF a(4)]
      by (simp add: shown_def Let_def split: prod.split)
  next
    case c
    show ?thesis unfolding mh_host_get_uuid_def lifetime_of_def if_not_P [OF c(1)] if_not_P [OF c(2)] if_not_P [OF c(3)] if_not_P [OF c(4)] if_P [OF c(5)]
      by (simp add: shown_def Let_def split: prod.split)
  next
    case n
    show ?thesis unfolding mh_host_get_uuid_def lifetime_of_def if_not_P [OF n(1)] if_not_P [OF n(2)] if_not_P [OF n(3)] if_not_P [OF n(4)] if_not_P [OF n(5)]
      by (simp add: mh_strlen_zero_def)
  qed
qed

lemma os_call_fields [simp]:
  "cached k (snd (os_call f s)) = cached k s"
  by (cases k) (simp_all add: os_call_def split: prod.splits)

lemma fill_other: "k \<noteq> k' \<Longrightarrow> cached k' (fill os k s) = cached k' s"
  by (cases k; cases k') (auto simp: os_call_def Let_def split: prod.splits)

lemma get_uuid_keeps:
  assumes "cached k s = Some u"
  shows "cached k (snd (mh_host_get_uuid os l s)) = Some u"
proof (cases "lifetime_of l")
  case (Some k')
  then show ?thesis using assms by (cases "k' = k") (simp_all add: get_uuid_eq Let_def fill_other)
qed (use assms in \<open>simp add: get_uuid_eq\<close>)

lemma set_uuid_keeps: "k \<noteq> Custom \<Longrightarrow> cached k (snd (mh_host_set_uuid os l u s)) = cached k s"
  by (cases k) (auto simp: mh_host_set_uuid_def os_call_def split: prod.splits)

lemma cpu_details_keeps: "cached k (host_get_cpu_details sg s) = cached k s" "cached k (init s) = cached k s"
  by (cases k; simp add: host_get_cpu_details_def init_def Let_def split: list.splits)+

section \<open>Any sequence of calls\<close>

text \<open>One call of the library other than setting an identifier, with any operating system layer and any answers of
  sigar.\<close>

inductive host_call :: "'o host \<Rightarrow> 'o host \<Rightarrow> bool" where
  get_uuid: "host_call s (snd (mh_host_get_uuid os l s))"
| hostname: "host_call s (snd (mh_host_get_hostname os s))"
| operating_system: "host_call s (snd (mh_host_get_operating_system sg s))"
| architecture: "host_call s (snd (mh_host_get_architecture sg s))"
| cpu_model: "host_call s (snd (mh_host_get_cpu_model sg s))"
| cpu_count: "host_call s (snd (mh_host_get_cpu_count sg s))"
| cpu_cores: "host_call s (snd (mh_host_get_cpu_number_of_cores sg s))"
| cpu_flags: "host_call s (snd (mh_host_get_cpu_flags os s))"
| load: "host_call s (snd (mh_host_get_load_averages sg s))"
| processes: "host_call s (snd (mh_host_get_processes sg s))"
| memory: "host_call s (snd (mh_host_get_memory sg s))"
| mem_free: "host_call s (snd (mh_host_get_mem_free sg s))"
| swap: "host_call s (snd (mh_host_get_swap sg s))"
| swap_free: "host_call s (snd (mh_host_get_swap_free sg s))"
| identify: "host_call s (snd (mh_host_identify os s))"
| set_profile: "host_call s (snd (mh_host_set_power_profile os p s))"
| get_profile: "host_call s (snd (mh_host_get_power_profile os p s))"
| list_profiles: "host_call s (snd (mh_host_list_power_profiles os s))"
| reboot: "host_call s (mh_host_reboot os s)"
| shutdown: "host_call s (mh_host_shutdown os s)"

text \<open>One call of the library.\<close>

inductive host_step :: "'o host \<Rightarrow> 'o host \<Rightarrow> bool" where
  call: "host_call s s' \<Longrightarrow> host_step s s'"
| set_uuid: "host_step s (snd (mh_host_set_uuid os l u s))"

lemma host_call_keeps:
  assumes "host_call s s'" "cached k s = Some u"
  shows "cached k s' = Some u"
  using assms(1)
proof cases
  case (get_uuid os l)
  then show ?thesis using get_uuid_keeps [OF assms(2)] by simp
next
  case operating_system
  then show ?thesis using assms(2)
    by (cases k) (simp_all add: mh_host_get_operating_system_def init_def Let_def split: option.splits)
next
  case architecture
  then show ?thesis using assms(2)
    by (cases k) (simp_all add: mh_host_get_architecture_def init_def Let_def split: option.splits)
next
  case reboot
  then show ?thesis using assms(2) by (cases k) (simp_all add: mh_host_reboot_def)
next
  case shutdown
  then show ?thesis using assms(2) by (cases k) (simp_all add: mh_host_shutdown_def)
qed (use assms(2) in \<open>simp_all add: mh_host_get_hostname_def mh_host_get_cpu_model_def mh_host_get_cpu_count_def
    mh_host_get_cpu_number_of_cores_def mh_host_get_cpu_flags_def mh_host_get_load_averages_def
    mh_host_get_processes_def mh_host_get_memory_def mh_host_get_mem_free_def mh_host_get_swap_def
    mh_host_get_swap_free_def mh_host_identify_def mh_host_set_power_profile_def mh_host_get_power_profile_def
    mh_host_list_power_profiles_def cpu_details_keeps Let_def\<close>)

lemma host_calls_keep: "host_call\<^sup>*\<^sup>* s s' \<Longrightarrow> cached k s = Some u \<Longrightarrow> cached k s' = Some u"
  by (induction rule: rtranclp_induct) (auto intro: host_call_keeps)

lemma host_step_keeps: "host_step s s' \<Longrightarrow> k \<noteq> Custom \<Longrightarrow> cached k s = Some u \<Longrightarrow> cached k s' = Some u"
  by (auto elim!: host_step.cases simp: set_uuid_keeps intro: host_call_keeps)

lemma host_steps_keep:
  "host_step\<^sup>*\<^sup>* s s' \<Longrightarrow> k \<noteq> Custom \<Longrightarrow> cached k s = Some u \<Longrightarrow> cached k s' = Some u"
  by (induction rule: rtranclp_induct) (auto intro: host_step_keeps)

section \<open>Properties\<close>

text \<open>C16: An identifier, once given out, does not change while the agent runs: after any sequence of
  calls of the library, whatever the operating system and sigar answer in between and even if the
  custom identifier is set, asking for the same lifetime (other than the custom one) gives the
  same identifier again.\<close>

theorem host_uuid_stable:
  assumes "mh_host_get_uuid os l s = (u, s1)" "u \<noteq> ''not-available''" "lifetime_of l \<noteq> Some Custom" "host_step\<^sup>*\<^sup>* s1 s2"
  shows "fst (mh_host_get_uuid os' l s2) = u"
proof (cases "lifetime_of l")
  case None
  with assms(1) show ?thesis by (simp add: get_uuid_eq)
next
  case (Some k)
  have u: "u = shown (cached k s1)" "cached k s1 \<noteq> None"
    using assms(1,2) Some by (cases "cached k s1"; auto simp: get_uuid_eq Let_def shown_def mh_strlen_zero_def)+
  then obtain v where v: "cached k s1 = Some v" by auto
  have "cached k s2 = Some v" using host_steps_keep [OF assms(4) _ v] assms(3) Some by simp
  then show ?thesis using u v Some by (simp add: get_uuid_eq)
qed

section \<open>The contract of the operating system layer\<close>

text \<open>\<open>accepts v o1\<close> says that the layer can keep the custom identifier \<open>v\<close> in its state \<open>o1\<close>, and \<open>render\<close> is the form
  in which it gives one back.\<close>

locale host_backend =
  fixes os :: "'o host_os"
    and accepts :: "string \<Rightarrow> 'o \<Rightarrow> bool"
    and render :: "string \<Rightarrow> string"
  assumes set_custom: "accepts v o1 \<Longrightarrow> is_cstr v \<Longrightarrow> os_set_custom_uuid os (Some v) o1 = (0, o2) \<Longrightarrow>
      fst (os_custom_uuid os o2) = Some (render v)"
begin

text \<open>A custom identifier that was set is the one that is given out until another is set.\<close>

lemma custom_round_trip:
  assumes "accepts v (h_os s)" "is_cstr v" "lifetime_of l = Some Custom" "lifetime_of l' = Some Custom"
    and set: "mh_host_set_uuid os l (Some v) s = (0, s')" and later: "host_call\<^sup>*\<^sup>* s' s''"
  shows "fst (mh_host_get_uuid os' l' s'') = shown (Some (render v))"
proof -
  have l: "\<not> mh_strlen_zero l \<and> strcasecmp ''custom'' (the l)"
    using assms(3) unfolding lifetime_of_def by (simp split: if_splits)
  obtain o1 where o1: "os_set_custom_uuid os (Some v) (h_os s) = (0, o1)"
    using set unfolding mh_host_set_uuid_def if_P [OF l] by (auto simp: os_call_def split: prod.splits)
  have "cached Custom s' = fst (os_custom_uuid os o1)"
    using set o1 unfolding mh_host_set_uuid_def if_P [OF l] by (auto simp: os_call_def split: prod.splits)
  then have "cached Custom s' = Some (render v)" using set_custom [OF assms(1,2) o1] by simp
  from host_calls_keep [OF later this] show ?thesis using assms(4) by (simp add: get_uuid_eq)
qed

end

end
