(* ===== verification/Host_Linux.thy ===== *)
theory Host_Linux
  imports Host Services_Linux
begin

text \<open>
  \<^verbatim>\<open>src/src/lib/host_linux.c\<close>: the Linux layer of the host library. Its state has the file system, the
  statics of the utility library and of this file, the number of identifiers generated so far and
  the list of effects on the machine (programs run, processes killed, the speaker, halting). What
  the kernel, GLib, PCRE, curl and libuuid answer are the fields of \<open>host_env\<close>. The loop that waits for a
  program is the one of \<^verbatim>\<open>services_linux.c\<close>, \<open>wait_loop\<close>.
\<close>

section \<open>State and environment\<close>

datatype host_event =
    Spawned string
  | Synced
  | Restarted
  | Halted
  | Tone int
  | Ran "string list"
  | Killed int

record 'w linux_host =
  lh_files :: 'w
  lh_util :: util_state
  lh_flags :: cptr
  lh_agent_uuid :: string
  lh_generated :: nat
  lh_events :: "host_event list"

text \<open>A program that was started: its number, what \<^verbatim>\<open>waitpid\<close> answers, and its output.\<close>

record child_run =
  cr_pid :: int
  cr_waitpid :: "nat \<Rightarrow> int \<times> int"
  cr_stdout :: "gerror + string"

text \<open>\<open>he_pcre\<close> compiles an expression, \<open>None\<close> on failure, and gives the offset vector of a match, two
  entries per group, empty if there is none. \<open>he_cpuinfo\<close> has the results of the calls of \<^verbatim>\<open>fread\<close>, \<open>None\<close> if
  the file cannot be opened. \<open>he_body\<close> are the pieces in which curl delivers the response.\<close>

record 'w host_env =
  he_files :: "'w file_ops"
  he_net :: sigar_net_info
  he_cpuinfo :: "string list option"
  he_pcre :: "string \<Rightarrow> (string \<Rightarrow> nat list) option"
  he_command :: "string \<Rightarrow> bool"
  he_open_tty :: bool
  he_ioctl :: int
  he_dmidecode :: cptr
  he_curl_global :: bool
  he_curl_easy :: bool
  he_setopt :: "nat \<Rightarrow> bool"
  he_body :: "string list"
  he_uuid :: "nat \<Rightarrow> string"
  he_spawn :: "string list \<Rightarrow> child_run option"

definition log_event :: "host_event \<Rightarrow> 'w linux_host \<Rightarrow> 'w linux_host" where
  "log_event e s = s\<lparr>lh_events := lh_events s @ [e]\<rparr>"

section \<open>Processor flags\<close>

text \<open>The \<open>do\<close> loop that reads the file: it ends with the first read that gives nothing.\<close>

fun read_all :: "string list \<Rightarrow> string \<Rightarrow> string" where
  "read_all [] buffer = buffer"
| "read_all (c # cs) buffer = (if c = [] then buffer else read_all cs (buffer @ c))"

text \<open>\<^verbatim>\<open>strsep\<close> with a newline: the lines of a string.\<close>

fun strsep_lines :: "string \<Rightarrow> string \<Rightarrow> string list" where
  "strsep_lines cur [] = [cur]"
| "strsep_lines cur (c # s) = (if c = CHR 0x0A then cur # strsep_lines [] s else strsep_lines (cur @ [c]) s)"

text \<open>The body of the loop over the lines. A match has three groups, so six offsets.\<close>

fun scan_flags :: "(string \<Rightarrow> nat list) \<Rightarrow> string list \<Rightarrow> cptr" where
  "scan_flags exec [] = None"
| "scan_flags exec (cur # rest) =
     (let found = exec cur
      in if length found \<noteq> 6 then scan_flags exec rest
         else let name = drop (found ! 2) cur;
                  altivec = (case strstr (drop (found ! 4) cur) ''altivec supported'' of
                               None \<Rightarrow> False | Some p \<Rightarrow> length cur - length p < found ! 5)
              in if \<not> strncmp name ''cpu '' 4 \<and> altivec then Some ''altivec''
                 else if \<not> strncmp name ''flags'' 5 \<and> \<not> strncmp name ''features'' 8 then scan_flags exec rest
                 else Some (copied (1 + found ! 5 - found ! 4) (drop (found ! 4) cur)))"

definition cpu_regex :: string where "cpu_regex = ''(.*'' @ [CHR 0x5C] @ ''S)'' @ [CHR 0x5C] @ ''s*:'' @ [CHR 0x5C] @ ''s*('' @ [CHR 0x5C] @ ''S.*)''"

definition host_os_get_cpu_flags :: "'w host_env \<Rightarrow> 'w linux_host \<Rightarrow> string \<times> 'w linux_host" where
  "host_os_get_cpu_flags env s =
     (case lh_flags s of
        Some flags \<Rightarrow> (flags, s)
      | None \<Rightarrow>
          (let found = (case he_cpuinfo env of
                          None \<Rightarrow> None
                        | Some reads \<Rightarrow>
                            (let buffer = read_all reads []
                             in if buffer = [] then None
                                else case he_pcre env cpu_regex of
                                       None \<Rightarrow> None
                                     | Some exec \<Rightarrow> scan_flags exec (strsep_lines [] (cstr_of buffer))));
               flags = (case found of None \<Rightarrow> ''unknown'' | Some f \<Rightarrow> f)
           in (flags, s\<lparr>lh_flags := Some flags\<rparr>)))"

section \<open>Reboot, shutdown, identify\<close>

definition host_os_reboot :: "'w host_env \<Rightarrow> 'w linux_host \<Rightarrow> 'w linux_host" where
  "host_os_reboot env s =
     (let s1 = log_event (Spawned ''reboot'') s
      in if \<not> he_command env ''reboot'' then log_event Restarted (log_event Synced s1) else s1)"

definition host_os_shutdown :: "'w host_env \<Rightarrow> 'w linux_host \<Rightarrow> 'w linux_host" where
  "host_os_shutdown env s =
     (let s1 = log_event (Spawned ''shutdown -h now'') s
      in if \<not> he_command env ''shutdown -h now'' then log_event Halted (log_event Synced s1) else s1)"

definition host_os_identify :: "'w host_env \<Rightarrow> 'w linux_host \<Rightarrow> int \<times> 'w linux_host" where
  "host_os_identify env s =
     (if \<not> he_open_tty env then (- 1, s)
      else (he_ioctl env, log_event (Tone (1000 * 2 ^ 32 + 1190000 div 440)) s))"

section \<open>Identifiers\<close>

text \<open>\<^verbatim>\<open>g_strsplit\<close> at newlines into at most \<open>n\<close> pieces, the last of which has the rest.\<close>

fun split_lines :: "nat \<Rightarrow> string \<Rightarrow> string \<Rightarrow> string list" where
  "split_lines n cur [] = [cur]"
| "split_lines n cur (c # s) =
     (if c = CHR 0x0A \<and> 1 < n then cur # split_lines (n - 1) [] s else split_lines n (cur @ [c]) s)"

definition g_strsplit_lines :: "nat \<Rightarrow> string \<Rightarrow> string list" where
  "g_strsplit_lines n s = (if s = [] then [] else split_lines n [] s)"

fun scan_uuid :: "(string \<Rightarrow> nat list) \<Rightarrow> string list \<Rightarrow> cptr" where
  "scan_uuid exec [] = None"
| "scan_uuid exec (l # ls) =
     (let found = exec l in if length found = 4 then Some (drop (found ! 2) l) else scan_uuid exec ls)"

definition uuid_regex :: string where "uuid_regex = [CHR 0x5C] @ ''s+UUID:'' @ [CHR 0x5C] @ ''s+(.*)''"

definition host_os_machine_uuid :: "'w host_env \<Rightarrow> 'w linux_host \<Rightarrow> cptr \<times> 'w linux_host" where
  "host_os_machine_uuid env s =
     (case he_dmidecode env of
        None \<Rightarrow> (None, s)
      | Some output \<Rightarrow>
          (case he_pcre env uuid_regex of
             None \<Rightarrow> (Some ''(regex-compile-failed)'', s)
           | Some exec \<Rightarrow> (scan_uuid exec (g_strsplit_lines 256 output), s)))"

record curl_write_cb_data =
  cw_buf :: "char list"
  cw_used :: u64

text \<open>The number of characters taken, and the buffer; \<open>None\<close> is a write outside the buffer of 256
  characters.\<close>

definition curl_write_cb ::
  "string \<Rightarrow> u64 \<Rightarrow> u64 \<Rightarrow> curl_write_cb_data \<Rightarrow> (u64 \<times> curl_write_cb_data) option" where
  "curl_write_cb ptr sz nmemb buf =
     (let len = sz * nmemb
      in if len \<ge> 256 - cw_used buf then Some (0, buf)
         else let i = unat (cw_used buf); n = unat len
              in if i + n \<le> length (cw_buf buf)
                 then Some (len, buf\<lparr>cw_buf := take i (cw_buf buf) @ take n ptr @ drop (i + n) (cw_buf buf)\<rparr>)
                 else None)"

text \<open>What curl does with the callback: it hands over each piece with its length and stops with an
  error when the callback does not take all of it.\<close>

fun curl_deliver :: "string list \<Rightarrow> curl_write_cb_data \<Rightarrow> (bool \<times> curl_write_cb_data) option" where
  "curl_deliver [] buf = Some (True, buf)"
| "curl_deliver (p # ps) buf =
     (case curl_write_cb p 1 (of_nat (length p)) buf of
        None \<Rightarrow> None
      | Some (n, buf') \<Rightarrow> if n = of_nat (length p) then curl_deliver ps buf' else Some (False, buf'))"

text \<open>The response code is only logged.\<close>

definition host_os_ec2_instance_id :: "'w host_env \<Rightarrow> 'w linux_host \<Rightarrow> cptr \<times> 'w linux_host" where
  "host_os_ec2_instance_id env s =
     (case mh_curl_init (he_curl_global env) (lh_util s) of (res, u) \<Rightarrow>
        let s1 = s\<lparr>lh_util := u\<rparr>;
            buf = \<lparr>cw_buf = replicate 256 NUL, cw_used = 0\<rparr>;
            id = (\<lambda>b. let t = cstr_of (cw_buf b) in if t = [] then None else Some t)
        in if res \<noteq> MH_RES_SUCCESS then (None, s1)
           else if \<not> he_curl_easy env then (None, s1)
           else if \<not> (\<forall>i<4. he_setopt env i) then (id buf, s1)
           else case curl_deliver (he_body env) buf of
                  None \<Rightarrow> (None, s1)
                | Some (ok, buf') \<Rightarrow> (id buf', s1))"

definition CUSTOM_ID_FILE :: string where "CUSTOM_ID_FILE = ''/etc/custom-machine-id''"

definition host_os_custom_uuid :: "'w host_env \<Rightarrow> 'w linux_host \<Rightarrow> cptr \<times> 'w linux_host" where
  "host_os_custom_uuid env s = (mh_file_first_line (he_files env) (lh_files s) CUSTOM_ID_FILE, s)"

definition REBOOT_ID_FILE :: string where "REBOOT_ID_FILE = ''/var/run/matahari-reboot-id''"

definition host_os_reboot_uuid :: "'w host_env \<Rightarrow> 'w linux_host \<Rightarrow> cptr \<times> 'w linux_host" where
  "host_os_reboot_uuid env s =
     (case mh_file_first_line (he_files env) (lh_files s) REBOOT_ID_FILE of
        Some uuid \<Rightarrow> (Some uuid, s)
      | None \<Rightarrow>
          (let uuid = he_uuid env (lh_generated s);
               s1 = s\<lparr>lh_generated := Suc (lh_generated s)\<rparr>
           in case file_set (he_files env) (lh_files s1) REBOOT_ID_FILE uuid of
                (Some error, w) \<Rightarrow> (Some (gerr_message error), s1\<lparr>lh_files := w\<rparr>)
              | (None, w) \<Rightarrow> (Some uuid, s1\<lparr>lh_files := w\<rparr>)))"

definition host_os_agent_uuid :: "'w host_env \<Rightarrow> 'w linux_host \<Rightarrow> cptr \<times> 'w linux_host" where
  "host_os_agent_uuid env s =
     (if lh_agent_uuid s \<noteq> [] then (Some (lh_agent_uuid s), s)
      else let uuid = he_uuid env (lh_generated s)
           in (Some uuid, s\<lparr>lh_agent_uuid := uuid, lh_generated := Suc (lh_generated s)\<rparr>))"

definition host_os_set_custom_uuid :: "'w host_env \<Rightarrow> cptr \<Rightarrow> 'w linux_host \<Rightarrow> int \<times> 'w linux_host" where
  "host_os_set_custom_uuid env uuid s =
     (case file_set (he_files env) (lh_files s) CUSTOM_ID_FILE (case uuid of None \<Rightarrow> [] | Some u \<Rightarrow> u) of
        (Some error, w) \<Rightarrow> (gerr_code error, s\<lparr>lh_files := w\<rparr>)
      | (None, w) \<Rightarrow> (0, s\<lparr>lh_files := w\<rparr>))"

section \<open>Power profiles\<close>

definition TIMEOUT :: int where "TIMEOUT = 10"
definition TUNEDADM :: string where "TUNEDADM = ''/usr/bin/tuned-adm''"
definition TA_OFF :: string where "TA_OFF = ''off''"

definition run_result :: "int \<times> int \<Rightarrow> mh_result" where
  "run_result r =
     (case r of (timeout, status) \<Rightarrow>
        if timeout = 0 then MH_RES_BACKEND_ERROR
        else if WIFEXITED status then if WEXITSTATUS status > 0 then MH_RES_BACKEND_ERROR else MH_RES_SUCCESS
        else if WIFSIGNALED status then MH_RES_BACKEND_ERROR
        else MH_RES_SUCCESS)"

text \<open>The result and what \<open>stdoutbuf\<close> points to, \<open>None\<close> for NULL.\<close>

definition exec_command ::
  "'w host_env \<Rightarrow> string list \<Rightarrow> int \<Rightarrow> bool \<Rightarrow> 'w linux_host \<Rightarrow> (mh_result \<times> cptr) \<times> 'w linux_host" where
  "exec_command env args atimeout want_stdout s =
     (if args = [] then ((MH_RES_OTHER_ERROR, None), s)
      else case he_spawn env args of
             None \<Rightarrow> ((MH_RES_OTHER_ERROR, None), s)
           | Some c \<Rightarrow>
               (let r = wait_loop (cr_waitpid c) 0 atimeout 0;
                    s1 = log_event (Ran args) s;
                    s2 = (if fst r = 0 then log_event (Killed (cr_pid c)) s1 else s1)
                in ((run_result r, if want_stdout then snd (mh_read_from_fd (cr_stdout c)) else None), s2)))"

text \<open>The \<open>do\<close> loop over the output of \<^verbatim>\<open>tuned-adm list\<close>; \<open>c1\<close> is the text from the pointer on.\<close>

function profile_loop :: "string \<Rightarrow> string list \<Rightarrow> string list" where
  "profile_loop c1 list =
     (let (c2, list') =
            (if take 1 c1 = ''-'' \<and> 2 < length c1
             then let name = drop 2 c1; e = strchr name (CHR 0x0A)
                  in (e, case e of
                           None \<Rightarrow> list
                         | Some r \<Rightarrow> if length r < length name then list @ [take (length name - length r) name] else list)
             else (strchr c1 (CHR 0x0A), list))
      in case c2 of
           None \<Rightarrow> list'
         | Some r \<Rightarrow> if tl r \<noteq> [] then profile_loop (tl r) list' else list')"
  by pat_completeness auto
termination
proof (relation "measure (\<lambda>(c1, l). length c1)", goal_cases)
  case (2 c1 list x c2 list' r)
  have "length r \<le> length c1"
    using 2 strchr_length [of c1 "CHR 0x0A" r] strchr_length [of "drop 2 c1" "CHR 0x0A" r]
    by (auto simp: Let_def split: if_splits)
  with 2(4) show ?case by (cases r) auto
qed simp

declare profile_loop.simps [simp del]

definition host_os_list_power_profiles :: "'w host_env \<Rightarrow> 'w linux_host \<Rightarrow> string list \<times> 'w linux_host" where
  "host_os_list_power_profiles env s =
     (case exec_command env [TUNEDADM, ''list''] TIMEOUT True s of ((res, stdoutbuf), s1) \<Rightarrow>
        (case stdoutbuf of
           None \<Rightarrow> ([], s1)
         | Some out \<Rightarrow>
             if res = MH_RES_SUCCESS
             then let list = profile_loop (cstr_of out) [] in (if list = [] then [TA_OFF] else list, s1)
             else ([], s1)))"

definition check_profile :: "'w host_env \<Rightarrow> string \<Rightarrow> 'w linux_host \<Rightarrow> bool \<times> 'w linux_host" where
  "check_profile env profile s =
     (case host_os_list_power_profiles env s of (list, s1) \<Rightarrow>
        (if list = [] then False else List.find (\<lambda>p. profile = p) list \<noteq> None, s1))"

definition host_os_set_power_profile :: "'w host_env \<Rightarrow> cptr \<Rightarrow> 'w linux_host \<Rightarrow> mh_result \<times> 'w linux_host" where
  "host_os_set_power_profile env profile s =
     (case profile of
        None \<Rightarrow> (MH_RES_INVALID_ARGS, s)
      | Some p \<Rightarrow>
          if p = TA_OFF
          then (case exec_command env [TUNEDADM, TA_OFF, p] TIMEOUT False s of ((res, _), s1) \<Rightarrow> (res, s1))
          else (case check_profile env p s of (ok, s1) \<Rightarrow>
                  if \<not> ok then (MH_RES_INVALID_ARGS, s1)
                  else (case exec_command env [TUNEDADM, ''profile'', p] TIMEOUT False s1 of ((res, _), s2) \<Rightarrow> (res, s2))))"

text \<open>The newline behind the first colon is overwritten with a NUL while the text two characters behind
  the colon is copied.\<close>

definition active_profile :: "string \<Rightarrow> string" where
  "active_profile out =
     (case strchr out (CHR '':'') of
        None \<Rightarrow> ''UNKNOWN''
      | Some c1 \<Rightarrow>
          if 2 < length c1
          then (case strchr c1 (CHR 0x0A) of
                  None \<Rightarrow> drop 2 c1
                | Some c2 \<Rightarrow> cstr_of (drop 2 (c1[length c1 - length c2 := NUL])))
          else ''UNKNOWN'')"

definition host_os_get_power_profile ::
  "'w host_env \<Rightarrow> cptr \<Rightarrow> 'w linux_host \<Rightarrow> (mh_result \<times> cptr) \<times> 'w linux_host" where
  "host_os_get_power_profile env profile s =
     (case exec_command env [TUNEDADM, ''active''] TIMEOUT True s of ((res, stdoutbuf), s1) \<Rightarrow>
        if res = MH_RES_SUCCESS
        then ((res, Some (case stdoutbuf of None \<Rightarrow> ''UNKNOWN'' | Some out \<Rightarrow> active_profile (cstr_of out))), s1)
        else ((MH_RES_BACKEND_ERROR, profile), s1))"

section \<open>The layer as a whole\<close>

definition linux_os :: "'w host_env \<Rightarrow> 'w linux_host host_os" where
  "linux_os env =
     \<lparr>os_uuid = (\<lambda>s. case mh_uuid (he_files env) (lh_files s) (lh_util s) of (u, ut) \<Rightarrow> (u, s\<lparr>lh_util := ut\<rparr>)),
      os_hostname = (\<lambda>s. case mh_hostname (he_files env) (lh_files s) (he_net env) (lh_util s) of (h, ut) \<Rightarrow>
                           (h, s\<lparr>lh_util := ut\<rparr>)),
      os_get_cpu_flags = host_os_get_cpu_flags env,
      os_reboot = host_os_reboot env,
      os_shutdown = host_os_shutdown env,
      os_identify = host_os_identify env,
      os_machine_uuid = host_os_machine_uuid env,
      os_ec2_instance_id = host_os_ec2_instance_id env,
      os_custom_uuid = host_os_custom_uuid env,
      os_reboot_uuid = host_os_reboot_uuid env,
      os_agent_uuid = host_os_agent_uuid env,
      os_set_custom_uuid = host_os_set_custom_uuid env,
      os_set_power_profile = host_os_set_power_profile env,
      os_get_power_profile = host_os_get_power_profile env,
      os_list_power_profiles = host_os_list_power_profiles env\<rparr>"

section \<open>The custom identifier\<close>

definition first_line :: "string \<Rightarrow> string" where
  "first_line v = takeWhile (\<lambda>c. c \<noteq> CHR 0x0A) v"

text \<open>The layer keeps an identifier if it can write the file.\<close>

definition custom_written :: "'w host_env \<Rightarrow> string \<Rightarrow> 'w linux_host \<Rightarrow> bool" where
  "custom_written env v s \<longleftrightarrow> fst (file_set (he_files env) (lh_files s) CUSTOM_ID_FILE v) = None"

interpretation linux_host: host_backend "linux_os env" "\<lambda>v s. file_laws (he_files env) \<and> custom_written env v s" first_line
  for env :: "'w host_env"
proof (unfold_locales, goal_cases)
  case (1 v o1 o2)
  obtain w where set: "file_set (he_files env) (lh_files o1) CUSTOM_ID_FILE v = (None, w)"
    using 1(1) by (auto simp: custom_written_def prod_eq_iff)
  then have o2: "lh_files o2 = w" using 1(3) by (auto simp: linux_os_def host_os_set_custom_uuid_def)
  have "mh_file_first_line (he_files env) w CUSTOM_ID_FILE = Some (takeWhile (\<lambda>c. c \<noteq> CHR 0x0A) (cstr_of v))"
    using set 1(1) file_set_ok(1,2) [of "he_files env" "lh_files o1" CUSTOM_ID_FILE v w]
    by (intro mh_file_first_line_get) simp_all
  then show ?case using o2 1(2) by (simp add: linux_os_def host_os_custom_uuid_def first_line_def)
qed

lemma set_custom_uuid_result:
  assumes "lifetime_of l = Some Custom" "custom_written env v (h_os s)"
  shows "fst (mh_host_set_uuid (linux_os env) l (Some v) s) = 0"
proof -
  have l: "\<not> mh_strlen_zero l \<and> strcasecmp ''custom'' (the l)"
    using assms(1) unfolding lifetime_of_def by (simp split: if_splits)
  show ?thesis using assms(2) unfolding mh_host_set_uuid_def if_P [OF l]
    by (auto simp: os_call_def linux_os_def host_os_set_custom_uuid_def custom_written_def split: prod.splits option.splits)
qed

section \<open>The list of profiles\<close>

text \<open>The lines of a text that are ended by a newline.\<close>

fun nl_lines :: "string \<Rightarrow> string \<Rightarrow> string list" where
  "nl_lines cur [] = []"
| "nl_lines cur (c # s) = (if c = CHR 0x0A then cur # nl_lines [] s else nl_lines (cur @ [c]) s)"

lemma nl_lines_append: "CHR 0x0A \<notin> set l \<Longrightarrow> nl_lines cur (l @ CHR 0x0A # s) = (cur @ l) # nl_lines [] s"
  by (induction l arbitrary: cur) auto

lemma nl_lines_none: "CHR 0x0A \<notin> set l \<Longrightarrow> nl_lines cur l = []"
  by (induction l arbitrary: cur) auto

definition is_profile :: "string \<Rightarrow> bool" where
  "is_profile l \<longleftrightarrow> take 1 l = ''-'' \<and> 2 < length l"

lemma take_1_append: "l \<noteq> [] \<Longrightarrow> take 1 (l @ r) = take 1 l"
  by (cases l) auto

lemma profile_loop_none: "CHR 0x0A \<notin> set s \<Longrightarrow> profile_loop s list = list"
proof -
  assume s: "CHR 0x0A \<notin> set s"
  then have "strchr s (CHR 0x0A) = None" "strchr (drop 2 s) (CHR 0x0A) = None"
    using in_set_dropD [of "CHR 0x0A" 2 s] by (auto simp only: strchr_None)
  then show ?thesis by (subst profile_loop.simps) (simp add: Let_def)
qed

lemma profile_loop_line:
  assumes nl: "CHR 0x0A \<notin> set l" and dash: "l \<noteq> ''-''"
  shows "profile_loop (l @ CHR 0x0A # r) list =
    (let list' = (if is_profile l then list @ [drop 2 l] else list) in if r \<noteq> [] then profile_loop r list' else list')"
proof (cases "take 1 (l @ CHR 0x0A # r) = ''-''")
  case True
  then obtain m where l: "l = CHR ''-'' # m" using nl by (cases l) auto
  with dash obtain x k where m: "m = x # k" by (cases m) auto
  have d: "drop 2 (l @ CHR 0x0A # r) = k @ CHR 0x0A # r" "CHR 0x0A \<notin> set k" "drop 2 l = k" using nl l m by simp_all
  have len: "2 < length (l @ CHR 0x0A # r)" using l m by simp
  define c1 where "c1 = l @ CHR 0x0A # r"
  have c1: "take 1 c1 = ''-''" "2 < length c1" "drop 2 c1 = k @ CHR 0x0A # r"
    using True len d(1) by (simp_all only: c1_def)
  have "profile_loop c1 list =
      (let list' = (if k \<noteq> [] then list @ [k] else list) in if r \<noteq> [] then profile_loop r list' else list')"
    using d(2) by (subst profile_loop.simps) (simp only: c1, simp add: Let_def)
  moreover have "is_profile l \<longleftrightarrow> k \<noteq> []" using l m by (simp add: is_profile_def)
  ultimately show ?thesis using d(3) by (simp add: c1_def)
next
  case False
  then have "\<not> is_profile l" using take_1_append [of l] by (cases "l = []") (auto simp: is_profile_def)
  then show ?thesis using False nl by (subst profile_loop.simps) (simp add: Let_def)
qed

lemma profile_loop_eq:
  "''-'' \<notin> set (nl_lines [] out) \<Longrightarrow>
   profile_loop out list = list @ map (drop 2) (filter is_profile (nl_lines [] out))"
proof (induction "length out" arbitrary: out list rule: less_induct)
  case less
  show ?case
  proof (cases "CHR 0x0A \<in> set out")
    case True
    then obtain l r where out: "out = l @ CHR 0x0A # r" and l: "CHR 0x0A \<notin> set l" by (meson split_list_first)
    have lines: "nl_lines [] out = l # nl_lines [] r" using nl_lines_append [OF l, of "[]" r] out by simp
    have "profile_loop r list' = list' @ map (drop 2) (filter is_profile (nl_lines [] r))" for list'
      using less.prems lines out by (intro less.hyps) auto
    moreover have "l \<noteq> ''-''" using less.prems lines by auto
    ultimately show ?thesis
      unfolding out profile_loop_line [OF l \<open>l \<noteq> ''-''\<close>] using lines out by (cases "r = []") (auto simp: Let_def)
  next
    case False
    then show ?thesis by (simp add: profile_loop_none nl_lines_none)
  qed
qed

section \<open>The response of the instance service\<close>

lemma curl_write_cb_start:
  assumes "length p < 256" "length b = 256"
  shows "curl_write_cb p 1 (of_nat (length p)) \<lparr>cw_buf = b, cw_used = 0\<rparr> =
    Some (of_nat (length p), \<lparr>cw_buf = p @ drop (length p) b, cw_used = 0\<rparr>)"
proof -
  have n: "unat (of_nat (length p) :: u64) = length p" using assms(1) by (simp add: unat_of_nat take_bit_nat_eq_self)
  then have "\<not> (of_nat (length p) :: u64) \<ge> 256" using assms(1) by (simp add: word_le_nat_alt)
  then show ?thesis using assms n by (simp add: curl_write_cb_def Let_def)
qed

lemma curl_write_cb_long:
  assumes "256 \<le> length p" "length p < 2 ^ 64"
  shows "curl_write_cb p 1 (of_nat (length p)) \<lparr>cw_buf = b, cw_used = 0\<rparr> = Some (0, \<lparr>cw_buf = b, cw_used = 0\<rparr>)"
proof -
  have n: "unat (of_nat (length p) :: u64) = length p" using assms(2) by (simp add: unat_of_nat take_bit_nat_eq_self)
  then have "(of_nat (length p) :: u64) \<ge> 256" using assms(1) by (simp add: word_le_nat_alt)
  then show ?thesis by (simp add: curl_write_cb_def)
qed

text \<open>Every piece is written over the beginning of the buffer.\<close>

fun overwrite :: "string list \<Rightarrow> char list \<Rightarrow> char list" where
  "overwrite [] b = b"
| "overwrite (p # ps) b = overwrite ps (p @ drop (length p) b)"

lemma length_overwrite: "\<forall>p\<in>set ps. length p \<le> length b \<Longrightarrow> length (overwrite ps b) = length b"
  by (induction ps arbitrary: b) auto

lemma curl_deliver_eq:
  "\<forall>p\<in>set ps. length p < 256 \<Longrightarrow> length b = 256 \<Longrightarrow>
   curl_deliver ps \<lparr>cw_buf = b, cw_used = 0\<rparr> = Some (True, \<lparr>cw_buf = overwrite ps b, cw_used = 0\<rparr>)"
  by (induction ps arbitrary: b) (auto simp: curl_write_cb_start)

section \<open>Properties\<close>

text \<open>C23: Setting the custom identifier, when the file \<^verbatim>\<open>/etc/custom-machine-id\<close> can be written, gives the result 0,
  and the identifier is given out from then on: after any further calls of the library other than setting an
  identifier, whatever the operating system and sigar answer in between, asking for the custom identifier gives
  its first line, or \<^verbatim>\<open>not-available\<close> if that is empty.\<close>

theorem custom_uuid_round_trip:
  assumes "file_laws (he_files env)" "is_cstr v" "lifetime_of l = Some Custom" "lifetime_of l' = Some Custom"
    and "fst (file_set (he_files env) (lh_files (h_os s)) CUSTOM_ID_FILE v) = None"
  shows "\<exists>s'. mh_host_set_uuid (linux_os env) l (Some v) s = (0, s') \<and>
    (\<forall>s''. host_call\<^sup>*\<^sup>* s' s'' \<longrightarrow>
       fst (mh_host_get_uuid (linux_os env') l' s'') = (if first_line v = [] then ''not-available'' else first_line v))"
proof -
  have w: "custom_written env v (h_os s)" using assms(5) by (simp add: custom_written_def)
  obtain s' where s': "mh_host_set_uuid (linux_os env) l (Some v) s = (0, s')"
    using set_custom_uuid_result [OF assms(3) w] by (auto simp: prod_eq_iff)
  have "fst (mh_host_get_uuid (linux_os env') l' s'') = (if first_line v = [] then ''not-available'' else first_line v)"
    if "host_call\<^sup>*\<^sup>* s' s''" for s''
    using linux_host.custom_round_trip [OF _ assms(2-4) s' that, of "linux_os env'"] assms(1) w
    by (simp add: shown_def mh_strlen_zero_def)
  with s' show ?thesis by blast
qed

text \<open>The result 0 alone does not say so: \<^verbatim>\<open>G_FILE_ERROR_EXIST\<close> is the error code 0, and a write that fails with
  it is reported like one that succeeded.\<close>

lemma set_custom_uuid_error:
  assumes "lifetime_of l = Some Custom" "file_set (he_files env) (lh_files (h_os s)) CUSTOM_ID_FILE v = (Some e, w)"
  shows "fst (mh_host_set_uuid (linux_os env) l (Some v) s) = gerr_code e"
proof -
  have l: "\<not> mh_strlen_zero l \<and> strcasecmp ''custom'' (the l)"
    using assms(1) unfolding lifetime_of_def by (simp split: if_splits)
  show ?thesis using assms(2) unfolding mh_host_set_uuid_def if_P [OF l]
    by (auto simp: os_call_def linux_os_def host_os_set_custom_uuid_def split: prod.splits)
qed

text \<open>C24: When \<^verbatim>\<open>tuned-adm list\<close> succeeds, the profiles listed are the names behind the dash and the character
  that follows it in the lines that begin with a dash, in their order, or \<^verbatim>\<open>off\<close> if there is none; only
  an output with a line that is a single dash is excluded, because the pointer then skips the
  end of that line.\<close>

theorem list_power_profiles_correct:
  assumes "he_spawn env [TUNEDADM, ''list''] = Some c" "run_result (wait_loop (cr_waitpid c) 0 TIMEOUT 0) = MH_RES_SUCCESS"
    and "cr_stdout c = Inr out" "is_cstr out" "''-'' \<notin> set (nl_lines [] out)"
  shows "fst (host_os_list_power_profiles env s) =
    (let ps = map (drop 2) (filter is_profile (nl_lines [] out)) in if ps = [] then [TA_OFF] else ps)"
proof -
  obtain s1 where "exec_command env [TUNEDADM, ''list''] TIMEOUT True s = ((MH_RES_SUCCESS, Some out), s1)"
    using assms(1-3) by (simp add: exec_command_def mh_read_from_fd_def Let_def)
  then show ?thesis
    using assms(4) profile_loop_eq [OF assms(5), of "[]"] by (simp add: host_os_list_power_profiles_def Let_def)
qed

lemma exec_command_events:
  assumes "exec_command env args t w s = (r, s')"
  shows "\<exists>es. lh_events s' = lh_events s @ es \<and> (\<forall>e\<in>set es. e = Ran args \<or> (\<exists>p. e = Killed p)) \<and>
    (fst r = MH_RES_SUCCESS \<longrightarrow> Ran args \<in> set es \<and>
       (\<exists>c. he_spawn env args = Some c \<and> run_result (wait_loop (cr_waitpid c) 0 t 0) = MH_RES_SUCCESS))"
  using assms by (auto simp: exec_command_def log_event_def Let_def split: if_splits option.splits)

lemma list_profiles_state:
  "\<exists>r. exec_command env [TUNEDADM, ''list''] TIMEOUT True s = (r, snd (host_os_list_power_profiles env s))"
  by (auto simp: host_os_list_power_profiles_def Let_def split: prod.splits option.splits)

text \<open>C25: A power profile is set only if it is \<^verbatim>\<open>off\<close> or one of the listed profiles: every other program that
  is run is the listing itself. The result is success only if the program for exactly this profile
  was run and ended with success in time.\<close>

theorem set_power_profile_only_listed:
  assumes "host_os_set_power_profile env (Some p) s = (res, s')"
  shows "\<exists>es. lh_events s' = lh_events s @ es \<and>
    (\<forall>args. Ran args \<in> set es \<and> args \<noteq> [TUNEDADM, ''list''] \<longrightarrow>
       args = [TUNEDADM, if p = TA_OFF then TA_OFF else ''profile'', p] \<and>
       (p = TA_OFF \<or> p \<in> set (fst (host_os_list_power_profiles env s)))) \<and>
    (res = MH_RES_SUCCESS \<longrightarrow>
       (\<exists>c. he_spawn env [TUNEDADM, if p = TA_OFF then TA_OFF else ''profile'', p] = Some c \<and>
          Ran [TUNEDADM, if p = TA_OFF then TA_OFF else ''profile'', p] \<in> set es \<and>
          run_result (wait_loop (cr_waitpid c) 0 TIMEOUT 0) = MH_RES_SUCCESS))"
proof (cases "p = TA_OFF")
  case True
  then obtain r where "exec_command env [TUNEDADM, TA_OFF, p] TIMEOUT False s = (r, s')" "fst r = res"
    using assms by (auto simp: host_os_set_power_profile_def split: prod.splits)
  from exec_command_events [OF this(1)] this(2) True show ?thesis by auto
next
  case False
  let ?cmd = "[TUNEDADM, ''profile'', p]"
  define list where "list = fst (host_os_list_power_profiles env s)"
  define s1 where "s1 = snd (host_os_list_power_profiles env s)"
  obtain r1 where ex1: "exec_command env [TUNEDADM, ''list''] TIMEOUT True s = (r1, s1)"
    using list_profiles_state [of env s] unfolding s1_def by blast
  obtain es1 where es1: "lh_events s1 = lh_events s @ es1"
    "\<forall>e\<in>set es1. e = Ran [TUNEDADM, ''list''] \<or> (\<exists>q. e = Killed q)"
    using exec_command_events [OF ex1] by blast
  have chk: "check_profile env p s = (p \<in> set list, s1)"
    by (cases "list = []") (auto simp: check_profile_def list_def s1_def find_None_iff split: prod.splits)
  show ?thesis
  proof (cases "p \<in> set list")
    case True
    then obtain r2 where "exec_command env ?cmd TIMEOUT False s1 = (r2, s')" "fst r2 = res"
      using assms chk False by (auto simp: host_os_set_power_profile_def split: prod.splits)
    from exec_command_events [OF this(1)] this(2) obtain es2 where es2: "lh_events s' = lh_events s1 @ es2"
      "\<forall>e\<in>set es2. e = Ran ?cmd \<or> (\<exists>q. e = Killed q)"
      "res = MH_RES_SUCCESS \<longrightarrow> Ran ?cmd \<in> set es2 \<and>
         (\<exists>c. he_spawn env ?cmd = Some c \<and> run_result (wait_loop (cr_waitpid c) 0 TIMEOUT 0) = MH_RES_SUCCESS)"
      by auto
    show ?thesis using es1 es2 True False by (intro exI [of _ "es1 @ es2"]) (auto simp: list_def)
  next
    case notin: False
    then have "res = MH_RES_INVALID_ARGS" "s' = s1"
      using assms chk False by (auto simp: host_os_set_power_profile_def)
    then show ?thesis using es1 by (intro exI [of _ es1]) auto
  qed
qed

text \<open>The identifier of a cloud instance is wrong when its response arrives in two pieces: the
  callback does not advance in its buffer, so that the second piece is written over the first one.
  The buffer is never left.\<close>

theorem ec2_pieces_overwritten:
  assumes "st_curl_init (lh_util s) \<or> he_curl_global env" "he_curl_easy env" "\<forall>i<4. he_setopt env i"
    and "he_body env = [p, q]" "length p < 256" "length q < 256" "is_cstr p" "is_cstr q" "p \<noteq> []" "q \<noteq> []"
  shows "fst (host_os_ec2_instance_id env s) = Some (q @ drop (length q) p) \<and> q @ drop (length q) p \<noteq> p @ q"
proof -
  let ?b = "replicate 256 NUL"
  have "overwrite [p, q] ?b = q @ drop (length q) (p @ drop (length p) ?b)" by simp
  also have "\<dots> = (q @ drop (length q) p) @ NUL # replicate (255 - max (length p) (length q)) NUL"
    using assms(5,6) by (simp add: replicate_Suc [symmetric] del: replicate_Suc)
  finally have ow: "overwrite [p, q] ?b = \<dots>" .
  have "is_cstr (drop (length q) p)" using assms(7) by (auto simp: is_cstr_def dest: in_set_dropD)
  then have "is_cstr (q @ drop (length q) p)" using assms(8) by (simp add: is_cstr_def)
  then have "cstr_of (overwrite [p, q] ?b) = q @ drop (length q) p" by (simp only: ow cstr_of_append_NUL)
  moreover obtain u where "mh_curl_init (he_curl_global env) (lh_util s) = (MH_RES_SUCCESS, u)"
    using assms(1) by (cases "st_curl_init (lh_util s)") (auto simp: mh_curl_init_def)
  moreover have "curl_deliver [p, q] \<lparr>cw_buf = ?b, cw_used = 0\<rparr> = Some (True, \<lparr>cw_buf = overwrite [p, q] ?b, cw_used = 0\<rparr>)"
    using assms(5,6) by (intro curl_deliver_eq) simp_all
  ultimately have "fst (host_os_ec2_instance_id env s) = Some (q @ drop (length q) p)"
    using assms(2-4,10) by (simp add: host_os_ec2_instance_id_def Let_def del: overwrite.simps curl_deliver.simps)
  moreover have "length (q @ drop (length q) p) \<noteq> length (p @ q)" using assms(9,10) by (cases p; cases q) auto
  ultimately show ?thesis by metis
qed

section \<open>Instances\<close>

definition tuned_out :: string where "tuned_out = ''P'' @ [CHR 0x0A] @ ''- a'' @ [CHR 0x0A]"

definition he_demo :: "store host_env" where
  "he_demo = \<lparr>he_files = store_ops, he_net = \<lparr>host_name = ''h'', domain_name = ''d''\<rparr>, he_cpuinfo = None,
     he_pcre = (\<lambda>r. None), he_command = (\<lambda>c. True), he_open_tty = False, he_ioctl = 0, he_dmidecode = None,
     he_curl_global = True, he_curl_easy = True, he_setopt = (\<lambda>i. True), he_body = [''i-1'', ''23''],
     he_uuid = (\<lambda>n. ''u''),
     he_spawn = (\<lambda>args. Some \<lparr>cr_pid = 42, cr_waitpid = (\<lambda>k. (42, 0)), cr_stdout = Inr tuned_out\<rparr>)\<rparr>"

definition lh_demo :: "store linux_host" where
  "lh_demo = \<lparr>lh_files = Map.empty, lh_util = util_init, lh_flags = None, lh_agent_uuid = [], lh_generated = 0,
     lh_events = []\<rparr>"

lemma demo_laws: "file_laws (he_files he_demo)"
  using store_ops_laws by (simp add: he_demo_def)

lemma demo_custom: "lifetime_of (Some ''Custom'') = Some Custom"
  by code_simp

lemma demo_wait: "wait_loop (\<lambda>k. (42, 0)) 0 TIMEOUT 0 = (TIMEOUT, 0)"
  using wait_loop_found [of 0 "\<lambda>k. (42, 0)" 0 TIMEOUT 0] by (simp add: TIMEOUT_def)

lemma demo_result: "run_result (TIMEOUT, 0) = MH_RES_SUCCESS"
  using wait_status_exit [of 0] by (simp add: run_result_def TIMEOUT_def)

theorem custom_uuid_round_trip_witness:
  "\<exists>s'. mh_host_set_uuid (linux_os he_demo) (Some ''Custom'') (Some ''x'') (host_start lh_demo) = (0, s') \<and>
     fst (mh_host_get_uuid (linux_os he_demo) (Some ''Custom'') (mh_host_reboot (linux_os he_demo) s')) = ''x''"
proof -
  have "is_cstr ''x''" "fst (file_set (he_files he_demo) (lh_files (h_os (host_start lh_demo))) CUSTOM_ID_FILE ''x'') = None"
    by (simp_all add: is_cstr_def NUL_def he_demo_def file_simps host_start_def lh_demo_def)
  from custom_uuid_round_trip [OF demo_laws this(1) demo_custom demo_custom this(2), of he_demo]
  obtain s' where "mh_host_set_uuid (linux_os he_demo) (Some ''Custom'') (Some ''x'') (host_start lh_demo) = (0, s')"
    "\<And>s''. host_call\<^sup>*\<^sup>* s' s'' \<Longrightarrow> fst (mh_host_get_uuid (linux_os he_demo) (Some ''Custom'') s'') = ''x''"
    by (auto simp: first_line_def)
  then show ?thesis using host_call.reboot [of s' "linux_os he_demo"] by blast
qed

theorem list_power_profiles_correct_witness:
  "fst (host_os_list_power_profiles he_demo lh_demo) = [''a'']"
proof -
  have "is_cstr tuned_out" "''-'' \<notin> set (nl_lines [] tuned_out)"
    by (simp_all add: tuned_out_def is_cstr_def NUL_def)
  then have "fst (host_os_list_power_profiles he_demo lh_demo) =
    (let ps = map (drop 2) (filter is_profile (nl_lines [] tuned_out)) in if ps = [] then [TA_OFF] else ps)"
    using demo_wait demo_result
    by (intro list_power_profiles_correct [where c = "\<lparr>cr_pid = 42, cr_waitpid = (\<lambda>k. (42, 0)), cr_stdout = Inr tuned_out\<rparr>"])
      (simp_all add: he_demo_def)
  then show ?thesis by (simp add: tuned_out_def is_profile_def)
qed

theorem set_power_profile_only_listed_witness:
  "\<exists>es. lh_events (snd (host_os_set_power_profile he_demo (Some TA_OFF) lh_demo)) = es \<and>
    Ran [TUNEDADM, TA_OFF, TA_OFF] \<in> set es"
proof -
  have "fst (host_os_set_power_profile he_demo (Some TA_OFF) lh_demo) = MH_RES_SUCCESS"
    using demo_wait demo_result
    by (simp add: host_os_set_power_profile_def exec_command_def he_demo_def Let_def)
  then obtain s' where "host_os_set_power_profile he_demo (Some TA_OFF) lh_demo = (MH_RES_SUCCESS, s')"
    by (metis prod.collapse)
  with set_power_profile_only_listed [OF this] show ?thesis by (auto simp: lh_demo_def)
qed

theorem ec2_pieces_overwritten_witness:
  "fst (host_os_ec2_instance_id he_demo lh_demo) = Some ''231''"
proof -
  have "is_cstr ''i-1''" "is_cstr ''23''" by (simp_all add: is_cstr_def NUL_def)
  then have "fst (host_os_ec2_instance_id he_demo lh_demo) = Some (''23'' @ drop (length ''23'') ''i-1'') \<and>
      ''23'' @ drop (length ''23'') ''i-1'' \<noteq> ''i-1'' @ ''23''"
    by (intro ec2_pieces_overwritten) (simp_all add: he_demo_def)
  then show ?thesis by simp
qed

theorem host_uuid_stable_witness:
  "fst (mh_host_get_uuid (linux_os (he_demo\<lparr>he_uuid := (\<lambda>n. ''v'')\<rparr>)) (Some ''agent'')
     (snd (mh_host_set_uuid (linux_os he_demo) (Some ''Custom'') (Some ''x'')
       (snd (mh_host_get_uuid (linux_os he_demo) (Some ''agent'') (host_start lh_demo)))))) = ''u''"
proof -
  let ?s1 = "snd (mh_host_get_uuid (linux_os he_demo) (Some ''agent'') (host_start lh_demo))"
  have l: "lifetime_of (Some ''agent'') = Some Agent" by code_simp
  have g: "mh_host_get_uuid (linux_os he_demo) (Some ''agent'') (host_start lh_demo) = (''u'', ?s1)"
    by (simp add: get_uuid_eq l host_start_def os_call_def linux_os_def host_os_agent_uuid_def he_demo_def lh_demo_def
        shown_def mh_strlen_zero_def Let_def)
  have "host_step\<^sup>*\<^sup>* ?s1 (snd (mh_host_set_uuid (linux_os he_demo) (Some ''Custom'') (Some ''x'') ?s1))"
    by (intro r_into_rtranclp host_step.set_uuid)
  from host_uuid_stable [OF g _ _ this] l show ?thesis by simp
qed

end
