(* ===== verification/Host_Agent.thy ===== *)
theory Host_Agent
  imports Host_Linux
begin

text \<open>
  \<^verbatim>\<open>src/src/host/host-dbus.c\<close>: the D-Bus agent of the host library: its methods, the properties of its
  object and their types. The operating system layer is an argument, as in the library.
\<close>

record 'o host_agent =
  ha_host :: "'o host"
  update_interval :: u32

definition HOST_BUS_NAME :: string where "HOST_BUS_NAME = ''org.matahariproject.Host''"

text \<open>A call of the library by the agent.\<close>

definition lib_call :: "('o host \<Rightarrow> 'a \<times> 'o host) \<Rightarrow> 'o host_agent \<Rightarrow> 'a \<times> 'o host_agent" where
  "lib_call f s = (case f (ha_host s) of (r, h) \<Rightarrow> (r, s\<lparr>ha_host := h\<rparr>))"

section \<open>Methods\<close>

definition Host_identify :: "'o host_os \<Rightarrow> polkit \<Rightarrow> cptr \<Rightarrow> 'o host_agent handler" where
  "Host_identify os pk context =
     guarded pk (HOST_BUS_NAME @ ''.identify'') context
       (\<lambda>s. case lib_call (mh_host_identify os) s of (_, s1) \<Rightarrow> Some ((Returned [GBool True], True), s1))"

definition Host_shutdown :: "'o host_os \<Rightarrow> polkit \<Rightarrow> cptr \<Rightarrow> 'o host_agent handler" where
  "Host_shutdown os pk context =
     guarded pk (HOST_BUS_NAME @ ''.shutdown'') context
       (\<lambda>s. Some ((Returned [GBool True], True), s\<lparr>ha_host := mh_host_shutdown os (ha_host s)\<rparr>))"

definition Host_reboot :: "'o host_os \<Rightarrow> polkit \<Rightarrow> cptr \<Rightarrow> 'o host_agent handler" where
  "Host_reboot os pk context =
     guarded pk (HOST_BUS_NAME @ ''.reboot'') context
       (\<lambda>s. Some ((Returned [GBool True], True), s\<lparr>ha_host := mh_host_reboot os (ha_host s)\<rparr>))"

definition Host_get_uuid :: "'o host_os \<Rightarrow> polkit \<Rightarrow> cptr \<Rightarrow> cptr \<Rightarrow> 'o host_agent handler" where
  "Host_get_uuid os pk lifetime context =
     guarded pk (HOST_BUS_NAME @ ''.get_uuid'') context
       (\<lambda>s. case lib_call (mh_host_get_uuid os lifetime) s of (uuid, s1) \<Rightarrow>
              Some ((Returned [GString (Some uuid)], True), s1))"

definition Host_set_uuid :: "'o host_os \<Rightarrow> polkit \<Rightarrow> cptr \<Rightarrow> cptr \<Rightarrow> cptr \<Rightarrow> 'o host_agent handler" where
  "Host_set_uuid os pk lifetime uuid context =
     guarded pk (HOST_BUS_NAME @ ''.set_uuid'') context
       (\<lambda>s. case lib_call (mh_host_set_uuid os lifetime uuid) s of (rc, s1) \<Rightarrow>
              Some ((Returned [GInt rc], True), s1))"

definition Host_set_power_profile :: "'o host_os \<Rightarrow> polkit \<Rightarrow> cptr \<Rightarrow> cptr \<Rightarrow> 'o host_agent handler" where
  "Host_set_power_profile os pk profile context =
     guarded pk (HOST_BUS_NAME @ ''.set_power_profile'') context
       (\<lambda>s. case lib_call (mh_host_set_power_profile os profile) s of (res, s1) \<Rightarrow>
              if res \<noteq> MH_RES_SUCCESS then Some ((Failed (Some (matahari_error res)), False), s1)
              else Some ((Returned [GInt 0], True), s1))"

definition Host_get_power_profile :: "'o host_os \<Rightarrow> polkit \<Rightarrow> cptr \<Rightarrow> 'o host_agent handler" where
  "Host_get_power_profile os pk context =
     guarded pk (HOST_BUS_NAME @ ''.get_power_profile'') context
       (\<lambda>s. case lib_call (mh_host_get_power_profile os None) s of ((res, profile), s1) \<Rightarrow>
              if res \<noteq> MH_RES_SUCCESS then Some ((Failed (Some (matahari_error res)), False), s1)
              else Some ((Returned [GString profile], True), s1))"

definition Host_list_power_profiles :: "'o host_os \<Rightarrow> polkit \<Rightarrow> cptr \<Rightarrow> 'o host_agent handler" where
  "Host_list_power_profiles os pk context =
     guarded pk (HOST_BUS_NAME @ ''.list_power_profiles'') context
       (\<lambda>s. case lib_call (mh_host_list_power_profiles os) s of (list, s1) \<Rightarrow>
              Some ((Returned [GStrv list], True), s1))"

datatype host_request =
    Req_identify
  | Req_shutdown
  | Req_reboot
  | Req_get_uuid cptr
  | Req_set_uuid cptr cptr
  | Req_set_power_profile cptr
  | Req_get_power_profile
  | Req_list_power_profiles

fun host_action :: "host_request \<Rightarrow> string" where
  "host_action Req_identify = HOST_BUS_NAME @ ''.identify''"
| "host_action Req_shutdown = HOST_BUS_NAME @ ''.shutdown''"
| "host_action Req_reboot = HOST_BUS_NAME @ ''.reboot''"
| "host_action (Req_get_uuid _) = HOST_BUS_NAME @ ''.get_uuid''"
| "host_action (Req_set_uuid _ _) = HOST_BUS_NAME @ ''.set_uuid''"
| "host_action (Req_set_power_profile _) = HOST_BUS_NAME @ ''.set_power_profile''"
| "host_action Req_get_power_profile = HOST_BUS_NAME @ ''.get_power_profile''"
| "host_action Req_list_power_profiles = HOST_BUS_NAME @ ''.list_power_profiles''"

fun host_handle :: "'o host_os \<Rightarrow> polkit \<Rightarrow> cptr \<Rightarrow> host_request \<Rightarrow> 'o host_agent handler" where
  "host_handle os pk ctx Req_identify = Host_identify os pk ctx"
| "host_handle os pk ctx Req_shutdown = Host_shutdown os pk ctx"
| "host_handle os pk ctx Req_reboot = Host_reboot os pk ctx"
| "host_handle os pk ctx (Req_get_uuid l) = Host_get_uuid os pk l ctx"
| "host_handle os pk ctx (Req_set_uuid l u) = Host_set_uuid os pk l u ctx"
| "host_handle os pk ctx (Req_set_power_profile p) = Host_set_power_profile os pk p ctx"
| "host_handle os pk ctx Req_get_power_profile = Host_get_power_profile os pk ctx"
| "host_handle os pk ctx Req_list_power_profiles = Host_list_power_profiles os pk ctx"

interpretation hostd: dbus_agent "host_handle os" host_action for os :: "'o host_os"
proof (unfold_locales, goal_cases)
  case (1 pk r ctx s)
  then show ?case
    by (cases r) (simp_all add: Host_identify_def Host_shutdown_def Host_reboot_def Host_get_uuid_def Host_set_uuid_def
        Host_set_power_profile_def Host_get_power_profile_def Host_list_power_profiles_def guarded_denied)
qed

section \<open>Properties of the object\<close>

datatype host_prop =
    HOST_PROP_0 | HOST_UUID | HOST_HOSTNAME | HOST_OS | HOST_ARCH | HOST_WORDSIZE | HOST_MEMORY | HOST_SWAP
  | HOST_CPU_COUNT | HOST_CPU_CORES | HOST_CPU_MODEL | HOST_CPU_FLAGS | HOST_UPDATE_INTERVAL | HOST_LAST_UPDATED
  | HOST_SEQUENCE | HOST_FREE_MEM | HOST_FREE_SWAP | HOST_LOAD | HOST_PROCESS_STATISTICS | HOST_CUSTOM_UUID

text \<open>\<open>matahari_set_property\<close>: the value is that of the unsigned integer given.\<close>

definition host_set_property :: "host_prop \<Rightarrow> u32 \<Rightarrow> 'o host_agent \<Rightarrow> 'o host_agent" where
  "host_set_property p v s = (if p = HOST_UPDATE_INTERVAL then s\<lparr>update_interval := v\<rparr> else s)"

definition load_dict :: "u64 \<times> u64 \<times> u64 \<Rightarrow> gvalue" where
  "load_dict avg =
     (case avg of (a, b, c) \<Rightarrow>
        GMap (dict_add (dict_add (dict_add dict_new ''1'' (GDouble a)) ''5'' (GDouble b)) ''15'' (GDouble c)))"

definition gint :: "u64 \<Rightarrow> gvalue" where
  "gint v = GInt (int_of_u32 (ucast v))"

definition procs_dict :: "sigar_procs \<Rightarrow> gvalue" where
  "procs_dict p =
     (let d1 = dict_add dict_new ''total'' (gint (pr_total p));
          d2 = dict_add d1 ''idle'' (gint (pr_idle p));
          d3 = dict_add d2 ''zombie'' (gint (pr_zombie p));
          d4 = dict_add d3 ''running'' (gint (pr_running p));
          d5 = dict_add d4 ''stopped'' (gint (pr_stopped p));
          d6 = dict_add d5 ''sleeping'' (gint (pr_sleeping p))
      in GMap d6)"

definition read_prop :: "('a \<Rightarrow> gvalue) \<Rightarrow> ('o host \<Rightarrow> 'a \<times> 'o host) \<Rightarrow> 'o host_agent \<Rightarrow> gvalue option \<times> 'o host_agent" where
  "read_prop g f s = (case lib_call f s of (v, s1) \<Rightarrow> (Some (g v), s1))"

text \<open>\<open>matahari_get_property\<close>; \<open>None\<close> leaves the value as it is.\<close>

fun host_get_property ::
  "'o host_os \<Rightarrow> sigar \<Rightarrow> host_prop \<Rightarrow> 'o host_agent \<Rightarrow> gvalue option \<times> 'o host_agent" where
  "host_get_property os sg HOST_PROP_0 s = (None, s)"
| "host_get_property os sg HOST_UUID s = read_prop (\<lambda>u. GString (Some u)) (mh_host_get_uuid os None) s"
| "host_get_property os sg HOST_HOSTNAME s = read_prop (\<lambda>u. GString (Some u)) (mh_host_get_hostname os) s"
| "host_get_property os sg HOST_OS s = read_prop (\<lambda>u. GString (Some u)) (mh_host_get_operating_system sg) s"
| "host_get_property os sg HOST_ARCH s = read_prop (\<lambda>u. GString (Some u)) (mh_host_get_architecture sg) s"
| "host_get_property os sg HOST_WORDSIZE s = (Some (GUint (word_of_int mh_host_get_cpu_wordsize)), s)"
| "host_get_property os sg HOST_MEMORY s = read_prop GUint64 (mh_host_get_memory sg) s"
| "host_get_property os sg HOST_SWAP s = read_prop GUint64 (mh_host_get_swap sg) s"
| "host_get_property os sg HOST_CPU_COUNT s = read_prop (\<lambda>n. GUint (word_of_int n)) (mh_host_get_cpu_count sg) s"
| "host_get_property os sg HOST_CPU_CORES s = read_prop (\<lambda>n. GUint (word_of_int n)) (mh_host_get_cpu_number_of_cores sg) s"
| "host_get_property os sg HOST_CPU_MODEL s = read_prop GString (mh_host_get_cpu_model sg) s"
| "host_get_property os sg HOST_CPU_FLAGS s = read_prop (\<lambda>u. GString (Some u)) (mh_host_get_cpu_flags os) s"
| "host_get_property os sg HOST_UPDATE_INTERVAL s = (Some (GUint (update_interval s)), s)"
| "host_get_property os sg HOST_LAST_UPDATED s = (None, s)"
| "host_get_property os sg HOST_SEQUENCE s = (None, s)"
| "host_get_property os sg HOST_FREE_MEM s = read_prop GUint64 (mh_host_get_mem_free sg) s"
| "host_get_property os sg HOST_FREE_SWAP s = read_prop GUint64 (mh_host_get_swap_free sg) s"
| "host_get_property os sg HOST_LOAD s = read_prop load_dict (mh_host_get_load_averages sg) s"
| "host_get_property os sg HOST_PROCESS_STATISTICS s = read_prop procs_dict (mh_host_get_processes sg) s"
| "host_get_property os sg HOST_CUSTOM_UUID s =
     read_prop (\<lambda>u. GString (Some u)) (mh_host_get_uuid os (Some ''Custom'')) s"

definition host_dict_type :: "host_prop \<Rightarrow> gtype" where
  "host_dict_type p =
     (if p = HOST_LOAD then G_TYPE_DOUBLE else if p = HOST_PROCESS_STATISTICS then G_TYPE_INT else G_TYPE_VALUE)"

text \<open>The initial state that \<open>main\<close> sets up.\<close>

definition host_main :: "'o \<Rightarrow> 'o host_agent" where
  "host_main osv = \<lparr>ha_host = host_start osv, update_interval = 5\<rparr>"

end
