(* ===== verification/Network.thy ===== *)
theory Network
  imports Dbus
begin

text \<open>
  \<^verbatim>\<open>src/src/lib/network.c\<close>, \<^verbatim>\<open>src/src/lib/network_linux.c\<close> and the D-Bus agent
  \<^verbatim>\<open>src/src/network/network-dbus.c\<close>: the table of network interfaces, starting and stopping them, and
  their addresses.

  The state \<open>'w\<close> of the machine is abstract. \<open>net_ops\<close> holds what libsigar reports in a state (the
  interface names, the configuration of a name, the text of its address) and \<^verbatim>\<open>g_spawn_async\<close>, which
  may fail or change the state.
\<close>

record ifconfig =
  if_name :: string
  if_flags :: u64
  if_address :: string
  if_mac :: "8 word list"

record 'w net_ops =
  net_interface_list :: "'w \<Rightarrow> string list option"
  net_interface_config :: "'w \<Rightarrow> string \<Rightarrow> ifconfig option"
  net_spawn :: "string list \<Rightarrow> 'w \<Rightarrow> bool \<times> 'w"

section \<open>network.c\<close>

definition SIGAR_IFF_UP :: u64 where "SIGAR_IFF_UP = 1"
definition MH_NETWORK_IF_UP :: u64 where "MH_NETWORK_IF_UP = push_bit 0 1"
definition MH_NETWORK_IF_DOWN :: u64 where "MH_NETWORK_IF_DOWN = push_bit 1 1"

definition mh_network_interface_get_name :: "ifconfig \<Rightarrow> string" where
  "mh_network_interface_get_name iface = if_name iface"

definition mh_network_interface_get_flags :: "ifconfig \<Rightarrow> u64" where
  "mh_network_interface_get_flags iface =
     (if if_flags iface AND SIGAR_IFF_UP \<noteq> 0 then MH_NETWORK_IF_UP else MH_NETWORK_IF_DOWN)"

fun interface_table_loop :: "'w net_ops \<Rightarrow> 'w \<Rightarrow> string list \<Rightarrow> ifconfig list \<Rightarrow> ifconfig list" where
  "interface_table_loop ops w [] interfaces = interfaces"
| "interface_table_loop ops w (name # names) interfaces =
     (case net_interface_config ops w name of
        None \<Rightarrow> interface_table_loop ops w names interfaces
      | Some iface \<Rightarrow> interface_table_loop ops w names (iface # interfaces))"

definition query_interface_table :: "'w net_ops \<Rightarrow> 'w \<Rightarrow> ifconfig list" where
  "query_interface_table ops w =
     (case net_interface_list ops w of None \<Rightarrow> [] | Some names \<Rightarrow> interface_table_loop ops w names [])"

definition mh_network_get_interfaces :: "'w net_ops \<Rightarrow> 'w \<Rightarrow> ifconfig list" where
  "mh_network_get_interfaces ops w = query_interface_table ops w"

section \<open>network_linux.c\<close>

definition network_os_start :: "'w net_ops \<Rightarrow> string \<Rightarrow> 'w \<Rightarrow> 'w" where
  "network_os_start ops iface w = snd (net_spawn ops [''/sbin/ifup'', iface] w)"

definition network_os_stop :: "'w net_ops \<Rightarrow> string \<Rightarrow> 'w \<Rightarrow> 'w" where
  "network_os_stop ops iface w = snd (net_spawn ops [''/sbin/ifdown'', iface] w)"

section \<open>network.c, continued\<close>

definition mh_network_start :: "'w net_ops \<Rightarrow> string \<Rightarrow> 'w \<Rightarrow> 'w" where
  "mh_network_start ops iface w = network_os_start ops iface w"

definition mh_network_stop :: "'w net_ops \<Rightarrow> string \<Rightarrow> 'w \<Rightarrow> 'w" where
  "mh_network_stop ops iface w = network_os_stop ops iface w"

definition mh_network_restart :: "'w net_ops \<Rightarrow> string \<Rightarrow> 'w \<Rightarrow> 'w" where
  "mh_network_restart ops iface w = network_os_start ops iface (network_os_stop ops iface w)"

text \<open>The loop of \<open>mh_network_status\<close> does not stop at a match: the result and the caller's flags.\<close>

fun status_loop :: "ifconfig list \<Rightarrow> string \<Rightarrow> int \<times> u64 \<Rightarrow> int \<times> u64" where
  "status_loop [] iface r = r"
| "status_loop (i # is) iface r =
     status_loop is iface
       (if mh_network_interface_get_name i = iface then (0, mh_network_interface_get_flags i) else r)"

definition mh_network_status :: "'w net_ops \<Rightarrow> 'w \<Rightarrow> string \<Rightarrow> u64 \<Rightarrow> int \<times> u64" where
  "mh_network_status ops w iface flags = status_loop (mh_network_get_interfaces ops w) iface (1, flags)"

text \<open>The search loops of the address functions stop at the first match.\<close>

fun first_named :: "ifconfig list \<Rightarrow> string \<Rightarrow> ifconfig option" where
  "first_named [] iface = None"
| "first_named (i # is) iface =
     (if mh_network_interface_get_name i = iface then Some i else first_named is iface)"

text \<open>The address functions write into the caller's buffer; \<open>None\<close> is a write outside it.\<close>

definition clear_buf :: "char list \<Rightarrow> nat \<Rightarrow> char list option" where
  "clear_buf buf len =
     (if len = 0 then Some buf else if buf = [] then None else Some (buf[0 := NUL]))"

definition mh_network_get_ip_address :: "'w net_ops \<Rightarrow> 'w \<Rightarrow> string \<Rightarrow> char list \<Rightarrow> nat \<Rightarrow> char list option" where
  "mh_network_get_ip_address ops w iface buf len =
     (case clear_buf buf len of
        None \<Rightarrow> None
      | Some buf' \<Rightarrow>
          (case first_named (mh_network_get_interfaces ops w) iface of
             None \<Rightarrow> Some buf'
           | Some i \<Rightarrow> mh_string_copy buf' (if_address i) len))"

definition hex_digit :: "nat \<Rightarrow> char" where
  "hex_digit d = (if d < 10 then char_of (48 + d) else char_of (55 + d))"

definition hex2 :: "8 word \<Rightarrow> string" where
  "hex2 b = [hex_digit (unat b div 16), hex_digit (unat b mod 16)]"

definition mac_text :: "8 word list \<Rightarrow> string" where
  "mac_text m =
     hex2 (m ! 0) @ '':'' @ hex2 (m ! 1) @ '':'' @ hex2 (m ! 2) @ '':'' @ hex2 (m ! 3) @ '':'' @
     hex2 (m ! 4) @ '':'' @ hex2 (m ! 5)"

definition mh_network_get_mac_address :: "'w net_ops \<Rightarrow> 'w \<Rightarrow> string \<Rightarrow> char list \<Rightarrow> nat \<Rightarrow> char list option" where
  "mh_network_get_mac_address ops w iface buf len =
     (case clear_buf buf len of
        None \<Rightarrow> None
      | Some buf' \<Rightarrow>
          (case first_named (mh_network_get_interfaces ops w) iface of
             None \<Rightarrow> Some buf'
           | Some i \<Rightarrow> snprintf_buf buf' len (mac_text (if_mac i))))"

section \<open>network-dbus.c\<close>

definition NETWORK_BUS_NAME :: string where
  "NETWORK_BUS_NAME = ''org.matahariproject.Network''"

definition RUNNING :: int where "RUNNING = 0"
definition INACTIVE :: int where "INACTIVE = 1"

definition interface_status :: "'w net_ops \<Rightarrow> 'w \<Rightarrow> string \<Rightarrow> int" where
  "interface_status ops w iface =
     (if snd (mh_network_status ops w iface 0) AND MH_NETWORK_IF_UP \<noteq> 0 then RUNNING else INACTIVE)"

definition Network_list :: "'w net_ops \<Rightarrow> polkit \<Rightarrow> cptr \<Rightarrow> 'w handler" where
  "Network_list ops pk context =
     guarded pk (NETWORK_BUS_NAME @ ''.list'') context
       (\<lambda>w. Some ((Returned [GStrv (map mh_network_interface_get_name (mh_network_get_interfaces ops w))], True), w))"

definition Network_start :: "'w net_ops \<Rightarrow> polkit \<Rightarrow> string \<Rightarrow> cptr \<Rightarrow> 'w handler" where
  "Network_start ops pk iface context =
     guarded pk (NETWORK_BUS_NAME @ ''.start'') context
       (\<lambda>w. let status = interface_status ops w iface
            in if status \<noteq> RUNNING
               then let w' = mh_network_start ops iface w
                    in Some ((Returned [GInt (interface_status ops w' iface)], True), w')
               else Some ((Returned [GInt status], True), w))"

definition Network_stop :: "'w net_ops \<Rightarrow> polkit \<Rightarrow> string \<Rightarrow> cptr \<Rightarrow> 'w handler" where
  "Network_stop ops pk iface context =
     guarded pk (NETWORK_BUS_NAME @ ''.stop'') context
       (\<lambda>w. let status = interface_status ops w iface
            in if status \<noteq> INACTIVE
               then let w' = mh_network_stop ops iface w
                    in Some ((Returned [GInt (interface_status ops w' iface)], True), w')
               else Some ((Returned [GInt status], True), w))"

definition Network_status :: "'w net_ops \<Rightarrow> polkit \<Rightarrow> string \<Rightarrow> cptr \<Rightarrow> 'w handler" where
  "Network_status ops pk iface context =
     guarded pk (NETWORK_BUS_NAME @ ''.status'') context
       (\<lambda>w. Some ((Returned [GInt (interface_status ops w iface)], True), w))"

text \<open>\<open>uninit\<close> is the initial contents of the local buffer.\<close>

definition Network_get_ip_address :: "'w net_ops \<Rightarrow> polkit \<Rightarrow> char list \<Rightarrow> string \<Rightarrow> cptr \<Rightarrow> 'w handler" where
  "Network_get_ip_address ops pk uninit iface context =
     guarded pk (NETWORK_BUS_NAME @ ''.get_ip_address'') context
       (\<lambda>w. map_option (\<lambda>buf. ((Returned [GString (Some (cstr_of buf))], True), w))
              (mh_network_get_ip_address ops w iface (take 64 uninit) 64))"

definition Network_get_mac_address :: "'w net_ops \<Rightarrow> polkit \<Rightarrow> char list \<Rightarrow> string \<Rightarrow> cptr \<Rightarrow> 'w handler" where
  "Network_get_mac_address ops pk uninit iface context =
     guarded pk (NETWORK_BUS_NAME @ ''.get_mac_address'') context
       (\<lambda>w. map_option (\<lambda>buf. ((Returned [GString (Some (cstr_of buf))], True), w))
              (mh_network_get_mac_address ops w iface (take 32 uninit) 32))"

text \<open>The methods of the exported interface, the action each one asks for, and the handler.\<close>

datatype network_request =
    Net_list
  | Net_start string
  | Net_stop string
  | Net_status string
  | Net_get_ip_address string
  | Net_get_mac_address string

fun network_action :: "network_request \<Rightarrow> string" where
  "network_action Net_list = NETWORK_BUS_NAME @ ''.list''"
| "network_action (Net_start _) = NETWORK_BUS_NAME @ ''.start''"
| "network_action (Net_stop _) = NETWORK_BUS_NAME @ ''.stop''"
| "network_action (Net_status _) = NETWORK_BUS_NAME @ ''.status''"
| "network_action (Net_get_ip_address _) = NETWORK_BUS_NAME @ ''.get_ip_address''"
| "network_action (Net_get_mac_address _) = NETWORK_BUS_NAME @ ''.get_mac_address''"

fun network_handle :: "'w net_ops \<Rightarrow> char list \<Rightarrow> polkit \<Rightarrow> cptr \<Rightarrow> network_request \<Rightarrow> 'w handler" where
  "network_handle ops uninit pk ctx Net_list = Network_list ops pk ctx"
| "network_handle ops uninit pk ctx (Net_start i) = Network_start ops pk i ctx"
| "network_handle ops uninit pk ctx (Net_stop i) = Network_stop ops pk i ctx"
| "network_handle ops uninit pk ctx (Net_status i) = Network_status ops pk i ctx"
| "network_handle ops uninit pk ctx (Net_get_ip_address i) = Network_get_ip_address ops pk uninit i ctx"
| "network_handle ops uninit pk ctx (Net_get_mac_address i) = Network_get_mac_address ops pk uninit i ctx"

text \<open>\<open>matahari_get_property\<close> of this agent; the identifiers are those of the generated enumeration.\<close>

datatype network_prop = NET_PROP_0 | NET_HOSTNAME | NET_UUID | NET_QMF_GEN_NO_CRASH

definition network_get_property ::
  "'w file_ops \<Rightarrow> 'w \<Rightarrow> sigar_net_info \<Rightarrow> network_prop \<Rightarrow> util_state \<Rightarrow> gvalue option \<times> util_state" where
  "network_get_property fo w netinfo p s =
     (case p of
        NET_PROP_0 \<Rightarrow> (None, s)
      | NET_HOSTNAME \<Rightarrow> (case mh_hostname fo w netinfo s of (h, s') \<Rightarrow> (Some (GString (Some h)), s'))
      | NET_UUID \<Rightarrow> (case mh_uuid fo w s of (u, s') \<Rightarrow> (Some (GString (Some u)), s'))
      | NET_QMF_GEN_NO_CRASH \<Rightarrow> (None, s))"

section \<open>Lemmas\<close>

interpretation network_agent: dbus_agent "network_handle ops uninit" network_action
proof
  fix pk ctx r w
  assume "\<not> authorized pk (network_action r) ctx"
  then show "network_handle ops uninit pk ctx r w =
      Some ((Failed (snd (check_authorization pk (network_action r) ctx)), False), w)"
    by (cases r) (simp_all add: Network_list_def Network_start_def Network_stop_def Network_status_def
        Network_get_ip_address_def Network_get_mac_address_def guarded_denied)
qed

lemma interface_table_loop_eq:
  "interface_table_loop ops w names acc = rev (List.map_filter (net_interface_config ops w) names) @ acc"
  by (induction names arbitrary: acc) (auto simp: List.map_filter_simps split: option.splits)

lemma first_named_find: "first_named is iface = List.find (\<lambda>i. if_name i = iface) is"
  by (induction "is") (auto simp: mh_network_interface_get_name_def)

lemma status_loop_eq:
  "status_loop is iface r =
     (case List.find (\<lambda>i. if_name i = iface) (rev is) of
        None \<Rightarrow> r | Some i \<Rightarrow> (0, mh_network_interface_get_flags i))"
  by (induction "is" arbitrary: r)
    (auto simp: mh_network_interface_get_name_def find_snoc split: option.splits)

lemma get_flags_up: "mh_network_interface_get_flags i AND MH_NETWORK_IF_UP = 0 \<longleftrightarrow> if_flags i AND SIGAR_IFF_UP = 0"
  by (simp add: mh_network_interface_get_flags_def MH_NETWORK_IF_UP_def MH_NETWORK_IF_DOWN_def)

lemma hex_digit_inject: "d < 16 \<Longrightarrow> e < 16 \<Longrightarrow> hex_digit d = hex_digit e \<longleftrightarrow> d = e"
proof
  assume d: "d < 16" "e < 16" and "hex_digit d = hex_digit e"
  then have "(of_char (hex_digit d) :: nat) = of_char (hex_digit e)" by simp
  with d show "d = e" by (auto simp: hex_digit_def split: if_splits)
qed simp

lemma hex2_inject [simp]: "hex2 a = hex2 b \<longleftrightarrow> a = b"
proof
  assume "hex2 a = hex2 b"
  moreover have "unat a < 256" "unat b < 256"
    using unsigned_less [of a, where 'a = nat] unsigned_less [of b, where 'a = nat] by simp_all
  ultimately have "unat a div 16 = unat b div 16" "unat a mod 16 = unat b mod 16"
    by (simp_all add: hex2_def hex_digit_inject div_less_iff_less_mult)
  then have "unat a = unat b" by (metis div_mult_mod_eq)
  then show "a = b" by (rule unsigned_word_eqI)
qed simp

lemma length_hex2 [simp]: "length (hex2 b) = 2"
  by (simp add: hex2_def)

lemma length_mac_text [simp]: "length (mac_text m) = 17"
  by (simp add: mac_text_def)

lemma mac_text_inject:
  assumes "length m = 6" "length m' = 6"
  shows "mac_text m = mac_text m' \<longleftrightarrow> m = m'"
proof
  assume "mac_text m = mac_text m'"
  then have "m ! 0 = m' ! 0" "m ! 1 = m' ! 1" "m ! 2 = m' ! 2" "m ! 3 = m' ! 3" "m ! 4 = m' ! 4" "m ! 5 = m' ! 5"
    by (simp_all add: mac_text_def)
  moreover have "i < 6 \<Longrightarrow> i = 0 \<or> i = 1 \<or> i = 2 \<or> i = 3 \<or> i = 4 \<or> i = 5" for i :: nat by linarith
  ultimately show "m = m'" using assms by (intro nth_equalityI) auto
qed simp

lemma interfaces_map_filter:
  "mh_network_get_interfaces ops w =
     (case net_interface_list ops w of
        None \<Rightarrow> [] | Some names \<Rightarrow> rev (List.map_filter (net_interface_config ops w) names))"
  by (simp add: mh_network_get_interfaces_def query_interface_table_def interface_table_loop_eq split: option.splits)

lemma find_member:
  assumes "distinct (map if_name is)"
  shows "List.find (\<lambda>i. if_name i = name) is = Some i \<longleftrightarrow> i \<in> set is \<and> if_name i = name"
  using find_distinct [OF assms, of i] by (auto simp: find_Some_iff)

lemma interface_status_eq:
  "interface_status ops w iface =
     (case List.find (\<lambda>i. if_name i = iface) (rev (mh_network_get_interfaces ops w)) of
        None \<Rightarrow> INACTIVE
      | Some i \<Rightarrow> if if_flags i AND SIGAR_IFF_UP \<noteq> 0 then RUNNING else INACTIVE)"
  by (simp add: interface_status_def mh_network_status_def status_loop_eq get_flags_up split: option.splits)

lemma interface_status_RUNNING:
  assumes "distinct (map if_name (mh_network_get_interfaces ops w))"
  shows "interface_status ops w iface = RUNNING \<longleftrightarrow>
    (\<exists>i\<in>set (mh_network_get_interfaces ops w). if_name i = iface \<and> if_flags i AND SIGAR_IFF_UP \<noteq> 0)"
proof -
  have d: "distinct (map if_name (rev (mh_network_get_interfaces ops w)))"
    using assms by (metis distinct_rev rev_map)
  show ?thesis
  proof (cases "List.find (\<lambda>i. if_name i = iface) (rev (mh_network_get_interfaces ops w))")
    case None
    then have "interface_status ops w iface = INACTIVE" by (simp add: interface_status_eq)
    with None show ?thesis by (auto simp: find_None_iff INACTIVE_def RUNNING_def)
  next
    case (Some i)
    then have "i \<in> set (mh_network_get_interfaces ops w)" "if_name i = iface"
      using find_member [OF d] by auto
    moreover have "j = i" if "j \<in> set (mh_network_get_interfaces ops w)" "if_name j = iface" for j
      using Some that find_member [OF d, of iface j] by simp
    ultimately have "(\<exists>j\<in>set (mh_network_get_interfaces ops w). if_name j = iface \<and> if_flags j AND SIGAR_IFF_UP \<noteq> 0)
        \<longleftrightarrow> if_flags i AND SIGAR_IFF_UP \<noteq> 0"
      by blast
    moreover have "interface_status ops w iface = (if if_flags i AND SIGAR_IFF_UP \<noteq> 0 then RUNNING else INACTIVE)"
      using Some by (simp add: interface_status_eq)
    ultimately show ?thesis by (simp add: INACTIVE_def RUNNING_def)
  qed
qed

section \<open>Properties\<close>

text \<open>An authorized start request for an interface leaves the machine alone when the interface is
  already up and otherwise runs \<^verbatim>\<open>/sbin/ifup\<close> on it, and (interface names being distinct) its reply is
  0 exactly when an interface of that name is up in the state it leaves.\<close>

theorem Network_start_correct:
  assumes "authorized pk (NETWORK_BUS_NAME @ ''.start'') ctx"
    "\<And>v. distinct (map if_name (mh_network_get_interfaces ops v))"
  shows "\<exists>status w'. Network_start ops pk iface ctx w = Some ((Returned [GInt status], True), w')
    \<and> w' = (if \<exists>i\<in>set (mh_network_get_interfaces ops w). if_name i = iface \<and> if_flags i AND SIGAR_IFF_UP \<noteq> 0
            then w else snd (net_spawn ops [''/sbin/ifup'', iface] w))
    \<and> (status = 0 \<longleftrightarrow>
         (\<exists>i\<in>set (mh_network_get_interfaces ops w'). if_name i = iface \<and> if_flags i AND SIGAR_IFF_UP \<noteq> 0))"
proof -
  note up = interface_status_RUNNING [OF assms(2)]
  show ?thesis
  proof (cases "interface_status ops w iface = RUNNING")
    case True
    then show ?thesis using up [of w iface] assms(1)
      by (simp add: Network_start_def guarded_allowed Let_def) (simp add: RUNNING_def)
  next
    case False
    let ?w' = "snd (net_spawn ops [''/sbin/ifup'', iface] w)"
    have "Network_start ops pk iface ctx w = Some ((Returned [GInt (interface_status ops ?w' iface)], True), ?w')"
      using False assms(1)
      by (simp add: Network_start_def guarded_allowed Let_def mh_network_start_def network_os_start_def)
    with False up [of w iface] up [of ?w' iface] show ?thesis by (simp only: RUNNING_def) simp
  qed
qed

text \<open>A machine with one interface whose up flag the two commands set and clear.\<close>

definition one_interface :: "bool net_ops" where
  "one_interface =
     \<lparr>net_interface_list = (\<lambda>w. Some [''eth0'']),
      net_interface_config = (\<lambda>w n. Some \<lparr>if_name = n, if_flags = (if w then 1 else 0), if_address = ''10.0.0.1'',
                                           if_mac = [0, 0x1B, 0x21, 0xFF, 0xA0, 5]\<rparr>),
      net_spawn = (\<lambda>cmd w. (True, cmd ! 0 = ''/sbin/ifup''))\<rparr>"

theorem Network_start_correct_witness:
  "\<exists>status w'. Network_start one_interface (allow_only [NETWORK_BUS_NAME @ ''.start'']) ''eth0'' (Some '':1.7'') False
      = Some ((Returned [GInt status], True), w') \<and> w' \<and> status = 0"
proof -
  have "\<And>v. distinct (map if_name (mh_network_get_interfaces one_interface v))"
    by (simp add: one_interface_def mh_network_get_interfaces_def query_interface_table_def)
  with Network_start_correct [of "allow_only [NETWORK_BUS_NAME @ ''.start'']" "Some '':1.7''" one_interface "''eth0''" False]
  obtain status w' where
    "Network_start one_interface (allow_only [NETWORK_BUS_NAME @ ''.start'']) ''eth0'' (Some '':1.7'') False
      = Some ((Returned [GInt status], True), w')" "w'" "status = 0 \<longleftrightarrow> w'"
    by (auto simp: one_interface_def mh_network_get_interfaces_def query_interface_table_def SIGAR_IFF_UP_def
        split: if_splits)
  then show ?thesis by blast
qed

text \<open>For a buffer of at least 18 bytes the hardware address of an interface is written into it
  complete and terminated, as six two-digit hexadecimal numbers, within the given size; the text is
  empty when no interface has the name, and different addresses have different texts.\<close>

theorem mh_network_get_mac_address_correct:
  assumes "18 \<le> len" "len \<le> length buf"
  shows "\<exists>buf'. mh_network_get_mac_address ops w iface buf len = Some buf' \<and> length buf' = length buf \<and>
    (case List.find (\<lambda>i. if_name i = iface) (mh_network_get_interfaces ops w) of
       None \<Rightarrow> cstr_of buf' = []
     | Some i \<Rightarrow> cstr_of buf' = mac_text (if_mac i) \<and> length (cstr_of buf') = 17 \<and>
         (\<forall>m. length m = 6 \<and> length (if_mac i) = 6 \<and> cstr_of buf' = mac_text m \<longrightarrow> m = if_mac i))"
proof -
  have clear: "clear_buf buf len = Some (buf[0 := NUL])" and ne: "buf \<noteq> []"
    using assms by (auto simp: clear_buf_def)
  have cstr: "is_cstr (mac_text m)" for m
  proof -
    have "(of_char (hex_digit d) :: nat) \<noteq> 0" if "d < 16" for d
      using that by (auto simp: hex_digit_def)
    then have "hex_digit d \<noteq> NUL" if "d < 16" for d
      using that by (force simp: NUL_def)
    moreover have "unat b div 16 < 16" "unat b mod 16 < 16" for b :: "8 word"
      using unsigned_less [of b, where 'a = nat] by (simp_all add: div_less_iff_less_mult)
    ultimately have "is_cstr (hex2 b)" for b by (simp add: hex2_def)
    then show ?thesis by (simp add: mac_text_def NUL_def)
  qed
  show ?thesis
  proof (cases "first_named (mh_network_get_interfaces ops w) iface")
    case None
    with clear ne show ?thesis
      by (cases buf) (simp_all add: mh_network_get_mac_address_def first_named_find cstr_of_def)
  next
    case (Some i)
    have "0 < len" "len \<le> length (buf[0 := NUL])" using assms by simp_all
    from snprintf_buf_cstr [OF this cstr]
    obtain buf' where "snprintf_buf (buf[0 := NUL]) len (mac_text (if_mac i)) = Some buf'"
      "cstr_of buf' = snprintf len (mac_text (if_mac i))" "length buf' = length buf" by auto
    with Some clear assms(1) show ?thesis
      by (auto simp: mh_network_get_mac_address_def first_named_find mac_text_inject)
  qed
qed

theorem mh_network_get_mac_address_correct_witness:
  "\<exists>buf'. mh_network_get_mac_address one_interface True ''eth0'' (replicate 32 NUL) 32 = Some buf' \<and>
     cstr_of buf' = ''00:1B:21:FF:A0:05''"
proof -
  have f: "List.find (\<lambda>i. if_name i = ''eth0'') (mh_network_get_interfaces one_interface True) =
      Some \<lparr>if_name = ''eth0'', if_flags = 1, if_address = ''10.0.0.1'', if_mac = [0, 0x1B, 0x21, 0xFF, 0xA0, 5]\<rparr>"
    by (simp add: one_interface_def mh_network_get_interfaces_def query_interface_table_def)
  have "mac_text [0, 0x1B, 0x21, 0xFF, 0xA0, 5] = ''00:1B:21:FF:A0:05''"
    by (simp add: mac_text_def hex2_def hex_digit_def char_of_def bit_simps)
  with mh_network_get_mac_address_correct [of 32 "replicate 32 NUL" one_interface True "''eth0''"] show ?thesis
    by (auto simp: f)
qed

end
