(* ===== verification/Windows_Base.thy ===== *)
theory Windows_Base
  imports Utilities Dnssrv Network
begin

text \<open>
  The smaller Windows layers: \<^verbatim>\<open>src/src/lib/utilities_windows.c\<close>, \<^verbatim>\<open>src/src/lib/dnssrv_windows.c\<close> and
  \<^verbatim>\<open>src/src/lib/network_windows.c\<close>, and the part of the registry that they and the host library use.

  \<open>reg_ops\<close> are the operations on the values of the registry key of Matahari, on an abstract state: whether
  the key can be opened; reading a value into a buffer of a given size, which gives whether that
  succeeds and the bytes that were stored in the buffer in any case; writing a value. \<open>reg_laws\<close> is what
  the documentation of these calls promises. The \<open>i\<close>-th identifier that is generated is \<open>uuids i\<close>, \<open>None\<close> if
  it cannot be made a string.
\<close>

section \<open>The registry\<close>

record 'r reg_ops =
  reg_open :: "'r \<Rightarrow> bool"
  reg_query :: "'r \<Rightarrow> string \<Rightarrow> nat \<Rightarrow> bool \<times> char list"
  reg_set :: "'r \<Rightarrow> string \<Rightarrow> char list \<Rightarrow> bool \<times> 'r"

text \<open>A value that was written is read back if the buffer has room for it, other values do not change, and no
  more bytes are stored than the buffer has room for.\<close>

definition reg_laws :: "'r reg_ops \<Rightarrow> bool" where
  "reg_laws ro \<longleftrightarrow>
     (\<forall>r k v r'. reg_set ro r k v = (True, r') \<longrightarrow>
        reg_open ro r' = reg_open ro r \<and>
        (\<forall>room. length v \<le> room \<longrightarrow> reg_query ro r' k room = (True, v)) \<and>
        (\<forall>k' room. k' \<noteq> k \<longrightarrow> reg_query ro r' k' room = reg_query ro r k' room)) \<and>
     (\<forall>r k room. length (snd (reg_query ro r k room)) \<le> room)"

type_synonym registry = "string \<rightharpoonup> char list"

definition registry_ops :: "registry reg_ops" where
  "registry_ops =
     \<lparr>reg_open = (\<lambda>r. True),
      reg_query = (\<lambda>r k room. case r k of None \<Rightarrow> (False, []) | Some v \<Rightarrow> if length v \<le> room then (True, v) else (False, [])),
      reg_set = (\<lambda>r k v. (True, r(k \<mapsto> v)))\<rparr>"

lemma registry_ops_laws: "reg_laws registry_ops"
  by (auto simp: reg_laws_def registry_ops_def split: option.split)

lemma reg_set_query:
  assumes "reg_laws ro" and "reg_set ro r k v = (True, r')"
  shows "reg_open ro r' = reg_open ro r" "length v \<le> room \<Longrightarrow> reg_query ro r' k room = (True, v)"
  using assms by (simp_all add: reg_laws_def)

text \<open>Bytes stored at the beginning of an array.\<close>

definition overlay :: "char list \<Rightarrow> char list \<Rightarrow> char list" where
  "overlay bytes buf = bytes @ drop (length bytes) buf"

section \<open>utilities\_windows.c\<close>

definition MAXUUIDLEN :: nat where "MAXUUIDLEN = 255"
definition UUID_REGISTRY_KEY :: string where "UUID_REGISTRY_KEY = ''UUID''"

definition mh_os_dnsdomainname_windows :: "sigar_net_info \<Rightarrow> util_state \<Rightarrow> string \<times> util_state" where
  "mh_os_dnsdomainname_windows netinfo s = mh_domainname netinfo s"

text \<open>The registry, the static array \<open>uuid_str\<close> and the number of identifiers generated so far.\<close>

record 'r win_util =
  wu_reg :: 'r
  wu_uuid_str :: "char list"
  wu_generated :: nat

definition mh_os_uuid_windows :: "'r reg_ops \<Rightarrow> (nat \<Rightarrow> cptr) \<Rightarrow> 'r win_util \<Rightarrow> string \<times> 'r win_util" where
  "mh_os_uuid_windows ro uuids s =
     (if \<not> reg_open ro (wu_reg s) then ([], s)
      else case reg_query ro (wu_reg s) UUID_REGISTRY_KEY (MAXUUIDLEN - 1) of (ok, bytes) \<Rightarrow>
        let buf = overlay bytes (wu_uuid_str s)
        in if ok
           then let buf1 = buf[length bytes := NUL] in (cstr_of buf1, s\<lparr>wu_uuid_str := buf1\<rparr>)
           else let s1 = s\<lparr>wu_uuid_str := buf, wu_generated := Suc (wu_generated s)\<rparr>
                in case uuids (wu_generated s) of
                     None \<Rightarrow> (cstr_of buf, s1)
                   | Some rs \<Rightarrow>
                       (case mh_string_copy buf rs MAXUUIDLEN of
                          None \<Rightarrow> (cstr_of buf, s1)
                        | Some buf1 \<Rightarrow>
                            (case reg_set ro (wu_reg s1) UUID_REGISTRY_KEY (cstr_of buf1 @ [NUL]) of (res, r) \<Rightarrow>
                               (cstr_of buf1, s1\<lparr>wu_uuid_str := buf1, wu_reg := r\<rparr>))))"

section \<open>dnssrv\_windows.c\<close>

definition NI_MAXHOST :: nat where "NI_MAXHOST = 1025"

text \<open>The answer of \<^verbatim>\<open>DnsQuery\<close> is a list of records with the name in the encoding of the result. A name that does not fit
  into \<open>host\<close> leaves it as it was: \<open>uninit\<close> is the string that is there.\<close>

fun dns_loop :: "insert_sorted \<Rightarrow> string \<Rightarrow> mh_dnssrv_record list \<Rightarrow> ns_rr list \<Rightarrow> mh_dnssrv_record list" where
  "dns_loop ins uninit records [] = records"
| "dns_loop ins uninit records (OtherRR # rrs) = dns_loop ins uninit records rrs"
| "dns_loop ins uninit records (SrvRR priority weight port name # rrs) =
     (let host = (if length name + 1 \<le> NI_MAXHOST then name else uninit)
      in dns_loop ins uninit (mh_dnssrv_add_record ins records host port priority weight 0) rrs)"

definition mh_os_dnssrv_lookup_windows :: "insert_sorted \<Rightarrow> string \<Rightarrow> ns_rr list option \<Rightarrow> mh_dnssrv_record list" where
  "mh_os_dnssrv_lookup_windows ins uninit answer =
     (case answer of None \<Rightarrow> [] | Some rrs \<Rightarrow> dns_loop ins uninit [] rrs)"

section \<open>network\_windows.c\<close>

text \<open>\<open>create\<close> is \<^verbatim>\<open>CreateProcess\<close>; its result is not looked at.\<close>

definition network_os_setstate :: "(string \<Rightarrow> 'w \<Rightarrow> bool \<times> 'w) \<Rightarrow> cptr \<Rightarrow> string \<Rightarrow> string \<Rightarrow> 'w \<Rightarrow> 'w" where
  "network_os_setstate create windir iface state w =
     (let p = (case windir of None \<Rightarrow> ''(null)'' | Some d \<Rightarrow> d);
          exe_path = [CHR 0x22] @ p @ [CHR 0x5C] @ ''system32'' @ [CHR 0x5C] @ ''netsh'' @ [CHR 0x22] @
            '' interface set interface '' @ iface @ '' '' @ state
      in snd (create exe_path w))"

definition network_os_stop_windows :: "(string \<Rightarrow> 'w \<Rightarrow> bool \<times> 'w) \<Rightarrow> cptr \<Rightarrow> string \<Rightarrow> 'w \<Rightarrow> 'w" where
  "network_os_stop_windows create windir iface w = network_os_setstate create windir iface ''disabled'' w"

definition network_os_start_windows :: "(string \<Rightarrow> 'w \<Rightarrow> bool \<times> 'w) \<Rightarrow> cptr \<Rightarrow> string \<Rightarrow> 'w \<Rightarrow> 'w" where
  "network_os_start_windows create windir iface w = network_os_setstate create windir iface ''enabled'' w"

section \<open>Properties\<close>

lemma overlay_length [simp]: "length bytes \<le> length buf \<Longrightarrow> length (overlay bytes buf) = length buf"
  by (simp add: overlay_def)

text \<open>The identifier of a Windows host survives a restart: once it was generated and stored in the registry, a
  new process that finds the registry as the first one left it gets the same identifier.\<close>

theorem windows_uuid_persists:
  assumes "reg_laws ro" and "length (wu_uuid_str s) = MAXUUIDLEN" and "length (wu_uuid_str t) = MAXUUIDLEN"
    and "reg_open ro (wu_reg s)" and "\<not> fst (reg_query ro (wu_reg s) UUID_REGISTRY_KEY 254)"
    and "uuids (wu_generated s) = Some u" and "is_cstr u" and "length u \<le> 253"
    and "\<And>v. fst (reg_set ro (wu_reg s) UUID_REGISTRY_KEY v)"
    and "mh_os_uuid_windows ro uuids s = (id1, s1)" and "wu_reg t = wu_reg s1"
  shows "id1 = u \<and> fst (mh_os_uuid_windows ro uuids' t) = u"
proof -
  let ?buf = "overlay (snd (reg_query ro (wu_reg s) UUID_REGISTRY_KEY 254)) (wu_uuid_str s)"
  have "length (snd (reg_query ro (wu_reg s) UUID_REGISTRY_KEY 254)) \<le> 254"
    using assms(1) unfolding reg_laws_def by blast
  then have "length ?buf = 255" using assms(2) by (simp add: MAXUUIDLEN_def)
  with assms(7,8) obtain buf1 where buf1: "mh_string_copy ?buf u MAXUUIDLEN = Some buf1" "cstr_of buf1 = u"
    using mh_string_copy_cstr [of MAXUUIDLEN ?buf u] by (auto simp: MAXUUIDLEN_def)
  obtain r where r: "reg_set ro (wu_reg s) UUID_REGISTRY_KEY (u @ [NUL]) = (True, r)"
    using assms(9) [of "u @ [NUL]"] by (cases "reg_set ro (wu_reg s) UUID_REGISTRY_KEY (u @ [NUL])") simp
  have s1: "id1 = u" "wu_reg s1 = r"
    using assms(10) buf1 r assms(4,5,6)
    by (auto simp: mh_os_uuid_windows_def MAXUUIDLEN_def Let_def split: prod.splits)
  have q: "reg_open ro r" "reg_query ro r UUID_REGISTRY_KEY 254 = (True, u @ [NUL])"
    using reg_set_query [OF assms(1) r] assms(4,8) by simp_all
  have "fst (mh_os_uuid_windows ro uuids' t) = u"
    using q assms(3,7,8,11) s1 by (simp add: mh_os_uuid_windows_def MAXUUIDLEN_def Let_def overlay_def list_update_append)
  with s1 show ?thesis by simp
qed

theorem windows_uuid_persists_witness:
  "fst (mh_os_uuid_windows registry_ops (\<lambda>i. Some ''uuid-7'') \<lparr>wu_reg = Map.empty, wu_uuid_str = replicate 255 NUL, wu_generated = 0\<rparr>)
     = ''uuid-7'' \<and>
   fst (mh_os_uuid_windows registry_ops (\<lambda>i. None)
     \<lparr>wu_reg = wu_reg (snd (mh_os_uuid_windows registry_ops (\<lambda>i. Some ''uuid-7'')
         \<lparr>wu_reg = Map.empty, wu_uuid_str = replicate 255 NUL, wu_generated = 0\<rparr>)),
      wu_uuid_str = replicate 255 NUL, wu_generated = 0\<rparr>) = ''uuid-7''"
  by (rule windows_uuid_persists [OF registry_ops_laws, where s = "\<lparr>wu_reg = Map.empty, wu_uuid_str = replicate 255 NUL, wu_generated = 0\<rparr>"])
    (simp_all add: registry_ops_def MAXUUIDLEN_def is_cstr_def NUL_def)

text \<open>On the same answer of the name server the Windows layer gives the records that the Linux layer gives, if
  every name fits into the array for it; so the order of the records does not depend on the system.\<close>

theorem dnssrv_windows_equals_linux:
  assumes "\<forall>rr\<in>set rrs. case rr of OtherRR \<Rightarrow> True | SrvRR p w port name \<Rightarrow> length name < NI_MAXHOST" and "0 < len"
  shows "mh_os_dnssrv_lookup_windows ins uninit (Some rrs) = mh_os_dnssrv_lookup ins (len, Some (map Some rrs))"
proof -
  have "dns_loop ins uninit records rrs = collect_records ins records (map Some rrs)" for records
    using assms(1) by (induction ins uninit records rrs rule: dns_loop.induct) simp_all
  then show ?thesis using assms(2) by (simp add: mh_os_dnssrv_lookup_windows_def mh_os_dnssrv_lookup_def)
qed

theorem dnssrv_windows_equals_linux_witness:
  "mh_os_dnssrv_lookup_windows (\<lambda>f xs x. xs @ [x]) [] (Some [SrvRR 1 2 49000 ''a'', OtherRR]) =
   mh_os_dnssrv_lookup (\<lambda>f xs x. xs @ [x]) (1, Some [Some (SrvRR 1 2 49000 ''a''), Some OtherRR])"
  using dnssrv_windows_equals_linux [of "[SrvRR 1 2 49000 ''a'', OtherRR]" 1] by (simp add: NI_MAXHOST_def)

end
