(* ===== verification/Host_Windows.thy ===== *)
theory Host_Windows
  imports Host Windows_Base
begin

text \<open>
  \<^verbatim>\<open>src/src/lib/host_windows.c\<close>: the Windows layer of the host library. Its state has the registry and the
  statics of the utility library (\<open>win_util\<close>), the static of this file, the list of effects on the
  machine, and \<open>wh_fault\<close>: that the process crashed or that a call does not return. What Windows, the programs
  \<^verbatim>\<open>WMIC\<close> and \<^verbatim>\<open>powercfg\<close> and the instance service answer are the fields of \<open>whost_env\<close>; \<open>wv_wmic\<close> gives the output for an
  object of \<^verbatim>\<open>WMIC\<close>, \<open>None\<close> if there is none, and \<open>wv_read\<close> the result of the \<open>i\<close>-th \<^verbatim>\<open>InternetReadFile\<close> with a given room.
\<close>

section \<open>State and environment\<close>

datatype win_event = Privileged | Restarting | Powering_off | Beeped | Started "string list" | Terminated "string list"

datatype win_fault = Crashed | Hung

record 'r win_host =
  wh_base :: "'r win_util"
  wh_util :: util_state
  wh_flags :: cptr
  wh_events :: "win_event list"
  wh_fault :: "win_fault option"

text \<open>A program that was started: its exit code once the wait for the given milliseconds is over, \<open>None\<close> if it
  cannot be read, and its output.\<close>

record win_run =
  wr_exit :: "int \<Rightarrow> u32 option"
  wr_stdout :: "gerror + string"

record 'r whost_env =
  wv_reg :: "'r reg_ops"
  wv_uuid :: "nat \<Rightarrow> cptr"
  wv_net :: sigar_net_info
  wv_token :: bool
  wv_beep :: bool
  wv_wmic :: "string \<Rightarrow> cptr"
  wv_internet :: bool
  wv_open_url :: bool
  wv_read :: "nat \<Rightarrow> nat \<Rightarrow> bool \<times> string"
  wv_spawn :: "string list \<Rightarrow> win_run option"

definition win_log :: "win_event \<Rightarrow> 'r win_host \<Rightarrow> 'r win_host" where
  "win_log e s = s\<lparr>wh_events := wh_events s @ [e]\<rparr>"

definition nonempty :: "string \<Rightarrow> cptr" where
  "nonempty t = (if t = [] then None else Some t)"

section \<open>Reboot, shutdown, identify\<close>

definition host_os_get_cpu_flags_windows :: "'r win_host \<Rightarrow> string \<times> 'r win_host" where
  "host_os_get_cpu_flags_windows s =
     (case wh_flags s of
        Some flags \<Rightarrow> (flags, s)
      | None \<Rightarrow> (''unknown'', s\<lparr>wh_flags := Some ''unknown''\<rparr>))"

definition enable_se_priv :: "'r whost_env \<Rightarrow> 'r win_host \<Rightarrow> 'r win_host" where
  "enable_se_priv env s = (if wv_token env then win_log Privileged s else s)"

definition host_os_reboot_windows :: "'r whost_env \<Rightarrow> 'r win_host \<Rightarrow> 'r win_host" where
  "host_os_reboot_windows env s = win_log Restarting (enable_se_priv env s)"

definition host_os_shutdown_windows :: "'r whost_env \<Rightarrow> 'r win_host \<Rightarrow> 'r win_host" where
  "host_os_shutdown_windows env s = win_log Powering_off (enable_se_priv env s)"

definition host_os_identify_windows :: "'r whost_env \<Rightarrow> 'r win_host \<Rightarrow> int \<times> 'r win_host" where
  "host_os_identify_windows env s = (if wv_beep env then 0 else - 1, win_log Beeped s)"

section \<open>Identifiers\<close>

definition CRLF :: string where "CRLF = [CHR 0x0D, CHR 0x0A]"

definition host_os_machine_uuid_windows :: "'r whost_env \<Rightarrow> 'r win_host \<Rightarrow> cptr \<times> 'r win_host" where
  "host_os_machine_uuid_windows env s =
     (case wv_wmic env ''CSPRODUCT'' of
        None \<Rightarrow> (None, s)
      | Some output \<Rightarrow>
          (case strstr output CRLF of
             None \<Rightarrow> (None, s)
           | Some p \<Rightarrow>
               (let begin = drop 2 p
                in if begin = [] then (None, s)
                   else case strstr begin CRLF of
                          None \<Rightarrow> (None, s)
                        | Some rest \<Rightarrow> (Some (take (length begin - length rest) begin), s))))"

text \<open>The loop that reads the identifier of the instance: the bytes are stored behind the string that is in \<open>buf\<close>.
  \<open>None\<close> is a loop that does not end.\<close>

partial_function (option) ec2_loop :: "(nat \<Rightarrow> nat \<Rightarrow> bool \<times> string) \<Rightarrow> nat \<Rightarrow> char list \<Rightarrow> char list option" where
  "ec2_loop read i buf =
     (let n = length (cstr_of buf)
      in case read i (256 - n - 1) of (ok, bytes) \<Rightarrow>
           let buf' = take n buf @ bytes @ drop (n + length bytes) buf
           in if \<not> ok \<or> bytes \<noteq> [] then ec2_loop read (Suc i) buf' else Some buf')"

definition host_os_ec2_instance_id_windows :: "'r whost_env \<Rightarrow> 'r win_host \<Rightarrow> cptr \<times> 'r win_host" where
  "host_os_ec2_instance_id_windows env s =
     (if \<not> wv_internet env then (None, s)
      else if \<not> wv_open_url env then (None, s)
      else case ec2_loop (wv_read env) 0 (replicate 256 NUL) of
             None \<Rightarrow> (None, s\<lparr>wh_fault := Some Hung\<rparr>)
           | Some buf \<Rightarrow> (nonempty (cstr_of buf), s))"

definition get_last_boot :: "'r whost_env \<Rightarrow> nat \<Rightarrow> int \<times> string" where
  "get_last_boot env len =
     (case wv_wmic env ''OS'' of
        None \<Rightarrow> (- 1, [])
      | Some output \<Rightarrow> (let last_boot = copied len output in (if last_boot = [] then - 1 else 0, last_boot)))"

definition CUSTOM_UUID_KEY :: string where "CUSTOM_UUID_KEY = ''CustomUUID''"
definition REBOOT_UUID_KEY :: string where "REBOOT_UUID_KEY = ''RebootUUID''"

text \<open>Reading a value into an array of 256 characters that is empty at first: whether it succeeded, and the string
  in the array.\<close>

definition query_text :: "'r whost_env \<Rightarrow> string \<Rightarrow> 'r win_host \<Rightarrow> bool \<times> string" where
  "query_text env key s =
     (case reg_query (wv_reg env) (wu_reg (wh_base s)) key 255 of (ok, bytes) \<Rightarrow>
        (ok, cstr_of (overlay bytes (replicate 256 NUL))))"

definition set_text :: "'r whost_env \<Rightarrow> string \<Rightarrow> string \<Rightarrow> 'r win_host \<Rightarrow> bool \<times> 'r win_host" where
  "set_text env key t s =
     (case reg_set (wv_reg env) (wu_reg (wh_base s)) key (t @ [NUL]) of (ok, r) \<Rightarrow>
        (ok, s\<lparr>wh_base := (wh_base s)\<lparr>wu_reg := r\<rparr>\<rparr>))"

definition new_uuid :: "'r whost_env \<Rightarrow> 'r win_host \<Rightarrow> cptr \<times> 'r win_host" where
  "new_uuid env s =
     (wv_uuid env (wu_generated (wh_base s)),
      s\<lparr>wh_base := (wh_base s)\<lparr>wu_generated := Suc (wu_generated (wh_base s))\<rparr>\<rparr>)"

definition host_os_reboot_uuid_windows :: "'r whost_env \<Rightarrow> 'r win_host \<Rightarrow> cptr \<times> 'r win_host" where
  "host_os_reboot_uuid_windows env s =
     (case get_last_boot env 128 of (rc, last_boot) \<Rightarrow>
        if rc \<noteq> 0 then (None, s)
        else if \<not> reg_open (wv_reg env) (wu_reg (wh_base s)) then (None, s)
        else case query_text env REBOOT_UUID_KEY s of (ok, found) \<Rightarrow>
          let (uuid_str, reset_uuid) =
                (if ok
                 then case strchr found (CHR '' '') of
                        None \<Rightarrow> (found, True)
                      | Some uuid_time \<Rightarrow> (take (length found - length uuid_time) found, tl uuid_time \<noteq> last_boot)
                 else (found, True))
          in if \<not> reset_uuid then (nonempty uuid_str, s)
             else case new_uuid env s of (rs, s1) \<Rightarrow>
               (case rs of
                  None \<Rightarrow> (nonempty uuid_str, s1)
                | Some u \<Rightarrow>
                    (let uuid_str' = copied 256 u;
                         new_uuid_str = snprintf 256 (uuid_str' @ '' '' @ last_boot)
                     in case set_text env REBOOT_UUID_KEY new_uuid_str s1 of (res, s2) \<Rightarrow>
                          (if res then nonempty uuid_str' else None, s2))))"

definition host_os_agent_uuid_windows :: "'r whost_env \<Rightarrow> 'r win_host \<Rightarrow> cptr \<times> 'r win_host" where
  "host_os_agent_uuid_windows env s =
     (case new_uuid env s of (rs, s1) \<Rightarrow> (Some (case rs of None \<Rightarrow> [] | Some u \<Rightarrow> u), s1))"

definition host_os_custom_uuid_windows :: "'r whost_env \<Rightarrow> 'r win_host \<Rightarrow> cptr \<times> 'r win_host" where
  "host_os_custom_uuid_windows env s =
     (if \<not> reg_open (wv_reg env) (wu_reg (wh_base s)) then (None, s)
      else (nonempty (snd (query_text env CUSTOM_UUID_KEY s)), s))"

definition host_os_set_custom_uuid_windows :: "'r whost_env \<Rightarrow> cptr \<Rightarrow> 'r win_host \<Rightarrow> int \<times> 'r win_host" where
  "host_os_set_custom_uuid_windows env uuid s =
     (if \<not> reg_open (wv_reg env) (wu_reg (wh_base s)) then (- 1, s)
      else case uuid of
             None \<Rightarrow> (- 1, s\<lparr>wh_fault := Some Crashed\<rparr>)
           | Some u \<Rightarrow> (case set_text env CUSTOM_UUID_KEY u s of (ok, s1) \<Rightarrow> (if ok then 0 else - 1, s1)))"

section \<open>Power profiles\<close>

definition exec_command_windows ::
  "'r whost_env \<Rightarrow> string list \<Rightarrow> int \<Rightarrow> bool \<Rightarrow> 'r win_host \<Rightarrow> (mh_result \<times> cptr) \<times> 'r win_host" where
  "exec_command_windows env args atimeout want_stdout s =
     (if args = [] then ((MH_RES_OTHER_ERROR, None), s)
      else case wv_spawn env args of
             None \<Rightarrow> ((MH_RES_OTHER_ERROR, None), s)
           | Some run \<Rightarrow>
               (let s1 = win_log (Started args) s;
                    res = (case wr_exit run (atimeout * 1000) of None \<Rightarrow> MH_RES_BACKEND_ERROR | Some status \<Rightarrow> MH_RES_SUCCESS);
                    s2 = (if res = MH_RES_BACKEND_ERROR then win_log (Terminated args) s1 else s1)
                in ((res, if want_stdout then snd (mh_read_from_fd (wr_stdout run)) else None), s2)))"

definition POWERCFG :: string where "POWERCFG = ''system32'' @ [CHR 0x5C] @ ''powercfg''"
definition GUID :: string where "GUID = ''GUID: ''"
definition HOST_TIMEOUT :: int where "HOST_TIMEOUT = 10"

text \<open>The loop of \<open>get_profiles\<close> over the output; \<open>c1\<close> is the text from the pointer on. The characters that are
  overwritten for a moment are behind the pointer when the loop goes on. \<open>None\<close> is a search through NULL.\<close>

lemma strchr_shorter: "strchr s c = Some r \<Longrightarrow> length r \<le> length s \<and> r \<noteq> []"
  by (auto simp: strchr_def strchrnul_def length_dropWhile_le split: list.splits)

function profiles_loop :: "string \<Rightarrow> string list \<Rightarrow> string list \<Rightarrow> (string list \<times> string list) option" where
  "profiles_loop c1 names guids =
     (case strstr c1 GUID of
        None \<Rightarrow> Some (names, guids)
      | Some p \<Rightarrow>
          (let c = drop (length GUID) p
           in if c = [] then profiles_loop c names guids
              else case strchr c (CHR '' '') of
                     None \<Rightarrow> profiles_loop c names guids
                   | Some c2 \<Rightarrow>
                       (let guids' = guids @ [take (length c - length c2) c]
                        in case strchr c2 (CHR ''('') of
                             None \<Rightarrow> None
                           | Some q \<Rightarrow>
                               (let d = tl q
                                in if d = [] then profiles_loop d names guids'
                                   else case strchr d (CHR '')'') of
                                          None \<Rightarrow> profiles_loop d names guids'
                                        | Some e \<Rightarrow> profiles_loop d (names @ [take (length d - length e) d]) guids'))))"
  by pat_completeness auto
termination
proof (relation "measure (\<lambda>(c1, n, g). length c1)", goal_cases)
  case (2 c1 names guids p c)
  then show ?case using strstr_length [of c1 GUID p] starts_with_length [OF strstr_prefix [of c1 GUID p]] by (auto simp: GUID_def)
next
  case (3 c1 names guids p c)
  then show ?case using strstr_length [of c1 GUID p] starts_with_length [OF strstr_prefix [of c1 GUID p]] by (auto simp: GUID_def)
next
  case (4 c1 names guids p c c2 g q d)
  have "length q \<le> length p" using 4(4,6) 4(2) strchr_shorter [of c "CHR '' ''" c2] strchr_shorter [of c2 "CHR ''(''" q] by auto
  then show ?case using 4 strstr_length [of c1 GUID p] strchr_shorter [of c2 "CHR ''(''" q] by (cases q) auto
next
  case (5 c1 names guids p c c2 g q d)
  have "length q \<le> length p" using 5(4,6) 5(2) strchr_shorter [of c "CHR '' ''" c2] strchr_shorter [of c2 "CHR ''(''" q] by auto
  then show ?case using 5 strstr_length [of c1 GUID p] strchr_shorter [of c2 "CHR ''(''" q] by (cases q) auto
next
  case (6 c1 names guids p c c2 g q d e)
  have "length q \<le> length p" using 6(4,6) 6(2) strchr_shorter [of c "CHR '' ''" c2] strchr_shorter [of c2 "CHR ''(''" q] by auto
  then show ?case using 6 strstr_length [of c1 GUID p] strchr_shorter [of c2 "CHR ''(''" q] by (cases q) auto
qed simp

declare profiles_loop.simps [simp del]

text \<open>Whether the profiles were found, the lists that \<open>names\<close> and \<open>guids\<close> point to, and the state.\<close>

definition get_profiles :: "'r whost_env \<Rightarrow> 'r win_host \<Rightarrow> (bool \<times> string list \<times> string list) \<times> 'r win_host" where
  "get_profiles env s =
     (case exec_command_windows env [POWERCFG, ''-LIST''] HOST_TIMEOUT True s of ((res, stdoutbuf), s1) \<Rightarrow>
        if res = MH_RES_SUCCESS \<and> stdoutbuf \<noteq> None
        then case profiles_loop (cstr_of (the stdoutbuf)) [] [] of
               None \<Rightarrow> ((False, [], []), s1\<lparr>wh_fault := Some Crashed\<rparr>)
             | Some (names, guids) \<Rightarrow>
                 ((\<not> (names = [] \<or> guids = [] \<or> length names \<noteq> length guids), names, guids), s1)
        else ((False, [], []), s1))"

fun guid_of :: "string \<Rightarrow> (string \<times> string) list \<Rightarrow> cptr" where
  "guid_of profile [] = None"
| "guid_of profile ((name, guid) # rest) = (if name = profile then Some guid else guid_of profile rest)"

definition host_os_set_power_profile_windows :: "'r whost_env \<Rightarrow> cptr \<Rightarrow> 'r win_host \<Rightarrow> mh_result \<times> 'r win_host" where
  "host_os_set_power_profile_windows env profile s =
     (case get_profiles env s of ((found, names, guids), s1) \<Rightarrow>
        if \<not> found then (MH_RES_BACKEND_ERROR, s1)
        else case profile of
               None \<Rightarrow> (MH_RES_BACKEND_ERROR, s1\<lparr>wh_fault := Some Crashed\<rparr>)
             | Some p \<Rightarrow>
                 (case guid_of p (zip names guids) of
                    None \<Rightarrow> (MH_RES_INVALID_ARGS, s1)
                  | Some guid \<Rightarrow>
                      (case exec_command_windows env [POWERCFG, ''-SETACTIVE'', guid] HOST_TIMEOUT False s1 of
                         ((res, _), s2) \<Rightarrow> (res, s2))))"

text \<open>The text between the first brackets.\<close>

definition bracketed :: "string \<Rightarrow> cptr" where
  "bracketed out =
     (case strchr out (CHR ''('') of
        None \<Rightarrow> None
      | Some q \<Rightarrow>
          (let c1 = tl q
           in if c1 = [] then None
              else case strchr c1 (CHR '')'') of None \<Rightarrow> None | Some c2 \<Rightarrow> Some (take (length c1 - length c2) c1)))"

definition host_os_get_power_profile_windows ::
  "'r whost_env \<Rightarrow> cptr \<Rightarrow> 'r win_host \<Rightarrow> (mh_result \<times> cptr) \<times> 'r win_host" where
  "host_os_get_power_profile_windows env profile s =
     (case exec_command_windows env [POWERCFG, ''-GETACTIVESCHEME''] HOST_TIMEOUT True s of ((res, stdoutbuf), s1) \<Rightarrow>
        if res = MH_RES_SUCCESS
        then (case Option.bind stdoutbuf (\<lambda>out. bracketed (cstr_of out)) of
                None \<Rightarrow> ((MH_RES_BACKEND_ERROR, profile), s1)
              | Some p \<Rightarrow> ((res, Some p), s1))
        else ((res, profile), s1))"

definition host_os_list_power_profiles_windows :: "'r whost_env \<Rightarrow> 'r win_host \<Rightarrow> string list \<times> 'r win_host" where
  "host_os_list_power_profiles_windows env s =
     (case get_profiles env s of ((found, names, guids), s1) \<Rightarrow> (names, s1))"

section \<open>The layer as a whole\<close>

text \<open>\<open>mh_uuid\<close> and \<open>mh_hostname\<close> of \<^verbatim>\<open>utilities.c\<close> on top of this system's \<open>mh_os_uuid\<close>.\<close>

definition mh_uuid_windows :: "'r whost_env \<Rightarrow> 'r win_host \<Rightarrow> string \<times> 'r win_host" where
  "mh_uuid_windows env s =
     (case mh_os_uuid_windows (wv_reg env) (wv_uuid env) (wh_base s) of (u, b) \<Rightarrow> (u, s\<lparr>wh_base := b\<rparr>))"

definition mh_hostname_windows :: "'r whost_env \<Rightarrow> 'r win_host \<Rightarrow> string \<times> 'r win_host" where
  "mh_hostname_windows env s =
     (let h = (case st_hostname (wh_util s) of None \<Rightarrow> host_name (wv_net env) | Some h \<Rightarrow> h)
      in if h = ''localhost''
         then (case mh_uuid_windows env s of (u, s') \<Rightarrow> (u, s'\<lparr>wh_util := (wh_util s')\<lparr>st_hostname := Some u\<rparr>\<rparr>))
         else (h, s\<lparr>wh_util := (wh_util s)\<lparr>st_hostname := Some h\<rparr>\<rparr>))"

definition windows_os :: "'r whost_env \<Rightarrow> 'r win_host host_os" where
  "windows_os env =
     \<lparr>os_uuid = mh_uuid_windows env,
      os_hostname = mh_hostname_windows env,
      os_get_cpu_flags = host_os_get_cpu_flags_windows,
      os_reboot = host_os_reboot_windows env,
      os_shutdown = host_os_shutdown_windows env,
      os_identify = host_os_identify_windows env,
      os_machine_uuid = host_os_machine_uuid_windows env,
      os_ec2_instance_id = host_os_ec2_instance_id_windows env,
      os_custom_uuid = host_os_custom_uuid_windows env,
      os_reboot_uuid = host_os_reboot_uuid_windows env,
      os_agent_uuid = host_os_agent_uuid_windows env,
      os_set_custom_uuid = host_os_set_custom_uuid_windows env,
      os_set_power_profile = host_os_set_power_profile_windows env,
      os_get_power_profile = host_os_get_power_profile_windows env,
      os_list_power_profiles = host_os_list_power_profiles_windows env\<rparr>"

section \<open>Lemmas: values of the registry\<close>

lemma query_after_set:
  assumes "reg_laws (wv_reg env)" and "set_text env key t s = (True, s')" and "is_cstr t" and "length t \<le> 254"
  shows "query_text env key s' = (True, t)"
    and "reg_open (wv_reg env) (wu_reg (wh_base s')) = reg_open (wv_reg env) (wu_reg (wh_base s))"
proof -
  obtain r where r: "reg_set (wv_reg env) (wu_reg (wh_base s)) key (t @ [NUL]) = (True, r)"
    "s' = s\<lparr>wh_base := (wh_base s)\<lparr>wu_reg := r\<rparr>\<rparr>"
    using assms(2) by (auto simp: set_text_def split: prod.splits)
  show "query_text env key s' = (True, t)"
    using reg_set_query(2) [OF assms(1) r(1), of 255] assms(3,4) r(2) by (simp add: query_text_def overlay_def)
  show "reg_open (wv_reg env) (wu_reg (wh_base s')) = reg_open (wv_reg env) (wu_reg (wh_base s))"
    using reg_set_query(1) [OF assms(1) r(1)] r(2) by simp
qed

definition win_accepts :: "'r whost_env \<Rightarrow> string \<Rightarrow> bool" where
  "win_accepts env v \<longleftrightarrow> reg_laws (wv_reg env) \<and> v \<noteq> [] \<and> length v \<le> 254"

interpretation windows_host: host_backend "windows_os env" "\<lambda>v s. win_accepts env v" id
  for env :: "'r whost_env"
proof (unfold_locales, goal_cases)
  case (1 v o1 o2)
  have set: "set_text env CUSTOM_UUID_KEY v o1 = (True, o2)" and op: "reg_open (wv_reg env) (wu_reg (wh_base o1))"
    using 1(3) by (auto simp: windows_os_def host_os_set_custom_uuid_windows_def split: if_splits prod.splits)
  from 1(1) have "reg_laws (wv_reg env)" "v \<noteq> []" "length v \<le> 254" by (simp_all add: win_accepts_def)
  with query_after_set [OF _ set 1(2)] op show ?case
    by (simp add: windows_os_def host_os_custom_uuid_windows_def nonempty_def)
qed

section \<open>Lemmas: the output of \<^verbatim>\<open>powercfg\<close>\<close>

definition scheme_line :: "string \<times> string \<times> string \<Rightarrow> string" where
  "scheme_line p = (case p of (guid, name, rest) \<Rightarrow> ''Power Scheme '' @ GUID @ guid @ ''  ('' @ name @ '')'' @ rest)"

definition scheme_ok :: "string \<times> string \<times> string \<Rightarrow> bool" where
  "scheme_ok p \<longleftrightarrow> (case p of (guid, name, rest) \<Rightarrow> CHR '' '' \<notin> set guid \<and> CHR '':'' \<notin> set name \<and> CHR '':'' \<notin> set rest)"

text \<open>The name of a scheme as it is read: up to the first closing bracket.\<close>

definition read_name :: "string \<Rightarrow> string" where
  "read_name name = takeWhile (\<lambda>c. c \<noteq> CHR '')'') name"

lemma read_name_clean: "CHR '')'' \<notin> set (read_name name)"
  by (auto simp: read_name_def dest: set_takeWhileD)

lemma read_name_split:
  obtains r' where "name @ '')'' @ r = read_name name @ '')'' @ r'" "set r' \<subseteq> set name \<union> set '')'' \<union> set r"
proof (cases "dropWhile (\<lambda>c. c \<noteq> CHR '')'') name")
  case Nil
  then have n: "read_name name = name"
    using takeWhile_dropWhile_id [of "\<lambda>c. c \<noteq> CHR '')''" name] by (simp add: read_name_def)
  show ?thesis by (rule that [of r]) (simp only: n, blast)
next
  case (Cons c u)
  then have "c = CHR '')''" using hd_dropWhile [of "\<lambda>c. c \<noteq> CHR '')''" name] by simp
  with Cons have n: "read_name name @ CHR '')'' # u = name"
    using takeWhile_dropWhile_id [of "\<lambda>c. c \<noteq> CHR '')''" name] by (simp add: read_name_def)
  have "set (read_name name @ CHR '')'' # u) = set name" by (simp only: n)
  then have u: "set u \<subseteq> set name" by auto
  have "name @ '')'' @ r = (read_name name @ CHR '')'' # u) @ '')'' @ r" by (simp only: n)
  also have "\<dots> = read_name name @ '')'' @ (u @ '')'' @ r)" by simp
  finally show ?thesis by (rule that) (use u in auto)
qed

lemma not_guid:
  assumes "CHR '':'' \<notin> set t" and "t \<noteq> []"
  shows "\<not> starts_with GUID (t @ GUID @ r)" "\<not> starts_with GUID t"
proof -
  have n: "(t @ GUID @ r) ! 4 \<noteq> CHR '':''"
  proof (cases "4 < length t")
    case True
    then have "(t @ GUID @ r) ! 4 \<in> set t" by (simp add: nth_append)
    then show ?thesis using assms(1) by metis
  next
    case False
    then have "4 - length t \<in> {0, 1, 2, 3}" using assms(2) by (cases t) auto
    then show ?thesis using False by (auto simp: nth_append GUID_def numeral_2_eq_2 numeral_3_eq_3)
  qed
  have g: "GUID ! 4 = CHR '':''" by (simp add: GUID_def)
  show "\<not> starts_with GUID (t @ GUID @ r)"
  proof
    assume "starts_with GUID (t @ GUID @ r)"
    then have "take (length GUID) (t @ GUID @ r) ! 4 = GUID ! 4" by (simp only: starts_with_take)
    moreover have "take (length GUID) (t @ GUID @ r) ! 4 = (t @ GUID @ r) ! 4" by (rule nth_take) (simp add: GUID_def)
    ultimately show False using n g by simp
  qed
  show "\<not> starts_with GUID t"
  proof
    assume s: "starts_with GUID t"
    then have "set GUID \<subseteq> set t" using starts_with_take [OF s] by (metis set_take_subset)
    with assms(1) show False by (simp add: GUID_def)
  qed
qed

lemma strstr_guid: "CHR '':'' \<notin> set t \<Longrightarrow> strstr (t @ GUID @ r) GUID = Some (GUID @ r)"
proof (induction t)
  case Nil
  show ?case by (simp add: GUID_def)
next
  case (Cons c t)
  then show ?case using not_guid(1) [of "c # t" r] by simp
qed

lemma strstr_no_guid: "CHR '':'' \<notin> set t \<Longrightarrow> strstr t GUID = None"
proof (induction t)
  case Nil
  show ?case by (simp add: GUID_def)
next
  case (Cons c t)
  then show ?case using not_guid(2) [of "c # t"] by simp
qed

lemma profiles_loop_scheme:
  assumes "CHR '':'' \<notin> set t" and "CHR '' '' \<notin> set guid" and "CHR '')'' \<notin> set name"
  shows "profiles_loop (t @ GUID @ guid @ ''  ('' @ name @ '')'' @ r) names guids =
     profiles_loop (name @ '')'' @ r) (names @ [name]) (guids @ [guid])"
proof -
  have g: "strchr (guid @ CHR '' '' # u) (CHR '' '') = Some (CHR '' '' # u)" for u using assms(2) by (rule strchr_append)
  have b: "strchr (CHR '' '' # CHR '' '' # CHR ''('' # u) (CHR ''('') = Some (CHR ''('' # u)" for u
    using strchr_append [of "CHR ''(''" "''  ''" u] by simp
  have n: "strchr (name @ CHR '')'' # u) (CHR '')'') = Some (CHR '')'' # u)" for u using assms(3) by (rule strchr_append)
  show ?thesis
    by (subst profiles_loop.simps) (simp add: strstr_guid [OF assms(1)] g b n Let_def)
qed

lemma profiles_loop_schemes:
  "CHR '':'' \<notin> set t \<Longrightarrow> \<forall>p\<in>set ps. scheme_ok p \<Longrightarrow>
     profiles_loop (t @ concat (map scheme_line ps)) names guids =
       Some (names @ map (\<lambda>(g, n, r). read_name n) ps, guids @ map (\<lambda>(g, n, r). g) ps)"
proof (induction ps arbitrary: t names guids)
  case Nil
  then show ?case by (subst profiles_loop.simps) (simp add: strstr_no_guid)
next
  case (Cons p ps)
  obtain g n r where p: "p = (g, n, r)" by (cases p)
  obtain r' where r': "n @ '')'' @ r = read_name n @ '')'' @ r'" "set r' \<subseteq> set n \<union> set '')'' \<union> set r" by (rule read_name_split)
  have ok: "CHR '' '' \<notin> set g" "CHR '':'' \<notin> set n" "CHR '':'' \<notin> set r"
    using Cons.prems(2) p by (simp_all add: scheme_ok_def)
  have "CHR '':'' \<notin> set (read_name n)" using ok(2) set_takeWhileD unfolding read_name_def by metis
  then have "CHR '':'' \<notin> set (t @ ''Power Scheme '')" "CHR '':'' \<notin> set (read_name n @ '')'' @ r')"
    using Cons.prems(1) ok r'(2) by auto
  moreover have "scheme_line p = ''Power Scheme '' @ GUID @ g @ ''  ('' @ read_name n @ '')'' @ r'"
    using r'(1) by (simp add: p scheme_line_def)
  ultimately show ?case
    using profiles_loop_scheme [of "t @ ''Power Scheme ''" g "read_name n" "r' @ concat (map scheme_line ps)" names guids] ok read_name_clean [of n]
      Cons.IH [of "read_name n @ '')'' @ r'"] Cons.prems(2)
    by (simp add: p)
qed

text \<open>An identifier that no bracket follows: the pointer that is searched next is NULL.\<close>

lemma profiles_loop_crash:
  assumes "CHR '':'' \<notin> set t" and "CHR '' '' \<notin> set guid" and "CHR ''('' \<notin> set r"
  shows "profiles_loop (t @ GUID @ guid @ '' '' @ r) names guids = None"
proof -
  have g: "strchr (guid @ CHR '' '' # u) (CHR '' '') = Some (CHR '' '' # u)" for u using assms(2) by (rule strchr_append)
  have b: "strchr (CHR '' '' # r) (CHR ''('') = None"
    using strchr_notin [of "CHR ''(''" "CHR '' '' # r"] assms(3) by simp
  show ?thesis by (subst profiles_loop.simps) (simp add: strstr_guid [OF assms(1)] g b Let_def)
qed

section \<open>Lemmas: reading the identifier of the instance\<close>

lemma ec2_loop_hangs:
  assumes "\<And>i room. \<not> fst (read i room)"
  shows "ec2_loop read i buf = None"
proof -
  have fail: "read i room = (ok, b) \<Longrightarrow> \<not> ok" for i room ok b using assms(1) by (metis fst_conv)
  have False if r: "ec2_loop read i buf = Some x" for x
  proof -
    let ?P = "\<lambda>r (i :: nat) (b :: string) (x :: string). r \<noteq> read"
    have "?P read i buf x"
      by (rule ec2_loop.raw_induct [where P = ?P, OF _ r])
        (auto simp: Let_def split: prod.splits if_splits dest: fail)
    then show False by simp
  qed
  then show ?thesis by (cases "ec2_loop read i buf") auto
qed

text \<open>The pieces \<open>ps\<close> of a response that are delivered one by one, and then its end.\<close>

definition delivers :: "string list \<Rightarrow> nat \<Rightarrow> nat \<Rightarrow> bool \<times> string" where
  "delivers ps i room = (True, if i < length ps then ps ! i else [])"

lemma ec2_loop_pieces:
  assumes "\<forall>p\<in>set ps. p \<noteq> [] \<and> is_cstr p" and "is_cstr t" and "length t + length (concat (drop i ps)) \<le> 255"
    and "i \<le> length ps"
  shows "\<exists>buf. ec2_loop (delivers ps) i (t @ replicate (256 - length t) NUL) = Some buf \<and> cstr_of buf = t @ concat (drop i ps)"
  using assms
proof (induction "length ps - i" arbitrary: i t)
  case 0
  have "cstr_of (t @ replicate (256 - length t) NUL) = t"
    using "0.prems"(2,3) by (cases "256 - length t") simp_all
  then show ?case using 0 by (subst ec2_loop.simps) (simp add: delivers_def)
next
  case (Suc k)
  then have i: "i < length ps" "ps ! i \<in> set ps" by auto
  then have d: "drop i ps = ps ! i # drop (Suc i) ps" by (simp add: Cons_nth_drop_Suc)
  have len: "length t + length (ps ! i) \<le> 255" using Suc.prems(3) d by simp
  have c: "cstr_of (t @ replicate (256 - length t) NUL) = t"
    using Suc.prems(2) len by (cases "256 - length t") simp_all
  have "is_cstr (t @ ps ! i)" using Suc.prems(1,2) i by (auto simp: is_cstr_def)
  moreover have "k = length ps - Suc i" "Suc i \<le> length ps" "length (t @ ps ! i) + length (concat (drop (Suc i) ps)) \<le> 255"
    using Suc.hyps(2) Suc.prems(3) i d by simp_all
  ultimately obtain buf where "ec2_loop (delivers ps) (Suc i) ((t @ ps ! i) @ replicate (256 - length (t @ ps ! i)) NUL) = Some buf"
    "cstr_of buf = t @ concat (drop i ps)" using Suc.hyps(1) [of "Suc i" "t @ ps ! i"] Suc.prems(1) d by auto
  then show ?case using i c Suc.prems(1) by (subst ec2_loop.simps) (simp add: delivers_def Let_def)
qed

section \<open>Properties\<close>

definition lists_profiles :: "'r whost_env \<Rightarrow> string \<Rightarrow> bool" where
  "lists_profiles env out \<longleftrightarrow>
     (\<exists>run. wv_spawn env [POWERCFG, ''-LIST''] = Some run \<and> wr_exit run 10000 \<noteq> None \<and> wr_stdout run = Inr out)"

lemma exec_list:
  assumes "lists_profiles env out"
  shows "exec_command_windows env [POWERCFG, ''-LIST''] HOST_TIMEOUT True s =
    ((MH_RES_SUCCESS, Some out), win_log (Started [POWERCFG, ''-LIST'']) s)"
  using assms
  by (auto simp: lists_profiles_def exec_command_windows_def HOST_TIMEOUT_def mh_read_from_fd_def split: option.splits)

text \<open>Activating a scheme: nothing is started, or the exit code of the program is read, or the program is terminated.\<close>

definition set_active :: "'r whost_env \<Rightarrow> string \<Rightarrow> 'r win_host \<Rightarrow> mh_result \<times> 'r win_host" where
  "set_active env guid s =
     (let cmd = [POWERCFG, ''-SETACTIVE'', guid]
      in case wv_spawn env cmd of
           None \<Rightarrow> (MH_RES_OTHER_ERROR, s)
         | Some run \<Rightarrow> if wr_exit run 10000 \<noteq> None then (MH_RES_SUCCESS, win_log (Started cmd) s)
                       else (MH_RES_BACKEND_ERROR, win_log (Terminated cmd) (win_log (Started cmd) s)))"

lemma exec_set_active:
  "exec_command_windows env [POWERCFG, ''-SETACTIVE'', g] HOST_TIMEOUT False s =
     (case set_active env g s of (res, s2) \<Rightarrow> ((res, None), s2))"
  by (auto simp: set_active_def exec_command_windows_def HOST_TIMEOUT_def Let_def split: option.splits)

text \<open>C36: Power profiles on Windows. If \<^verbatim>\<open>powercfg -LIST\<close> can be run, its exit code read, and it prints some text without a colon and then a
  line for each of its schemes (whose identifier has no space, and whose name and trailing text have no colon),
  listing the profiles gives the names of the schemes in their order, each cut before the first closing
  bracket in it. Setting a profile then starts \<^verbatim>\<open>powercfg -SETACTIVE\<close> with the identifier of the first scheme that is
  listed under that name, and succeeds exactly if the program can be started and its exit code can be read; a
  name that is not listed is refused and no scheme is activated, as is every name when there are no schemes.\<close>

theorem windows_power_profiles:
  assumes "lists_profiles env (pre @ concat (map scheme_line ps))"
    and "is_cstr (pre @ concat (map scheme_line ps))" and "CHR '':'' \<notin> set pre" and "\<forall>p\<in>set ps. scheme_ok p"
  shows "fst (host_os_list_power_profiles_windows env s) = map (\<lambda>(g, n, r). read_name n) ps \<and>
    (case List.find (\<lambda>(g, n, r). read_name n = profile) ps of
       None \<Rightarrow> host_os_set_power_profile_windows env (Some profile) s =
                 (if ps = [] then MH_RES_BACKEND_ERROR else MH_RES_INVALID_ARGS, win_log (Started [POWERCFG, ''-LIST'']) s)
     | Some (g, n, r) \<Rightarrow> host_os_set_power_profile_windows env (Some profile) s =
                 set_active env g (win_log (Started [POWERCFG, ''-LIST'']) s))"
proof -
  let ?out = "pre @ concat (map scheme_line ps)" and ?s1 = "win_log (Started [POWERCFG, ''-LIST'']) s"
  have "cstr_of ?out = ?out" using assms(2) by (simp add: cstr_of_id)
  then have gp: "get_profiles env s = ((ps \<noteq> [], map (\<lambda>(g, n, r). read_name n) ps, map (\<lambda>(g, n, r). g) ps), ?s1)"
    using exec_list [OF assms(1)] profiles_loop_schemes [OF assms(3,4), of "[]" "[]"]
    by (simp only: get_profiles_def prod.case option.sel option.case simp_thms if_True) simp
  have guid: "guid_of profile (zip (map (\<lambda>(g, n, r). read_name n) ps) (map (\<lambda>(g, n, r). g) ps)) =
      map_option (\<lambda>(g, n, r). g) (List.find (\<lambda>(g, n, r). read_name n = profile) ps)" for ps :: "(string \<times> string \<times> string) list"
    by (induction ps) auto
  show ?thesis
    by (cases ps) (auto simp: host_os_list_power_profiles_windows_def host_os_set_power_profile_windows_def gp guid exec_set_active
        split: option.splits prod.splits)
qed

text \<open>A machine with two power schemes and an empty registry.\<close>

definition demo_schemes :: "(string \<times> string \<times> string) list" where
  "demo_schemes = [(''381b4222'', ''Balanced'', '' *'' @ CRLF), (''a1841308'', ''Power saver'', CRLF)]"

definition wh_demo_env :: "cptr \<Rightarrow> registry whost_env" where
  "wh_demo_env u = \<lparr>wv_reg = registry_ops, wv_uuid = (\<lambda>i. u), wv_net = \<lparr>host_name = ''h'', domain_name = []\<rparr>, wv_token = True,
     wv_beep = True, wv_wmic = (\<lambda>x. Some ''LastBootUpTime 20110607''), wv_internet = True, wv_open_url = True,
     wv_read = (\<lambda>i room. (False, [])),
     wv_spawn = (\<lambda>args. Some \<lparr>wr_exit = (\<lambda>ms. Some 0),
       wr_stdout = Inr (''Existing Power Schemes'' @ CRLF @ concat (map scheme_line demo_schemes))\<rparr>)\<rparr>"

definition wh_demo :: "registry win_host" where
  "wh_demo = \<lparr>wh_base = \<lparr>wu_reg = Map.empty, wu_uuid_str = replicate 255 NUL, wu_generated = 0\<rparr>, wh_util = util_init,
     wh_flags = None, wh_events = [], wh_fault = None\<rparr>"

theorem windows_power_profiles_witness:
  "fst (host_os_list_power_profiles_windows (wh_demo_env None) wh_demo) = [''Balanced'', ''Power saver''] \<and>
   host_os_set_power_profile_windows (wh_demo_env None) (Some ''Power saver'') wh_demo =
     (MH_RES_SUCCESS, win_log (Started [POWERCFG, ''-SETACTIVE'', ''a1841308'']) (win_log (Started [POWERCFG, ''-LIST'']) wh_demo))"
proof -
  have l: "lists_profiles (wh_demo_env None) ((''Existing Power Schemes'' @ CRLF) @ concat (map scheme_line demo_schemes))"
    by (simp add: lists_profiles_def wh_demo_env_def)
  have o: "is_cstr ((''Existing Power Schemes'' @ CRLF) @ concat (map scheme_line demo_schemes))" by code_simp
  have p: "CHR '':'' \<notin> set (''Existing Power Schemes'' @ CRLF)" by (simp add: CRLF_def)
  have ps: "\<forall>p\<in>set demo_schemes. scheme_ok p" by code_simp
  show ?thesis
    using windows_power_profiles [OF l o p ps, of wh_demo "''Power saver''"]
    by (simp add: demo_schemes_def read_name_def set_active_def) (simp add: wh_demo_env_def)
qed

text \<open>A scheme without a name in brackets ends the process.\<close>

theorem windows_profile_without_name_crashes:
  assumes "lists_profiles env (pre @ GUID @ guid @ '' '' @ rest)" and "is_cstr (pre @ GUID @ guid @ '' '' @ rest)"
    and "CHR '':'' \<notin> set pre" and "CHR '' '' \<notin> set guid" and "CHR ''('' \<notin> set rest"
  shows "wh_fault (snd (host_os_list_power_profiles_windows env s)) = Some Crashed"
proof -
  have "cstr_of (pre @ GUID @ guid @ '' '' @ rest) = pre @ GUID @ guid @ '' '' @ rest" using assms(2) by (simp only: cstr_of_id)
  then show ?thesis
    using exec_list [OF assms(1)] profiles_loop_crash [OF assms(3-5)]
    by (simp only: host_os_list_power_profiles_windows_def get_profiles_def prod.case option.sel option.case simp_thms if_True) simp
qed

lemma reboot_uuid_found:
  assumes "get_last_boot env 128 = (0, b)" and "reg_open (wv_reg env) (wu_reg (wh_base t))"
    and "query_text env REBOOT_UUID_KEY t = (True, u @ '' '' @ b)" and "CHR '' '' \<notin> set u" and "u \<noteq> []"
  shows "host_os_reboot_uuid_windows env t = (Some u, t)"
  using assms strchr_append [of "CHR '' ''" u b] by (simp add: host_os_reboot_uuid_windows_def nonempty_def)

text \<open>The identifier for the time until the next reboot. A process that asks for it and gets one leaves it in the
  registry, so that any later process with the same time of the last boot gets the same identifier, without
  generating one; the identifiers that are generated are taken to be strings of at most 36 characters
  without spaces.\<close>

theorem windows_reboot_uuid_stable:
  assumes "reg_laws (wv_reg env)" and "\<And>i. \<exists>u. wv_uuid env i = Some u \<and> is_cstr u \<and> CHR '' '' \<notin> set u \<and> length u \<le> 36"
    and "host_os_reboot_uuid_windows env s = (Some u, s')"
    and "wv_reg env' = wv_reg env" and "wv_wmic env' ''OS'' = wv_wmic env ''OS''" and "wu_reg (wh_base t) = wu_reg (wh_base s')"
  shows "host_os_reboot_uuid_windows env' t = (Some u, t)"
proof -
  obtain out where out: "wv_wmic env ''OS'' = Some out" "copied 128 out \<noteq> []"
    using assms(3) by (auto simp: host_os_reboot_uuid_windows_def get_last_boot_def Let_def split: option.splits if_splits)
  define b where "b = copied 128 out"
  have boot: "get_last_boot env 128 = (0, b)" "get_last_boot env' 128 = (0, b)"
    using out assms(5) by (simp_all add: get_last_boot_def b_def)
  have op: "reg_open (wv_reg env) (wu_reg (wh_base s))"
    using assms(3) boot by (auto simp: host_os_reboot_uuid_windows_def split: if_splits)
  have same: "query_text env' k t = query_text env k s'" for k
    using assms(4,6) by (simp add: query_text_def)
  obtain ok old where q: "query_text env REBOOT_UUID_KEY s = (ok, old)" by fastforce
  show ?thesis
  proof (cases "ok \<and> (\<exists>ut. strchr old (CHR '' '') = Some ut \<and> tl ut = b)")
    case True
    then obtain ut where ut: "strchr old (CHR '' '') = Some ut" "tl ut = b" by blast
    from ut(1) [unfolded strchr_Some] ut(2) obtain a where a: "old = a @ '' '' @ b" "CHR '' '' \<notin> set a" "ut = CHR '' '' # b"
      by auto
    have "s' = s" "a = u" "u \<noteq> []"
      using assms(3) True q ut a op boot by (auto simp: host_os_reboot_uuid_windows_def nonempty_def split: if_splits)
    then show ?thesis using reboot_uuid_found [OF boot(2)] same q a True op assms(4,6) by simp
  next
    case False
    obtain u0 where u0: "wv_uuid env (wu_generated (wh_base s)) = Some u0" "is_cstr u0" "CHR '' '' \<notin> set u0" "length u0 \<le> 36"
      using assms(2) by blast
    have "copied 256 u0 = u0" using u0 by (simp add: copied_eq)
    moreover have "snprintf 256 (u0 @ '' '' @ b) = u0 @ '' '' @ b"
      using u0(4) copied_short [of 128 out] by (simp add: b_def)
    ultimately obtain s1 where "set_text env REBOOT_UUID_KEY (u0 @ '' '' @ b) s1 = (True, s')" "u0 = u" "u \<noteq> []"
        "wu_reg (wh_base s1) = wu_reg (wh_base s)"
      using assms(3) False q op boot u0
      by (auto simp: host_os_reboot_uuid_windows_def nonempty_def new_uuid_def split: if_splits option.splits prod.splits)
    moreover have "is_cstr (u0 @ '' '' @ b)" "length (u0 @ '' '' @ b) \<le> 254"
      using u0 copied_short [of 128 out] is_cstr_copied [of 128 out] by (simp_all add: b_def is_cstr_def NUL_def)
    ultimately show ?thesis
      using query_after_set [OF assms(1), of REBOOT_UUID_KEY "u0 @ '' '' @ b" s1 s'] reboot_uuid_found [OF boot(2)] same op u0(3)
        assms(4,6) by simp
  qed
qed

theorem windows_reboot_uuid_stable_witness:
  "\<exists>s'. host_os_reboot_uuid_windows (wh_demo_env (Some ''uuid-1'')) wh_demo = (Some ''uuid-1'', s') \<and>
     host_os_reboot_uuid_windows (wh_demo_env None) s' = (Some ''uuid-1'', s')"
proof -
  let ?env = "wh_demo_env (Some ''uuid-1'')"
  have "fst (host_os_reboot_uuid_windows ?env wh_demo) = Some ''uuid-1''" by code_simp
  then obtain s' where s': "host_os_reboot_uuid_windows ?env wh_demo = (Some ''uuid-1'', s')"
    by (cases "host_os_reboot_uuid_windows ?env wh_demo") simp
  have laws: "reg_laws (wv_reg ?env)" by (simp add: wh_demo_env_def registry_ops_laws)
  have "host_os_reboot_uuid_windows (wh_demo_env None) s' = (Some ''uuid-1'', s')"
    by (rule windows_reboot_uuid_stable [OF laws _ s']) (simp_all add: wh_demo_env_def is_cstr_def NUL_def)
  with s' show ?thesis by blast
qed

text \<open>A custom identifier of at most 254 characters that was set is given out from then on.\<close>

theorem windows_custom_uuid_round_trip:
  assumes "reg_laws (wv_reg env)" and "is_cstr v" and "v \<noteq> []" and "length v \<le> 254"
    and "lifetime_of l = Some Custom" and "lifetime_of l' = Some Custom"
    and "mh_host_set_uuid (windows_os env) l (Some v) s = (0, s')"
  shows "fst (mh_host_get_uuid (windows_os env') l' s') = v"
  using windows_host.custom_round_trip [OF _ assms(2,5-7) rtranclp.rtrancl_refl, of "windows_os env'"] assms(1,3,4)
  by (simp add: win_accepts_def shown_def mh_strlen_zero_def)

text \<open>The identifier of the instance is put together from the pieces of the response; but when every read fails, the
  call does not return.\<close>

theorem windows_ec2_pieces:
  assumes "wv_internet env" and "wv_open_url env" and "wv_read env = delivers ps"
    and "\<forall>p\<in>set ps. p \<noteq> [] \<and> is_cstr p" and "length (concat ps) \<le> 255"
  shows "host_os_ec2_instance_id_windows env s = (nonempty (concat ps), s)"
  using ec2_loop_pieces [OF assms(4), of "[]" 0] assms
  by (auto simp: host_os_ec2_instance_id_windows_def is_cstr_def)

theorem windows_ec2_hangs:
  assumes "wv_internet env" and "wv_open_url env" and "\<And>i room. \<not> fst (wv_read env i room)"
  shows "wh_fault (snd (host_os_ec2_instance_id_windows env s)) = Some Hung"
  using ec2_loop_hangs [of "wv_read env"] assms by (simp add: host_os_ec2_instance_id_windows_def)

end
