(* ===== verification/Rpc.thy ===== *)
theory Rpc
  imports Utilities "HOL-Library.Multiset"
begin

text \<open>
  \<^verbatim>\<open>src/src/lib/rpc.c\<close>, \<^verbatim>\<open>src/src/lib/rpc-python.c\<close> and \<^verbatim>\<open>src/src/lib/rpc_private.h\<close>: remote procedure calls
  that are served by plugins written in Python.

  The Python interpreter is an argument: \<open>py_env\<close> says what importing a module, calling a function
  and converting an object give, for objects of a type \<open>'p\<close>. \<open>pyseq\<close> is a Python object used as a
  sequence. A failed access through a NULL object is \<open>None\<close> where a function can end that way. Reference
  counts are not modelled. The heap that the calls of \<^verbatim>\<open>rpc.c\<close> own is modelled, with allocations that may fail;
  in \<^verbatim>\<open>rpc-python.c\<close> allocations are taken to succeed, except those of Python tuples.
\<close>

section \<open>Python as the code sees it\<close>

datatype 'a pyseq = Not_sequence | Length_error | Items "'a option list"

text \<open>An object converted to a string: \<open>None\<close> if it is not one.\<close>

type_synonym pystr = cptr

text \<open>What \<^verbatim>\<open>PyErr_Fetch\<close> stores: whether the type, the value and the traceback are not NULL; and what
  the formatting function makes of the three.\<close>

record exception_info =
  ex_type :: bool
  ex_value :: bool
  ex_traceback :: bool
  ex_formatted :: "pystr option list option"

text \<open>\<open>py_tuple_new i\<close> says whether the tuple for the positional (0) or the keyword (1) arguments can be
  allocated.\<close>

record 'p py_env =
  py_import :: bool
  py_has_func :: "string \<Rightarrow> bool"
  py_plugins :: "'p pyseq option"
  py_name :: "'p \<Rightarrow> pystr option"
  py_procedures :: "'p \<Rightarrow> pystr pyseq option"
  py_tuple_new :: "nat \<Rightarrow> bool"
  py_call :: "'p \<Rightarrow> string \<Rightarrow> string list \<Rightarrow> (cptr \<times> string) list \<Rightarrow> exception_info + pystr"

section \<open>Data (rpc\_private.h, rpc.h)\<close>

datatype mh_rpc_api = Mh_rpc_python_api

definition MH_RPC_INVALID :: nat where "MH_RPC_INVALID = 0"
definition MH_RPC_PYTHON :: nat where "MH_RPC_PYTHON = 1"

record 'p mh_rpc_plugin =
  pl_name :: string
  pl_type :: nat
  pl_impl :: 'p

record rpc_arg =
  arg_key :: cptr
  arg_val :: string

record mh_rpc =
  procedure :: string
  rpc_args :: "rpc_arg list"
  rpc_kwargs :: "rpc_arg list"

record mh_rpc_result =
  out_result :: cptr
  out_exc_type :: cptr
  out_exc_value :: cptr
  out_exc_traceback :: cptr

definition empty_result :: mh_rpc_result where
  "empty_result = \<lparr>out_result = None, out_exc_type = None, out_exc_value = None, out_exc_traceback = None\<rparr>"

text \<open>The interpreter: whether it is initialised, and its arguments.\<close>

record rpc_state =
  py_initialized :: bool
  py_argv :: "string list"

section \<open>The Python backend (rpc-python.c)\<close>

definition python_init :: "string list \<Rightarrow> rpc_state \<Rightarrow> rpc_state" where
  "python_init argv s =
     (let s1 = (if \<not> py_initialized s then s\<lparr>py_initialized := True\<rparr> else s) in s1\<lparr>py_argv := argv\<rparr>)"

definition python_deinit :: "rpc_state \<Rightarrow> rpc_state" where
  "python_deinit s = (if py_initialized s then s\<lparr>py_initialized := False\<rparr> else s)"

text \<open>\<open>result\<close> is what calling the function gives.\<close>

definition call_rpc_server_func :: "'p py_env \<Rightarrow> string \<Rightarrow> 'a option \<Rightarrow> 'a option" where
  "call_rpc_server_func env funcname result =
     (if \<not> py_import env then None
      else if \<not> py_has_func env funcname then None
      else result)"

definition get_plugin_name :: "'p py_env \<Rightarrow> 'p \<Rightarrow> cptr" where
  "get_plugin_name env plugin =
     (case py_name env plugin of
        None \<Rightarrow> None
      | Some name_str \<Rightarrow> name_str)"

fun load_loop :: "'p py_env \<Rightarrow> 'p option list \<Rightarrow> 'p mh_rpc_plugin list \<Rightarrow> 'p mh_rpc_plugin list" where
  "load_loop env [] plugins = plugins"
| "load_loop env (p # ps) plugins =
     (case p of
        None \<Rightarrow> load_loop env ps plugins
      | Some plugin \<Rightarrow>
          (case get_plugin_name env plugin of
             None \<Rightarrow> load_loop env ps plugins
           | Some name \<Rightarrow>
               load_loop env ps (plugins @ [\<lparr>pl_name = name, pl_type = MH_RPC_PYTHON, pl_impl = plugin\<rparr>])))"

definition python_load_plugins ::
  "'p py_env \<Rightarrow> rpc_state \<Rightarrow> 'p mh_rpc_plugin list \<Rightarrow> int \<times> 'p mh_rpc_plugin list" where
  "python_load_plugins env s plugins =
     (if \<not> py_initialized s then (1, plugins)
      else case call_rpc_server_func env ''plugins'' (py_plugins env) of
             None \<Rightarrow> (1, plugins)
           | Some Not_sequence \<Rightarrow> (1, plugins)
           | Some Length_error \<Rightarrow> (1, plugins)
           | Some (Items ps) \<Rightarrow> (0, load_loop env ps plugins))"

definition py_to_c_string :: "pystr option \<Rightarrow> cptr" where
  "py_to_c_string obj = (case obj of None \<Rightarrow> None | Some str \<Rightarrow> str)"

text \<open>The loop that fills \<open>procs\<close>, an array of indeterminate pointers at first; it ends at the first entry
  that is NULL.\<close>

fun fill_procs :: "cptr list \<Rightarrow> nat \<Rightarrow> pystr option list \<Rightarrow> cptr list" where
  "fill_procs procs i [] = procs"
| "fill_procs procs i (x # xs) =
     (let procs' = procs[i := py_to_c_string x]
      in if py_to_c_string x = None then procs' else fill_procs procs' (Suc i) xs)"

text \<open>The array, or \<open>None\<close> for NULL.\<close>

definition get_procedures :: "'p py_env \<Rightarrow> (nat \<Rightarrow> cptr) \<Rightarrow> 'p \<Rightarrow> cptr list option" where
  "get_procedures env uninit plugin =
     (case py_procedures env plugin of
        None \<Rightarrow> None
      | Some Not_sequence \<Rightarrow> None
      | Some Length_error \<Rightarrow> None
      | Some (Items xs) \<Rightarrow>
          Some ((fill_procs (map uninit [0..<length xs + 1]) 0 xs)[length xs := None]))"

definition get_arg_item :: "rpc_arg \<Rightarrow> string" where
  "get_arg_item a = arg_val a"

text \<open>The format \<open>(ss)\<close> makes Python's \<open>None\<close> of a NULL pointer.\<close>

definition get_kwarg_item :: "rpc_arg \<Rightarrow> cptr \<times> string" where
  "get_kwarg_item a = (arg_key a, arg_val a)"

definition get_arg_list :: "bool \<Rightarrow> rpc_arg list \<Rightarrow> (rpc_arg \<Rightarrow> 'a) \<Rightarrow> 'a list option" where
  "get_arg_list tuple_new args get_item = (if \<not> tuple_new then None else Some (map get_item args))"

text \<open>\<^verbatim>\<open>Py_BuildValue\<close> gives NULL when one of the objects is NULL, and the references to them are dropped in
  any case.\<close>

definition encode_exception ::
  "'p py_env \<Rightarrow> exception_info \<Rightarrow> mh_rpc_result \<Rightarrow> (int \<times> mh_rpc_result) option" where
  "encode_exception env exc output =
     (if \<not> (ex_type exc \<and> ex_value exc \<and> ex_traceback exc) then None
      else case call_rpc_server_func env ''formatException'' (ex_formatted exc) of
             None \<Rightarrow> Some (1, output)
           | Some formatted \<Rightarrow>
               (let item = (\<lambda>i. if i < length formatted then formatted ! i else None)
                in Some (0, output\<lparr>out_exc_type := py_to_c_string (item 0), out_exc_value := py_to_c_string (item 1),
                                   out_exc_traceback := py_to_c_string (item 2)\<rparr>)))"

definition python_invoke ::
  "'p py_env \<Rightarrow> 'p \<Rightarrow> mh_rpc \<Rightarrow> mh_rpc_result \<Rightarrow> (mh_result \<times> mh_rpc_result) option" where
  "python_invoke env plugin call output =
     (case get_arg_list (py_tuple_new env 0) (rpc_args call) get_arg_item of
        None \<Rightarrow> Some (MH_RES_BACKEND_ERROR, output)
      | Some arg_list \<Rightarrow>
          (case get_arg_list (py_tuple_new env 1) (rpc_kwargs call) get_kwarg_item of
             None \<Rightarrow> Some (MH_RES_BACKEND_ERROR, output)
           | Some kwarg_list \<Rightarrow>
               (case py_call env plugin (procedure call) arg_list kwarg_list of
                  Inr result \<Rightarrow>
                    (let r = py_to_c_string (Some result); output' = output\<lparr>out_result := r\<rparr>
                     in Some (if r = None then MH_RES_BACKEND_ERROR else MH_RES_SUCCESS, output'))
                | Inl exc \<Rightarrow>
                    (case encode_exception env exc output of
                       None \<Rightarrow> None
                     | Some (ret, output') \<Rightarrow>
                         Some (if ret \<noteq> 0 then MH_RES_BACKEND_ERROR else MH_RES_SUCCESS, output')))))"

section \<open>Dispatch to the backends (rpc.c)\<close>

definition apis :: "mh_rpc_api option list" where
  "apis = [None, Some Mh_rpc_python_api]"

definition api_in_range :: "nat \<Rightarrow> bool" where
  "api_in_range i \<longleftrightarrow> i < length apis"

definition api_defined :: "nat \<Rightarrow> bool" where
  "api_defined i \<longleftrightarrow> api_in_range i \<and> apis ! i \<noteq> None"

text \<open>The macro \<open>FOREACH_API\<close> around a body: the state after it and the indices at which \<open>apis\<close> was read.
  The next element is read before the index is tested.\<close>

function foreach_from :: "(mh_rpc_api \<Rightarrow> 's \<Rightarrow> 's) \<Rightarrow> nat \<Rightarrow> 's \<Rightarrow> nat list \<Rightarrow> 's \<times> nat list" where
  "foreach_from body i s reads =
     (if api_in_range i
      then foreach_from body (Suc i) (case apis ! i of None \<Rightarrow> s | Some api \<Rightarrow> body api s) (reads @ [Suc i])
      else (s, reads))"
  by pat_completeness auto
termination by (relation "measure (\<lambda>(b, i, s, r). length apis - i)") (auto simp: api_in_range_def)

declare foreach_from.simps [simp del]

definition foreach_api :: "(mh_rpc_api \<Rightarrow> 's \<Rightarrow> 's) \<Rightarrow> 's \<Rightarrow> 's \<times> nat list" where
  "foreach_api body s = foreach_from body 0 s [0]"

definition mh_rpc_init :: "string list \<Rightarrow> rpc_state \<Rightarrow> rpc_state" where
  "mh_rpc_init argv s = fst (foreach_api (\<lambda>api. case api of Mh_rpc_python_api \<Rightarrow> python_init argv) s)"

definition mh_rpc_deinit :: "rpc_state \<Rightarrow> rpc_state" where
  "mh_rpc_deinit s = fst (foreach_api (\<lambda>api. case api of Mh_rpc_python_api \<Rightarrow> python_deinit) s)"

definition mh_rpc_load_plugins ::
  "'p py_env \<Rightarrow> rpc_state \<Rightarrow> 'p mh_rpc_plugin list \<Rightarrow> int \<times> 'p mh_rpc_plugin list" where
  "mh_rpc_load_plugins env s plugins =
     (0, fst (foreach_api (\<lambda>api ps. case api of Mh_rpc_python_api \<Rightarrow> snd (python_load_plugins env s ps)) plugins))"

definition mh_rpc_get_procedures :: "'p py_env \<Rightarrow> (nat \<Rightarrow> cptr) \<Rightarrow> 'p mh_rpc_plugin \<Rightarrow> cptr list option" where
  "mh_rpc_get_procedures env uninit plugin =
     (if \<not> api_defined (pl_type plugin) then None
      else case the (apis ! pl_type plugin) of Mh_rpc_python_api \<Rightarrow> get_procedures env uninit (pl_impl plugin))"

text \<open>The heap as the calls use it: the blocks that are allocated, and whether each of the next allocations
  succeeds (they do when the list has ended).\<close>

datatype block = Call_block | Text_block string | Array_block nat

record rpc_heap =
  rh_alloc :: "bool list"
  rh_blocks :: "block multiset"

definition next_alloc :: "rpc_heap \<Rightarrow> bool \<times> rpc_heap" where
  "next_alloc h = (case rh_alloc h of [] \<Rightarrow> (True, h) | ok # rest \<Rightarrow> (ok, h\<lparr>rh_alloc := rest\<rparr>))"

definition rpc_malloc :: "block \<Rightarrow> rpc_heap \<Rightarrow> bool \<times> rpc_heap" where
  "rpc_malloc b h =
     (case next_alloc h of (ok, h1) \<Rightarrow> (ok, if ok then h1\<lparr>rh_blocks := add_mset b (rh_blocks h1)\<rparr> else h1))"

definition rpc_free :: "block \<Rightarrow> rpc_heap \<Rightarrow> rpc_heap" where
  "rpc_free b h = h\<lparr>rh_blocks := rh_blocks h - {#b#}\<rparr>"

text \<open>\<open>free\<close> of a string that may be NULL.\<close>

definition rpc_free_text :: "cptr \<Rightarrow> rpc_heap \<Rightarrow> rpc_heap" where
  "rpc_free_text p h = (case p of None \<Rightarrow> h | Some t \<Rightarrow> rpc_free (Text_block t) h)"

text \<open>The array of a list of arguments; an empty list has none.\<close>

definition array_of :: "rpc_arg list \<Rightarrow> block multiset" where
  "array_of args = (if args = [] then {#} else {#Array_block (length args)#})"

definition rpc_realloc :: "rpc_arg list \<Rightarrow> rpc_heap \<Rightarrow> bool \<times> rpc_heap" where
  "rpc_realloc args h =
     (case next_alloc h of (ok, h1) \<Rightarrow>
        (ok, if ok then h1\<lparr>rh_blocks := add_mset (Array_block (length args + 1)) (rh_blocks h1 - array_of args)\<rparr> else h1))"

definition mh_rpc_call_create :: "string \<Rightarrow> rpc_heap \<Rightarrow> (int \<times> mh_rpc option) \<times> rpc_heap" where
  "mh_rpc_call_create proc h =
     (case rpc_malloc Call_block h of (ok1, h1) \<Rightarrow>
        if \<not> ok1 then ((- 1, None), h1)
        else case rpc_malloc (Text_block proc) h1 of (ok2, h2) \<Rightarrow>
               if \<not> ok2 then ((- 1, None), rpc_free Call_block h2)
               else ((0, Some \<lparr>procedure = proc, rpc_args = [], rpc_kwargs = []\<rparr>), h2))"

fun destroy_loop :: "rpc_arg list \<Rightarrow> rpc_heap \<Rightarrow> rpc_heap" where
  "destroy_loop [] h = h"
| "destroy_loop (a # rest) h =
     destroy_loop rest (rpc_free (Text_block (arg_val a)) (rpc_free_text (arg_key a) h))"

definition arg_list_destroy :: "rpc_arg list \<Rightarrow> rpc_heap \<Rightarrow> rpc_heap" where
  "arg_list_destroy args h =
     (let h1 = destroy_loop args h in h1\<lparr>rh_blocks := rh_blocks h1 - array_of args\<rparr>)"

definition mh_rpc_call_destroy :: "mh_rpc \<Rightarrow> rpc_heap \<Rightarrow> int \<times> rpc_heap" where
  "mh_rpc_call_destroy call h =
     (0, rpc_free Call_block
           (arg_list_destroy (rpc_kwargs call)
             (arg_list_destroy (rpc_args call)
               (rpc_free (Text_block (procedure call)) h))))"

definition add_arg :: "rpc_arg list \<Rightarrow> cptr \<Rightarrow> string \<Rightarrow> rpc_heap \<Rightarrow> (int \<times> rpc_arg list) \<times> rpc_heap" where
  "add_arg args key val h =
     (case rpc_realloc args h of (ok, h1) \<Rightarrow>
        if \<not> ok then ((- 1, args), h1)
        else ((0, args @ [\<lparr>arg_key = key, arg_val = val\<rparr>]), h1))"

definition mh_rpc_call_add_arg :: "mh_rpc \<Rightarrow> string \<Rightarrow> rpc_heap \<Rightarrow> (int \<times> mh_rpc) \<times> rpc_heap" where
  "mh_rpc_call_add_arg call arg h =
     (case rpc_malloc (Text_block arg) h of (ok, h1) \<Rightarrow>
        if \<not> ok then ((- 1, call), h1)
        else case add_arg (rpc_args call) None arg h1 of ((ret, args), h2) \<Rightarrow>
               ((ret, call\<lparr>rpc_args := args\<rparr>), if ret \<noteq> 0 then rpc_free (Text_block arg) h2 else h2))"

definition mh_rpc_call_add_kw_arg :: "mh_rpc \<Rightarrow> string \<Rightarrow> string \<Rightarrow> rpc_heap \<Rightarrow> (int \<times> mh_rpc) \<times> rpc_heap" where
  "mh_rpc_call_add_kw_arg call key arg h =
     (case rpc_malloc (Text_block arg) h of (ok1, h1) \<Rightarrow>
        if \<not> ok1 then ((- 1, call), h1)
        else case rpc_malloc (Text_block key) h1 of (ok2, h2) \<Rightarrow>
               if \<not> ok2 then ((- 1, call), rpc_free (Text_block arg) h2)
               else case add_arg (rpc_kwargs call) (Some key) arg h2 of ((ret, args), h3) \<Rightarrow>
                      ((ret, call\<lparr>rpc_kwargs := args\<rparr>),
                       if ret \<noteq> 0 then rpc_free (Text_block arg) (rpc_free (Text_block key) h3) else h3))"

definition mh_rpc_invoke ::
  "'p py_env \<Rightarrow> 'p mh_rpc_plugin \<Rightarrow> mh_rpc \<Rightarrow> (mh_result \<times> mh_rpc_result) option" where
  "mh_rpc_invoke env plugin call =
     (if \<not> api_defined (pl_type plugin) then Some (MH_RES_BACKEND_ERROR, empty_result)
      else case the (apis ! pl_type plugin) of
             Mh_rpc_python_api \<Rightarrow> python_invoke env (pl_impl plugin) call empty_result)"

section \<open>Who owns which block\<close>

definition texts_of :: "rpc_arg list \<Rightarrow> block multiset" where
  "texts_of args =
     sum_list (map (\<lambda>a. add_mset (Text_block (arg_val a))
       (case arg_key a of None \<Rightarrow> {#} | Some k \<Rightarrow> {#Text_block k#})) args)"

definition owned_args :: "rpc_arg list \<Rightarrow> block multiset" where
  "owned_args args = array_of args + texts_of args"

definition owned :: "mh_rpc \<Rightarrow> block multiset" where
  "owned call =
     {#Call_block, Text_block (procedure call)#} + owned_args (rpc_args call) + owned_args (rpc_kwargs call)"

text \<open>The requests a client makes of a call it holds.\<close>

datatype rpc_op = Add_arg string | Add_kw_arg string string

fun rpc_step :: "rpc_op \<Rightarrow> mh_rpc \<Rightarrow> rpc_heap \<Rightarrow> (int \<times> mh_rpc) \<times> rpc_heap" where
  "rpc_step (Add_arg arg) call h = mh_rpc_call_add_arg call arg h"
| "rpc_step (Add_kw_arg key arg) call h = mh_rpc_call_add_kw_arg call key arg h"

fun rpc_build :: "rpc_op list \<Rightarrow> mh_rpc \<Rightarrow> rpc_heap \<Rightarrow> mh_rpc \<times> rpc_heap" where
  "rpc_build [] call h = (call, h)"
| "rpc_build (x # xs) call h = (case rpc_step x call h of ((ret, call'), h') \<Rightarrow> rpc_build xs call' h')"

lemma texts_of_simps [simp]:
  "texts_of [] = {#}"
  "texts_of (a # args) = add_mset (Text_block (arg_val a))
     (case arg_key a of None \<Rightarrow> {#} | Some k \<Rightarrow> {#Text_block k#}) + texts_of args"
  "texts_of (xs @ ys) = texts_of xs + texts_of ys"
  by (simp_all add: texts_of_def)

lemma rpc_free_blocks [simp]: "rh_blocks (rpc_free b h) = rh_blocks h - {#b#}"
  by (simp add: rpc_free_def)

lemma rpc_malloc_blocks:
  "rpc_malloc b h = (ok, h') \<Longrightarrow> rh_blocks h' = (if ok then add_mset b (rh_blocks h) else rh_blocks h)"
  by (auto simp: rpc_malloc_def next_alloc_def split: list.splits if_splits)

lemma rpc_realloc_blocks:
  assumes "rpc_realloc args h = (ok, h')"
  shows "rh_blocks h' =
     (if ok then add_mset (Array_block (length args + 1)) (rh_blocks h - array_of args) else rh_blocks h)"
  using assms by (auto simp: rpc_realloc_def next_alloc_def split: list.splits if_splits)

lemma array_of_snoc [simp]: "array_of (args @ [a]) = {#Array_block (length args + 1)#}"
  by (simp add: array_of_def)

lemma add_arg_owned:
  assumes "add_arg args key val h = ((ret, args'), h')" and "rh_blocks h = B + owned_args args"
  shows "ret = 0 \<Longrightarrow> rh_blocks h' + texts_of [\<lparr>arg_key = key, arg_val = val\<rparr>] = B + owned_args args'"
    and "ret \<noteq> 0 \<Longrightarrow> args' = args \<and> rh_blocks h' = B + owned_args args"
proof -
  obtain ok h1 where r: "rpc_realloc args h = (ok, h1)"
    by (cases "rpc_realloc args h")
  note b = rpc_realloc_blocks [OF r]
  show "rh_blocks h' + texts_of [\<lparr>arg_key = key, arg_val = val\<rparr>] = B + owned_args args'" if "ret = 0"
    using assms r b that by (auto simp: add_arg_def owned_args_def split: if_splits)
  show "args' = args \<and> rh_blocks h' = B + owned_args args" if "ret \<noteq> 0"
    using assms r b that by (auto simp: add_arg_def split: if_splits)
qed

lemma destroy_loop_blocks: "rh_blocks (destroy_loop args h) = rh_blocks h - texts_of args"
  by (induction args arbitrary: h) (auto simp: rpc_free_text_def add_mset_commute split: option.splits)

lemma arg_list_destroy_blocks: "rh_blocks (arg_list_destroy args h) = rh_blocks h - owned_args args"
  by (simp add: arg_list_destroy_def Let_def destroy_loop_blocks owned_args_def add.commute)

lemma add_arg_keeps:
  assumes "mh_rpc_call_add_arg call arg h = ((ret, call'), h')" and "rh_blocks h = B + owned call"
  shows "rh_blocks h' = B + owned call' \<and> (ret \<noteq> 0 \<longrightarrow> call' = call)"
proof -
  obtain ok h1 where m: "rpc_malloc (Text_block arg) h = (ok, h1)"
    by (cases "rpc_malloc (Text_block arg) h")
  show ?thesis
  proof (cases ok)
    case False
    then show ?thesis using assms m rpc_malloc_blocks [OF m] by (auto simp: mh_rpc_call_add_arg_def)
  next
    case True
    obtain r args' h2 where a: "add_arg (rpc_args call) None arg h1 = ((r, args'), h2)"
      by (metis prod.collapse)
    have h1: "rh_blocks h1 =
        (add_mset (Text_block arg) B + {#Call_block, Text_block (procedure call)#} + owned_args (rpc_kwargs call)) +
        owned_args (rpc_args call)"
      using rpc_malloc_blocks [OF m] True assms(2) by (simp add: owned_def)
    note own = add_arg_owned [OF a h1]
    have eqs: "ret = r" "call' = call\<lparr>rpc_args := args'\<rparr>"
      "h' = (if r \<noteq> 0 then rpc_free (Text_block arg) h2 else h2)"
      using assms(1) m a True by (auto simp: mh_rpc_call_add_arg_def)
    show ?thesis
    proof (cases "r = 0")
      case True
      then show ?thesis using own(1) eqs by (simp add: owned_def)
    next
      case False
      then show ?thesis using own(2) eqs by (simp add: owned_def)
    qed
  qed
qed

lemma add_kw_arg_keeps:
  assumes "mh_rpc_call_add_kw_arg call key arg h = ((ret, call'), h')" and "rh_blocks h = B + owned call"
  shows "rh_blocks h' = B + owned call' \<and> (ret \<noteq> 0 \<longrightarrow> call' = call)"
proof -
  obtain ok1 h1 where m1: "rpc_malloc (Text_block arg) h = (ok1, h1)"
    by (cases "rpc_malloc (Text_block arg) h")
  obtain ok2 h2 where m2: "rpc_malloc (Text_block key) h1 = (ok2, h2)"
    by (cases "rpc_malloc (Text_block key) h1")
  note b = rpc_malloc_blocks [OF m1] rpc_malloc_blocks [OF m2]
  show ?thesis
  proof (cases "ok1 \<and> ok2")
    case False
    then show ?thesis using assms m1 m2 b by (auto simp: mh_rpc_call_add_kw_arg_def split: if_splits)
  next
    case True
    obtain r args' h3 where a: "add_arg (rpc_kwargs call) (Some key) arg h2 = ((r, args'), h3)"
      by (metis prod.collapse)
    have h2: "rh_blocks h2 =
        (add_mset (Text_block arg) (add_mset (Text_block key) B) + {#Call_block, Text_block (procedure call)#} +
         owned_args (rpc_args call)) + owned_args (rpc_kwargs call)"
      using b True assms(2) by (simp add: owned_def)
    note own = add_arg_owned [OF a h2]
    have eqs: "ret = r" "call' = call\<lparr>rpc_kwargs := args'\<rparr>"
      "h' = (if r \<noteq> 0 then rpc_free (Text_block arg) (rpc_free (Text_block key) h3) else h3)"
      using assms(1) m1 m2 a True by (auto simp: mh_rpc_call_add_kw_arg_def)
    show ?thesis
    proof (cases "r = 0")
      case True
      then show ?thesis using own(1) eqs by (simp add: owned_def)
    next
      case False
      then show ?thesis using own(2) eqs by (simp add: owned_def add_mset_commute)
    qed
  qed
qed

text \<open>A discipline of ownership: an object that may be extended by requests, each of which may fail, and that
  owns its blocks all the while.\<close>

locale block_owner =
  fixes owns :: "'c \<Rightarrow> block multiset"
    and request :: "'o \<Rightarrow> 'c \<Rightarrow> rpc_heap \<Rightarrow> (int \<times> 'c) \<times> rpc_heap"
    and run :: "'o list \<Rightarrow> 'c \<Rightarrow> rpc_heap \<Rightarrow> 'c \<times> rpc_heap"
    and release :: "'c \<Rightarrow> rpc_heap \<Rightarrow> int \<times> rpc_heap"
  assumes request_keeps: "\<lbrakk>request x c h = ((ret, c'), h'); rh_blocks h = B + owns c\<rbrakk> \<Longrightarrow> rh_blocks h' = B + owns c'"
    and run_nil: "run [] c h = (c, h)"
    and run_cons: "run (x # xs) c h = (case request x c h of ((ret, c'), h') \<Rightarrow> run xs c' h')"
    and release_owned: "rh_blocks h = B + owns c \<Longrightarrow> rh_blocks (snd (release c h)) = B"
begin

lemma run_keeps:
  assumes "run xs c h = (c', h')" and "rh_blocks h = B + owns c"
  shows "rh_blocks h' = B + owns c'"
  using assms
proof (induction xs arbitrary: c h)
  case Nil
  then show ?case by (simp add: run_nil)
next
  case (Cons x xs)
  obtain ret c1 h1 where r: "request x c h = ((ret, c1), h1)"
    by (metis prod.collapse)
  show ?case using Cons.IH [of c1 h1] Cons.prems r request_keeps [OF r] by (simp add: run_cons)
qed

lemma release_after_run:
  assumes "run xs c h = (c', h')" and "rh_blocks h = B + owns c"
  shows "rh_blocks (snd (release c' h')) = B"
  using release_owned [OF run_keeps [OF assms]] .

end

lemma call_destroy_owned:
  assumes "rh_blocks h = B + owned call"
  shows "rh_blocks (snd (mh_rpc_call_destroy call h)) = B"
  using assms by (simp add: mh_rpc_call_destroy_def arg_list_destroy_blocks owned_def)

lemma rpc_step_keeps:
  assumes "rpc_step x call h = ((ret, call'), h')" and "rh_blocks h = B + owned call"
  shows "rh_blocks h' = B + owned call' \<and> (ret \<noteq> 0 \<longrightarrow> call' = call)"
  using assms by (cases x) (auto dest: add_arg_keeps add_kw_arg_keeps)

interpretation rpc_call: block_owner owned rpc_step rpc_build mh_rpc_call_destroy
  by unfold_locales (auto dest: rpc_step_keeps call_destroy_owned)

lemma call_create_cases:
  "mh_rpc_call_create proc h = ((ret, pcall), h') \<Longrightarrow>
     (ret = - 1 \<and> pcall = None \<and> rh_blocks h' = rh_blocks h) \<or>
     (ret = 0 \<and> pcall = Some \<lparr>procedure = proc, rpc_args = [], rpc_kwargs = []\<rparr> \<and>
      rh_blocks h' = rh_blocks h + owned \<lparr>procedure = proc, rpc_args = [], rpc_kwargs = []\<rparr>)"
  by (auto simp: mh_rpc_call_create_def owned_def owned_args_def array_of_def add_mset_commute dest!: rpc_malloc_blocks
           split: prod.splits if_splits)

text \<open>C37: A client that creates a call, adds any arguments and keyword arguments to it and destroys it leaves the
  heap as it found it, whichever of the allocations on the way fail: nothing is lost and nothing is released
  twice. If the creation itself fails, no call is handed out and nothing stays allocated.\<close>

theorem call_releases_everything:
  assumes "mh_rpc_call_create proc h = ((ret, pcall), h1)"
  shows "case pcall of
           None \<Rightarrow> ret = - 1 \<and> rh_blocks h1 = rh_blocks h
         | Some call \<Rightarrow> ret = 0 \<and>
             (case rpc_build ops call h1 of (call', h2) \<Rightarrow>
                rh_blocks h2 = rh_blocks h + owned call' \<and>
                rh_blocks (snd (mh_rpc_call_destroy call' h2)) = rh_blocks h)"
  using call_create_cases [OF assms] rpc_call.run_keeps rpc_call.release_after_run
  by (fastforce split: prod.splits)

definition demo_heap :: rpc_heap where
  "demo_heap = \<lparr>rh_alloc = [True, True, True, True, True, True, False], rh_blocks = {#}\<rparr>"

theorem call_releases_everything_witness:
  "\<exists>call h1. mh_rpc_call_create ''add'' demo_heap = ((0, Some call), h1) \<and>
     (case rpc_build [Add_arg ''1'', Add_kw_arg ''k'' ''v''] call h1 of (call', h2) \<Rightarrow>
        length (rpc_args call') = 1 \<and> rpc_kwargs call' = [] \<and>
        rh_blocks (snd (mh_rpc_call_destroy call' h2)) = {#})"
proof -
  define call :: mh_rpc where "call = \<lparr>procedure = ''add'', rpc_args = [], rpc_kwargs = []\<rparr>"
  define h1 :: rpc_heap where
    "h1 = \<lparr>rh_alloc = [True, True, True, True, False], rh_blocks = {#Text_block ''add'', Call_block#}\<rparr>"
  have c: "mh_rpc_call_create ''add'' demo_heap = ((0, Some call), h1)"
    by (simp add: mh_rpc_call_create_def demo_heap_def rpc_malloc_def next_alloc_def call_def h1_def)
  have b: "case rpc_build [Add_arg ''1'', Add_kw_arg ''k'' ''v''] call h1 of (call', h2) \<Rightarrow>
      length (rpc_args call') = 1 \<and> rpc_kwargs call' = []"
    by (simp add: mh_rpc_call_add_arg_def mh_rpc_call_add_kw_arg_def add_arg_def rpc_malloc_def rpc_realloc_def
        next_alloc_def call_def h1_def)
  show ?thesis
    using c b call_releases_everything [OF c, of "[Add_arg ''1'', Add_kw_arg ''k'' ''v'']"]
    by (intro exI [of _ call] exI [of _ h1]) (simp add: demo_heap_def split: prod.splits)
qed

section \<open>What a call runs\<close>

fun plain_args :: "rpc_op list \<Rightarrow> string list" where
  "plain_args [] = []"
| "plain_args (Add_arg arg # xs) = arg # plain_args xs"
| "plain_args (Add_kw_arg key arg # xs) = plain_args xs"

fun keyword_args :: "rpc_op list \<Rightarrow> (cptr \<times> string) list" where
  "keyword_args [] = []"
| "keyword_args (Add_arg arg # xs) = keyword_args xs"
| "keyword_args (Add_kw_arg key arg # xs) = (Some key, arg) # keyword_args xs"

definition no_failures :: "rpc_heap \<Rightarrow> bool" where
  "no_failures h \<longleftrightarrow> rh_alloc h = []"

lemma no_failures_alloc [simp]:
  assumes "no_failures h"
  shows "fst (rpc_malloc b h)" "no_failures (snd (rpc_malloc b h))"
    "fst (rpc_realloc args h)" "no_failures (snd (rpc_realloc args h))"
  using assms by (simp_all add: rpc_malloc_def rpc_realloc_def next_alloc_def no_failures_def)

lemma rpc_step_no_failures:
  assumes "no_failures h"
  shows "\<exists>h'. no_failures h' \<and> rpc_step x call h =
     ((0, case x of Add_arg arg \<Rightarrow> call\<lparr>rpc_args := rpc_args call @ [\<lparr>arg_key = None, arg_val = arg\<rparr>]\<rparr>
                  | Add_kw_arg key arg \<Rightarrow> call\<lparr>rpc_kwargs := rpc_kwargs call @ [\<lparr>arg_key = Some key, arg_val = arg\<rparr>]\<rparr>), h')"
  using assms
  by (cases x) (simp_all add: mh_rpc_call_add_arg_def mh_rpc_call_add_kw_arg_def add_arg_def rpc_malloc_def
      rpc_realloc_def next_alloc_def no_failures_def)

lemma rpc_build_no_failures:
  assumes "no_failures h" and "rpc_build ops call h = (call', h')"
  shows "procedure call' = procedure call \<and>
    map get_arg_item (rpc_args call') = map get_arg_item (rpc_args call) @ plain_args ops \<and>
    map get_kwarg_item (rpc_kwargs call') = map get_kwarg_item (rpc_kwargs call) @ keyword_args ops"
  using assms
proof (induction ops arbitrary: call h)
  case Nil
  then show ?case by simp
next
  case (Cons x ops)
  obtain h1 where "no_failures h1" and "rpc_step x call h =
     ((0, case x of Add_arg arg \<Rightarrow> call\<lparr>rpc_args := rpc_args call @ [\<lparr>arg_key = None, arg_val = arg\<rparr>]\<rparr>
                  | Add_kw_arg key arg \<Rightarrow> call\<lparr>rpc_kwargs := rpc_kwargs call @ [\<lparr>arg_key = Some key, arg_val = arg\<rparr>]\<rparr>), h1)"
    using rpc_step_no_failures [OF Cons.prems(1)] by blast
  then show ?case
    using Cons.IH [of h1] Cons.prems(2) by (cases x) (auto simp: get_arg_item_def get_kwarg_item_def)
qed

text \<open>The outcome for what the plugin did: an answer must be a string, and an exception must be one that the
  formatting function accepts.\<close>

definition rpc_outcome :: "'p py_env \<Rightarrow> exception_info + pystr \<Rightarrow> (mh_result \<times> mh_rpc_result) option" where
  "rpc_outcome env answer =
     (case answer of
        Inr None \<Rightarrow> Some (MH_RES_BACKEND_ERROR, empty_result)
      | Inr (Some t) \<Rightarrow> Some (MH_RES_SUCCESS, empty_result\<lparr>out_result := Some t\<rparr>)
      | Inl exc \<Rightarrow>
          (case encode_exception env exc empty_result of
             None \<Rightarrow> None
           | Some (ret, output) \<Rightarrow> Some (if ret \<noteq> 0 then MH_RES_BACKEND_ERROR else MH_RES_SUCCESS, output)))"

lemma api_defined_iff: "api_defined i \<longleftrightarrow> i = MH_RPC_PYTHON"
  by (auto simp: api_defined_def api_in_range_def apis_def MH_RPC_PYTHON_def less_Suc_eq)

lemma python_invoke_outcome:
  assumes "py_tuple_new env 0" and "py_tuple_new env 1"
  shows "python_invoke env plugin call empty_result =
     rpc_outcome env (py_call env plugin (procedure call) (map get_arg_item (rpc_args call))
                        (map get_kwarg_item (rpc_kwargs call)))"
  using assms
  by (auto simp: python_invoke_def get_arg_list_def rpc_outcome_def py_to_c_string_def empty_result_def Let_def
           split: sum.splits option.splits)

lemma mh_rpc_invoke_python:
  "pl_type plugin = MH_RPC_PYTHON \<Longrightarrow>
     mh_rpc_invoke env plugin call = python_invoke env (pl_impl plugin) call empty_result"
  by (simp add: mh_rpc_invoke_def api_defined_iff apis_def MH_RPC_PYTHON_def)

text \<open>Every backend is given the state once; \<open>apis\<close> is read at 2 too, which is one past its end.\<close>

lemma foreach_api_eq: "foreach_api body s = (body Mh_rpc_python_api s, [0, 1, 2])"
proof -
  have "foreach_from body (Suc (Suc 0)) t r = (t, r)" for t r
    by (subst foreach_from.simps) (simp add: api_in_range_def apis_def)
  moreover have "foreach_from body (Suc 0) t r = foreach_from body (Suc (Suc 0)) (body Mh_rpc_python_api t) (r @ [2])" for t r
    by (subst foreach_from.simps) (simp add: api_in_range_def apis_def numeral_2_eq_2)
  moreover have "foreach_from body 0 t r = foreach_from body (Suc 0) t (r @ [1])" for t r
    by (subst foreach_from.simps) (simp add: api_in_range_def apis_def)
  ultimately show ?thesis by (simp add: foreach_api_def)
qed

text \<open>The loop over the backends reads the element after the last one of \<open>apis\<close> before its test ends it.\<close>

lemma foreach_api_reads_past_the_end: "length apis \<in> set (snd (foreach_api body s))"
  by (simp add: foreach_api_eq apis_def)

section \<open>Loading the plugins\<close>

lemma load_loop_eq:
  "load_loop env ps plugins = plugins @
     map (\<lambda>(p, n). \<lparr>pl_name = n, pl_type = MH_RPC_PYTHON, pl_impl = p\<rparr>)
       (List.map_filter (\<lambda>q. case q of None \<Rightarrow> None | Some p \<Rightarrow> map_option (Pair p) (get_plugin_name env p)) ps)"
  by (induction ps arbitrary: plugins) (auto simp: map_filter_simps split: option.splits)

lemma load_loop_types:
  "plugin \<in> set (load_loop env ps plugins) \<Longrightarrow>
     plugin \<in> set plugins \<or>
     (pl_type plugin = MH_RPC_PYTHON \<and> Some (pl_impl plugin) \<in> set ps \<and>
      get_plugin_name env (pl_impl plugin) = Some (pl_name plugin))"
  by (induction ps arbitrary: plugins) (fastforce split: option.splits)+

lemma mh_rpc_load_plugins_eq: "mh_rpc_load_plugins env s plugins = (0, snd (python_load_plugins env s plugins))"
  by (simp add: mh_rpc_load_plugins_def foreach_api_eq)

lemma loaded_is_python:
  assumes "plugin \<in> set (snd (mh_rpc_load_plugins env s []))"
  shows "pl_type plugin = MH_RPC_PYTHON"
  using assms load_loop_types [of plugin env _ "[]"]
  by (auto simp: mh_rpc_load_plugins_eq python_load_plugins_def split: if_splits option.splits pyseq.splits)

text \<open>A remote call from end to end. For a plugin that was loaded, and a call that was created for a procedure
  and given arguments while allocations succeed, invoking the call runs that procedure of that plugin with the
  positional arguments and the keyword arguments in the order they were added, and reports what it did:
  a string is returned as the result with success, any other answer is a backend error, an exception is
  passed on as its formatted parts.\<close>

theorem invoke_runs_the_call:
  assumes "plugin \<in> set (snd (mh_rpc_load_plugins env s []))"
    and "no_failures h"
    and "mh_rpc_call_create proc h = ((ret, Some call), h1)"
    and "rpc_build ops call h1 = (call', h2)"
    and "py_tuple_new env 0" and "py_tuple_new env 1"
  shows "mh_rpc_invoke env plugin call' =
     rpc_outcome env (py_call env (pl_impl plugin) proc (plain_args ops) (keyword_args ops))"
proof -
  have c: "call = \<lparr>procedure = proc, rpc_args = [], rpc_kwargs = []\<rparr>"
    using call_create_cases [OF assms(3)] by simp
  have "no_failures h1"
    using assms(2,3)
    by (auto simp: mh_rpc_call_create_def no_failures_def rpc_malloc_def next_alloc_def)
  from rpc_build_no_failures [OF this assms(4)] c
  have "procedure call' = proc" "map get_arg_item (rpc_args call') = plain_args ops"
    "map get_kwarg_item (rpc_kwargs call') = keyword_args ops"
    by simp_all
  then show ?thesis
    using mh_rpc_invoke_python [OF loaded_is_python [OF assms(1)]] python_invoke_outcome [OF assms(5,6)] by simp
qed

text \<open>A Python environment with two plugins, objects 0 and 1, of which the second has no name; the procedure joins
  its arguments.\<close>

definition py_demo :: "nat py_env" where
  "py_demo = \<lparr>py_import = True, py_has_func = (\<lambda>f. True), py_plugins = Some (Items [Some 0, Some 1]),
     py_name = (\<lambda>p. if p = 0 then Some (Some ''demo'') else None),
     py_procedures = (\<lambda>p. Some (Items [Some (Some ''join''), None, Some (Some ''lost'')])),
     py_tuple_new = (\<lambda>i. True),
     py_call = (\<lambda>p f xs ks. if f = ''join'' then Inr (Some (concat xs))
                           else Inl \<lparr>ex_type = True, ex_value = True, ex_traceback = False, ex_formatted = None\<rparr>)\<rparr>"

definition demo_rpc_state :: rpc_state where
  "demo_rpc_state = \<lparr>py_initialized = True, py_argv = []\<rparr>"

lemma demo_loaded:
  "mh_rpc_load_plugins py_demo demo_rpc_state [] =
     (0, [\<lparr>pl_name = ''demo'', pl_type = MH_RPC_PYTHON, pl_impl = 0\<rparr>])"
  by (simp add: mh_rpc_load_plugins_eq python_load_plugins_def demo_rpc_state_def call_rpc_server_func_def
      get_plugin_name_def py_demo_def)

theorem invoke_runs_the_call_witness:
  "\<exists>call. rpc_build [Add_arg ''a'', Add_kw_arg ''k'' ''v'', Add_arg ''b'']
       \<lparr>procedure = ''join'', rpc_args = [], rpc_kwargs = []\<rparr>
       \<lparr>rh_alloc = [], rh_blocks = {#Text_block ''join'', Call_block#}\<rparr> = call \<and>
     mh_rpc_invoke py_demo \<lparr>pl_name = ''demo'', pl_type = MH_RPC_PYTHON, pl_impl = 0\<rparr> (fst call) =
       Some (MH_RES_SUCCESS, empty_result\<lparr>out_result := Some ''ab''\<rparr>)"
proof -
  define h :: rpc_heap where "h = \<lparr>rh_alloc = [], rh_blocks = {#}\<rparr>"
  have c: "mh_rpc_call_create ''join'' h =
      ((0, Some \<lparr>procedure = ''join'', rpc_args = [], rpc_kwargs = []\<rparr>),
       \<lparr>rh_alloc = [], rh_blocks = {#Text_block ''join'', Call_block#}\<rparr>)"
    by (simp add: mh_rpc_call_create_def h_def rpc_malloc_def next_alloc_def)
  obtain call' h2 where b: "rpc_build [Add_arg ''a'', Add_kw_arg ''k'' ''v'', Add_arg ''b'']
       \<lparr>procedure = ''join'', rpc_args = [], rpc_kwargs = []\<rparr>
       \<lparr>rh_alloc = [], rh_blocks = {#Text_block ''join'', Call_block#}\<rparr> = (call', h2)"
    by (metis prod.collapse)
  have "mh_rpc_invoke py_demo \<lparr>pl_name = ''demo'', pl_type = MH_RPC_PYTHON, pl_impl = 0\<rparr> call' =
      rpc_outcome py_demo (Inr (Some ''ab''))"
    using invoke_runs_the_call [OF _ _ c b, of "\<lparr>pl_name = ''demo'', pl_type = MH_RPC_PYTHON, pl_impl = 0\<rparr>"
        py_demo demo_rpc_state]
    by (simp add: demo_loaded) (simp add: no_failures_def h_def py_demo_def)
  then show ?thesis using b by (simp add: rpc_outcome_def)
qed

text \<open>A procedure of a plugin that raises an exception without a value or without a traceback ends the process:
  the exception is collected into a tuple that cannot be built, and the missing part is then released through
  a NULL pointer. Nothing else that a plugin answers does.\<close>

theorem invoke_crashes_on_partial_exception:
  assumes "pl_type plugin = MH_RPC_PYTHON" and "py_tuple_new env 0" and "py_tuple_new env 1"
  shows "mh_rpc_invoke env plugin call = None \<longleftrightarrow>
    (\<exists>exc. py_call env (pl_impl plugin) (procedure call) (map get_arg_item (rpc_args call))
             (map get_kwarg_item (rpc_kwargs call)) = Inl exc \<and>
           \<not> (ex_type exc \<and> ex_value exc \<and> ex_traceback exc))"
  by (auto simp: mh_rpc_invoke_python [OF assms(1)] python_invoke_outcome [OF assms(2,3)] rpc_outcome_def
                 encode_exception_def Let_def
           split: sum.splits option.splits)

theorem invoke_crashes_on_partial_exception_witness:
  "mh_rpc_invoke py_demo \<lparr>pl_name = ''demo'', pl_type = MH_RPC_PYTHON, pl_impl = 0\<rparr>
     \<lparr>procedure = ''fail'', rpc_args = [], rpc_kwargs = []\<rparr> = None"
  using invoke_crashes_on_partial_exception [of "\<lparr>pl_name = ''demo'', pl_type = MH_RPC_PYTHON, pl_impl = 0\<rparr>"
      py_demo "\<lparr>procedure = ''fail'', rpc_args = [], rpc_kwargs = []\<rparr>"]
  by (simp add: py_demo_def)

section \<open>The procedures of a plugin\<close>

fun c_strings :: "cptr list \<Rightarrow> string list" where
  "c_strings [] = []"
| "c_strings (None # ps) = []"
| "c_strings (Some t # ps) = t # c_strings ps"

lemma c_strings_append [simp]: "c_strings (map Some ts @ ps) = ts @ c_strings ps"
  by (induction ts) auto

lemma fill_procs_read:
  assumes "length rest = Suc (length xs)"
  shows "c_strings ((fill_procs (map Some ts @ rest) (length ts) xs)[length ts + length xs := None]) =
     ts @ c_strings (map py_to_c_string xs)"
  using assms
proof (induction xs arbitrary: ts rest)
  case Nil
  then obtain r where "rest = [r]" by (auto simp: length_Suc_conv)
  then show ?case by (simp add: list_update_append)
next
  case (Cons x xs)
  then obtain r rest' where r: "rest = r # rest'" "length rest' = Suc (length xs)"
    by (auto simp: length_Suc_conv)
  show ?case
  proof (cases "py_to_c_string x")
    case None
    then show ?thesis by (simp add: r list_update_append Let_def)
  next
    case (Some t)
    then show ?thesis
      using Cons.IH [OF r(2), of "ts @ [t]"] by (simp add: r list_update_append Let_def)
  qed
qed

text \<open>The array that \<open>mh_rpc_get_procedures\<close> makes of a plugin's procedures, read up to the first NULL as a client
  reads it, is the list of the plugin's procedure names up to the first that is not a string: the entries
  behind it, which were never written, are not reached, whatever the memory held.\<close>

theorem get_procedures_read:
  assumes "pl_type plugin = MH_RPC_PYTHON" and "py_procedures env (pl_impl plugin) = Some (Items xs)"
  shows "\<exists>procs. mh_rpc_get_procedures env uninit plugin = Some procs \<and> length procs = length xs + 1 \<and>
    c_strings procs = map the (takeWhile (\<lambda>p. p \<noteq> None) (map py_to_c_string xs))"
proof -
  have len: "length (fill_procs ps i ys) = length ps" for ps i and ys :: "pystr option list"
    by (induction ps i ys rule: fill_procs.induct) (simp_all add: Let_def)
  have tw: "c_strings ps = map the (takeWhile (\<lambda>p. p \<noteq> None) ps)" for ps
    by (induction ps rule: c_strings.induct) auto
  show ?thesis
    using assms fill_procs_read [of "map uninit [0..<length xs + 1]" xs "[]"]
    by (simp add: mh_rpc_get_procedures_def api_defined_iff apis_def MH_RPC_PYTHON_def get_procedures_def len tw)
qed

theorem get_procedures_read_witness:
  "\<exists>procs. mh_rpc_get_procedures py_demo (\<lambda>i. Some ''garbage'') \<lparr>pl_name = ''demo'', pl_type = MH_RPC_PYTHON, pl_impl = 0\<rparr>
      = Some procs \<and> length procs = 4 \<and> c_strings procs = [''join'']"
  using get_procedures_read [of "\<lparr>pl_name = ''demo'', pl_type = MH_RPC_PYTHON, pl_impl = 0\<rparr>" py_demo
      "[Some (Some ''join''), None, Some (Some ''lost'')]" "\<lambda>i. Some ''garbage''"]
  by (simp add: py_demo_def py_to_c_string_def eval_nat_numeral)

end
