(* ===== verification/Qmf.thy ===== *)
theory Qmf
  imports Mainloop "HOL-Library.List_Lexorder" "HOL-Library.Char_ord"
begin

text \<open>
  What the QMF agents share: the variant values of a management message, method calls and their
  answers, the event source that feeds a session's events into the main loop (the last part of
  \<^verbatim>\<open>src/src/lib/mh_agent.cpp\<close>) and the registry of managed objects
  (\<^verbatim>\<open>src/src/lib/mh_object.cpp\<close>).

  The qpid and QMF libraries are not part of the repository. A variant is the data the library
  documents, and a \<^verbatim>\<open>Variant::Map\<close> (a \<^verbatim>\<open>std::map\<close> with string keys) is an association list that
  \<open>qmap_put\<close> keeps in the order of its keys. The library's conversions of a variant are an argument
  of type \<open>qpid_conv\<close>; \<open>None\<close> is the exception a conversion throws, which no agent catches.
  \<open>conv_ok\<close> states what the library documents about them and \<open>qpid_ref\<close> is an instance of it. What an
  agent asks of its session is a list of outputs; the events of a session are a queue.

  The locale \<open>qmf_agent\<close> states what the main loop relies on of an agent: every handler asks to be
  called again. Its extension \<open>qmf_sync_agent\<close> adds that a method call is answered exactly once before
  the handler returns, and \<open>qmf_method_agent\<close> that nothing else is answered; \<open>qmf_inv_agent\<close> adds an
  invariant of the agent's state. The agent theories interpret them.
\<close>

section \<open>Variants\<close>

datatype qvariant =
    VAR_VOID
  | VAR_BOOL bool
  | VAR_UINT8 "8 word"
  | VAR_UINT16 u16
  | VAR_UINT32 u32
  | VAR_UINT64 u64
  | VAR_INT8 "8 word"
  | VAR_INT16 u16
  | VAR_INT32 u32
  | VAR_INT64 u64
  | VAR_FLOAT u32
  | VAR_DOUBLE u64
  | VAR_STRING string
  | VAR_MAP "(string \<times> qvariant) list"
  | VAR_LIST "qvariant list"

type_synonym qmap = "(string \<times> qvariant) list"

fun qmap_put :: "string \<Rightarrow> 'v \<Rightarrow> (string \<times> 'v) list \<Rightarrow> (string \<times> 'v) list" where
  "qmap_put k v [] = [(k, v)]"
| "qmap_put k v ((k', v') # m) =
     (if k = k' then (k, v) # m
      else if k < k' then (k, v) # (k', v') # m
      else (k', v') # qmap_put k v m)"

definition qmap_count :: "string \<Rightarrow> (string \<times> 'v) list \<Rightarrow> bool" where
  "qmap_count k m \<longleftrightarrow> map_of m k \<noteq> None"

definition qmap_erase :: "string \<Rightarrow> (string \<times> 'v) list \<Rightarrow> (string \<times> 'v) list" where
  "qmap_erase k m = filter (\<lambda>(k', _). k' \<noteq> k) m"

text \<open>Reading with \<^verbatim>\<open>operator[]\<close> gives the void variant for a key that is absent.\<close>

definition qmap_get :: "string \<Rightarrow> qmap \<Rightarrow> qvariant" where
  "qmap_get k m = (case map_of m k of None \<Rightarrow> VAR_VOID | Some v \<Rightarrow> v)"

record qpid_conv =
  as_string :: "qvariant \<Rightarrow> string option"
  as_int32 :: "qvariant \<Rightarrow> u32 option"
  as_uint32 :: "qvariant \<Rightarrow> u32 option"
  as_map :: "qvariant \<Rightarrow> qmap option"
  as_list :: "qvariant \<Rightarrow> qvariant list option"
  stream_out :: "qvariant \<Rightarrow> string"

definition conv_ok :: "qpid_conv \<Rightarrow> bool" where
  "conv_ok cv \<longleftrightarrow>
     (\<forall>s. as_string cv (VAR_STRING s) = Some s) \<and> as_string cv VAR_VOID = Some [] \<and>
     as_int32 cv VAR_VOID = Some 0 \<and> as_uint32 cv VAR_VOID = Some 0 \<and>
     as_map cv VAR_VOID = None \<and> as_list cv VAR_VOID = None \<and>
     (\<forall>w. as_int32 cv (VAR_INT32 w) = Some w) \<and>
     (\<forall>w. 0 \<le> sint w \<longrightarrow> as_int32 cv (VAR_UINT32 w) = Some w) \<and> (\<forall>w. as_uint32 cv (VAR_UINT32 w) = Some w) \<and>
     (\<forall>m. as_map cv (VAR_MAP m) = Some m) \<and> (\<forall>l. as_list cv (VAR_LIST l) = Some l) \<and>
     (\<forall>s. stream_out cv (VAR_STRING s) = s) \<and>
     (\<forall>w. stream_out cv (VAR_UINT16 w) = show_nat (unat w))"

definition qpid_ref :: qpid_conv where
  "qpid_ref = \<lparr>
     as_string = (\<lambda>v. case v of VAR_STRING s \<Rightarrow> Some s | VAR_VOID \<Rightarrow> Some [] | _ \<Rightarrow> None),
     as_int32 = (\<lambda>v. case v of VAR_VOID \<Rightarrow> Some 0 | VAR_INT32 w \<Rightarrow> Some w | VAR_UINT32 w \<Rightarrow> if sint w < 0 then None else Some w | _ \<Rightarrow> None),
     as_uint32 = (\<lambda>v. case v of VAR_VOID \<Rightarrow> Some 0 | VAR_UINT32 w \<Rightarrow> Some w | VAR_INT32 w \<Rightarrow> if sint w < 0 then None else Some w | _ \<Rightarrow> None),
     as_map = (\<lambda>v. case v of VAR_MAP m \<Rightarrow> Some m | _ \<Rightarrow> None),
     as_list = (\<lambda>v. case v of VAR_LIST l \<Rightarrow> Some l | _ \<Rightarrow> None),
     stream_out = (\<lambda>v. case v of VAR_STRING s \<Rightarrow> s | VAR_UINT16 w \<Rightarrow> show_nat (unat w) | _ \<Rightarrow> [])\<rparr>"

section \<open>Events and outputs\<close>

datatype event_code = AGENT_METHOD | AGENT_OTHER nat

text \<open>The address of a managed object: the name of the agent and the name of the object.\<close>

datatype data_addr = DataAddr (getAgentName: string) (getName: string)

record agent_event =
  ev_id :: nat
  ev_type :: event_code
  ev_addr :: "data_addr option"
  ev_method :: string
  ev_args :: qmap

datatype qmf_output =
    MethodSuccess nat qmap
  | RaiseException nat string
  | RaiseExceptionData nat qmap
  | RaiseEvent string qmap

text \<open>The event an output answers, if it is an answer.\<close>

fun answers :: "qmf_output \<Rightarrow> nat option" where
  "answers (MethodSuccess i _) = Some i"
| "answers (RaiseException i _) = Some i"
| "answers (RaiseExceptionData i _) = Some i"
| "answers (RaiseEvent _ _) = None"

type_synonym 'w qmf_handler = "agent_event \<Rightarrow> 'w \<Rightarrow> ((qmf_output list \<times> bool) \<times> 'w) option"

text \<open>A string argument of a call, as the C string the handlers pass on.\<close>

definition arg_cstr :: "qpid_conv \<Rightarrow> string \<Rightarrow> agent_event \<Rightarrow> string option" where
  "arg_cstr cv k ev = map_option cstr_of (as_string cv (qmap_get k (ev_args ev)))"

text \<open>How the handlers end: with the return arguments and success, or with the text of a result code.\<close>

definition method_success :: "agent_event \<Rightarrow> qmap \<Rightarrow> 'w \<Rightarrow> ((qmf_output list \<times> bool) \<times> 'w) option" where
  "method_success ev returns w = Some (([MethodSuccess (ev_id ev) returns], True), w)"

definition raise_result :: "agent_event \<Rightarrow> mh_result \<Rightarrow> 'w \<Rightarrow> ((qmf_output list \<times> bool) \<times> 'w) option" where
  "raise_result ev res w = Some (([RaiseException (ev_id ev) (mh_result_to_str (mh_result_code res))], True), w)"

section \<open>The event source\<close>

text \<open>\<open>q_queue\<close> holds the events that \<^verbatim>\<open>nextEvent\<close> will return in turn; \<open>q_refs\<close> is the reference count
  of the \<^verbatim>\<open>GSource\<close>, which is freed at 0; \<open>q_closed\<close> counts the calls of the destroy notification.\<close>

record qmf_source =
  q_id :: nat
  q_event :: "agent_event option"
  q_queue :: "agent_event list"
  q_refs :: int
  q_dispatch :: bool
  q_dnotify :: bool
  q_closed :: nat

definition mainloop_qmf_prepare :: "qmf_source \<Rightarrow> int \<Rightarrow> bool \<times> int" where
  "mainloop_qmf_prepare qmf timeout =
     (if q_event qmf \<noteq> None then (True, timeout) else (False, 1))"

definition mainloop_qmf_check :: "qmf_source \<Rightarrow> bool \<times> qmf_source" where
  "mainloop_qmf_check qmf =
     (if q_event qmf \<noteq> None then (True, qmf)
      else (case q_queue qmf of
              [] \<Rightarrow> (False, qmf)
            | e # es \<Rightarrow> (True, qmf\<lparr>q_event := Some e, q_queue := es\<rparr>)))"

text \<open>The first \<open>None\<close> is a crash of the handler. The source is dispatched with an event: GLib calls
  \<open>mainloop_qmf_dispatch\<close> only after a positive \<open>prepare\<close> or \<open>check\<close>.\<close>

definition mainloop_qmf_dispatch ::
  "'w qmf_handler \<Rightarrow> qmf_source \<Rightarrow> 'w \<Rightarrow> ((bool \<times> qmf_output list \<times> qmf_source) \<times> 'w) option" where
  "mainloop_qmf_dispatch dispatch qmf w =
     (if q_dispatch qmf
      then (case q_event qmf of
              None \<Rightarrow> None
            | Some event \<Rightarrow>
                (let qmf1 = qmf\<lparr>q_event := None\<rparr>
                 in case dispatch event w of
                      None \<Rightarrow> None
                    | Some ((out, again), w') \<Rightarrow>
                        if \<not> again then Some ((False, out, qmf1\<lparr>q_refs := q_refs qmf1 - 1\<rparr>), w')
                        else Some ((True, out, qmf1), w')))
      else Some ((True, [], qmf), w))"

definition mainloop_qmf_destroy :: "qmf_source \<Rightarrow> qmf_source" where
  "mainloop_qmf_destroy qmf = (if q_dnotify qmf then qmf\<lparr>q_closed := Suc (q_closed qmf)\<rparr> else qmf)"

definition mainloop_add_qmf ::
  "id_source \<Rightarrow> int \<Rightarrow> agent_event list \<Rightarrow> bool \<Rightarrow> bool \<Rightarrow> 's mainloop_scheme
   \<Rightarrow> qmf_source \<times> 's mainloop_scheme" where
  "mainloop_add_qmf new_id priority session dispatch notify s =
     (case attach new_id (QmfSource priority) s of (i, s') \<Rightarrow>
        (\<lparr>q_id = i, q_event = None, q_queue = session, q_refs = 2, q_dispatch = dispatch,
          q_dnotify = notify, q_closed = 0\<rparr>, s'))"

text \<open>GLib drops a source from its context: its own reference goes and the destroy function runs.\<close>

definition g_drop_qmf :: "qmf_source \<Rightarrow> 's mainloop_scheme \<Rightarrow> qmf_source \<times> 's mainloop_scheme" where
  "g_drop_qmf qmf s =
     (if ml_sources s (q_id qmf) = None then (qmf, s)
      else (mainloop_qmf_destroy (qmf\<lparr>q_refs := q_refs qmf - 1\<rparr>), g_source_remove (q_id qmf) s))"

definition mainloop_destroy_qmf :: "qmf_source \<Rightarrow> 's mainloop_scheme \<Rightarrow> bool \<times> qmf_source \<times> 's mainloop_scheme" where
  "mainloop_destroy_qmf source s =
     (case g_drop_qmf source s of (source1, s') \<Rightarrow>
        (True, source1\<lparr>q_id := 0, q_refs := q_refs source1 - 1\<rparr>, s'))"

text \<open>One turn of the main loop for this source: \<open>prepare\<close>, else \<open>check\<close>, then \<open>dispatch\<close>; a source whose
  dispatch returns \<^verbatim>\<open>FALSE\<close> is destroyed.\<close>

definition qmf_turn ::
  "'w qmf_handler \<Rightarrow> qmf_source \<Rightarrow> 's mainloop_scheme \<Rightarrow> 'w
   \<Rightarrow> (qmf_output list \<times> qmf_source \<times> 's mainloop_scheme \<times> 'w) option" where
  "qmf_turn dispatch qmf s w =
     (if ml_sources s (q_id qmf) = None then Some ([], qmf, s, w)
      else (case (if fst (mainloop_qmf_prepare qmf (- 1)) then (True, qmf) else mainloop_qmf_check qmf) of
              (False, qmf1) \<Rightarrow> Some ([], qmf1, s, w)
            | (True, qmf1) \<Rightarrow>
                (case mainloop_qmf_dispatch dispatch qmf1 w of
                   None \<Rightarrow> None
                 | Some ((again, out, qmf2), w') \<Rightarrow>
                     if again then Some (out, qmf2, s, w')
                     else (case g_drop_qmf qmf2 s of (qmf3, s') \<Rightarrow> Some (out, qmf3, s', w')))))"

fun qmf_turns ::
  "'w qmf_handler \<Rightarrow> nat \<Rightarrow> qmf_source \<Rightarrow> 's mainloop_scheme \<Rightarrow> 'w
   \<Rightarrow> (qmf_output list \<times> qmf_source \<times> 's mainloop_scheme \<times> 'w) option" where
  "qmf_turns dispatch 0 qmf s w = Some ([], qmf, s, w)"
| "qmf_turns dispatch (Suc n) qmf s w =
     (case qmf_turn dispatch qmf s w of
        None \<Rightarrow> None
      | Some (out, qmf1, s1, w1) \<Rightarrow>
          (case qmf_turns dispatch n qmf1 s1 w1 of
             None \<Rightarrow> None
           | Some (outs, r) \<Rightarrow> Some (out @ outs, r)))"

text \<open>The specification: the handler on each event in turn.\<close>

fun serve_events :: "'w qmf_handler \<Rightarrow> agent_event list \<Rightarrow> 'w \<Rightarrow> (qmf_output list \<times> 'w) option" where
  "serve_events h [] w = Some ([], w)"
| "serve_events h (e # es) w =
     (case h e w of
        None \<Rightarrow> None
      | Some ((out, _), w1) \<Rightarrow>
          (case serve_events h es w1 of
             None \<Rightarrow> None
           | Some (outs, w2) \<Rightarrow> Some (out @ outs, w2)))"

section \<open>Lemmas on maps of variants\<close>

lemma map_of_qmap_put [simp]: "map_of (qmap_put k v m) = (map_of m)(k \<mapsto> v)"
  by (induction m) auto

lemma map_of_qmap_erase [simp]: "map_of (qmap_erase k m) = (map_of m)(k := None)"
  by (induction m) (auto simp: qmap_erase_def)

lemma qmap_get_put [simp]: "qmap_get k (qmap_put k' v m) = (if k = k' then v else qmap_get k m)"
  by (simp add: qmap_get_def)

lemma qmap_count_put [simp]: "qmap_count k (qmap_put k' v m) \<longleftrightarrow> k = k' \<or> qmap_count k m"
  by (simp add: qmap_count_def)

lemma qmap_count_Nil [simp]: "\<not> qmap_count k []" "qmap_get k [] = VAR_VOID"
  by (simp_all add: qmap_count_def qmap_get_def)

lemma qmap_erase_simps [simp]:
  "qmap_count k (qmap_erase k' m) \<longleftrightarrow> k \<noteq> k' \<and> qmap_count k m"
  "qmap_get k (qmap_erase k' m) = (if k = k' then VAR_VOID else qmap_get k m)"
  by (auto simp: qmap_count_def qmap_get_def)

lemma fst_set_qmap_put: "fst ` set (qmap_put k v m) = insert k (fst ` set m)"
  by (induction k v m rule: qmap_put.induct) (auto simp: insert_commute)

lemma qmap_put_sorted:
  assumes "sorted_wrt (<) (map fst m)"
  shows "sorted_wrt (<) (map fst (qmap_put k v m))"
  using assms
proof (induction m)
  case (Cons p m)
  obtain k' v' where p: "p = (k', v')" by (cases p)
  consider "k = k'" | "k < k'" | "k' < k" by (rule linorder_cases)
  then show ?case
  proof cases
    case 1
    with Cons.prems p show ?thesis by simp
  next
    case 2
    with Cons.prems p show ?thesis by (auto dest: less_trans)
  next
    case 3
    then have "qmap_put k v (p # m) = p # qmap_put k v m"
      using p by auto
    moreover have "\<forall>x \<in> fst ` set (qmap_put k v m). k' < x"
      using 3 Cons.prems p by (auto simp: fst_set_qmap_put)
    ultimately show ?thesis
      using Cons p by (auto simp: fst_set_qmap_put)
  qed
qed simp

lemma conv_okD:
  assumes "conv_ok cv"
  shows "as_string cv (VAR_STRING s) = Some s" "as_string cv VAR_VOID = Some []"
    "as_int32 cv VAR_VOID = Some 0" "as_uint32 cv VAR_VOID = Some 0"
    "as_map cv VAR_VOID = None" "as_list cv VAR_VOID = None"
    "as_int32 cv (VAR_INT32 w) = Some w" "as_uint32 cv (VAR_UINT32 w) = Some w"
    "as_map cv (VAR_MAP m) = Some m" "as_list cv (VAR_LIST l) = Some l"
    "0 \<le> sint w \<Longrightarrow> as_int32 cv (VAR_UINT32 w) = Some w"
    "stream_out cv (VAR_STRING s) = s" "stream_out cv (VAR_UINT16 h) = show_nat (unat h)"
  using assms by (simp_all add: conv_ok_def)

lemma qpid_ref_ok: "conv_ok qpid_ref"
  by (simp add: conv_ok_def qpid_ref_def)

section \<open>Serving the events of a session\<close>

lemma map_filter_append: "List.map_filter f (xs @ ys) = List.map_filter f xs @ List.map_filter f ys"
  by (induction xs) (auto simp: List.map_filter_simps split: option.splits)

definition attached :: "qmf_source \<Rightarrow> 's mainloop_scheme \<Rightarrow> bool" where
  "attached qmf s \<longleftrightarrow> ml_sources s (q_id qmf) \<noteq> None \<and> q_dispatch qmf \<and> q_event qmf = None"

lemma qmf_turn_empty:
  "attached qmf s \<Longrightarrow> q_queue qmf = [] \<Longrightarrow> qmf_turn h qmf s w = Some ([], qmf, s, w)"
  by (auto simp: attached_def qmf_turn_def mainloop_qmf_prepare_def mainloop_qmf_check_def)

lemma qmf_turn_again:
  assumes "attached qmf s" "q_queue qmf = e # es" "h e w = Some ((out, True), w')"
  shows "qmf_turn h qmf s w = Some (out, qmf\<lparr>q_queue := es\<rparr>, s, w')"
  using assms
  by (auto simp: attached_def qmf_turn_def mainloop_qmf_prepare_def mainloop_qmf_check_def
      mainloop_qmf_dispatch_def)

lemma qmf_turn_crash:
  assumes "attached qmf s" "q_queue qmf = e # es" "h e w = None"
  shows "qmf_turn h qmf s w = None"
  using assms
  by (auto simp: attached_def qmf_turn_def mainloop_qmf_prepare_def mainloop_qmf_check_def
      mainloop_qmf_dispatch_def)

text \<open>A handler that returns \<^verbatim>\<open>FALSE\<close> loses its source for good: both references are gone, the
  destroy notification has run once and later turns deliver nothing.\<close>

lemma qmf_turn_final:
  assumes "attached qmf s" "q_queue qmf = e # es" "h e w = Some ((out, False), w')"
  obtains qmf' s' where "qmf_turn h qmf s w = Some (out, qmf', s', w')"
    "q_refs qmf' = q_refs qmf - 2" "\<And>w. qmf_turn h qmf' s' w = Some ([], qmf', s', w)"
  using assms
  by (auto simp: attached_def qmf_turn_def mainloop_qmf_prepare_def mainloop_qmf_check_def
      mainloop_qmf_dispatch_def g_drop_qmf_def g_source_remove_def mainloop_qmf_destroy_def)

locale qmf_agent =
  fixes handle :: "'w qmf_handler"
  assumes keeps: "handle ev w = Some ((out, again), w') \<Longrightarrow> again"
begin

lemma turns_serve:
  assumes "attached qmf s"
  shows "qmf_turns handle (length (q_queue qmf)) qmf s w =
    map_option (\<lambda>(outs, w'). (outs, qmf\<lparr>q_queue := []\<rparr>, s, w')) (serve_events handle (q_queue qmf) w)"
  using assms
proof (induction "q_queue qmf" arbitrary: qmf w)
  case Nil
  then have "qmf\<lparr>q_queue := []\<rparr> = qmf" by (cases qmf) simp
  with Nil show ?case by (simp add: Nil.hyps [symmetric])
next
  case (Cons e es)
  show ?case
  proof (cases "handle e w")
    case None
    with Cons show ?thesis using qmf_turn_crash [where h = handle, OF Cons.prems Cons.hyps(2) [symmetric] None]
      by (simp add: Cons.hyps(2) [symmetric])
  next
    case (Some r)
    then obtain out w1 where h: "handle e w = Some ((out, True), w1)"
      using keeps by (metis (full_types) surj_pair)
    have turn: "qmf_turn handle qmf s w = Some (out, qmf\<lparr>q_queue := es\<rparr>, s, w1)"
      by (rule qmf_turn_again [where h = handle, OF Cons.prems Cons.hyps(2) [symmetric] h])
    have "attached (qmf\<lparr>q_queue := es\<rparr>) s"
      using Cons.prems by (simp add: attached_def)
    from Cons.hyps(1) [OF _ this, of w1] show ?thesis
      by (auto simp: Cons.hyps(2) [symmetric] turn h split: option.splits)
  qed
qed

end

locale qmf_inv_agent = qmf_agent +
  fixes inv :: "'w \<Rightarrow> bool"
  assumes step: "inv w \<Longrightarrow> handle ev w = Some ((out, again), w') \<Longrightarrow> inv w'"
begin

lemma serve_inv: "inv w \<Longrightarrow> serve_events handle es w = Some (outs, w') \<Longrightarrow> inv w'"
proof (induction es arbitrary: w outs)
  case (Cons e es)
  then obtain out b w1 outs1 where h: "handle e w = Some ((out, b), w1)" "serve_events handle es w1 = Some (outs1, w')"
    by (auto split: option.splits)
  show ?case by (rule Cons.IH [OF step [OF Cons.prems(1) h(1)] h(2)])
qed simp

lemma turns_inv:
  assumes "attached qmf s" "inv w" "qmf_turns handle (length (q_queue qmf)) qmf s w = Some (outs, qmf', s', w')"
  shows "inv w'"
  using assms serve_inv turns_serve [OF assms(1), of w] by auto

end

locale qmf_sync_agent = qmf_agent +
  assumes answered: "ev_type ev = AGENT_METHOD \<Longrightarrow> handle ev w = Some ((out, again), w') \<Longrightarrow>
    List.map_filter answers out = [ev_id ev]"
begin

lemma serve_answers:
  assumes "\<forall>e \<in> set es. ev_type e = AGENT_METHOD" "serve_events handle es w = Some (outs, w')"
  shows "List.map_filter answers outs = map ev_id es"
  using assms
proof (induction es arbitrary: w outs)
  case (Cons e es)
  then obtain out b w1 outs1 where
    h: "handle e w = Some ((out, b), w1)" "serve_events handle es w1 = Some (outs1, w')" "outs = out @ outs1"
    by (auto split: option.splits)
  with Cons answered [OF _ h(1)] show ?case
    by (simp add: map_filter_append)
qed (simp add: List.map_filter_simps)

end

locale qmf_method_agent = qmf_sync_agent +
  assumes quiet: "ev_type ev \<noteq> AGENT_METHOD \<Longrightarrow> handle ev w = Some (([], True), w)"
begin

lemma serve_methods:
  "serve_events handle es w = serve_events handle (filter (\<lambda>e. ev_type e = AGENT_METHOD) es) w"
  by (induction es arbitrary: w) (auto simp: quiet split: option.splits)

lemma serve_all_answers:
  assumes "serve_events handle es w = Some (outs, w')"
  shows "List.map_filter answers outs = map ev_id (filter (\<lambda>e. ev_type e = AGENT_METHOD) es)"
  using assms serve_answers [of "filter (\<lambda>e. ev_type e = AGENT_METHOD) es"] serve_methods [of es] by simp

lemma turns_answered:
  assumes "attached src s" "qmf_turns handle (length (q_queue src)) src s w = Some (outs, src', s', w')"
  shows "List.map_filter answers outs = map ev_id (filter (\<lambda>e. ev_type e = AGENT_METHOD) (q_queue src)) \<and>
    q_queue src' = [] \<and> attached src' s'"
  using assms turns_serve [OF assms(1), of w]
  by (auto simp: attached_def dest: serve_all_answers)

end

lemma answers_simps [simp]:
  "List.map_filter answers [] = []"
  "List.map_filter answers [MethodSuccess i m] = [i]"
  "List.map_filter answers [RaiseException i t] = [i]"
  "List.map_filter answers [RaiseExceptionData i m] = [i]"
  "List.map_filter answers [RaiseEvent t m] = []"
  by (simp_all add: List.map_filter_simps)

lemma method_success_Some [simp]:
  "method_success ev m w = Some ((out, again), w') \<longleftrightarrow> out = [MethodSuccess (ev_id ev) m] \<and> again \<and> w' = w"
  "raise_result ev res w = Some ((out, again), w') \<longleftrightarrow>
     out = [RaiseException (ev_id ev) (mh_result_to_str (mh_result_code res))] \<and> again \<and> w' = w"
  by (auto simp: method_success_def raise_result_def)

definition answered_once :: "agent_event \<Rightarrow> ((qmf_output list \<times> bool) \<times> 'w) option \<Rightarrow> bool" where
  "answered_once ev r \<longleftrightarrow> (case r of None \<Rightarrow> True | Some ((out, again), _) \<Rightarrow> again \<and> List.map_filter answers out = [ev_id ev])"

lemma answered_once_intros [simp]:
  "answered_once ev (method_success ev m w)" "answered_once ev (raise_result ev res w)" "answered_once ev None"
  by (simp_all add: answered_once_def method_success_def raise_result_def)

lemma answered_once_bind [intro!]: "(\<And>x. a = Some x \<Longrightarrow> answered_once ev (f x)) \<Longrightarrow> answered_once ev (Option.bind a f)"
  by (cases a) auto

lemma qmf_sync_agentI:
  assumes "\<And>ev w. ev_type ev = AGENT_METHOD \<Longrightarrow> answered_once ev (h ev w)"
    and "\<And>ev w out again w'. ev_type ev \<noteq> AGENT_METHOD \<Longrightarrow> h ev w = Some ((out, again), w') \<Longrightarrow> again"
  shows "qmf_sync_agent h"
proof
  fix ev w out again w'
  assume r: "h ev w = Some ((out, again), w')"
  show "again"
    using r assms(1) [of ev w] assms(2) [of ev w] by (cases "ev_type ev = AGENT_METHOD") (auto simp: answered_once_def)
  assume "ev_type ev = AGENT_METHOD"
  with r assms(1) [of ev w] show "List.map_filter answers out = [ev_id ev]"
    by (simp add: answered_once_def)
qed

section \<open>Managed objects\<close>

text \<open>\<^verbatim>\<open>mh_object.cpp\<close>. Objects are named by pointers of type \<open>nat\<close>; \<open>om_instance\<close> holds the properties of an
  object and \<open>om_addr\<close> the address its \<^verbatim>\<open>qmf::Data\<close> has once it is published. \<open>om_published\<close> is what the
  session publishes. The address a session gives to new data is the argument \<open>new_addr\<close>, \<open>None\<close> when it
  is not valid.\<close>

record object_manager =
  om_instance :: "nat \<Rightarrow> qmap"
  om_addr :: "nat \<rightharpoonup> data_addr"
  om_published :: "data_addr \<rightharpoonup> qmap"
  om_objects :: "data_addr \<rightharpoonup> nat"

type_synonym addr_source = "(data_addr \<rightharpoonup> qmap) \<Rightarrow> qmap \<Rightarrow> data_addr option"

definition ObjectManager :: "(data_addr \<rightharpoonup> qmap) \<Rightarrow> object_manager" where
  "ObjectManager session =
     \<lparr>om_instance = (\<lambda>_. []), om_addr = Map.empty, om_published = session, om_objects = Map.empty\<rparr>"

definition MatahariObject :: "nat \<Rightarrow> qmap \<Rightarrow> object_manager \<Rightarrow> object_manager" where
  "MatahariObject p schema om = om\<lparr>om_instance := (om_instance om)(p := schema), om_addr := (om_addr om)(p := None)\<rparr>"

definition MatahariObject_publish :: "addr_source \<Rightarrow> nat \<Rightarrow> object_manager \<Rightarrow> object_manager" where
  "MatahariObject_publish new_addr p om =
     (case new_addr (om_published om) (om_instance om p) of
        None \<Rightarrow> om
      | Some a \<Rightarrow> om\<lparr>om_addr := (om_addr om)(p \<mapsto> a), om_published := (om_published om)(a \<mapsto> om_instance om p)\<rparr>)"

definition MatahariObject_withdraw :: "nat \<Rightarrow> object_manager \<Rightarrow> object_manager" where
  "MatahariObject_withdraw p om =
     (case om_addr om p of
        None \<Rightarrow> om
      | Some a \<Rightarrow> om\<lparr>om_published := (om_published om)(a := None)\<rparr>)"

definition ObjectManager_add :: "addr_source \<Rightarrow> nat \<Rightarrow> object_manager \<Rightarrow> object_manager" where
  "ObjectManager_add new_addr p om =
     (let om1 = MatahariObject_publish new_addr p om
      in case om_addr om1 p of
           None \<Rightarrow> om1
         | Some a \<Rightarrow> om1\<lparr>om_objects := (om_objects om1)(a \<mapsto> p)\<rparr>)"

definition ObjectManager_remove :: "nat \<Rightarrow> object_manager \<Rightarrow> object_manager" where
  "ObjectManager_remove p om =
     MatahariObject_withdraw p
       (case om_addr om p of
          None \<Rightarrow> om
        | Some a \<Rightarrow> om\<lparr>om_objects := (om_objects om)(a := None)\<rparr>)"

definition ObjectManagerImpl_find :: "object_manager \<Rightarrow> data_addr \<Rightarrow> nat option" where
  "ObjectManagerImpl_find om addr = om_objects om addr"

text \<open>\<open>obj_invoke\<close> is the virtual method of the objects; the result \<^verbatim>\<open>false\<close> means that nobody handled the
  event.\<close>

definition ObjectManager_invoke ::
  "(nat \<Rightarrow> 'w qmf_handler) \<Rightarrow> object_manager \<Rightarrow> 'w qmf_handler" where
  "ObjectManager_invoke obj_invoke om event w =
     (case ev_addr event of
        None \<Rightarrow> Some (([], False), w)
      | Some a \<Rightarrow>
          (case ObjectManagerImpl_find om a of
             None \<Rightarrow> Some (([], False), w)
           | Some p \<Rightarrow> obj_invoke p event w))"

text \<open>The invariant: the registry finds exactly the objects that have an address and are published there,
  each under its own address.\<close>

definition om_inv :: "nat set \<Rightarrow> object_manager \<Rightarrow> bool" where
  "om_inv live om \<longleftrightarrow>
     (\<forall>a p. om_objects om a = Some p \<longleftrightarrow> p \<in> live \<and> om_addr om p = Some a) \<and>
     (\<forall>p \<in> live. om_addr om p \<noteq> None) \<and>
     (\<forall>a p. om_objects om a = Some p \<longrightarrow> om_published om a = Some (om_instance om p))"

definition addr_fresh :: "addr_source \<Rightarrow> bool" where
  "addr_fresh new_addr \<longleftrightarrow> (\<forall>pub d a. new_addr pub d = Some a \<longrightarrow> pub a = None)"

lemma om_inv_init: "om_inv {} (ObjectManager session)"
  by (simp add: om_inv_def ObjectManager_def)

lemma om_inv_add:
  assumes inv: "om_inv live om" and new: "p \<notin> live"
    and a: "new_addr (om_published om) (om_instance om p) = Some a" "om_published om a = None"
  shows "om_inv (insert p live) (ObjectManager_add new_addr p om)"
proof -
  have "om_addr om q \<noteq> Some a" if "q \<in> live" for q
    using inv that a(2) unfolding om_inv_def by (metis option.distinct(1))
  moreover have "om_objects om a = None"
    using inv calculation unfolding om_inv_def by (metis not_Some_eq)
  ultimately show ?thesis
    using inv new a by (auto simp: om_inv_def ObjectManager_add_def MatahariObject_publish_def)
qed

lemma om_inv_remove:
  assumes inv: "om_inv live om" and p: "p \<in> live"
  shows "om_inv (live - {p}) (ObjectManager_remove p om)"
proof -
  obtain a where a: "om_addr om p = Some a" "om_objects om a = Some p"
    using inv p by (auto simp: om_inv_def)
  moreover have "om_addr om q \<noteq> Some a" if "q \<in> live" "q \<noteq> p" for q
    using inv that a unfolding om_inv_def by (metis option.inject)
  ultimately show ?thesis
    using inv p by (auto simp: om_inv_def ObjectManager_remove_def MatahariObject_withdraw_def)
qed

lemma om_inv_new:
  "om_inv live om \<Longrightarrow> p \<notin> live \<Longrightarrow> om_inv live (MatahariObject p schema om)"
  by (auto simp: om_inv_def MatahariObject_def)

end
