(* ===== verification/Mh_Agent.thy ===== *)
theory Mh_Agent
  imports Qmf Dnssrv
begin

text \<open>
  \<^verbatim>\<open>src/src/lib/mh_agent.cpp\<close>: what every QMF agent and console does before it serves or calls: the table
  of command line options, the environment, the choice of a broker and the connection to it, and the
  start of an agent. (The event source of the same file is in the theory Qmf.)

  A C++ program can end while it parses its options: a computation gives \<open>Exited\<close> with the status,
  \<open>Crashed\<close> for a NULL pointer or an exception nobody catches, or \<open>Running\<close> with its result. The
  environment is the record \<open>agent_os\<close>; \<^verbatim>\<open>getopt_long\<close> is its field \<open>getopt\<close>, the sequence of the codes
  it returns with the value of \<^verbatim>\<open>optarg\<close> for a command line, an option string and a table of long
  options. Option callbacks of a program other than the three of this file are the argument \<open>client\<close>,
  and the state record can be extended with the data they write. Compilation with \<^verbatim>\<open>MH_SSL\<close> is the
  field \<open>with_ssl\<close>. The connection loop has no bound, hence it is a partial function.
\<close>

section \<open>Outcomes and the environment\<close>

datatype 'a proc = Exited int | Crashed | Running 'a

fun proc_bind :: "'a proc \<Rightarrow> ('a \<Rightarrow> 'b proc) \<Rightarrow> 'b proc" where
  "proc_bind (Exited rc) f = Exited rc"
| "proc_bind Crashed f = Crashed"
| "proc_bind (Running x) f = f x"

definition no_argument :: int where "no_argument = 0"
definition required_argument :: int where "required_argument = 1"
definition MAX_CHAR :: nat where "MAX_CHAR = 123"

record long_option =
  lo_name :: cptr
  lo_has_arg :: int
  lo_val :: int

record agent_os =
  getenv :: "string \<Rightarrow> cptr"
  file_is_dir :: "string \<Rightarrow> bool"
  resolvable :: "string \<Rightarrow> bool"
  daemon_ok :: bool
  with_ssl :: bool
  tty_before :: bool
  tty_after :: bool
  getopt :: "string list \<Rightarrow> string \<Rightarrow> long_option list \<Rightarrow> (int \<times> cptr) list"

text \<open>\<open>tty_before\<close> and \<open>tty_after\<close> are the answers of \<^verbatim>\<open>mh_hastty\<close> before and after the options are
  processed, which may daemonize.\<close>

section \<open>The table of options\<close>

datatype opt_target = No_target | Mh_options | Amqp_options | Client_target nat

datatype opt_callback = Map_option | Connection_option | Should_daemonize | Client_callback nat

record mh_option =
  opt_code :: int
  opt_has_arg :: int
  opt_long_name :: cptr
  opt_description :: cptr
  opt_userdata :: opt_target
  opt_cb :: "opt_callback option"

definition empty_option :: mh_option where
  "empty_option = \<lparr>opt_code = 0, opt_has_arg = 0, opt_long_name = None, opt_description = None,
     opt_userdata = No_target, opt_cb = None\<rparr>"

record opt_state =
  matahari_options :: "mh_option list"
  os_options :: qmap
  os_amqp :: qmap
  os_log :: log_state

definition mh_add_option ::
  "int \<Rightarrow> int \<Rightarrow> string \<Rightarrow> cptr \<Rightarrow> opt_target \<Rightarrow> opt_callback option \<Rightarrow> 's opt_state_scheme
   \<Rightarrow> int \<times> 's opt_state_scheme" where
  "mh_add_option code has_arg name description userdata callback s =
     (if 0 < code \<and> code < int (length (matahari_options s))
      then (0, s\<lparr>matahari_options := (matahari_options s)[nat code :=
                 \<lparr>opt_code = code, opt_has_arg = has_arg, opt_long_name = Some name,
                  opt_description = description, opt_userdata = userdata, opt_cb = callback\<rparr>]\<rparr>)
      else (- 1, s))"

text \<open>\<^verbatim>\<open>atoi\<close> as the C library computes it: \<^verbatim>\<open>strtol\<close>, saturating at 64 bits, cut to the target.\<close>

definition strtol :: "string \<Rightarrow> int" where
  "strtol s =
     (let t = dropWhile is_space s;
          neg = (case t of c # _ \<Rightarrow> c = CHR ''-'' | [] \<Rightarrow> False);
          u = (case t of c # r \<Rightarrow> if c = CHR ''-'' \<or> c = CHR ''+'' then r else t | [] \<Rightarrow> []);
          n = int (digits_val (takeWhile is_digit u))
      in if neg then max (- (2 ^ 63)) (- n) else min (2 ^ 63 - 1) n)"

fun verbose_loop :: "nat \<Rightarrow> log_state \<Rightarrow> log_state" where
  "verbose_loop 0 l = l"
| "verbose_loop (Suc n) l = verbose_loop n (l\<lparr>mh_log_level := mh_log_level l + 1\<rparr>)"

text \<open>Writing through the user data of an option; \<open>None\<close> is a NULL or foreign pointer.\<close>

fun put_target :: "opt_target \<Rightarrow> string \<Rightarrow> qvariant \<Rightarrow> 's opt_state_scheme \<Rightarrow> 's opt_state_scheme option" where
  "put_target Mh_options k v s = Some (s\<lparr>os_options := qmap_put k v (os_options s)\<rparr>)"
| "put_target Amqp_options k v s = Some (s\<lparr>os_amqp := qmap_put k v (os_amqp s)\<rparr>)"
| "put_target No_target k v s = None"
| "put_target (Client_target _) k v s = None"

definition map_option_cb ::
  "string \<Rightarrow> cptr \<Rightarrow> opt_target \<Rightarrow> 's opt_state_scheme \<Rightarrow> 's opt_state_scheme option" where
  "map_option_cb name arg userdata s =
     (if name = ''verbose''
      then (let l = mh_enable_stderr True (os_log s)
            in if mh_strlen_zero arg
               then Some (s\<lparr>os_log := l\<lparr>mh_log_level := mh_log_level l + 1\<rparr>\<rparr>)
               else (case scan_unsigned (the arg) of
                       Some val \<Rightarrow> Some (s\<lparr>os_log := verbose_loop (unat (ucast val :: u32)) l\<rparr>)
                     | None \<Rightarrow> Some (s\<lparr>os_log := l\<rparr>)))
      else if name = ''broker''
      then Option.bind arg (\<lambda>a. put_target userdata ''servername'' (VAR_STRING a) s)
      else if name = ''port''
      then Option.bind arg (\<lambda>a. put_target userdata ''serverport'' (VAR_UINT16 (of_int (strtol a))) s)
      else if name = ''dns-srv''
      then put_target userdata ''dns-srv'' (VAR_INT32 1) s
      else Option.bind arg (\<lambda>a. put_target userdata name (VAR_STRING a) s))"

definition connection_option ::
  "string \<Rightarrow> cptr \<Rightarrow> opt_target \<Rightarrow> 's opt_state_scheme \<Rightarrow> 's opt_state_scheme option" where
  "connection_option name arg userdata s =
     (if name = ''service''
      then Option.bind arg (\<lambda>a.
             Option.bind (put_target userdata ''sasl-service'' (VAR_STRING a) s)
               (put_target userdata ''sasl-mechanism'' (VAR_STRING ''GSSAPI'')))
      else if name = ''reconnect''
      then put_target userdata ''reconnect''
             (VAR_BOOL (case arg of None \<Rightarrow> True
                        | Some a \<Rightarrow> \<not> strcasecmp a ''no'' \<and> \<not> strcasecmp a ''false'')) s
      else (case arg of
              Some a \<Rightarrow> put_target userdata name (VAR_STRING a) s
            | None \<Rightarrow> put_target userdata name (VAR_BOOL True) s))"

definition mh_should_daemonize :: "agent_os \<Rightarrow> 's opt_state_scheme \<Rightarrow> 's opt_state_scheme proc" where
  "mh_should_daemonize os s =
     (if \<not> daemon_ok os then Exited 1
      else Running (s\<lparr>os_log := mh_enable_stderr False (os_log s)\<rparr>))"

type_synonym 's client = "nat \<Rightarrow> int \<Rightarrow> cptr \<Rightarrow> cptr \<Rightarrow> opt_target \<Rightarrow> 's \<Rightarrow> 's option"

fun run_callback ::
  "agent_os \<Rightarrow> 's opt_state_scheme client \<Rightarrow> opt_callback \<Rightarrow> int \<Rightarrow> cptr \<Rightarrow> cptr \<Rightarrow> opt_target
   \<Rightarrow> 's opt_state_scheme \<Rightarrow> 's opt_state_scheme proc" where
  "run_callback os client Map_option code name arg userdata s =
     (case Option.bind name (\<lambda>n. map_option_cb n arg userdata s) of None \<Rightarrow> Crashed | Some s' \<Rightarrow> Running s')"
| "run_callback os client Connection_option code name arg userdata s =
     (case Option.bind name (\<lambda>n. connection_option n arg userdata s) of None \<Rightarrow> Crashed | Some s' \<Rightarrow> Running s')"
| "run_callback os client Should_daemonize code name arg userdata s = mh_should_daemonize os s"
| "run_callback os client (Client_callback i) code name arg userdata s =
     (case client i code name arg userdata s of None \<Rightarrow> Crashed | Some s' \<Rightarrow> Running s')"

text \<open>The lines \<open>print_help\<close> writes for the options that have a callback: the letter, the long name and the
  description (a NULL name or description is printed by the C library).\<close>

definition print_help :: "mh_option list \<Rightarrow> (int \<times> cptr \<times> cptr) list" where
  "print_help table =
     map (\<lambda>e. (opt_code e, opt_long_name e, opt_description e)) (filter (\<lambda>e. opt_cb e \<noteq> None) table)"

section \<open>Parsing the options\<close>

text \<open>A variable of the environment that is set and not empty overrides an option.\<close>

definition env_pick :: "agent_os \<Rightarrow> string \<Rightarrow> string \<Rightarrow> qmap \<Rightarrow> qmap" where
  "env_pick os var key options =
     (if \<not> mh_strlen_zero (getenv os var)
      then qmap_put key (VAR_STRING (the (getenv os var))) options else options)"

definition read_environment :: "agent_os \<Rightarrow> qmap \<Rightarrow> qmap proc" where
  "read_environment os options =
     (let o1 = env_pick os ''MATAHARI_BROKER'' ''servername'' options;
          o2 = env_pick os ''MATAHARI_PORT'' ''serverport'' o1;
          o3 = env_pick os ''KRB5_KEYTAB'' ''krb5_keytab''
                 (qmap_put ''krb5_keytab'' (VAR_STRING ''/etc/krb5.keytab'') o2);
          o4 = env_pick os ''KRB5_INTERVAL'' ''krb5_interval''
                 (qmap_put ''krb5_interval'' (VAR_STRING ''10'') o3)
      in if \<not> with_ssl os then Running o4
         else if \<not> mh_strlen_zero (getenv os ''QPID_SSL_CERT_DB'') \<and>
                 \<not> file_is_dir os (the (getenv os ''QPID_SSL_CERT_DB''))
         then Exited 1
         else Running
           (env_pick os ''QPID_SSL_CERT_PASSWORD_FILE'' ''ssl-cert-password-file''
             (env_pick os ''QPID_SSL_CERT_NAME'' ''ssl-cert-name''
               (env_pick os ''QPID_SSL_CERT_DB'' ''ssl-cert-db'' o4))))"

definition verify_broker_option :: "agent_os \<Rightarrow> qpid_conv \<Rightarrow> qmap \<Rightarrow> qmap proc" where
  "verify_broker_option os cv options =
     (if \<not> qmap_count ''servername'' options then Running options
      else (case as_string cv (qmap_get ''servername'' options) of
              None \<Rightarrow> Crashed
            | Some broker \<Rightarrow>
                if resolvable os (cstr_of broker) then Running options
                else Running (qmap_erase ''servername'' options)))"

definition poke :: "char list \<Rightarrow> nat \<Rightarrow> char \<Rightarrow> char list option" where
  "poke buf i c = (if i < length buf then Some (buf[i := c]) else None)"

text \<open>The loop that fills the option string and the table of long options. \<open>None\<close> is a write outside
  the buffer \<open>opt_string\<close>.\<close>

fun build_opts ::
  "mh_option list \<Rightarrow> long_option list \<Rightarrow> char list \<Rightarrow> nat \<Rightarrow> (long_option list \<times> char list \<times> nat) option" where
  "build_opts [] long_opts buf len = Some (long_opts, buf, len)"
| "build_opts (e # es) long_opts buf len =
     (if opt_code e \<noteq> 0
      then Option.bind (poke buf len (char_of (nat (opt_code e)))) (\<lambda>buf1.
           Option.bind (if opt_has_arg e = required_argument
                        then Option.bind (poke buf1 (Suc len) (CHR '':'')) (\<lambda>b. Some (b, len + 2))
                        else Some (buf1, Suc len)) (\<lambda>(buf2, len2).
           Option.bind (poke buf2 len2 NUL) (\<lambda>buf3.
             build_opts es (long_opts @ [\<lparr>lo_name = opt_long_name e, lo_has_arg = opt_has_arg e,
                                          lo_val = opt_code e\<rparr>]) buf3 len2)))
      else build_opts es long_opts buf len)"

fun getopt_loop ::
  "agent_os \<Rightarrow> 's opt_state_scheme client \<Rightarrow> (int \<times> cptr) list \<Rightarrow> 's opt_state_scheme \<Rightarrow> 's opt_state_scheme proc" where
  "getopt_loop os client [] s = Running s"
| "getopt_loop os client ((arg, optarg) # rest) s =
     (if arg = 104 then Exited 0
      else if 0 < arg \<and> arg < int (length (matahari_options s)) \<and>
              opt_cb (matahari_options s ! nat arg) \<noteq> None
      then (let e = matahari_options s ! nat arg
            in proc_bind (run_callback os client (the (opt_cb e)) (opt_code e) (opt_long_name e) optarg
                            (opt_userdata e) s)
                 (getopt_loop os client rest))
      else Exited 1)"

definition add_common_options :: "agent_os \<Rightarrow> 's opt_state_scheme \<Rightarrow> 's opt_state_scheme" where
  "add_common_options os s =
     (let add = (\<lambda>code has_arg name desc target cb s. snd (mh_add_option code has_arg name (Some desc) target (Some cb) s));
          s1 = add 98 required_argument ''broker'' ''specify broker host name'' Mh_options Map_option s;
          s2 = add 68 no_argument ''dns-srv'' ''interpret the value of --broker as a domain name for DNS SRV lookups''
                 Mh_options Map_option s1;
          s3 = add 112 required_argument ''port'' ''specify broker port'' Mh_options Map_option s2;
          s4 = add 118 no_argument ''verbose'' ''Increase the log level'' No_target Map_option s3;
          s5 = add 117 required_argument ''username'' ''username to use for authentication to the broker''
                 Amqp_options Connection_option s4;
          s6 = add 80 required_argument ''password'' ''password to use for authentication to the broker''
                 Amqp_options Connection_option s5;
          s7 = add 115 required_argument ''service'' ''service name to use for authentication to the broker''
                 Amqp_options Connection_option s6;
          s8 = add 114 required_argument ''reconnect'' ''attempt to reconnect if the broker connection is lost''
                 Amqp_options Connection_option s7
      in if with_ssl os
         then add 116 no_argument ''use-tls'' ''Use TLS/SSL encryption'' Mh_options Connection_option
                (add 110 required_argument ''ssl-cert-name'' ''name of the certificate to use''
                   Amqp_options Connection_option s8)
         else s8)"

definition finish_options :: "agent_os \<Rightarrow> 's opt_state_scheme \<Rightarrow> 's opt_state_scheme" where
  "finish_options os s =
     (if with_ssl os \<and> qmap_count ''use-tls'' (os_options s)
      then s\<lparr>os_options := qmap_put ''protocol'' (VAR_STRING ''ssl'') (os_options s)\<rparr> else s)"

definition start_options :: "'s opt_state_scheme \<Rightarrow> 's opt_state_scheme" where
  "start_options s =
     s\<lparr>os_options := qmap_put ''serverport'' (VAR_STRING ''49000'') (qmap_put ''protocol'' (VAR_STRING ''tcp'') (os_options s)),
       os_amqp := [(''reconnect'', VAR_BOOL True)]\<rparr>"

text \<open>\<open>uninit\<close> is the initial content of the buffer \<open>opt_string\<close>. The result \<open>None\<close> is a write outside it.\<close>

definition mh_parse_options ::
  "agent_os \<Rightarrow> qpid_conv \<Rightarrow> char list \<Rightarrow> 's opt_state_scheme client \<Rightarrow> string list \<Rightarrow> 's opt_state_scheme
   \<Rightarrow> 's opt_state_scheme proc option" where
  "mh_parse_options os cv uninit client argv s0 =
     (let s1 = add_common_options os (start_options s0);
          s2 = snd (mh_add_option 104 no_argument ''help'' None No_target None s1)
      in Option.bind (poke uninit 0 NUL) (\<lambda>buf.
         Option.bind (build_opts (matahari_options s2) [] buf 0) (\<lambda>(long_opts, opt_string, _).
           Some (proc_bind (read_environment os (os_options s2)) (\<lambda>env_options.
                 proc_bind (getopt_loop os client (getopt os argv (cstr_of opt_string) long_opts)
                              (s2\<lparr>os_options := env_options\<rparr>)) (\<lambda>s3.
                 proc_bind (if qmap_count ''dns-srv'' (os_options s3) then Running (os_options s3)
                            else verify_broker_option os cv (os_options s3)) (\<lambda>options.
                   Running (finish_options os (s3\<lparr>os_options := options\<rparr>)))))))))"

section \<open>Parsing the options on Windows\<close>

text \<open>The registry: the status of opening the key and, for a value name, the status of the query and
  the characters it leaves in the buffer of \<^verbatim>\<open>BUFFER_SIZE\<close> elements.\<close>

record registry =
  reg_open :: int
  reg_query :: "string \<Rightarrow> int \<times> char list"

definition BUFFER_SIZE :: nat where "BUFFER_SIZE = 1024"

definition RegistryRead :: "registry \<Rightarrow> string \<Rightarrow> int \<times> cptr" where
  "RegistryRead reg value_name =
     (if reg_open reg \<noteq> 0 then (- 1, None)
      else (case reg_query reg value_name of (status, data) \<Rightarrow>
              if status \<noteq> 0 then (- 1, None)
              else (0, Some (take BUFFER_SIZE (cstr_of data)))))"

fun registry_loop ::
  "agent_os \<Rightarrow> 's opt_state_scheme client \<Rightarrow> registry \<Rightarrow> mh_option list \<Rightarrow> 's opt_state_scheme \<Rightarrow> 's opt_state_scheme proc" where
  "registry_loop os client reg [] s = Running s"
| "registry_loop os client reg (e # es) s =
     (case opt_cb e of
        None \<Rightarrow> registry_loop os client reg es s
      | Some cb \<Rightarrow>
          (case RegistryRead reg (case opt_long_name e of None \<Rightarrow> [] | Some n \<Rightarrow> n) of (rc, val) \<Rightarrow>
             if rc = 0
             then proc_bind (run_callback os client cb (opt_code e) (opt_long_name e) val (opt_userdata e) s)
                    (registry_loop os client reg es)
             else registry_loop os client reg es s))"

definition mh_should_daemonize_windows :: "'s opt_state_scheme \<Rightarrow> 's opt_state_scheme" where
  "mh_should_daemonize_windows s = s"

definition mh_parse_options_windows ::
  "agent_os \<Rightarrow> 's opt_state_scheme client \<Rightarrow> registry \<Rightarrow> 's opt_state_scheme \<Rightarrow> 's opt_state_scheme proc" where
  "mh_parse_options_windows os client reg s0 =
     (let s1 = add_common_options os (start_options s0)
      in proc_bind (registry_loop os client reg (matahari_options s1) s1) (\<lambda>s2. Running (finish_options os s2)))"

section \<open>Connecting to a broker\<close>

text \<open>What \<open>mh_connect\<close> meets outside: the variant conversions, the resolver and random numbers of the SRV
  lookup, the identity of the host, whether k5start can be executed, and whether the broker of a URL
  accepts the n-th attempt.\<close>

record ('w, 'g) net_env =
  ne_conv :: qpid_conv
  ne_insert :: insert_sorted
  ne_resolver :: "string \<Rightarrow> int \<times> ns_rr option list option"
  ne_rand :: "'g random_range"
  ne_getaddrinfo :: "string \<Rightarrow> cptr option"
  ne_files :: "'w file_ops"
  ne_world :: 'w
  ne_netinfo :: sigar_net_info
  ne_k5start :: bool
  ne_open :: "nat \<Rightarrow> string \<Rightarrow> bool"

definition k5start_args :: "qpid_conv \<Rightarrow> qmap \<Rightarrow> string list option" where
  "k5start_args cv mh_options =
     Option.bind (as_string cv (qmap_get ''krb5_keytab'' mh_options)) (\<lambda>keytab.
     Option.bind (as_string cv (qmap_get ''krb5_interval'' mh_options)) (\<lambda>interval.
       Some [''/usr/bin/k5start'', ''-U'', ''-f'', cstr_of keytab, ''-K'', cstr_of interval]))"

text \<open>The programs that are spawned; \<open>None\<close> is an exception of a conversion.\<close>

definition k5start :: "('w, 'g) net_env \<Rightarrow> qmap \<Rightarrow> qmap \<Rightarrow> string list list option" where
  "k5start ne mh_options amqp_options =
     Option.bind (as_string (ne_conv ne) (qmap_get ''sasl-mechanism'' amqp_options)) (\<lambda>mechanism.
       if cstr_of mechanism = ''GSSAPI''
       then Option.bind (k5start_args (ne_conv ne) mh_options) (\<lambda>args.
              Some (if ne_k5start ne then [args] else []))
       else Some [])"

definition srv_query :: "qpid_conv \<Rightarrow> qmap \<Rightarrow> string \<Rightarrow> string" where
  "srv_query cv mh_options domain =
     ''_matahari.'' @ (if qmap_get ''protocol'' mh_options = VAR_STRING ''ssl'' then ''_tls'' else ''_tcp'') @ ''.'' @
     (if qmap_count ''servername'' mh_options then stream_out cv (qmap_get ''servername'' mh_options) else domain)"

definition broker_url ::
  "qpid_conv \<Rightarrow> qmap \<Rightarrow> mh_dnssrv_record list \<Rightarrow> mh_dnssrv_record list \<Rightarrow> string \<times> mh_dnssrv_record list" where
  "broker_url cv mh_options srv_records cur =
     (let protocol = ''amqp:'' @ stream_out cv (qmap_get ''protocol'' mh_options);
          port = stream_out cv (qmap_get ''serverport'' mh_options)
      in if srv_records \<noteq> []
         then (protocol @ '':'' @ mh_dnssrv_record_get_host (hd cur) @ '':'' @
                 show_nat (unat (mh_dnssrv_record_get_port (hd cur))),
               if tl cur = [] then srv_records else tl cur)
         else if qmap_count ''servername'' mh_options
         then (protocol @ '':'' @ stream_out cv (qmap_get ''servername'' mh_options) @ '':'' @ port, cur)
         else (protocol @ '':localhost:'' @ port, cur))"

text \<open>The loop: the URL of the connection, if one was opened, and the URLs tried with the seconds slept
  after each.\<close>

partial_function (option) connect_loop ::
  "('w, 'g) net_env \<Rightarrow> qmap \<Rightarrow> bool \<Rightarrow> mh_dnssrv_record list \<Rightarrow> mh_dnssrv_record list \<Rightarrow> nat \<Rightarrow> nat
   \<Rightarrow> (string option \<times> (string \<times> nat) list) option" where
  "connect_loop ne mh_options retry srv_records cur retries backoff =
     (case broker_url (ne_conv ne) mh_options srv_records cur of (url, cur') \<Rightarrow>
        (let retries' = Suc retries;
             backoff' = (if retries' \<le> 5 then backoff else retries' mod 300)
         in if ne_open ne retries' url then Some (Some url, [(url, 0)])
            else if \<not> retry then Some (None, [(url, 0)])
            else Option.bind (connect_loop ne mh_options retry srv_records cur' retries' backoff')
                   (\<lambda>(conn, tried). Some (conn, (url, backoff') # tried))))"

text \<open>The connection is its URL and the options it was created with; reading the mechanism with
  \<^verbatim>\<open>operator[]\<close> has added it to them.\<close>

record connect_result =
  cr_connection :: "(string \<times> qmap) option"
  cr_tried :: "(string \<times> nat) list"
  cr_spawned :: "string list list"

definition mh_connect ::
  "('w, 'g) net_env \<Rightarrow> qmap \<Rightarrow> qmap \<Rightarrow> bool \<Rightarrow> util_state \<Rightarrow> 'g \<Rightarrow> (connect_result \<times> util_state \<times> 'g) proc option" where
  "mh_connect ne mh_options amqp_options retry us g =
     (case k5start ne mh_options amqp_options of
        None \<Rightarrow> Some Crashed
      | Some spawned \<Rightarrow>
          (let amqp' = qmap_put ''sasl-mechanism'' (qmap_get ''sasl-mechanism'' amqp_options) amqp_options;
               lookup = \<not> qmap_count ''servername'' mh_options \<or> qmap_count ''dns-srv'' mh_options;
               (domain, us') = (if lookup \<and> \<not> qmap_count ''servername'' mh_options
                                then mh_dnsdomainname (ne_getaddrinfo ne) (ne_files ne) (ne_world ne) (ne_netinfo ne) us
                                else ([], us))
           in Option.bind (if lookup
                           then mh_dnssrv_lookup (ne_insert ne) (ne_resolver ne) (ne_rand ne) g
                                  (srv_query (ne_conv ne) mh_options domain)
                           else Some ([], g)) (\<lambda>(srv_records, g').
              Option.bind (connect_loop ne mh_options retry srv_records srv_records 0 0) (\<lambda>(conn, tried).
                Some (Running (\<lparr>cr_connection = map_option (\<lambda>url. (url, amqp')) conn, cr_tried = tried,
                                cr_spawned = spawned\<rparr>, us', g'))))))"

section \<open>Starting an agent\<close>

record agent_session =
  ss_connection :: "(string \<times> qmap) option"
  ss_vendor :: string
  ss_product :: string
  ss_attributes :: qmap
  ss_open :: bool
  ss_schemas :: "string list"
  ss_data :: "(string \<times> qmap) list"

definition AgentSession :: "(string \<times> qmap) option \<Rightarrow> agent_session" where
  "AgentSession conn = \<lparr>ss_connection = conn, ss_vendor = [], ss_product = [], ss_attributes = [],
     ss_open = False, ss_schemas = [], ss_data = []\<rparr>"

definition registerAgent ::
  "'w file_ops \<Rightarrow> 'w \<Rightarrow> sigar_net_info \<Rightarrow> agent_session \<Rightarrow> util_state \<Rightarrow> agent_session \<times> util_state" where
  "registerAgent fo w netinfo session us =
     (case mh_uuid fo w us of (uuid, us1) \<Rightarrow>
        (case mh_hostname fo w netinfo us1 of (host, us2) \<Rightarrow>
           (session\<lparr>ss_schemas := ss_schemas session @ [''Agent''],
                    ss_data := ss_data session @ [(''Agent'',
                      qmap_put ''hostname'' (VAR_STRING host) (qmap_put ''uuid'' (VAR_STRING uuid) []))]\<rparr>, us2)))"

definition open_session ::
  "'w file_ops \<Rightarrow> 'w \<Rightarrow> sigar_net_info \<Rightarrow> string \<Rightarrow> (string \<times> qmap) option \<Rightarrow> util_state \<Rightarrow> agent_session \<times> util_state" where
  "open_session fo w netinfo proc_name conn us =
     (case mh_uuid fo w us of (uuid, us1) \<Rightarrow>
        (case mh_hostname fo w netinfo us1 of (host, us2) \<Rightarrow>
           ((AgentSession conn)\<lparr>ss_vendor := ''matahariproject.org'', ss_product := proc_name,
              ss_attributes := qmap_put ''hostname'' (VAR_STRING host) (qmap_put ''uuid'' (VAR_STRING uuid) []),
              ss_open := True\<rparr>, us2)))"

text \<open>What a started agent has: the return value of \<open>init\<close>, its session, the event source (with the events
  that will arrive on the session) and the main loop.\<close>

record 's started =
  st_rc :: int
  st_session :: agent_session
  st_source :: "qmf_source option"
  st_loop :: "'s mainloop_scheme"
  st_util :: util_state
  st_log :: log_state

text \<open>The part of \<open>init\<close> after the connection is open.\<close>

definition start_agent ::
  "('w, 'g) net_env \<Rightarrow> id_source \<Rightarrow> (agent_session \<Rightarrow> util_state \<Rightarrow> int \<times> agent_session \<times> util_state) \<Rightarrow> agent_event list \<Rightarrow> string
   \<Rightarrow> (string \<times> qmap) option \<Rightarrow> log_state \<Rightarrow> util_state \<Rightarrow> 's mainloop_scheme \<Rightarrow> 's started" where
  "start_agent ne new_id setup events proc_name conn log us ml =
     (case open_session (ne_files ne) (ne_world ne) (ne_netinfo ne) proc_name conn us of (session, us1) \<Rightarrow>
     (case setup session us1 of (rc, session1, us2) \<Rightarrow>
        if rc < 0
        then \<lparr>st_rc = - 1, st_session = session1, st_source = None, st_loop = ml, st_util = us2, st_log = log\<rparr>
        else (case registerAgent (ne_files ne) (ne_world ne) (ne_netinfo ne) session1 us2 of (session2, us3) \<Rightarrow>
             (case mainloop_add_qmf new_id G_PRIORITY_HIGH events True True ml of (source, ml') \<Rightarrow>
                \<lparr>st_rc = 0, st_session = session2, st_source = Some source, st_loop = ml', st_util = us3,
                 st_log = log\<rparr>))))"

definition MatahariAgent_init ::
  "agent_os \<Rightarrow> ('w, 'g) net_env \<Rightarrow> char list \<Rightarrow> 'o opt_state_scheme client \<Rightarrow> id_source
   \<Rightarrow> (agent_session \<Rightarrow> util_state \<Rightarrow> int \<times> agent_session \<times> util_state) \<Rightarrow> agent_event list \<Rightarrow> string list \<Rightarrow> string
   \<Rightarrow> 'o opt_state_scheme \<Rightarrow> util_state \<Rightarrow> 'g \<Rightarrow> 's mainloop_scheme \<Rightarrow> 's started proc option" where
  "MatahariAgent_init os ne uninit client new_id setup events argv proc_name s us g ml =
     (let s1 = s\<lparr>os_log := fst (mh_log_init (getenv os) (mh_log_level (os_log s)) (tty_before os) (os_log s)),
                 os_options := []\<rparr>;
          s2 = snd (mh_add_option 100 no_argument ''daemon'' (Some ''run as a daemon'') No_target (Some Should_daemonize) s1)
      in Option.bind (mh_parse_options os (ne_conv ne) uninit client argv s2) (\<lambda>parsed.
         case parsed of
           Exited rc \<Rightarrow> Some (Exited rc)
         | Crashed \<Rightarrow> Some Crashed
         | Running s3 \<Rightarrow>
             Option.bind (mh_connect ne (os_options s3) (os_amqp s3) True us g) (\<lambda>connected.
               Some (proc_bind connected (\<lambda>(cr, us1, _).
                 Running (start_agent ne new_id setup events proc_name (cr_connection cr)
                   (fst (mh_log_init (getenv os) (mh_log_level (os_log s3)) (tty_after os) (os_log s3))) us1 ml))))))"

section \<open>Lemmas: the table and the option string\<close>

definition table_ok :: "mh_option list \<Rightarrow> bool" where
  "table_ok t \<longleftrightarrow> length t = MAX_CHAR \<and> (\<forall>i < MAX_CHAR. opt_code (t ! i) = 0 \<or> opt_code (t ! i) = int i)"

definition option_text :: "mh_option \<Rightarrow> string" where
  "option_text e = (if opt_code e = 0 then []
     else char_of (nat (opt_code e)) # (if opt_has_arg e = required_argument then '':'' else []))"

definition option_string :: "mh_option list \<Rightarrow> string" where
  "option_string t = concat (map option_text t)"

definition long_options :: "mh_option list \<Rightarrow> long_option list" where
  "long_options t = map (\<lambda>e. \<lparr>lo_name = opt_long_name e, lo_has_arg = opt_has_arg e, lo_val = opt_code e\<rparr>)
     (filter (\<lambda>e. opt_code e \<noteq> 0) t)"

lemma table_ok_empty: "table_ok (replicate MAX_CHAR empty_option)"
  by (simp add: table_ok_def empty_option_def)

lemma table_ok_add:
  assumes "table_ok (matahari_options s)"
  shows "table_ok (matahari_options (snd (mh_add_option c h n d u cb s)))"
  using assms by (auto simp: table_ok_def mh_add_option_def nth_list_update) blast

lemma mh_add_option_other [simp]:
  "os_options (snd (mh_add_option c h n d u cb s)) = os_options s"
  "os_amqp (snd (mh_add_option c h n d u cb s)) = os_amqp s"
  "os_log (snd (mh_add_option c h n d u cb s)) = os_log s"
  "length (matahari_options (snd (mh_add_option c h n d u cb s))) = length (matahari_options s)"
  by (simp_all add: mh_add_option_def)

lemma table_ok_common: "table_ok (matahari_options s) \<Longrightarrow> table_ok (matahari_options (add_common_options os s))"
  by (simp add: add_common_options_def Let_def table_ok_add)

lemma start_options_table [simp]: "matahari_options (start_options s) = matahari_options s"
  by (simp add: start_options_def)

lemma poke_within: "i < length buf \<Longrightarrow> poke buf i c = Some (buf[i := c])"
  by (simp add: poke_def)

lemma poke_after: "poke (a @ x # b) (length a) c = Some (a @ c # b)"
  by (simp add: poke_def)

lemma build_opts_eq:
  assumes "length rest \<ge> length (option_string es)"
  shows "\<exists>rest'. build_opts es lo (pre @ NUL # rest) (length pre) =
    Some (lo @ long_options es, pre @ option_string es @ NUL # rest', length pre + length (option_string es)) \<and>
    length rest' + length (option_string es) = length rest"
  using assms
proof (induction es arbitrary: lo pre rest)
  case Nil
  then show ?case by (simp add: option_string_def long_options_def)
next
  case (Cons e es)
  show ?case
  proof (cases "opt_code e = 0")
    case True
    with Cons show ?thesis by (simp add: option_string_def option_text_def long_options_def)
  next
    case False
    let ?c = "char_of (nat (opt_code e)) :: char"
    let ?l = "\<lparr>lo_name = opt_long_name e, lo_has_arg = opt_has_arg e, lo_val = opt_code e\<rparr>"
    have os: "option_string (e # es) = option_text e @ option_string es"
      by (simp add: option_string_def)
    have lo: "long_options (e # es) = ?l # long_options es"
      using False by (simp add: long_options_def)
    have "\<exists>r. length r + length (option_text e) = length rest \<and>
        build_opts (e # es) lo (pre @ NUL # rest) (length pre) =
        build_opts es (lo @ [?l]) ((pre @ option_text e) @ NUL # r) (length (pre @ option_text e))"
    proof (cases "opt_has_arg e = required_argument")
      case True
      with False Cons.prems obtain x y r where "rest = x # y # r"
        by (cases rest; cases "tl rest") (auto simp: os option_text_def)
      with True False show ?thesis
        using poke_after [of "pre @ [?c]" x "y # r" "CHR '':''"] poke_after [of "pre @ [?c, CHR '':'']" y r NUL]
        by (simp add: poke_after option_text_def) blast
    next
      case no: False
      with False Cons.prems obtain x r where "rest = x # r"
        by (cases rest) (auto simp: os option_text_def)
      with no False show ?thesis
        using poke_after [of "pre @ [?c]" x r NUL] by (simp add: poke_after option_text_def) blast
    qed
    then obtain r where r: "length r + length (option_text e) = length rest"
      and step: "build_opts (e # es) lo (pre @ NUL # rest) (length pre) =
        build_opts es (lo @ [?l]) ((pre @ option_text e) @ NUL # r) (length (pre @ option_text e))"
      by blast
    from r Cons.prems have "length (option_string es) \<le> length r" by (simp add: os)
    from Cons.IH [OF this, of "lo @ [?l]" "pre @ option_text e"] r show ?thesis
      unfolding step by (auto simp: os lo)
  qed
qed

lemma length_option_text: "length (option_text e) \<le> 2"
  by (simp add: option_text_def)

lemma length_option_string: "length (option_string es) \<le> 2 * length es"
proof (induction es)
  case (Cons e es)
  then show ?case using length_option_text [of e] by (simp add: option_string_def)
qed (simp add: option_string_def)

lemma table_ok_string:
  assumes "table_ok t"
  shows "length (option_string t) \<le> 244" "is_cstr (option_string t)"
proof -
  obtain e es where t: "t = e # es" "length es = 122"
    using assms by (cases t) (auto simp: table_ok_def MAX_CHAR_def)
  moreover have "opt_code (t ! 0) = 0"
    using assms by (auto simp: table_ok_def MAX_CHAR_def dest!: spec [of _ 0])
  ultimately show "length (option_string t) \<le> 244"
    using length_option_string [of es] by (simp add: option_string_def option_text_def)
  have "is_cstr (option_text (t ! i))" if i: "i < MAX_CHAR" for i
  proof (cases "opt_code (t ! i) = 0")
    case False
    with assms i have "opt_code (t ! i) = int i" "0 < i" by (auto simp: table_ok_def)
    moreover have "(of_char (char_of i :: char) :: nat) = i" "(of_char NUL :: nat) = 0"
      using i by (simp_all add: MAX_CHAR_def NUL_def)
    then have "(char_of i :: char) \<noteq> NUL"
      using \<open>0 < i\<close> by (metis (mono_tags) less_irrefl)
    ultimately show ?thesis by (simp add: option_text_def NUL_def)
  qed (simp add: option_text_def)
  then have "\<forall>e \<in> set t. is_cstr (option_text e)"
    using assms by (auto simp: in_set_conv_nth table_ok_def)
  then show "is_cstr (option_string t)"
    by (auto simp: option_string_def is_cstr_def)
qed

lemma long_options_sorted:
  assumes "table_ok t"
  shows "sorted_wrt (<) (map lo_val (long_options t))"
proof -
  have "sorted_wrt (<) (map opt_code (filter (\<lambda>e. opt_code e \<noteq> 0) (take k t)))
      \<and> (\<forall>e \<in> set (take k t). opt_code e \<noteq> 0 \<longrightarrow> opt_code e < int k)" if "k \<le> length t" for k
    using that
  proof (induction k)
    case (Suc k)
    then have "take (Suc k) t = take k t @ [t ! k]" "opt_code (t ! k) = 0 \<or> opt_code (t ! k) = int k"
      using assms by (auto simp: take_Suc_conv_app_nth table_ok_def)
    with Suc show ?case by (fastforce simp: sorted_wrt_append)
  qed simp
  from this [of "length t"] show ?thesis by (simp add: long_options_def comp_def)
qed

text \<open>So \<open>mh_parse_options\<close> is what the rest of it computes from the option string of the table.\<close>

definition agent_table :: "agent_os \<Rightarrow> 's opt_state_scheme \<Rightarrow> 's opt_state_scheme" where
  "agent_table os s0 =
     snd (mh_add_option 104 no_argument ''help'' None No_target None (add_common_options os (start_options s0)))"

definition parse_rest ::
  "agent_os \<Rightarrow> qpid_conv \<Rightarrow> 's opt_state_scheme client \<Rightarrow> (int \<times> cptr) list \<Rightarrow> 's opt_state_scheme
   \<Rightarrow> 's opt_state_scheme proc" where
  "parse_rest os cv client args s2 =
     proc_bind (read_environment os (os_options s2)) (\<lambda>env_options.
     proc_bind (getopt_loop os client args (s2\<lparr>os_options := env_options\<rparr>)) (\<lambda>s3.
     proc_bind (if qmap_count ''dns-srv'' (os_options s3) then Running (os_options s3)
                else verify_broker_option os cv (os_options s3)) (\<lambda>options.
       Running (finish_options os (s3\<lparr>os_options := options\<rparr>)))))"

lemma mh_parse_options_eq:
  assumes t: "table_ok (matahari_options s0)" and len: "length uninit = 2 * MAX_CHAR"
  shows "mh_parse_options os cv uninit client argv s0 =
    Some (parse_rest os cv client
      (getopt os argv (option_string (matahari_options (agent_table os s0))) (long_options (matahari_options (agent_table os s0))))
      (agent_table os s0))"
proof -
  let ?t = "matahari_options (agent_table os s0)"
  have ok: "table_ok ?t"
    using t by (simp add: agent_table_def table_ok_add table_ok_common)
  obtain x r where u: "uninit = x # r" "length r = 245"
    using len by (cases uninit) (auto simp: MAX_CHAR_def)
  have "length (option_string ?t) \<le> length r"
    using table_ok_string(1) [OF ok] u by simp
  from build_opts_eq [OF this, of "[]" "[]"] obtain r'
    where b: "build_opts ?t [] (NUL # r) 0 = Some (long_options ?t, option_string ?t @ NUL # r', length (option_string ?t))"
    by auto
  have p: "poke uninit 0 NUL = Some (NUL # r)"
    using u by (simp add: poke_def)
  show ?thesis
    using table_ok_string(2) [OF ok]
    unfolding mh_parse_options_def Let_def p agent_table_def [symmetric] parse_rest_def by (simp add: b)
qed

section \<open>Lemmas: the connection loop\<close>







lemma connect_loop_retry:
  assumes "connect_loop ne opts True rs cur n bo = Some r"
  shows "fst r \<noteq> None"
proof -
  let ?P = "\<lambda>ne' opts' rt rs' cur retries bo r. rt \<longrightarrow> fst r \<noteq> None"
  have "True \<longrightarrow> fst r \<noteq> None"
    by (rule connect_loop.raw_induct [where P = ?P, OF _ assms])
      (auto simp: Let_def split: prod.splits if_splits bind_splits)
  then show ?thesis by simp
qed




section \<open>Lemmas: the options of an agent\<close>

text \<open>The state with which \<open>MatahariAgent_init\<close> starts to parse.\<close>

definition agent_start :: "'s opt_state_scheme \<Rightarrow> 's opt_state_scheme" where
  "agent_start s = snd (mh_add_option 100 no_argument ''daemon'' (Some ''run as a daemon'') No_target
     (Some Should_daemonize) (s\<lparr>matahari_options := replicate MAX_CHAR empty_option\<rparr>))"

text \<open>The handler of each letter: callback, long name and target.\<close>

definition agent_handler :: "agent_os \<Rightarrow> nat \<Rightarrow> (opt_callback \<times> string \<times> opt_target) option" where
  "agent_handler os i =
     (if i = 98 then Some (Map_option, ''broker'', Mh_options)
      else if i = 68 then Some (Map_option, ''dns-srv'', Mh_options)
      else if i = 112 then Some (Map_option, ''port'', Mh_options)
      else if i = 118 then Some (Map_option, ''verbose'', No_target)
      else if i = 117 then Some (Connection_option, ''username'', Amqp_options)
      else if i = 80 then Some (Connection_option, ''password'', Amqp_options)
      else if i = 115 then Some (Connection_option, ''service'', Amqp_options)
      else if i = 114 then Some (Connection_option, ''reconnect'', Amqp_options)
      else if i = 100 then Some (Should_daemonize, ''daemon'', No_target)
      else if with_ssl os \<and> i = 116 then Some (Connection_option, ''use-tls'', Mh_options)
      else if with_ssl os \<and> i = 110 then Some (Connection_option, ''ssl-cert-name'', Amqp_options)
      else None)"

lemma mh_add_option_nth:
  assumes "length (matahari_options s) = 123" "0 < c" "c < 123"
  shows "matahari_options (snd (mh_add_option c h n d u cb s)) ! i =
    (if i = nat c then \<lparr>opt_code = c, opt_has_arg = h, opt_long_name = Some n, opt_description = d,
       opt_userdata = u, opt_cb = cb\<rparr> else matahari_options s ! i)"
  using assms by (simp add: mh_add_option_def nth_list_update)

definition entry_is :: "mh_option \<Rightarrow> (opt_callback \<times> string \<times> opt_target) option \<Rightarrow> bool" where
  "entry_is e h \<longleftrightarrow> (case h of None \<Rightarrow> opt_cb e = None
     | Some (cb, n, t) \<Rightarrow> opt_cb e = Some cb \<and> opt_long_name e = Some n \<and> opt_userdata e = t)"

lemma agent_start_table:
  "length (matahari_options (agent_start s)) = 123"
  "i < 123 \<Longrightarrow> matahari_options (agent_start s) ! i =
    (if i = 100 then \<lparr>opt_code = 100, opt_has_arg = no_argument, opt_long_name = Some ''daemon'',
       opt_description = Some ''run as a daemon'', opt_userdata = No_target, opt_cb = Some Should_daemonize\<rparr>
     else empty_option)"
  by (simp_all add: agent_start_def mh_add_option_nth MAX_CHAR_def)

lemma agent_entry:
  assumes "i < 123"
  shows "entry_is (matahari_options (agent_table os (agent_start s)) ! i) (agent_handler os i)"
proof -
  note nth = mh_add_option_nth agent_start_table(2)
  show ?thesis
    using assms by (simp add: agent_table_def add_common_options_def Let_def nth agent_start_table(1) agent_handler_def
        entry_is_def empty_option_def)
qed

text \<open>What one option of an agent does: the table stays, and only the letters b and D touch the broker and
  the request for an SRV lookup.\<close>

lemma put_target_frame:
  assumes "put_target t k v s = Some s'"
  shows "matahari_options s' = matahari_options s"
    "os_options s' = (if t = Mh_options then qmap_put k v (os_options s) else os_options s)"
    "os_amqp s' = (if t = Amqp_options then qmap_put k v (os_amqp s) else os_amqp s)"
  using assms by (cases t; auto)+

lemma map_option_cb_names:
  "map_option_cb ''broker'' arg t s = Option.bind arg (\<lambda>a. put_target t ''servername'' (VAR_STRING a) s)"
  "map_option_cb ''dns-srv'' arg t s = put_target t ''dns-srv'' (VAR_INT32 1) s"
  "map_option_cb ''port'' arg t s =
     Option.bind arg (\<lambda>a. put_target t ''serverport'' (VAR_UINT16 (of_int (strtol a))) s)"
  by (simp_all add: map_option_cb_def)

lemma map_option_cb_verbose: "\<exists>l. map_option_cb ''verbose'' arg t s = Some (s\<lparr>os_log := l\<rparr>)"
  by (auto simp: map_option_cb_def Let_def split: option.splits)

lemma connection_option_amqp:
  "connection_option n arg Amqp_options s = None \<or>
   (\<exists>m. connection_option n arg Amqp_options s = Some (s\<lparr>os_amqp := m\<rparr>))"
proof (cases arg)
  case None
  then show ?thesis by (simp add: connection_option_def) blast
next
  case (Some a)
  then show ?thesis by (simp add: connection_option_def) blast
qed

lemma connection_option_tls:
  "\<exists>v. connection_option ''use-tls'' arg t s = put_target t ''use-tls'' v s"
  by (cases arg) (simp add: connection_option_def, blast)+

lemma connection_option_effect:
  assumes "connection_option n arg t s = Some s'" "t = Amqp_options \<or> n = ''use-tls'' \<and> t = Mh_options"
  shows "matahari_options s' = matahari_options s"
    "map_of (os_options s') ''servername'' = map_of (os_options s) ''servername''"
    "qmap_count ''dns-srv'' (os_options s') \<longleftrightarrow> qmap_count ''dns-srv'' (os_options s)"
proof -
  have "(\<exists>m. s' = s\<lparr>os_amqp := m\<rparr>) \<or> (\<exists>v. s' = s\<lparr>os_options := qmap_put ''use-tls'' v (os_options s)\<rparr>)"
    using assms connection_option_amqp [of n arg s] connection_option_tls [of arg Mh_options s] by auto
  then show "matahari_options s' = matahari_options s"
    "map_of (os_options s') ''servername'' = map_of (os_options s) ''servername''"
    "qmap_count ''dns-srv'' (os_options s') \<longleftrightarrow> qmap_count ''dns-srv'' (os_options s)"
    by auto
qed

lemma agent_handler_cases:
  assumes h: "agent_handler os i = Some (cb, n, t)"
  obtains (broker) "i = 98" "cb = Map_option" "n = ''broker''" "t = Mh_options"
    | (srv) "i = 68" "cb = Map_option" "n = ''dns-srv''" "t = Mh_options"
    | (port) "i = 112" "cb = Map_option" "n = ''port''" "t = Mh_options"
    | (verbose) "i = 118" "cb = Map_option" "n = ''verbose''" "t = No_target"
    | (daemon) "i = 100" "cb = Should_daemonize"
    | (conn) "i \<notin> {98, 68}" "cb = Connection_option" "t = Amqp_options \<or> n = ''use-tls'' \<and> t = Mh_options"
proof -
  consider "i = 98" | "i = 68" | "i = 112" | "i = 118" | "i = 117" | "i = 80" | "i = 115" | "i = 114" | "i = 100"
    | "i = 116" | "i = 110" | "i \<notin> {98, 68, 112, 118, 117, 80, 115, 114, 100, 116, 110}"
    by blast
  then show thesis
  proof cases
    case 1
    with h show thesis by (intro broker) (simp_all add: agent_handler_def)
  next
    case 2
    with h show thesis by (intro srv) (simp_all add: agent_handler_def)
  next
    case 3
    with h show thesis by (intro port) (simp_all add: agent_handler_def)
  next
    case 4
    with h show thesis by (intro verbose) (simp_all add: agent_handler_def)
  next
    case 9
    with h show thesis by (intro daemon) (simp_all add: agent_handler_def)
  next
    case 10
    with h show thesis by (cases "with_ssl os") (simp_all add: agent_handler_def conn)
  next
    case 11
    with h show thesis by (cases "with_ssl os") (simp_all add: agent_handler_def conn)
  next
    case 12
    with h show thesis by (simp add: agent_handler_def)
  qed (use h in \<open>simp_all add: agent_handler_def conn\<close>)
qed

lemma agent_callback_effect:
  assumes h: "agent_handler os i = Some (cb, n, t)"
    and r: "run_callback os client cb c (Some n) arg t s = Running s'"
  shows "matahari_options s' = matahari_options s \<and>
    map_of (os_options s') ''servername'' =
      (if i = 98 then map_option VAR_STRING arg else map_of (os_options s) ''servername'') \<and>
    (i = 98 \<longrightarrow> arg \<noteq> None) \<and>
    (qmap_count ''dns-srv'' (os_options s') \<longleftrightarrow> i = 68 \<or> qmap_count ''dns-srv'' (os_options s))"
  using h
proof (cases rule: agent_handler_cases)
  case verbose
  with r map_option_cb_verbose [of arg No_target s] show ?thesis by auto
next
  case daemon
  with r show ?thesis by (auto simp: mh_should_daemonize_def split: if_splits)
next
  case conn
  with r have "connection_option n arg t s = Some s'" by (simp split: option.splits)
  from connection_option_effect [OF this conn(3)] conn show ?thesis by simp
qed (use r in \<open>auto simp: map_option_cb_names bind_eq_Some_conv split: option.splits\<close>)

text \<open>The last argument given for a letter.\<close>

fun last_arg :: "int \<Rightarrow> (int \<times> cptr) list \<Rightarrow> cptr" where
  "last_arg c [] = None"
| "last_arg c ((k, a) # rest) =
     (case last_arg c rest of Some b \<Rightarrow> Some b | None \<Rightarrow> if k = c then a else None)"

lemma getopt_loop_broker:
  assumes "matahari_options s = matahari_options (agent_table os (agent_start s0))"
    and "getopt_loop os client args s = Running s'"
  shows "map_of (os_options s') ''servername'' =
      (case last_arg 98 args of None \<Rightarrow> map_of (os_options s) ''servername'' | Some a \<Rightarrow> Some (VAR_STRING a)) \<and>
    (qmap_count ''dns-srv'' (os_options s') \<longleftrightarrow> 68 \<in> fst ` set args \<or> qmap_count ''dns-srv'' (os_options s))"
  using assms
proof (induction os client args s rule: getopt_loop.induct)
  case (2 os client c arg rest s)
  let ?e = "matahari_options s ! nat c"
  have "length (matahari_options s) = 123"
    using "2.prems"(1) by (simp add: agent_table_def add_common_options_def Let_def agent_start_table(1))
  with "2.prems"(2) obtain s1 where c: "0 < c" "c < 123" "opt_cb ?e \<noteq> None"
    and s1: "run_callback os client (the (opt_cb ?e)) (opt_code ?e) (opt_long_name ?e) arg (opt_userdata ?e) s = Running s1"
    and rest: "getopt_loop os client rest s1 = Running s'" and h: "c \<noteq> 104"
    by (cases "run_callback os client (the (opt_cb ?e)) (opt_code ?e) (opt_long_name ?e) arg (opt_userdata ?e) s")
      (auto simp: Let_def split: if_splits)
  from c have "nat c < 123" by simp
  from agent_entry [OF this, of os s0] c(3) obtain cb n t where
    hd: "agent_handler os (nat c) = Some (cb, n, t)" and e: "opt_cb ?e = Some cb" "opt_long_name ?e = Some n" "opt_userdata ?e = t"
    unfolding "2.prems"(1) entry_is_def by (auto split: option.splits)
  have eff: "matahari_options s1 = matahari_options s \<and>
    map_of (os_options s1) ''servername'' =
      (if nat c = 98 then map_option VAR_STRING arg else map_of (os_options s) ''servername'') \<and>
    (nat c = 98 \<longrightarrow> arg \<noteq> None) \<and>
    (qmap_count ''dns-srv'' (os_options s1) \<longleftrightarrow> nat c = 68 \<or> qmap_count ''dns-srv'' (os_options s))"
    by (rule agent_callback_effect [OF hd s1 [unfolded e option.sel]])
  have "matahari_options s1 = matahari_options (agent_table os (agent_start s0))"
    using eff "2.prems"(1) by simp
  with "2.IH" h c s1 rest \<open>length (matahari_options s) = 123\<close>
  have ih: "map_of (os_options s') ''servername'' =
      (case last_arg 98 rest of None \<Rightarrow> map_of (os_options s1) ''servername'' | Some a \<Rightarrow> Some (VAR_STRING a)) \<and>
    (qmap_count ''dns-srv'' (os_options s') \<longleftrightarrow> 68 \<in> fst ` set rest \<or> qmap_count ''dns-srv'' (os_options s1))"
    by auto
  with eff c show ?case by (auto simp: nat_eq_iff split: option.splits)
qed simp

lemma map_of_env_pick: "map_of (env_pick os var k m) x =
    (if x = k \<and> \<not> mh_strlen_zero (getenv os var) then Some (VAR_STRING (the (getenv os var))) else map_of m x)"
  by (simp add: env_pick_def)

lemma read_environment_frame:
  assumes "read_environment os m = Running m'"
  shows "map_of m' ''servername'' = (if mh_strlen_zero (getenv os ''MATAHARI_BROKER'') then map_of m ''servername''
      else Some (VAR_STRING (the (getenv os ''MATAHARI_BROKER''))))"
    "map_of m' ''dns-srv'' = map_of m ''dns-srv''"
  using assms
  by (auto simp: read_environment_def Let_def map_of_env_pick split: if_split_asm)

lemma finish_options_frame [simp]:
  "map_of (os_options (finish_options os s)) ''servername'' = map_of (os_options s) ''servername''"
  by (simp add: finish_options_def)

lemma verify_broker_choice:
  assumes "conv_ok cv" "map_of m ''servername'' = map_option VAR_STRING b" "verify_broker_option os cv m = Running m'"
  shows "map_of m' ''servername'' =
    (case b of None \<Rightarrow> None | Some x \<Rightarrow> if resolvable os (cstr_of x) then Some (VAR_STRING x) else None)"
  using assms
  by (auto simp: verify_broker_option_def qmap_count_def qmap_get_def conv_okD split: if_splits option.splits)

lemma proc_bind_Running: "proc_bind p f = Running y \<longleftrightarrow> (\<exists>x. p = Running x \<and> f x = Running y)"
  by (cases p) auto

lemma case_proc_Running:
  "(case p of Exited rc \<Rightarrow> Some (Exited rc) | Crashed \<Rightarrow> Some Crashed | Running x \<Rightarrow> f x) = Some (Running y) \<longleftrightarrow>
   (\<exists>x. p = Running x \<and> f x = Some (Running y))"
  by (cases p) auto

lemma agent_table_simps:
  "os_options (agent_table os s) = os_options (start_options s)"
  "os_options (agent_start s) = os_options s"
  "table_ok (matahari_options (agent_start s))"
  by (simp_all add: agent_table_def add_common_options_def Let_def agent_start_def table_ok_add table_ok_empty)

text \<open>Which broker an agent ends up with: the last one of the command line, else the one of the
  environment, if it can be resolved or is a domain for an SRV lookup.\<close>

definition chosen_broker :: "agent_os \<Rightarrow> (int \<times> cptr) list \<Rightarrow> string option" where
  "chosen_broker os args =
     (case (case last_arg 98 args of
              None \<Rightarrow> if mh_strlen_zero (getenv os ''MATAHARI_BROKER'') then None else getenv os ''MATAHARI_BROKER''
            | Some a \<Rightarrow> Some a) of
        None \<Rightarrow> None
      | Some b \<Rightarrow> if 68 \<in> fst ` set args \<or> resolvable os (cstr_of b) then Some b else None)"

lemma mh_log_init_stderr: "mh_stderr_enabled (fst (mh_log_init ge level tty l)) = tty"
  by (simp add: mh_log_init_def Let_def split: prod.splits)

lemma mh_connect_retry:
  assumes "mh_connect ne opts amqp True us g = Some (Running (cr, us', g'))"
  shows "cr_connection cr \<noteq> None"
  using assms connect_loop_retry
  by (fastforce simp: mh_connect_def Let_def bind_eq_Some_conv split: option.splits prod.splits)

lemma open_session_fields:
  assumes "open_session fo w netinfo name conn us = (session, us')"
  shows "ss_connection session = conn" "ss_open session" "ss_product session = name"
    "ss_vendor session = ''matahariproject.org''" "ss_data session = []"
  using assms by (auto simp: open_session_def AgentSession_def split: prod.splits)

lemma registerAgent_data:
  assumes "registerAgent fo w netinfo session us = (session', us')"
  shows "\<exists>m. ss_data session' = ss_data session @ [(''Agent'', m)] \<and> qmap_count ''uuid'' m \<and> qmap_count ''hostname'' m"
  using assms by (auto simp: registerAgent_def simp del: qmap_put.simps split: prod.splits)

section \<open>Properties\<close>


text \<open>A small world: a resolver that knows two brokers of one domain, a machine without files, and a
  command line that names a broker.\<close>

definition demo_os :: agent_os where
  "demo_os = \<lparr>getenv = (\<lambda>v. if v = ''MATAHARI_BROKER'' then Some ''env.example'' else None),
     file_is_dir = (\<lambda>_. True), resolvable = (\<lambda>h. h \<noteq> ''nowhere''), daemon_ok = True, with_ssl = False,
     tty_before = True, tty_after = False, getopt = (\<lambda>_ _ _. [(98, Some ''cmd.example''), (118, None)])\<rparr>"

definition demo_net :: "(store, unit) net_env" where
  "demo_net = \<lparr>ne_conv = qpid_ref, ne_insert = ref_insert,
     ne_resolver = (\<lambda>_. (1, Some [Some (SrvRR 10 0 5672 ''a''), Some (SrvRR 20 0 5673 ''b'')])),
     ne_rand = (\<lambda>g lo hi. (lo, g)), ne_getaddrinfo = (\<lambda>_. None), ne_files = store_ops,
     ne_world = Map.empty, ne_netinfo = \<lparr>host_name = ''h'', domain_name = ''d''\<rparr>, ne_k5start = False,
     ne_open = (\<lambda>i url. 4 \<le> i)\<rparr>"

definition demo_opts :: opt_state where
  "demo_opts = \<lparr>matahari_options = replicate 123 empty_option, os_options = [], os_amqp = [],
     os_log = \<lparr>mh_log_level = 5, mh_stderr_enabled = False, own_points = [], objects = []\<rparr>\<rparr>"


text \<open>C17: Command line and environment: when the options of an agent have been parsed without ending the
  process, the broker is the last one given with \<^verbatim>\<open>--broker\<close>, or else a non-empty \<^verbatim>\<open>MATAHARI_BROKER\<close>,
  and it is dropped exactly when \<^verbatim>\<open>--dns-srv\<close> was not given and its name does not resolve.\<close>

theorem mh_parse_options_broker:
  assumes cv: "conv_ok cv" and len: "length uninit = 246" and fresh: "os_options s = []"
    and args: "args = getopt os argv (option_string (matahari_options (agent_table os (agent_start s))))
      (long_options (matahari_options (agent_table os (agent_start s))))"
    and r: "mh_parse_options os cv uninit client argv (agent_start s) = Some (Running s')"
  shows "map_of (os_options s') ''servername'' = map_option VAR_STRING (chosen_broker os args)"
proof -
  let ?s = "agent_table os (agent_start s)"
  let ?b = "case last_arg 98 args of
    None \<Rightarrow> if mh_strlen_zero (getenv os ''MATAHARI_BROKER'') then None else getenv os ''MATAHARI_BROKER'' | Some a \<Rightarrow> Some a"
  have "length uninit = 2 * MAX_CHAR" using len by (simp add: MAX_CHAR_def)
  then have "parse_rest os cv client args ?s = Running s'"
    using r unfolding mh_parse_options_eq [OF agent_table_simps(3) \<open>length uninit = 2 * MAX_CHAR\<close>] args by simp
  then obtain env s3 opts where env: "read_environment os (os_options ?s) = Running env"
    and s3: "getopt_loop os client args (?s\<lparr>os_options := env\<rparr>) = Running s3"
    and opts: "(if qmap_count ''dns-srv'' (os_options s3) then Running (os_options s3)
      else verify_broker_option os cv (os_options s3)) = Running opts"
    and s': "s' = finish_options os (s3\<lparr>os_options := opts\<rparr>)"
    unfolding parse_rest_def proc_bind_Running by auto
  have start: "map_of (os_options ?s) ''servername'' = None" "map_of (os_options ?s) ''dns-srv'' = None"
    by (simp_all add: agent_table_simps start_options_def fresh)
  from getopt_loop_broker [OF _ s3, of s] read_environment_frame [OF env] start
  have b: "map_of (os_options s3) ''servername'' = map_option VAR_STRING ?b"
    and d: "qmap_count ''dns-srv'' (os_options s3) \<longleftrightarrow> 68 \<in> fst ` set args"
    by (cases "getenv os ''MATAHARI_BROKER''"; auto simp: mh_strlen_zero_def qmap_count_def split: option.splits if_splits)+
  show ?thesis
  proof (cases "qmap_count ''dns-srv'' (os_options s3)")
    case True
    with opts s' b d show ?thesis by (simp add: chosen_broker_def split: option.split)
  next
    case False
    with opts have "verify_broker_option os cv (os_options s3) = Running opts" by simp
    from verify_broker_choice [OF cv b this] False d s' show ?thesis
      by (simp add: chosen_broker_def split: option.split)
  qed
qed

theorem mh_parse_options_broker_witness:
  "\<exists>s'. mh_parse_options demo_os qpid_ref (replicate 246 NUL) (\<lambda>_ _ _ _ _ _. None) [] (agent_start demo_opts) =
      Some (Running s') \<and>
    map_of (os_options s') ''servername'' = Some (VAR_STRING ''cmd.example'')"
proof -
  have "case mh_parse_options demo_os qpid_ref (replicate 246 NUL) (\<lambda>_ _ _ _ _ _. None) [] (agent_start demo_opts) of
      Some (Running _) \<Rightarrow> True | _ \<Rightarrow> False"
    by code_simp
  then obtain s' where s': "mh_parse_options demo_os qpid_ref (replicate 246 NUL) (\<lambda>_ _ _ _ _ _. None) []
      (agent_start demo_opts) = Some (Running s')"
    by (auto split: option.splits proc.splits)
  have "chosen_broker demo_os [(98, Some ''cmd.example''), (118, None)] = Some ''cmd.example''"
    by code_simp
  with mh_parse_options_broker [OF qpid_ref_ok _ _ refl s'] s' show ?thesis
    by (simp add: demo_opts_def demo_os_def)
qed

text \<open>The option table after a sequence of registrations: the entry of a letter is that of its last registration.\<close>

type_synonym registration = "int \<times> int \<times> string \<times> cptr \<times> opt_target \<times> opt_callback option"

definition register_all :: "registration list \<Rightarrow> 's opt_state_scheme \<Rightarrow> 's opt_state_scheme" where
  "register_all options s =
     foldl (\<lambda>s (c, h, nm, d, u, cb). snd (mh_add_option c h nm d u cb s)) (s\<lparr>matahari_options := replicate 123 empty_option\<rparr>) options"

definition last_registered :: "registration list \<Rightarrow> int \<rightharpoonup> int \<times> string" where
  "last_registered options = map_of (rev (map (\<lambda>(c, h, nm, d, u, cb). (c, h, nm)) options))"

lemma register_all_snoc:
  "register_all (options @ [(c, h, nm, d, u, cb)]) s = snd (mh_add_option c h nm d u cb (register_all options s))"
  "last_registered (options @ [(c, h, nm, d, u, cb)]) = (last_registered options)(c \<mapsto> (h, nm))"
  by (simp_all add: register_all_def last_registered_def)

lemma register_all_table: "table_ok (matahari_options (register_all options s))"
proof (induction options rule: rev_induct)
  case (snoc p options)
  then show ?case by (cases p) (simp add: register_all_snoc table_ok_add)
qed (use table_ok_empty in \<open>simp add: register_all_def MAX_CHAR_def\<close>)

lemma register_all_entry:
  assumes "0 < i" "i < 123"
  shows "let e = matahari_options (register_all options s) ! i in
    (case last_registered options (int i) of
       None \<Rightarrow> opt_code e = 0
     | Some (h, nm) \<Rightarrow> opt_code e = int i \<and> opt_has_arg e = h \<and> opt_long_name e = Some nm)"
proof (induction options rule: rev_induct)
  case Nil
  then show ?case using assms by (simp add: register_all_def last_registered_def empty_option_def)
next
  case (snoc p options)
  obtain c h nm d u cb where p: "p = (c, h, nm, d, u, cb)" by (cases p)
  have len: "length (matahari_options (register_all options s)) = 123"
    using register_all_table [of options s] by (simp add: table_ok_def MAX_CHAR_def)
  show ?case
  proof (cases "c = int i")
    case True
    then show ?thesis using assms len by (simp add: p register_all_snoc mh_add_option_def Let_def)
  next
    case False
    then have "matahari_options (register_all (options @ [p]) s) ! i = matahari_options (register_all options s) ! i"
      using len by (auto simp: p register_all_snoc mh_add_option_def nth_list_update)
    moreover have "last_registered (options @ [p]) (int i) = last_registered options (int i)"
      using False by (simp add: p register_all_snoc)
    ultimately show ?thesis using snoc by simp
  qed
qed

lemma registered_long_options:
  "l \<in> set (long_options (matahari_options (register_all options s))) \<longleftrightarrow>
     0 < lo_val l \<and> lo_val l < 123 \<and> (\<exists>h nm. last_registered options (lo_val l) = Some (h, nm) \<and> lo_has_arg l = h \<and> lo_name l = Some nm)"
  (is "?l \<longleftrightarrow> ?r")
proof -
  let ?t = "matahari_options (register_all options s)"
  have ok: "length ?t = 123" "\<And>i. i < 123 \<Longrightarrow> opt_code (?t ! i) = 0 \<or> opt_code (?t ! i) = int i"
    using register_all_table [of options s] by (simp_all add: table_ok_def MAX_CHAR_def)
  show ?thesis
  proof
    assume ?l
    then obtain e where e: "e \<in> set ?t" "opt_code e \<noteq> 0"
      "l = \<lparr>lo_name = opt_long_name e, lo_has_arg = opt_has_arg e, lo_val = opt_code e\<rparr>" by (auto simp: long_options_def)
    then obtain i where i: "i < 123" "e = ?t ! i" using ok(1) by (metis in_set_conv_nth)
    then have c: "opt_code e = int i" "0 < i" using ok(2) [OF i(1)] e(2) by auto
    then show ?r using register_all_entry [of i options s] i e
      by (auto simp: Let_def split: option.splits)
  next
    assume r: ?r
    define i where "i = nat (lo_val l)"
    have i: "0 < i" "i < 123" "lo_val l = int i" using r by (auto simp: i_def)
    have "?t ! i \<in> set ?t" using i ok(1) by simp
    moreover have "opt_code (?t ! i) = int i \<and> opt_has_arg (?t ! i) = lo_has_arg l \<and> opt_long_name (?t ! i) = lo_name l"
      using register_all_entry [OF i(1,2), of options s] r i(3) by (auto simp: Let_def)
    ultimately show ?l using i(1,3) unfolding long_options_def
      by (auto intro!: image_eqI [of _ _ "?t ! i"])
  qed
qed

lemma registered_letters:
  "map lo_val (long_options (matahari_options (register_all options s))) = filter (\<lambda>c. c \<in> fst ` set options) [1..122]"
proof (rule strict_sorted_equal)
  show "sorted_wrt (<) (map lo_val (long_options (matahari_options (register_all options s))))"
    by (rule long_options_sorted [OF register_all_table])
  show "sorted_wrt (<) (filter (\<lambda>c. c \<in> fst ` set options) [1..122])" by (intro sorted_wrt_filter sorted_wrt_upto)
  have "c \<in> lo_val ` set (long_options (matahari_options (register_all options s))) \<longleftrightarrow>
      0 < c \<and> c < 123 \<and> last_registered options c \<noteq> None" for c
  proof
    assume "0 < c \<and> c < 123 \<and> last_registered options c \<noteq> None"
    then obtain h nm where "last_registered options c = Some (h, nm)" "0 < c" "c < 123" by auto
    then have "\<lparr>lo_name = Some nm, lo_has_arg = h, lo_val = c\<rparr> \<in> set (long_options (matahari_options (register_all options s)))"
      by (simp add: registered_long_options)
    then show "c \<in> lo_val ` set (long_options (matahari_options (register_all options s)))" by (metis image_eqI long_option.select_convs(3))
  qed (auto simp: registered_long_options)
  moreover have "last_registered options c \<noteq> None \<longleftrightarrow> c \<in> fst ` set options" for c
    by (auto simp: last_registered_def map_of_eq_None_iff image_iff) force+
  ultimately have "c \<in> lo_val ` set (long_options (matahari_options (register_all options s))) \<longleftrightarrow>
      1 \<le> c \<and> c \<le> 122 \<and> c \<in> fst ` set options" for c by (simp only:) linarith
  then show "set (map lo_val (long_options (matahari_options (register_all options s)))) = set (filter (\<lambda>c. c \<in> fst ` set options) [1..122])"
    by (intro set_eqI) (simp only: set_map set_filter set_upto mem_Collect_eq atLeastAtMost_iff conj_assoc)
qed

text \<open>C33: The option string of any program fits its buffer: whatever options have been registered before,
  parsing never writes outside \<^verbatim>\<open>opt_string\<close>, and \<^verbatim>\<open>getopt_long\<close> is given exactly the registered letters, each once
  and in ascending order, followed by a colon exactly when its last registration takes an argument, and the
  long options are these letters with the names of their last registrations. (A registration of a number
  that is not between 1 and 122 is refused.)\<close>

theorem option_string_fits:
  assumes "length uninit = 246"
  shows "\<exists>long_opts buf n. build_opts (matahari_options (register_all options s)) [] (uninit[0 := NUL]) 0 =
      Some (long_opts, buf, n) \<and> n \<le> 244 \<and> length buf = 246 \<and>
    map lo_val long_opts = filter (\<lambda>c. c \<in> fst ` set options) [1..122] \<and>
    (\<forall>l \<in> set long_opts. last_registered options (lo_val l) = Some (lo_has_arg l, the (lo_name l)) \<and> lo_name l \<noteq> None) \<and>
    cstr_of buf = concat (map (\<lambda>l. char_of (nat (lo_val l)) # (if lo_has_arg l = 1 then '':'' else [])) long_opts)"
proof -
  let ?t = "matahari_options (register_all options s)"
  have ok: "table_ok ?t" by (rule register_all_table)
  obtain x r where u: "uninit = x # r" "length r = 245"
    using assms by (cases uninit) auto
  have "length (option_string ?t) \<le> length r"
    using table_ok_string(1) [OF ok] u by simp
  from build_opts_eq [OF this, of "[]" "[]"] obtain r' where
    b: "build_opts ?t [] (NUL # r) 0 = Some (long_options ?t, option_string ?t @ NUL # r', length (option_string ?t))"
      "length r' + length (option_string ?t) = 245"
    using u by auto
  have str: "option_string t = concat (map (\<lambda>l. char_of (nat (lo_val l)) # (if lo_has_arg l = 1 then '':'' else [])) (long_options t))" for t
    by (induction t) (auto simp: option_string_def option_text_def long_options_def required_argument_def)
  have vals: "map lo_val (long_options ?t) = filter (\<lambda>c. c \<in> fst ` set options) [1..122]"
    by (rule registered_letters)
  have "\<forall>l \<in> set (long_options ?t). last_registered options (lo_val l) = Some (lo_has_arg l, the (lo_name l)) \<and> lo_name l \<noteq> None"
    by (auto simp: registered_long_options)
  then show ?thesis
    using b u table_ok_string [OF ok] str [of ?t] vals by simp
qed

theorem option_string_fits_witness:
  "\<exists>long_opts buf n. build_opts (matahari_options (register_all [(98, 1, ''broker'', None, Mh_options, None)] demo_opts))
      [] ((replicate 246 NUL)[0 := NUL]) 0 = Some (long_opts, buf, n) \<and> n \<le> 244 \<and> map lo_val long_opts = [98]"
proof -
  have "filter (\<lambda>c. c \<in> fst ` set [(98 :: int, 1 :: int, ''broker'', None :: cptr, Mh_options, None :: opt_callback option)]) [1..122] = [98]"
    by code_simp
  then show ?thesis
    using option_string_fits [of "replicate 246 NUL" "[(98, 1, ''broker'', None, Mh_options, None)]" demo_opts] by auto
qed

text \<open>C31: A started agent: whenever \<open>init\<close> returns, the agent's \<open>setup\<close> was run on an open session over an open
  connection. If \<open>setup\<close> reports a negative result, \<open>init\<close> returns -1 and nothing is attached to the main
  loop; otherwise, so also for a positive result, it returns 0, the agent object is published after the
  objects of \<open>setup\<close>, and an attached source will deliver the events of the session. Logging goes to
  standard error exactly if that is a terminal, whatever \<^verbatim>\<open>--verbose\<close> asked for.\<close>

theorem MatahariAgent_init_outcome:
  fixes s :: "'o opt_state_scheme"
  assumes "MatahariAgent_init os ne uninit client new_id setup events argv proc_name s us g ml = Some (Running st)"
  shows "\<exists>session us1 rc session1 us2. ss_open session \<and> ss_connection session \<noteq> None \<and> ss_product session = proc_name \<and>
    setup session us1 = (rc, session1, us2) \<and> st_rc st = (if rc < 0 then - 1 else 0) \<and>
    (rc < 0 \<longrightarrow> st_source st = None \<and> st_loop st = ml \<and> st_session st = session1) \<and>
    (0 \<le> rc \<longrightarrow> (\<exists>src m. st_source st = Some src \<and> q_queue src = events \<and> attached src (st_loop st) \<and>
       ss_data (st_session st) = ss_data session1 @ [(''Agent'', m)])) \<and>
    mh_stderr_enabled (st_log st) = tty_after os"
proof -
  obtain s3 :: "'o opt_state_scheme" and cr us1 g1 where conn: "mh_connect ne (os_options s3) (os_amqp s3) True us g = Some (Running (cr, us1, g1))"
    and rest: "st = start_agent ne new_id setup events proc_name (cr_connection cr)
      (fst (mh_log_init (getenv os) (mh_log_level (os_log s3)) (tty_after os) (os_log s3))) us1 ml"
    using assms unfolding MatahariAgent_init_def Let_def bind_eq_Some_conv
    by (auto simp: bind_eq_Some_conv case_proc_Running proc_bind_Running)
  note log = mh_log_init_stderr
  obtain session us2 where os: "open_session (ne_files ne) (ne_world ne) (ne_netinfo ne) proc_name (cr_connection cr) us1 = (session, us2)"
    by fastforce
  obtain rc session1 us3 where su: "setup session us2 = (rc, session1, us3)"
    by (cases "setup session us2") auto
  have ss: "ss_open session" "ss_connection session \<noteq> None" "ss_product session = proc_name"
    using open_session_fields [OF os] mh_connect_retry [OF conn] by simp_all
  have "ss_open session \<and> ss_connection session \<noteq> None \<and> ss_product session = proc_name \<and>
    setup session us2 = (rc, session1, us3) \<and> st_rc st = (if rc < 0 then - 1 else 0) \<and>
    (rc < 0 \<longrightarrow> st_source st = None \<and> st_loop st = ml \<and> st_session st = session1) \<and>
    (0 \<le> rc \<longrightarrow> (\<exists>src m. st_source st = Some src \<and> q_queue src = events \<and> attached src (st_loop st) \<and>
       ss_data (st_session st) = ss_data session1 @ [(''Agent'', m)])) \<and>
    mh_stderr_enabled (st_log st) = tty_after os"
  proof (cases "rc < 0")
    case True
    with rest os su ss log show ?thesis by (simp add: start_agent_def)
  next
    case False
    obtain session2 us4 where ra: "registerAgent (ne_files ne) (ne_world ne) (ne_netinfo ne) session1 us3 = (session2, us4)"
      by fastforce
    with rest os su ss log False registerAgent_data [OF ra] show ?thesis
      by (auto simp: start_agent_def mainloop_add_qmf_def attach_pair attached_def)
  qed
  then show ?thesis by blast
qed

theorem MatahariAgent_init_outcome_witness:
  "\<exists>st src. MatahariAgent_init demo_os (demo_net\<lparr>ne_open := \<lambda>_ _. True\<rparr>) (replicate 246 NUL) (\<lambda>_ _ _ _ _ _. None)
      (\<lambda>_. 7) (\<lambda>session us. (1, session, us)) [] [] ''demo'' demo_opts util_init () mainloop_init = Some (Running st) \<and>
    st_rc st = 0 \<and> st_source st = Some src \<and> \<not> mh_stderr_enabled (st_log st)"
proof -
  let ?ne = "demo_net\<lparr>ne_open := \<lambda>_ _. True\<rparr>"
  let ?init = "MatahariAgent_init demo_os ?ne (replicate 246 NUL) (\<lambda>_ _ _ _ _ _. None) (\<lambda>_. 7)
    (\<lambda>session us. (1, session, us)) [] [] ''demo'' demo_opts util_init () mainloop_init"
  let ?parse = "mh_parse_options demo_os (ne_conv ?ne) (replicate 246 NUL) (\<lambda>_ _ _ _ _ _. None) []
    (snd (mh_add_option 100 no_argument ''daemon'' (Some ''run as a daemon'') No_target (Some Should_daemonize)
      (demo_opts\<lparr>os_log := fst (mh_log_init (getenv demo_os) (mh_log_level (os_log demo_opts)) (tty_before demo_os)
        (os_log demo_opts)), os_options := []\<rparr>)))"
  have "case ?parse of Some (Running s) \<Rightarrow> qmap_get ''sasl-mechanism'' (os_amqp s) = VAR_VOID \<and>
      qmap_count ''servername'' (os_options s) \<and> \<not> qmap_count ''dns-srv'' (os_options s) | _ \<Rightarrow> False"
    by code_simp
  then obtain s where s: "?parse = Some (Running s)" "qmap_get ''sasl-mechanism'' (os_amqp s) = VAR_VOID"
    "qmap_count ''servername'' (os_options s)" "\<not> qmap_count ''dns-srv'' (os_options s)"
    by (auto split: option.splits proc.splits)
  have "\<exists>cr us g. mh_connect ?ne (os_options s) (os_amqp s) True util_init () = Some (Running (cr, us, g))"
    using s(2-4) qpid_ref_ok
    by (simp add: mh_connect_def k5start_def demo_net_def conv_okD connect_loop.simps [where retries = 0] split: prod.split)
  then have "\<exists>st. ?init = Some (Running st)"
    unfolding MatahariAgent_init_def Let_def s(1) by auto
  then obtain st where "?init = Some (Running st)" by blast
  with MatahariAgent_init_outcome [OF this] show ?thesis by (auto simp: demo_os_def)
qed

end
