(* ===== verification/Network_Qmf.thy ===== *)
theory Network_Qmf
  imports Mh_Agent Network
begin

text \<open>
  \<^verbatim>\<open>src/src/network/network-qmf.cpp\<close>: the network agent on the message bus. The library calls are those of
  the theory Network, and the properties compare the agent with its D-Bus twin.
\<close>

section \<open>The agent\<close>

definition qmf_interface_status :: "'w net_ops \<Rightarrow> 'w \<Rightarrow> cptr \<Rightarrow> int" where
  "qmf_interface_status ops w iface =
     (case iface of
        None \<Rightarrow> 3
      | Some i \<Rightarrow> if snd (mh_network_status ops w i 0) AND MH_NETWORK_IF_UP \<noteq> 0 then 0 else 1)"

definition var_int :: "int \<Rightarrow> qvariant" where
  "var_int i = VAR_INT32 (word_of_int i)"

definition NetAgent_setup ::
  "'w file_ops \<Rightarrow> 'w \<Rightarrow> sigar_net_info \<Rightarrow> agent_session \<Rightarrow> util_state \<Rightarrow> int \<times> agent_session \<times> util_state" where
  "NetAgent_setup fo w netinfo session us =
     (case mh_hostname fo w netinfo us of (host, us1) \<Rightarrow>
        (case mh_uuid fo w us1 of (uuid, us2) \<Rightarrow>
           (0, session\<lparr>ss_schemas := ss_schemas session @ [''org.matahariproject''],
                       ss_data := ss_data session @ [(''Network'',
                         qmap_put ''uuid'' (VAR_STRING uuid) (qmap_put ''hostname'' (VAR_STRING host) []))]\<rparr>, us2)))"

text \<open>\<open>uninit\<close> is the initial content of the local buffers.\<close>

definition NetAgent_invoke :: "qpid_conv \<Rightarrow> 'w net_ops \<Rightarrow> char list \<Rightarrow> 'w qmf_handler" where
  "NetAgent_invoke cv ops uninit ev w =
     (if ev_type ev \<noteq> AGENT_METHOD then Some (([], True), w)
      else if ev_method ev = ''list''
      then method_success ev [(''iface_map'', VAR_LIST (map (VAR_STRING \<circ> mh_network_interface_get_name)
             (mh_network_get_interfaces ops w)))] w
      else if ev_method ev = ''start''
      then Option.bind (arg_cstr cv ''iface'' ev) (\<lambda>iface.
             let rc = qmf_interface_status ops w (Some iface)
             in if rc = 1
                then let w' = mh_network_start ops iface w
                     in method_success ev [(''status'', var_int (qmf_interface_status ops w' (Some iface)))] w'
                else method_success ev [(''status'', var_int rc)] w)
      else if ev_method ev = ''stop''
      then Option.bind (arg_cstr cv ''iface'' ev) (\<lambda>iface.
             let rc = qmf_interface_status ops w (Some iface)
             in if rc = 0
                then let w' = mh_network_stop ops iface w
                     in method_success ev [(''status'', var_int (qmf_interface_status ops w' (Some iface)))] w'
                else method_success ev [(''status'', var_int rc)] w)
      else if ev_method ev = ''status''
      then Option.bind (arg_cstr cv ''iface'' ev) (\<lambda>iface.
             method_success ev [(''status'', var_int (qmf_interface_status ops w (Some iface)))] w)
      else if ev_method ev = ''get_ip_address''
      then Option.bind (arg_cstr cv ''iface'' ev) (\<lambda>iface.
           Option.bind (mh_network_get_ip_address ops w iface (take 64 uninit) 64) (\<lambda>buf.
             method_success ev [(''ip'', VAR_STRING (cstr_of buf))] w))
      else if ev_method ev = ''get_mac_address''
      then Option.bind (arg_cstr cv ''iface'' ev) (\<lambda>iface.
           Option.bind (mh_network_get_mac_address ops w iface (take 32 uninit) 32) (\<lambda>buf.
             method_success ev [(''mac'', VAR_STRING (cstr_of buf))] w))
      else raise_result ev MH_RES_NOT_IMPLEMENTED w)"

section \<open>Lemmas\<close>

lemma NetAgent_answered:
  assumes "ev_type ev = AGENT_METHOD"
  shows "answered_once ev (NetAgent_invoke cv ops uninit ev w)"
  unfolding NetAgent_invoke_def Let_def using assms by (auto simp del: not_None_eq)

interpretation netagent: qmf_method_agent "NetAgent_invoke cv ops uninit"
proof (rule qmf_method_agent.intro)
  show "qmf_sync_agent (NetAgent_invoke cv ops uninit)"
    by (rule qmf_sync_agentI) (simp_all add: NetAgent_answered, simp add: NetAgent_invoke_def)
  show "qmf_method_agent_axioms (NetAgent_invoke cv ops uninit)"
    by unfold_locales (simp add: NetAgent_invoke_def)
qed

lemma qmf_interface_status_eq [simp]: "qmf_interface_status ops w (Some i) = interface_status ops w i"
  by (simp add: qmf_interface_status_def interface_status_def RUNNING_def INACTIVE_def)

lemma interface_status_cases: "interface_status ops w i = 0 \<or> interface_status ops w i = 1"
  by (simp add: interface_status_def RUNNING_def INACTIVE_def)

text \<open>The D-Bus request and the name of the return argument for a method, and a D-Bus reply as a variant.\<close>

definition network_twin :: "string \<Rightarrow> string \<Rightarrow> (network_request \<times> string) option" where
  "network_twin method iface =
     (if method = ''list'' then Some (Net_list, ''iface_map'')
      else if method = ''start'' then Some (Net_start iface, ''status'')
      else if method = ''stop'' then Some (Net_stop iface, ''status'')
      else if method = ''status'' then Some (Net_status iface, ''status'')
      else if method = ''get_ip_address'' then Some (Net_get_ip_address iface, ''ip'')
      else if method = ''get_mac_address'' then Some (Net_get_mac_address iface, ''mac'')
      else None)"

fun variant_of :: "gvalue \<Rightarrow> qvariant" where
  "variant_of (GString None) = VAR_VOID"
| "variant_of (GString (Some t)) = VAR_STRING t"
| "variant_of (GBool b) = VAR_BOOL b"
| "variant_of (GInt i) = var_int i"
| "variant_of (GUint u) = VAR_UINT32 u"
| "variant_of (GUint64 u) = VAR_UINT64 u"
| "variant_of (GDouble d) = VAR_DOUBLE d"
| "variant_of (GStrv l) = VAR_LIST (map VAR_STRING l)"
| "variant_of (GMap m) = VAR_MAP (map (\<lambda>(k, v). (k, variant_of v)) m)"

fun reply_variant :: "reply \<Rightarrow> qvariant" where
  "reply_variant (Returned (v # _)) = variant_of v"
| "reply_variant _ = VAR_VOID"

section \<open>Properties\<close>

lemma start_up_unchanged:
  assumes "ev_type ev = AGENT_METHOD" "ev_method ev = ''start''" "arg_cstr cv ''iface'' ev = Some iface" "interface_status ops w iface = RUNNING"
  shows "NetAgent_invoke cv ops uninit ev w = Some (([MethodSuccess (ev_id ev) [(''status'', var_int RUNNING)]], True), w)"
  using assms by (simp add: NetAgent_invoke_def method_success_def RUNNING_def)

lemma stop_down_unchanged:
  assumes "ev_type ev = AGENT_METHOD" "ev_method ev = ''stop''" "arg_cstr cv ''iface'' ev = Some iface" "interface_status ops w iface = INACTIVE"
  shows "NetAgent_invoke cv ops uninit ev w = Some (([MethodSuccess (ev_id ev) [(''status'', var_int INACTIVE)]], True), w)"
  using assms by (simp add: NetAgent_invoke_def method_success_def INACTIVE_def)

text \<open>C26: The network agent behaves the same on both buses: for each of its methods, a call over QMF with a given
  interface has the effect and the result of the authorized D-Bus call, on every branch. On both,
  starting an interface that is up and stopping one that is down runs nothing, changes nothing and answers with the
  status that it has.\<close>

theorem network_agents_agree:
  assumes "ev_type ev = AGENT_METHOD" "arg_cstr cv ''iface'' ev = Some iface"
    and "network_twin (ev_method ev) iface = Some (req, key)" "authorized pk (network_action req) ctx"
  shows "NetAgent_invoke cv ops uninit ev w =
    map_option (\<lambda>((r, b), w'). (([MethodSuccess (ev_id ev) [(key, reply_variant r)]], b), w'))
      (network_handle ops uninit pk ctx req w) \<and>
    (req = Net_start iface \<and> interface_status ops w iface = RUNNING \<or> req = Net_stop iface \<and> interface_status ops w iface = INACTIVE \<longrightarrow>
      NetAgent_invoke cv ops uninit ev w =
        Some (([MethodSuccess (ev_id ev) [(key, var_int (interface_status ops w iface))]], True), w) \<and>
      network_handle ops uninit pk ctx req w = Some ((Returned [GInt (interface_status ops w iface)], True), w))"
  (is "?agree \<and> (?idle \<longrightarrow> ?unchanged)")
proof (rule conjI)
  show "?idle \<longrightarrow> ?unchanged"
    using assms start_up_unchanged [OF assms(1) _ assms(2), of ops w uninit] stop_down_unchanged [OF assms(1) _ assms(2), of ops w uninit]
    by (auto simp: network_twin_def Network_start_def Network_stop_def guarded_allowed split: if_splits)
  show ?agree
  proof -
    note defs = NetAgent_invoke_def method_success_def Let_def comp_def option.map_comp
    consider "ev_method ev = ''list''" | "ev_method ev = ''start''" | "ev_method ev = ''stop''"
      | "ev_method ev = ''status''" | "ev_method ev = ''get_ip_address''" | "ev_method ev = ''get_mac_address''"
      using assms(3) by (auto simp: network_twin_def split: if_splits)
    then show ?agree
    proof cases
      case 1
      with assms show ?agree by (auto simp: network_twin_def defs Network_list_def guarded_allowed)
    next
      case 2
      with assms interface_status_cases [of ops w iface] show ?agree
        by (auto simp: network_twin_def defs Network_start_def guarded_allowed RUNNING_def)
    next
      case 3
      with assms interface_status_cases [of ops w iface] show ?agree
        by (auto simp: network_twin_def defs Network_stop_def guarded_allowed INACTIVE_def)
    next
      case 4
      with assms show ?agree by (auto simp: network_twin_def defs Network_status_def guarded_allowed)
    next
      case 5
      with assms show ?agree
        by (cases "mh_network_get_ip_address ops w iface (take 64 uninit) 64")
          (auto simp: network_twin_def defs Network_get_ip_address_def guarded_allowed)
    next
      case 6
      with assms show ?agree
        by (cases "mh_network_get_mac_address ops w iface (take 32 uninit) 32")
          (auto simp: network_twin_def defs Network_get_mac_address_def guarded_allowed)
    qed
  qed
qed

definition net_call :: "string \<Rightarrow> string \<Rightarrow> nat \<Rightarrow> agent_event" where
  "net_call method iface i = \<lparr>ev_id = i, ev_type = AGENT_METHOD, ev_addr = None, ev_method = method,
     ev_args = [(''iface'', VAR_STRING iface)]\<rparr>"

theorem network_agents_agree_witness:
  "NetAgent_invoke qpid_ref one_interface [] (net_call ''start'' ''eth0'' 5) True =
     Some (([MethodSuccess 5 [(''status'', var_int 0)]], True), True)"
proof -
  have "arg_cstr qpid_ref ''iface'' (net_call ''start'' ''eth0'' 5) = Some ''eth0''"
    by (simp add: arg_cstr_def net_call_def qmap_get_def qpid_ref_def NUL_def)
  moreover have "interface_status one_interface True ''eth0'' = RUNNING" by code_simp
  ultimately show ?thesis
    using network_agents_agree [of "net_call ''start'' ''eth0'' 5" qpid_ref "''eth0''" "Net_start ''eth0''" "''status''"
      "allow_only [NETWORK_BUS_NAME @ ''.start'']" "Some '':1.5''" one_interface "[]" True]
    by (simp add: net_call_def network_twin_def RUNNING_def)
qed

text \<open>The events waiting on the session of the network agent are served in order: after as many turns of
  the main loop as there were events, every method call has been answered exactly once, in the order of
  arrival, nothing else has been answered, and the source is still attached.\<close>

theorem network_calls_answered:
  assumes "attached src s"
    and "qmf_turns (NetAgent_invoke cv ops uninit) (length (q_queue src)) src s w = Some (outs, src', s', w')"
  shows "List.map_filter answers outs = map ev_id (filter (\<lambda>e. ev_type e = AGENT_METHOD) (q_queue src)) \<and>
    q_queue src' = [] \<and> attached src' s'"
  using assms by (rule netagent.turns_answered)

theorem network_calls_answered_witness:
  "\<exists>outs src' s' w'. qmf_turns (NetAgent_invoke qpid_ref one_interface []) 2
      \<lparr>q_id = 1, q_event = None, q_queue = [net_call ''start'' ''eth0'' 5, net_call ''bogus'' [] 6], q_refs = 2,
       q_dispatch = True, q_dnotify = True, q_closed = 0\<rparr>
      (mainloop_init\<lparr>ml_sources := [1 \<mapsto> QmfSource 0]\<rparr>) False = Some (outs, src', s', w') \<and>
    List.map_filter answers outs = [5, 6]"
proof -
  let ?src = "\<lparr>q_id = 1, q_event = None, q_queue = [net_call ''start'' ''eth0'' 5, net_call ''bogus'' [] 6], q_refs = 2,
    q_dispatch = True, q_dnotify = True, q_closed = 0\<rparr>"
  let ?s = "mainloop_init\<lparr>ml_sources := [1 \<mapsto> QmfSource 0]\<rparr>"
  have a: "attached ?src ?s" by (simp add: attached_def)
  have "\<exists>out w'. NetAgent_invoke qpid_ref one_interface [] (net_call ''start'' ''eth0'' 5) False = Some ((out, True), w')"
    by (auto simp: NetAgent_invoke_def net_call_def arg_cstr_def qmap_get_def qpid_ref_def method_success_def Let_def)
  moreover have "\<exists>out. NetAgent_invoke qpid_ref one_interface [] (net_call ''bogus'' [] 6) w = Some ((out, True), w)" for w
    by (simp add: NetAgent_invoke_def net_call_def raise_result_def)
  ultimately obtain out w1 out2 where
    "NetAgent_invoke qpid_ref one_interface [] (net_call ''start'' ''eth0'' 5) False = Some ((out, True), w1)"
    "NetAgent_invoke qpid_ref one_interface [] (net_call ''bogus'' [] 6) w1 = Some ((out2, True), w1)"
    by blast
  then have "\<exists>outs w'. serve_events (NetAgent_invoke qpid_ref one_interface []) (q_queue ?src) False = Some (outs, w')"
    by simp
  then obtain outs w' where t: "qmf_turns (NetAgent_invoke qpid_ref one_interface []) (length (q_queue ?src)) ?src ?s False =
      Some (outs, ?src\<lparr>q_queue := []\<rparr>, ?s, w')"
    using netagent.turns_serve [OF a, of qpid_ref one_interface "[]" False] by auto
  have "List.map_filter answers outs = [5, 6]"
    using network_calls_answered [OF a t] by (simp add: net_call_def)
  moreover have "length (q_queue ?src) = 2" by simp
  ultimately show ?thesis using t by metis
qed

end
