(* ===== verification/Host_Qmf.thy ===== *)
theory Host_Qmf
  imports Mh_Agent Host_Agent
begin

text \<open>
  \<^verbatim>\<open>src/src/host/host-qmf.cpp\<close>: the host agent on the message bus and its heartbeat. The operating system
  layer and sigar are arguments, as in the library; the state is the library's, the properties of the
  published object and the static counter of the heartbeat.
\<close>

section \<open>The agent\<close>

record 'o host_qmf =
  hq_host :: "'o host"
  hq_instance :: qmap
  hq_sequence :: u32

definition hq_call :: "('o host \<Rightarrow> 'a \<times> 'o host) \<Rightarrow> 'o host_qmf \<Rightarrow> 'a \<times> 'o host_qmf" where
  "hq_call f s = (case f (hq_host s) of (r, h) \<Rightarrow> (r, s\<lparr>hq_host := h\<rparr>))"

definition set_property :: "string \<Rightarrow> qvariant \<Rightarrow> 'o host_qmf \<Rightarrow> 'o host_qmf" where
  "set_property k v s = s\<lparr>hq_instance := qmap_put k v (hq_instance s)\<rparr>"

text \<open>Setting a property to what a call of the library returns.\<close>

definition set_from :: "string \<Rightarrow> ('a \<Rightarrow> qvariant) \<Rightarrow> ('o host \<Rightarrow> 'a \<times> 'o host) \<Rightarrow> 'o host_qmf \<Rightarrow> 'o host_qmf" where
  "set_from k g f s = (case hq_call f s of (v, s1) \<Rightarrow> set_property k (g v) s1)"

definition opt_arg :: "qpid_conv \<Rightarrow> string \<Rightarrow> agent_event \<Rightarrow> cptr option" where
  "opt_arg cv k ev = (if qmap_count k (ev_args ev) then map_option Some (arg_cstr cv k ev) else Some None)"

definition HostAgent_invoke :: "qpid_conv \<Rightarrow> 'o host_os \<Rightarrow> 'o host_qmf qmf_handler" where
  "HostAgent_invoke cv os ev s =
     (if ev_type ev \<noteq> AGENT_METHOD then Some (([], True), s)
      else if ev_method ev = ''shutdown''
      then method_success ev [] (s\<lparr>hq_host := mh_host_shutdown os (hq_host s)\<rparr>)
      else if ev_method ev = ''reboot''
      then method_success ev [] (s\<lparr>hq_host := mh_host_reboot os (hq_host s)\<rparr>)
      else if ev_method ev = ''identify''
      then method_success ev [] (snd (hq_call (mh_host_identify os) s))
      else if ev_method ev = ''set_uuid''
      then if qmap_count ''uuid'' (ev_args ev)
           then Option.bind (opt_arg cv ''lifetime'' ev) (\<lambda>lifetime.
                Option.bind (arg_cstr cv ''uuid'' ev) (\<lambda>uuid.
                  case hq_call (mh_host_set_uuid os lifetime (Some uuid)) s of (rc, s1) \<Rightarrow>
                    method_success ev [(''rc'', VAR_INT32 (word_of_int rc))]
                      (set_from ''uuid'' VAR_STRING (mh_host_get_uuid os (Some ''Filesystem''))
                        (set_from ''custom_uuid'' VAR_STRING (mh_host_get_uuid os (Some ''Custom'')) s1))))
           else raise_result ev MH_RES_INVALID_ARGS s
      else if ev_method ev = ''get_uuid''
      then Option.bind (opt_arg cv ''lifetime'' ev) (\<lambda>lifetime.
             case hq_call (mh_host_get_uuid os lifetime) s of (uuid, s1) \<Rightarrow>
               method_success ev [(''uuid'', VAR_STRING uuid)] s1)
      else if ev_method ev = ''set_power_profile''
      then Option.bind (arg_cstr cv ''profile'' ev) (\<lambda>profile.
             case hq_call (mh_host_set_power_profile os (Some profile)) s of (res, s1) \<Rightarrow>
               if res \<noteq> MH_RES_SUCCESS then raise_result ev res s1
               else method_success ev [(''status'', VAR_INT32 0)] s1)
      else if ev_method ev = ''get_power_profile''
      then (case hq_call (mh_host_get_power_profile os None) s of ((res, profile), s1) \<Rightarrow>
              if res \<noteq> MH_RES_SUCCESS then raise_result ev res s1
              else Option.bind profile (\<lambda>p. method_success ev [(''profile'', VAR_STRING p)] s1))
      else if ev_method ev = ''list_power_profiles''
      then (case hq_call (mh_host_list_power_profiles os) s of (profiles, s1) \<Rightarrow>
              method_success ev [(''profiles'', VAR_LIST (map VAR_STRING profiles))] s1)
      else raise_result ev MH_RES_NOT_IMPLEMENTED s)"

text \<open>\<open>setup\<close>; \<open>None\<close> is the crash when sigar reports no processor, since the model of the processor is then
  NULL.\<close>

definition DEFAULT_UPDATE_INTERVAL :: u32 where "DEFAULT_UPDATE_INTERVAL = 5"

definition HostAgent_setup ::
  "'o host_os \<Rightarrow> sigar \<Rightarrow> agent_session \<Rightarrow> 'o host_qmf \<Rightarrow> (int \<times> agent_session \<times> 'o host_qmf) option" where
  "HostAgent_setup os sg session s =
     (case hq_call (mh_host_get_uuid os (Some ''Custom'')) s of (custom, s0) \<Rightarrow>
        (let s1 = set_property ''update_interval'' (VAR_UINT32 DEFAULT_UPDATE_INTERVAL) (s0\<lparr>hq_instance := []\<rparr>);
             s2 = set_from ''uuid'' VAR_STRING (mh_host_get_uuid os (Some ''Filesystem'')) s1;
             s3 = set_property ''custom_uuid'' (VAR_STRING custom) s2;
             s4 = set_from ''hostname'' VAR_STRING (mh_host_get_hostname os) s3;
             s5 = set_from ''os'' VAR_STRING (mh_host_get_operating_system sg) s4;
             s6 = set_property ''wordsize'' (VAR_INT32 (word_of_int mh_host_get_cpu_wordsize)) s5;
             s7 = set_from ''arch'' VAR_STRING (mh_host_get_architecture sg) s6;
             s8 = set_from ''memory'' VAR_UINT64 (mh_host_get_memory sg) s7;
             s9 = set_from ''swap'' VAR_UINT64 (mh_host_get_swap sg) s8;
             s10 = set_from ''cpu_count'' (\<lambda>n. VAR_INT32 (word_of_int n)) (mh_host_get_cpu_count sg) s9;
             s11 = set_from ''cpu_cores'' (\<lambda>n. VAR_INT32 (word_of_int n)) (mh_host_get_cpu_number_of_cores sg) s10
         in case hq_call (mh_host_get_cpu_model sg) s11 of
              (None, _) \<Rightarrow> None
            | (Some model, s12) \<Rightarrow>
                (let s13 = set_from ''cpu_flags'' VAR_STRING (mh_host_get_cpu_flags os)
                             (set_property ''cpu_model'' (VAR_STRING model) s12)
                 in Some (0, session\<lparr>ss_schemas := ss_schemas session @ [''org.matahariproject''],
                                     ss_data := ss_data session @ [(''Host'', hq_instance s13)]\<rparr>, s13))))"

section \<open>The heartbeat\<close>

definition load_map :: "u64 \<times> u64 \<times> u64 \<Rightarrow> qvariant" where
  "load_map avg =
     (case avg of (a, b, c) \<Rightarrow>
        VAR_MAP (qmap_put ''15'' (VAR_DOUBLE c) (qmap_put ''5'' (VAR_DOUBLE b) (qmap_put ''1'' (VAR_DOUBLE a) []))))"

definition proc_map :: "sigar_procs \<Rightarrow> qvariant" where
  "proc_map p =
     VAR_MAP (qmap_put ''sleeping'' (VAR_INT32 (ucast (pr_sleeping p)))
       (qmap_put ''stopped'' (VAR_INT32 (ucast (pr_stopped p)))
       (qmap_put ''running'' (VAR_INT32 (ucast (pr_running p)))
       (qmap_put ''zombie'' (VAR_INT32 (ucast (pr_zombie p)))
       (qmap_put ''idle'' (VAR_INT32 (ucast (pr_idle p)))
       (qmap_put ''total'' (VAR_INT32 (ucast (pr_total p))) []))))))"

text \<open>\<open>now\<close> is what \<^verbatim>\<open>time\<close> returns, 0 if it is not available. The result is the delay in milliseconds until
  the next heartbeat and the events raised; \<open>None\<close> is an interval that cannot be read as a number.\<close>

definition heartbeat ::
  "qpid_conv \<Rightarrow> 'o host_os \<Rightarrow> sigar \<Rightarrow> u64 \<Rightarrow> 'o host_qmf \<Rightarrow> ((u32 \<times> qmf_output list) \<times> 'o host_qmf) option" where
  "heartbeat cv os sg now s =
     Option.bind (as_int32 cv (qmap_get ''update_interval'' (hq_instance s))) (\<lambda>interval.
       let s1 = s\<lparr>hq_sequence := hq_sequence s + 1\<rparr>
       in if interval = 0 then Some ((5 * 60 * 1000, []), s1)
          else let s2 = set_property ''last_updated'' (VAR_UINT64 (now * 1000000000)) s1;
                   s3 = set_property ''sequence'' (VAR_UINT32 (hq_sequence s1)) s2;
                   s4 = set_from ''free_swap'' VAR_UINT64 (mh_host_get_swap_free sg) s3;
                   s5 = set_from ''free_mem'' VAR_UINT64 (mh_host_get_mem_free sg) s4;
                   s6 = set_from ''load'' load_map (mh_host_get_load_averages sg) s5;
                   s7 = set_from ''process_statistics'' proc_map (mh_host_get_processes sg) s6;
                   (host, s8) = hq_call (mh_host_get_hostname os) s7;
                   (uuid, s9) = hq_call (mh_host_get_uuid os (Some ''Filesystem'')) s8
               in Some ((interval * 1000,
                         [RaiseEvent ''heartbeat''
                           (qmap_put ''uuid'' (VAR_STRING uuid) (qmap_put ''hostname'' (VAR_STRING host)
                             (qmap_put ''sequence'' (VAR_UINT32 (hq_sequence s1))
                               (qmap_put ''timestamp'' (VAR_UINT64 now) []))))]), s9))"

text \<open>\<open>heartbeat_timer\<close>: the new timer is attached, and the one that fired is removed, since the function
  returns \<^verbatim>\<open>FALSE\<close>.\<close>

definition heartbeat_timer ::
  "qpid_conv \<Rightarrow> 'o host_os \<Rightarrow> sigar \<Rightarrow> id_source \<Rightarrow> u64 \<Rightarrow> 's mainloop_scheme \<Rightarrow> 'o host_qmf
   \<Rightarrow> (bool \<times> nat \<times> qmf_output list \<times> 's mainloop_scheme \<times> 'o host_qmf) option" where
  "heartbeat_timer cv os sg new_id now ml s =
     (case heartbeat cv os sg now s of
        None \<Rightarrow> None
      | Some ((ms, out), s1) \<Rightarrow>
          (case attach new_id (HeartbeatTimer ms) ml of (i, ml1) \<Rightarrow> Some (False, i, out, ml1, s1)))"

text \<open>The call of \<open>main\<close> and the timers it leads to, at the given times: each firing removes the timer that
  fired. The result has the events and the identifier of the timer that is left.\<close>

fun heartbeats ::
  "qpid_conv \<Rightarrow> 'o host_os \<Rightarrow> sigar \<Rightarrow> id_source \<Rightarrow> u64 list \<Rightarrow> nat option \<Rightarrow> 's mainloop_scheme \<Rightarrow> 'o host_qmf
   \<Rightarrow> (qmf_output list \<times> nat option \<times> 's mainloop_scheme \<times> 'o host_qmf) option" where
  "heartbeats cv os sg new_id [] timer ml s = Some ([], timer, ml, s)"
| "heartbeats cv os sg new_id (now # later) timer ml s =
     (case heartbeat_timer cv os sg new_id now ml s of
        None \<Rightarrow> None
      | Some (again, i, out, ml1, s1) \<Rightarrow>
          (let ml2 = (case timer of Some t \<Rightarrow> if again then ml1 else g_source_remove t ml1 | None \<Rightarrow> ml1)
           in case heartbeats cv os sg new_id later (Some i) ml2 s1 of
                None \<Rightarrow> None
              | Some (outs, r) \<Rightarrow> Some (out @ outs, r)))"

section \<open>Lemmas\<close>

lemma HostAgent_answered:
  assumes "ev_type ev = AGENT_METHOD"
  shows "answered_once ev (HostAgent_invoke cv os ev s)"
  unfolding HostAgent_invoke_def using assms by (auto split: prod.split)

interpretation hostagent: qmf_method_agent "HostAgent_invoke cv os"
proof (rule qmf_method_agent.intro)
  show "qmf_sync_agent (HostAgent_invoke cv os)"
    by (rule qmf_sync_agentI) (simp_all add: HostAgent_answered, simp add: HostAgent_invoke_def)
  show "qmf_method_agent_axioms (HostAgent_invoke cv os)"
    by unfold_locales (simp add: HostAgent_invoke_def)
qed

lemma hq_call_frame:
  "hq_call f s = (r, s') \<Longrightarrow> hq_instance s' = hq_instance s \<and> hq_sequence s' = hq_sequence s"
  by (auto simp: hq_call_def split: prod.splits)

lemma set_frame [simp]:
  "hq_instance (set_property k v s) = qmap_put k v (hq_instance s)"
  "hq_sequence (set_property k v s) = hq_sequence s"
  "hq_sequence (set_from k g f s) = hq_sequence s"
  "qmap_get k' (hq_instance (set_from k g f s)) =
     (if k' = k then g (fst (hq_call f s)) else qmap_get k' (hq_instance s))"
  by (auto simp: set_property_def set_from_def dest!: hq_call_frame split: prod.splits)

lemma heartbeat_beats:
  assumes cv: "conv_ok cv" and i: "qmap_get ''update_interval'' (hq_instance s) = VAR_UINT32 i" "0 < sint i"
  obtains m s' where "heartbeat cv os sg now s = Some ((i * 1000, [RaiseEvent ''heartbeat'' m]), s')"
    "qmap_get ''sequence'' m = VAR_UINT32 (hq_sequence s + 1)" "qmap_get ''timestamp'' m = VAR_UINT64 now"
    "hq_sequence s' = hq_sequence s + 1" "qmap_get ''update_interval'' (hq_instance s') = VAR_UINT32 i"
proof -
  have as: "as_int32 cv (VAR_UINT32 i) = Some i" and ne: "i \<noteq> 0"
    using i cv by (auto simp: conv_okD)
  let ?s7 = "set_from ''process_statistics'' proc_map (mh_host_get_processes sg)
    (set_from ''load'' load_map (mh_host_get_load_averages sg)
      (set_from ''free_mem'' VAR_UINT64 (mh_host_get_mem_free sg)
        (set_from ''free_swap'' VAR_UINT64 (mh_host_get_swap_free sg)
          (set_property ''sequence'' (VAR_UINT32 (hq_sequence s + 1))
            (set_property ''last_updated'' (VAR_UINT64 (now * 1000000000)) (s\<lparr>hq_sequence := hq_sequence s + 1\<rparr>))))))"
  obtain host s8 where h: "hq_call (mh_host_get_hostname os) ?s7 = (host, s8)" by fastforce
  obtain uuid s9 where u: "hq_call (mh_host_get_uuid os (Some ''Filesystem'')) s8 = (uuid, s9)" by fastforce
  have s9: "hq_sequence s9 = hq_sequence s + 1" "qmap_get ''update_interval'' (hq_instance s9) = VAR_UINT32 i"
    using hq_call_frame [OF h] hq_call_frame [OF u] i(1) by simp_all
  show thesis
    by (rule that [OF _ _ _ s9])
      (use as ne i(1) h u in \<open>simp add: heartbeat_def Let_def del: qmap_put.simps\<close>, simp_all del: qmap_put.simps)
qed

text \<open>The timers: \<open>base\<close> are the other sources of the main loop.\<close>

lemma heartbeats_run:
  assumes cv: "conv_ok cv" and id: "fresh_id new_id" and fin: "finite (dom base)"
    and ml: "ml_sources ml = (case timer of None \<Rightarrow> base | Some t \<Rightarrow> base(t \<mapsto> HeartbeatTimer (i * 1000)))"
      "\<forall>t. timer = Some t \<longrightarrow> base t = None"
    and i: "qmap_get ''update_interval'' (hq_instance s) = VAR_UINT32 i" "0 < sint i"
    and n: "clock \<noteq> []"
  shows "\<exists>outs t ml' s'. heartbeats cv os sg new_id clock timer ml s = Some (outs, Some t, ml', s') \<and>
    length outs = length clock \<and>
    (\<forall>k < length clock. \<exists>m. outs ! k = RaiseEvent ''heartbeat'' m \<and>
       qmap_get ''sequence'' m = VAR_UINT32 (hq_sequence s + of_nat (Suc k)) \<and>
       qmap_get ''timestamp'' m = VAR_UINT64 (clock ! k)) \<and>
    base t = None \<and> ml_sources ml' = base(t \<mapsto> HeartbeatTimer (i * 1000))"
  using n ml i
proof (induction clock arbitrary: timer ml s)
  case (Cons now later)
  obtain m s1 where hb: "heartbeat cv os sg now s = Some ((i * 1000, [RaiseEvent ''heartbeat'' m]), s1)"
    and m: "qmap_get ''sequence'' m = VAR_UINT32 (hq_sequence s + 1)" "qmap_get ''timestamp'' m = VAR_UINT64 now"
    and s1: "hq_sequence s1 = hq_sequence s + 1" "qmap_get ''update_interval'' (hq_instance s1) = VAR_UINT32 i"
    by (rule heartbeat_beats [OF cv Cons.prems(4,5)])
  let ?t = "new_id (ml_sources ml)"
  let ?ml1 = "ml\<lparr>ml_sources := (ml_sources ml)(?t \<mapsto> HeartbeatTimer (i * 1000))\<rparr>"
  let ?ml2 = "case timer of Some t \<Rightarrow> g_source_remove t ?ml1 | None \<Rightarrow> ?ml1"
  have "finite (dom (ml_sources ml))"
    using Cons.prems(2) fin by (cases timer) (simp_all add: dom_if)
  then have t: "ml_sources ml ?t = None" using id by (simp add: fresh_id_def)
  then have bt: "base ?t = None"
    using Cons.prems(2,3) by (auto split: option.splits if_splits)
  have ml2: "ml_sources ?ml2 = base(?t \<mapsto> HeartbeatTimer (i * 1000))"
    using Cons.prems(2,3) t by (auto simp: g_source_remove_def fun_eq_iff split: option.splits)
  have step: "heartbeats cv os sg new_id (now # later) timer ml s =
      (case heartbeats cv os sg new_id later (Some ?t) ?ml2 s1 of None \<Rightarrow> None
       | Some (outs, r) \<Rightarrow> Some ([RaiseEvent ''heartbeat'' m] @ outs, r))"
    by (cases timer) (simp_all add: heartbeat_timer_def hb attach_pair Let_def)
  show ?case
  proof (cases "later = []")
    case True
    with m ml2 bt show ?thesis unfolding step by (simp add: fun_eq_iff)
  next
    case False
    have p1: "ml_sources ?ml2 = (case Some ?t of None \<Rightarrow> base | Some t \<Rightarrow> base(t \<mapsto> HeartbeatTimer (i * 1000)))"
      unfolding option.case by (rule ml2)
    have p2: "\<forall>t. Some ?t = Some t \<longrightarrow> base t = None" by (simp add: bt)
    from Cons.IH [OF False p1 p2 s1(2) Cons.prems(5)]
    obtain outs t' ml' s' where ih: "heartbeats cv os sg new_id later (Some ?t) ?ml2 s1 = Some (outs, Some t', ml', s')"
      "length outs = length later"
      "\<forall>k < length later. \<exists>m. outs ! k = RaiseEvent ''heartbeat'' m \<and>
         qmap_get ''sequence'' m = VAR_UINT32 (hq_sequence s1 + of_nat (Suc k)) \<and>
         qmap_get ''timestamp'' m = VAR_UINT64 (later ! k)"
      "base t' = None" "ml_sources ml' = base(t' \<mapsto> HeartbeatTimer (i * 1000))"
      by blast
    have "\<exists>m'. (RaiseEvent ''heartbeat'' m # outs) ! k = RaiseEvent ''heartbeat'' m' \<and>
        qmap_get ''sequence'' m' = VAR_UINT32 (hq_sequence s + of_nat (Suc k)) \<and>
        qmap_get ''timestamp'' m' = VAR_UINT64 ((now # later) ! k)" if "k < length (now # later)" for k
      using that m ih(3) s1(1) by (cases k) (auto simp: algebra_simps)
    with ih show ?thesis unfolding step by (simp add: fun_eq_iff)
  qed
qed simp

section \<open>Properties\<close>

text \<open>C18: The heartbeat never stops by itself and never doubles: with a positive update interval, every
  firing of the timer raises exactly one heartbeat event, with the time of the firing and consecutive
  sequence numbers (modulo 2 ^ 32), and however often it has fired, exactly one timer is left in the main
  loop, due after the interval, with all other sources untouched.\<close>

theorem heartbeat_forever:
  assumes "conv_ok cv" "fresh_id new_id" "finite (dom (ml_sources ml))"
    and "qmap_get ''update_interval'' (hq_instance s) = VAR_UINT32 i" "0 < sint i" "clock \<noteq> []"
  shows "\<exists>outs t ml' s'. heartbeats cv os sg new_id clock None ml s = Some (outs, Some t, ml', s') \<and>
    length outs = length clock \<and>
    (\<forall>k < length clock. \<exists>m. outs ! k = RaiseEvent ''heartbeat'' m \<and>
       qmap_get ''sequence'' m = VAR_UINT32 (hq_sequence s + of_nat (Suc k)) \<and>
       qmap_get ''timestamp'' m = VAR_UINT64 (clock ! k)) \<and>
    ml_sources ml t = None \<and> ml_sources ml' = (ml_sources ml)(t \<mapsto> HeartbeatTimer (i * 1000))"
  using heartbeats_run [OF assms(1-3) _ _ assms(4-6), where timer = None and ml = ml and os = os and sg = sg] by simp

definition demo_sigar :: sigar where
  "demo_sigar = \<lparr>sg_vendor_name = ''Linux'', sg_version = ''6'', sg_arch = ''x86_64'', sg_mem_total = 4096,
     sg_mem_free = 2048, sg_swap_total = 0, sg_swap_free = 0, sg_cpus = [(''cpu'', 2)], sg_loadavg = (0, 0, 0),
     sg_procs = \<lparr>pr_total = 3, pr_idle = 1, pr_zombie = 0, pr_running = 1, pr_stopped = 0, pr_sleeping = 1\<rparr>\<rparr>"

theorem heartbeat_forever_witness:
  "\<exists>outs t ml' s'. heartbeats qpid_ref (linux_os he_demo) demo_sigar least_id [100, 105, 110] None mainloop_init
      \<lparr>hq_host = host_start lh_demo, hq_instance = [(''update_interval'', VAR_UINT32 5)], hq_sequence = 7\<rparr> =
      Some (outs, Some t, ml', s') \<and> length outs = 3 \<and> ml_sources ml' = [t \<mapsto> HeartbeatTimer 5000]"
proof -
  let ?s = "\<lparr>hq_host = host_start lh_demo, hq_instance = [(''update_interval'', VAR_UINT32 5)], hq_sequence = 7\<rparr>"
  have "ml_sources mainloop_init = Map.empty" by (simp add: mainloop_init_def)
  with heartbeat_forever [OF qpid_ref_ok least_id_fresh, where ml = mainloop_init and s = ?s and i = 5
      and clock = "[100, 105, 110]" and os = "linux_os he_demo" and sg = demo_sigar]
  show ?thesis by (auto simp: qmap_get_def)
qed

end
