(* ===== verification/Sysconfig_Qmf.thy ===== *)
theory Sysconfig_Qmf
  imports Mh_Agent Sysconfig_Agent
begin

text \<open>
  \<^verbatim>\<open>src/src/sysconfig/sysconfig-qmf.cpp\<close>: the configuration agent on the message bus. A run of a configuration
  is answered by \<open>AsyncCB::result_cb\<close>, which the library calls when it is done, at once or later. The
  live objects of the class \<open>AsyncCB\<close> are in \<open>sq_async\<close>, the answers the callback sent in \<open>sq_sent\<close>;
  \<open>sq_fault\<close> says that it was given an object that had been deleted.
\<close>

section \<open>State and callback\<close>

record AsyncCB =
  acb_key :: string
  acb_event :: nat

record 'w sysqmf = "'w sysconf" +
  sq_async :: "nat \<rightharpoonup> AsyncCB"
  sq_next :: nat
  sq_sent :: "qmf_output list"
  sq_fault :: bool

definition var_or_unknown :: "cptr \<Rightarrow> qvariant" where
  "var_or_unknown status = VAR_STRING (case status of Some t \<Rightarrow> t | None \<Rightarrow> ''unknown'')"

definition AsyncCB_result_cb :: "'w sys_env \<Rightarrow> nat \<Rightarrow> int \<Rightarrow> 'w sysqmf \<Rightarrow> 'w sysqmf" where
  "AsyncCB_result_cb env cb_data res s =
     (case sq_async s cb_data of
        None \<Rightarrow> s\<lparr>sq_fault := True\<rparr>
      | Some action_data \<Rightarrow>
          (case mh_sysconfig_is_configured (se_files env) (Some (acb_key action_data)) s of (status, s1) \<Rightarrow>
             s1\<lparr>sq_sent := sq_sent s1 @ [MethodSuccess (acb_event action_data) [(''status'', var_or_unknown status)]],
                sq_async := (sq_async s1)(cb_data := None)\<rparr>))"

definition fn_AsyncCB_result :: nat where "fn_AsyncCB_result = 2"

definition call_AsyncCB :: "'w sys_env \<Rightarrow> nat \<Rightarrow> nat \<Rightarrow> int \<Rightarrow> 'w sysqmf \<Rightarrow> 'w sysqmf" where
  "call_AsyncCB env f data res s = (if f = fn_AsyncCB_result then AsyncCB_result_cb env data res s else s)"

section \<open>The agent\<close>

definition ConfigAgent_setup ::
  "'w file_ops \<Rightarrow> 'w \<Rightarrow> sigar_net_info \<Rightarrow> agent_session \<Rightarrow> util_state \<Rightarrow> int \<times> agent_session \<times> util_state" where
  "ConfigAgent_setup fo w netinfo session us =
     (case mh_hostname fo w netinfo us of (host, us1) \<Rightarrow>
        (case mh_uuid fo w us1 of (uuid, us2) \<Rightarrow>
           (0, session\<lparr>ss_schemas := ss_schemas session @ [''org.matahariproject''],
                       ss_data := ss_data session @ [(''Sysconfig'',
                         qmap_put ''is_postboot_configured'' (VAR_INT32 0)
                           (qmap_put ''uuid'' (VAR_STRING uuid) (qmap_put ''hostname'' (VAR_STRING host) [])))]\<rparr>, us2)))"

text \<open>The branch for \<open>run_uri\<close> and \<open>run_string\<close>; \<open>run\<close> is the library call with the callback data.\<close>

definition ConfigAgent_run ::
  "(nat \<Rightarrow> 'w sysqmf \<Rightarrow> sys_failure + mh_result \<times> 'w sysqmf) \<Rightarrow> string \<Rightarrow> 'w sysqmf qmf_handler" where
  "ConfigAgent_run run key ev s =
     (let d = sq_next s;
          s1 = s\<lparr>sq_async := (sq_async s)(d \<mapsto> \<lparr>acb_key = key, acb_event = ev_id ev\<rparr>), sq_next := Suc d\<rparr>
      in case run d s1 of
           Inl e \<Rightarrow> None
         | Inr (res, s2) \<Rightarrow>
             if res = MH_RES_SUCCESS then Some (([], True), s2)
             else raise_result ev res (s2\<lparr>sq_async := (sq_async s2)(d := None)\<rparr>))"

definition ConfigAgent_invoke :: "qpid_conv \<Rightarrow> 'w sys_env \<Rightarrow> 'w sysqmf qmf_handler" where
  "ConfigAgent_invoke cv env ev s =
     (if ev_type ev \<noteq> AGENT_METHOD then Some (([], True), s)
      else if ev_method ev = ''run_uri''
      then Option.bind (arg_cstr cv ''key'' ev) (\<lambda>key.
           Option.bind (arg_cstr cv ''uri'' ev) (\<lambda>uri.
           Option.bind (as_uint32 cv (qmap_get ''flags'' (ev_args ev))) (\<lambda>flags.
           Option.bind (arg_cstr cv ''scheme'' ev) (\<lambda>scheme.
             ConfigAgent_run (mh_sysconfig_run_uri env (call_AsyncCB env) uri flags scheme (Some key) fn_AsyncCB_result)
               key ev s))))
      else if ev_method ev = ''run_string''
      then Option.bind (arg_cstr cv ''key'' ev) (\<lambda>key.
           Option.bind (arg_cstr cv ''text'' ev) (\<lambda>str.
           Option.bind (as_uint32 cv (qmap_get ''flags'' (ev_args ev))) (\<lambda>flags.
           Option.bind (arg_cstr cv ''scheme'' ev) (\<lambda>scheme.
             ConfigAgent_run (mh_sysconfig_run_string env (call_AsyncCB env) str flags scheme (Some key) fn_AsyncCB_result)
               key ev s))))
      else if ev_method ev = ''query''
      then Option.bind (arg_cstr cv ''text'' ev) (\<lambda>str.
           Option.bind (as_uint32 cv (qmap_get ''flags'' (ev_args ev))) (\<lambda>flags.
           Option.bind (arg_cstr cv ''scheme'' ev) (\<lambda>scheme.
             case mh_sysconfig_query env str flags scheme of
               Inl e \<Rightarrow> None
             | Inr data \<Rightarrow> method_success ev [(''data'', var_or_unknown data)] s)))
      else if ev_method ev = ''is_configured''
      then Option.bind (arg_cstr cv ''key'' ev) (\<lambda>key.
             case mh_sysconfig_is_configured (se_files env) (Some key) s of (status, s1) \<Rightarrow>
               method_success ev [(''status'', var_or_unknown status)] s1)
      else raise_result ev MH_RES_NOT_IMPLEMENTED s)"

section \<open>Lemmas\<close>

lemma sysqmf_more:
  assumes "sysconf.more s' = sysconf.more s"
  shows "sq_async s' = sq_async s" "sq_next s' = sq_next s" "sq_sent s' = sq_sent s" "sq_fault s' = sq_fault s"
  using assms by (cases s; cases s'; simp)+

lemma AsyncCB_result_more:
  assumes "sq_async t d = Some a"
  shows "\<exists>v. sq_sent (AsyncCB_result_cb env d rc t) = sq_sent t @ [MethodSuccess (acb_event a) v]"
    "sq_async (AsyncCB_result_cb env d rc t) = (sq_async t)(d := None)"
    "sq_fault (AsyncCB_result_cb env d rc t) = sq_fault t"
  using assms sysqmf_more [OF is_configured_more [of "se_files env" "Some (acb_key a)" t]]
  by (auto simp: AsyncCB_result_cb_def split: prod.splits)

text \<open>How a call may have been answered: by the handler, by the callback during the call, or not yet, with an
  action registered that will call the callback.\<close>

definition config_answered :: "agent_event \<Rightarrow> qmf_output list \<Rightarrow> 'w sysqmf \<Rightarrow> 'w sysqmf \<Rightarrow> bool" where
  "config_answered ev out s s' \<longleftrightarrow>
     sq_fault s' = sq_fault s \<and>
     (List.map_filter answers out = [ev_id ev] \<and> sq_sent s' = sq_sent s \<and> sq_async s' = sq_async s \<or>
      out = [] \<and> (\<exists>v. sq_sent s' = sq_sent s @ [MethodSuccess (ev_id ev) v]) \<and> sq_async s' = sq_async s \<or>
      out = [] \<and> sq_sent s' = sq_sent s \<and>
        (\<exists>a i ad. sq_async s' = (sq_async s)(sq_next s \<mapsto> a) \<and> acb_event a = ev_id ev \<and> sc_actions s' i = Some ad \<and>
           ad_result_cb ad = fn_AsyncCB_result \<and> ad_cb_data ad = sq_next s))"

lemma config_answered_now:
  assumes "List.map_filter answers out = [ev_id ev]" "sysconf.more s' = sysconf.more s"
  shows "config_answered ev out s s'"
  using assms sysqmf_more [OF assms(2)] by (simp add: config_answered_def)

lemma ConfigAgent_run_answers:
  assumes out: "\<And>d s res s'. run d s = Inr (res, s') \<Longrightarrow> run_outcome (call_AsyncCB env) fn_AsyncCB_result d res s s'"
    and run: "ConfigAgent_run run key ev s = Some ((outs, again), s')" and fresh: "sq_async s (sq_next s) = None"
  shows "again \<and> config_answered ev outs s s'"
proof -
  define d where "d = sq_next s"
  define a where "a = \<lparr>acb_key = key, acb_event = ev_id ev\<rparr>"
  define s1 where "s1 = s\<lparr>sq_async := (sq_async s)(d \<mapsto> a), sq_next := Suc d\<rparr>"
  note folds = d_def [symmetric] a_def [symmetric] s1_def [symmetric]
  have s1: "sq_async s1 = (sq_async s)(d \<mapsto> a)" "sq_sent s1 = sq_sent s" "sq_fault s1 = sq_fault s"
    by (simp_all add: s1_def)
  have undo: "(sq_async s)(d := None) = sq_async s" using fresh by (auto simp: d_def)
  obtain res s2 where r: "run d s1 = Inr (res, s2)"
    using run by (auto simp: ConfigAgent_run_def Let_def folds split: sum.splits)
  note o = out [OF r]
  show ?thesis
  proof (cases "res = MH_RES_SUCCESS")
    case False
    then have "outs = [RaiseException (ev_id ev) (mh_result_to_str (mh_result_code res))]" "again"
      "s' = s2\<lparr>sq_async := (sq_async s2)(d := None)\<rparr>"
      using run r by (auto simp: ConfigAgent_run_def Let_def folds)
    moreover have "sysconf.more s2 = sysconf.more s1" using o False by (simp add: run_outcome_def)
    ultimately show ?thesis using sysqmf_more [of s2 s1] s1 undo by (simp add: config_answered_def)
  next
    case True
    then have rep: "outs = []" "again" "s' = s2"
      using run r by (auto simp: ConfigAgent_run_def Let_def folds)
    from o True consider t where "sysconf.more t = sysconf.more s1" "sysconf.more s2 = sysconf.more (AsyncCB_result_cb env d 0 t)"
      | "sysconf.more s2 = sysconf.more s1" "\<exists>i ad. sc_actions s2 i = Some ad \<and> ad_result_cb ad = fn_AsyncCB_result \<and> ad_cb_data ad = d"
      by (auto simp: run_outcome_def call_AsyncCB_def)
    then show ?thesis
    proof cases
      case (1 t)
      have "sq_async t d = Some a" using sysqmf_more(1) [OF 1(1)] s1 by simp
      from AsyncCB_result_more [OF this, of env 0] show ?thesis
        using sysqmf_more [OF 1(1)] sysqmf_more [OF 1(2)] s1 undo by (auto simp: rep a_def config_answered_def)
    next
      case 2
      then show ?thesis using sysqmf_more [OF 2(1)] s1 by (auto simp: rep config_answered_def a_def d_def)
    qed
  qed
qed

lemma bind_SomeD: "Option.bind a f = Some y \<Longrightarrow> (\<And>x. f x = Some y \<Longrightarrow> P) \<Longrightarrow> P"
  by (cases a) auto

lemma ConfigAgent_again:
  assumes "ConfigAgent_invoke cv env ev s = Some ((out, again), s')"
  shows "again"
  using assms unfolding ConfigAgent_invoke_def ConfigAgent_run_def Let_def
  by (auto elim!: bind_SomeD split: if_splits sum.splits prod.splits)

interpretation configagent: qmf_agent "ConfigAgent_invoke cv env"
  by unfold_locales (rule ConfigAgent_again)

lemma ConfigAgent_invoke_cases:
  assumes "ev_type ev = AGENT_METHOD" "ConfigAgent_invoke cv env ev s = Some ((out, again), s')"
  shows "(\<exists>key uri flags scheme. ConfigAgent_run (mh_sysconfig_run_uri env (call_AsyncCB env) uri flags scheme (Some key)
      fn_AsyncCB_result) key ev s = Some ((out, again), s')) \<or>
    (\<exists>key str flags scheme. ConfigAgent_run (mh_sysconfig_run_string env (call_AsyncCB env) str flags scheme (Some key)
      fn_AsyncCB_result) key ev s = Some ((out, again), s')) \<or>
    List.map_filter answers out = [ev_id ev] \<and> sysconf.more s' = sysconf.more s"
  using assms unfolding ConfigAgent_invoke_def
  by (auto elim!: bind_SomeD dest: is_configured_more split: if_split_asm sum.splits prod.splits)

section \<open>Properties\<close>

text \<open>C14: A call to the configuration agent over QMF whose handler returns (so one whose arguments have the types of the
  schema; an argument that does not convert ends the agent without an answer) is answered at most once by
  then: the handler answers it, or the callback has answered it once while the handler ran, or no answer
  has been sent and the data of a started Puppet run is registered that has the callback for this very call, which sends exactly one answer to it and deletes
  the object of the call whenever it is run.
  The callback objects of all other calls are as before, this call leaves one only in the last case, and the
  callback is never given a deleted object.\<close>

theorem config_call_answered_once:
  assumes "ev_type ev = AGENT_METHOD" "sq_async s (sq_next s) = None"
    and "ConfigAgent_invoke cv env ev s = Some ((out, again), s')"
  shows "again \<and> sq_fault s' = sq_fault s \<and>
     (List.map_filter answers out = [ev_id ev] \<and> sq_sent s' = sq_sent s \<and> sq_async s' = sq_async s \<or>
      out = [] \<and> (\<exists>v. sq_sent s' = sq_sent s @ [MethodSuccess (ev_id ev) v]) \<and> sq_async s' = sq_async s \<or>
      out = [] \<and> sq_sent s' = sq_sent s \<and>
        (\<exists>a i ad. sq_async s' = (sq_async s)(sq_next s \<mapsto> a) \<and> acb_event a = ev_id ev \<and> sc_actions s' i = Some ad \<and>
           ad_result_cb ad = fn_AsyncCB_result \<and> ad_cb_data ad = sq_next s \<and>
           (\<forall>rc t. sq_async t (sq_next s) = Some a \<longrightarrow>
              (\<exists>v. sq_sent (AsyncCB_result_cb env (sq_next s) rc t) = sq_sent t @ [MethodSuccess (ev_id ev) v]) \<and>
              sq_async (AsyncCB_result_cb env (sq_next s) rc t) = (sq_async t)(sq_next s := None))))"
proof -
  have "again" by (rule ConfigAgent_again [OF assms(3)])
  moreover have "config_answered ev out s s'"
    using ConfigAgent_invoke_cases [OF assms(1,3)]
  proof (elim disjE exE conjE)
    fix key uri flags scheme
    assume r: "ConfigAgent_run (mh_sysconfig_run_uri env (call_AsyncCB env) uri flags scheme (Some key) fn_AsyncCB_result)
      key ev s = Some ((out, again), s')"
    show ?thesis
      using ConfigAgent_run_answers [OF _ r assms(2), of env] run_uri_outcome [of env "call_AsyncCB env"] by blast
  next
    fix key str flags scheme
    assume r: "ConfigAgent_run (mh_sysconfig_run_string env (call_AsyncCB env) str flags scheme (Some key) fn_AsyncCB_result)
      key ev s = Some ((out, again), s')"
    show ?thesis
      using ConfigAgent_run_answers [OF _ r assms(2), of env] run_string_outcome [of env "call_AsyncCB env"] by blast
  qed (rule config_answered_now)
  moreover have "(\<exists>v. sq_sent (AsyncCB_result_cb env d rc t) = sq_sent t @ [MethodSuccess (acb_event a) v]) \<and>
      sq_async (AsyncCB_result_cb env d rc t) = (sq_async t)(d := None)" if "sq_async t d = Some a" for a d rc and t :: "'a sysqmf"
    using AsyncCB_result_more(1,2) [OF that] by blast
  ultimately show ?thesis unfolding config_answered_def by metis
qed

definition config_call :: "string \<Rightarrow> qmap \<Rightarrow> nat \<Rightarrow> agent_event" where
  "config_call method args i = \<lparr>ev_id = i, ev_type = AGENT_METHOD, ev_addr = None, ev_method = method, ev_args = args\<rparr>"

definition sq_demo :: "store sysqmf" where
  "sq_demo = sysconf.extend sc_demo \<lparr>sq_async = Map.empty, sq_next = 0, sq_sent = [], sq_fault = False\<rparr>"

theorem config_call_answered_once_witness:
  "\<exists>s'. ConfigAgent_invoke qpid_ref sy_demo (config_call ''run_string'' [(''key'', VAR_STRING [])] 4) sq_demo =
     Some (([RaiseException 4 (mh_result_to_str (mh_result_code MH_RES_INVALID_ARGS))], True), s') \<and>
     sq_sent s' = [] \<and> sq_async s' = Map.empty \<and> \<not> sq_fault s'"
proof -
  let ?ev = "config_call ''run_string'' [(''key'', VAR_STRING [])] 4"
  obtain s' where r: "ConfigAgent_invoke qpid_ref sy_demo ?ev sq_demo =
     Some (([RaiseException 4 (mh_result_to_str (mh_result_code MH_RES_INVALID_ARGS))], True), s')"
    by (simp add: ConfigAgent_invoke_def ConfigAgent_run_def config_call_def arg_cstr_def qmap_get_def qpid_ref_def
        mh_sysconfig_run_string_def check_key_sanity_def mh_strlen_zero_def raise_result_def Let_def cstr_of_def)
  have "sq_async sq_demo = Map.empty" "sq_sent sq_demo = []" "\<not> sq_fault sq_demo"
    by (simp_all add: sq_demo_def sc_demo_def sysconf.extend_def)
  with config_call_answered_once [OF _ _ r] r show ?thesis by (simp add: config_call_def)
qed

end
