(* ===== verification/Service_Qmf.thy ===== *)
theory Service_Qmf
  imports Mh_Agent Service_Agent
begin

text \<open>
  \<^verbatim>\<open>src/src/service/service-qmf.cpp\<close>: the agent for services and resources on the message bus. Unlike its
  D-Bus twin it runs every action asynchronously: the handler returns without an answer, and the
  callback \<open>mh_async_callback\<close> answers when the child of the action ends. A recurring action answers its
  call once and then raises an event each time its result changes.

  \<open>qs_svc\<close> is the state of the service library, \<open>qs_cbs\<close> the live objects of the class \<^verbatim>\<open>AsyncCB\<close>. The
  library records the callbacks it runs in \<open>svc_called\<close>; \<open>child_ends\<close> runs the callback of this agent on the
  ones the end of a child adds.
\<close>

section \<open>The callback\<close>

datatype service_id = SRV_RESOURCES | SRV_SERVICES

record SrvAsyncCB =
  scb_service :: service_id
  scb_event :: agent_event
  scb_has_rc :: bool
  scb_last_rc :: int
  scb_first :: bool

record service_qmf =
  qs_svc :: svc_state
  qs_cbs :: "nat \<rightharpoonup> SrvAsyncCB"
  qs_next :: nat

definition var_rc :: "int \<Rightarrow> qvariant" where
  "var_rc i = VAR_INT32 (word_of_int i)"

text \<open>\<open>timestamp\<close> is what \<^verbatim>\<open>time\<close> returns, or 0. \<open>None\<close> is the crash on a NULL string.\<close>

definition SrvAgent_raiseEvent :: "u64 \<Rightarrow> svc_action \<Rightarrow> service_id \<Rightarrow> string \<Rightarrow> qmf_output list option" where
  "SrvAgent_raiseEvent timestamp op service userdata =
     (if service = SRV_SERVICES then Some []
      else Option.bind (op_rsc op) (\<lambda>name.
           Option.bind (op_action op) (\<lambda>action.
           Option.bind (op_standard op) (\<lambda>standard.
           Option.bind (op_agent op) (\<lambda>agent.
             let m1 = qmap_put ''name'' (VAR_STRING name) [];
                 m2 = qmap_put ''action'' (VAR_STRING action) m1;
                 m3 = qmap_put ''interval'' (var_rc (op_interval op)) m2;
                 m4 = qmap_put ''rc'' (var_rc (op_rc op)) m3;
                 m5 = qmap_put ''timestamp'' (VAR_UINT64 timestamp) m4;
                 m6 = qmap_put ''sequence'' (var_rc (op_sequence op)) m5;
                 m7 = qmap_put ''standard'' (VAR_STRING standard) m6;
                 m8 = (case op_provider op of Some p \<Rightarrow> qmap_put ''provider'' (VAR_STRING p) m7 | None \<Rightarrow> m7);
                 m9 = qmap_put ''agent'' (VAR_STRING agent) m8;
                 m10 = qmap_put ''expected-rc'' (var_rc (op_expected_rc op)) m9;
                 m11 = (if userdata \<noteq> [] then qmap_put ''userdata'' (VAR_STRING userdata) m10 else m10)
             in Some [RaiseEvent ''resource_op'' m11])))))"

definition mh_async_callback ::
  "qpid_conv \<Rightarrow> u64 \<Rightarrow> svc_action \<Rightarrow> (nat \<rightharpoonup> SrvAsyncCB) \<Rightarrow> (qmf_output list \<times> svc_action \<times> (nat \<rightharpoonup> SrvAsyncCB)) option" where
  "mh_async_callback cv now op cbs =
     Option.bind (op_cb_data op) (\<lambda>d.
     Option.bind (cbs d) (\<lambda>cb_data.
     Option.bind (if qmap_count ''userdata'' (ev_args (scb_event cb_data))
                  then as_string cv (qmap_get ''userdata'' (ev_args (scb_event cb_data))) else Some []) (\<lambda>userdata.
     Option.bind
       (if scb_first cb_data
        then let r1 = (if scb_has_rc cb_data then qmap_put ''rc'' (var_rc (op_rc op)) [] else []);
                 r2 = (if userdata \<noteq> [] then qmap_put ''userdata'' (VAR_STRING userdata) r1 else r1)
             in Some [MethodSuccess (ev_id (scb_event cb_data)) r2]
        else if scb_last_rc cb_data \<noteq> op_rc op
        then SrvAgent_raiseEvent now op (scb_service cb_data) userdata
        else Some []) (\<lambda>out.
       let cb1 = cb_data\<lparr>scb_first := False\<rparr>
       in if op_interval op \<noteq> 0 then Some (out, op, cbs(d \<mapsto> cb1\<lparr>scb_last_rc := op_rc op\<rparr>))
          else Some (out, op\<lparr>op_cb_data := None\<rparr>, cbs(d := None))))))"

definition fn_mh_async_callback :: nat where "fn_mh_async_callback = 6"

text \<open>The callbacks that the library ran, in turn.\<close>

fun run_callbacks ::
  "qpid_conv \<Rightarrow> u64 \<Rightarrow> (nat \<times> svc_action) list \<Rightarrow> (nat \<rightharpoonup> SrvAsyncCB) \<Rightarrow> (qmf_output list \<times> (nat \<rightharpoonup> SrvAsyncCB)) option" where
  "run_callbacks cv now [] cbs = Some ([], cbs)"
| "run_callbacks cv now ((f, op) # calls) cbs =
     (if f = fn_mh_async_callback
      then Option.bind (mh_async_callback cv now op cbs) (\<lambda>(out, _, cbs1).
           Option.bind (run_callbacks cv now calls cbs1) (\<lambda>(outs, cbs2). Some (out @ outs, cbs2)))
      else run_callbacks cv now calls cbs)"

definition child_ends ::
  "qpid_conv \<Rightarrow> u64 \<Rightarrow> id_source \<Rightarrow> int \<Rightarrow> int \<Rightarrow> mainloop_child \<Rightarrow> service_qmf \<Rightarrow> (qmf_output list \<times> service_qmf) option" where
  "child_ends cv now new_id pid status p s =
     (let svc = handle_child (operation_finished_cb new_id) pid status p (qs_svc s)
      in Option.bind (run_callbacks cv now (drop (length (svc_called (qs_svc s))) (svc_called svc)) (qs_cbs s))
           (\<lambda>(out, cbs). Some (out, s\<lparr>qs_svc := svc, qs_cbs := cbs\<rparr>)))"

section \<open>The agent\<close>

fun qmf_map_to_hash :: "qpid_conv \<Rightarrow> qmap \<Rightarrow> (string \<times> string) list \<Rightarrow> (string \<times> string) list option" where
  "qmf_map_to_hash cv [] hash = Some hash"
| "qmf_map_to_hash cv ((k, v) # parameters) hash =
     Option.bind (as_string cv v) (\<lambda>str.
       qmf_map_to_hash cv parameters (filter (\<lambda>(k', _). k' \<noteq> cstr_of k) hash @ [(cstr_of k, cstr_of str)]))"

definition SrvAgent_setup ::
  "'w file_ops \<Rightarrow> 'w \<Rightarrow> sigar_net_info \<Rightarrow> agent_session \<Rightarrow> util_state \<Rightarrow> int \<times> agent_session \<times> util_state" where
  "SrvAgent_setup fo w netinfo session us =
     (let named = (\<lambda>us. case mh_uuid fo w us of (uuid, us1) \<Rightarrow>
                      (case mh_hostname fo w netinfo us1 of (host, us2) \<Rightarrow>
                         (qmap_put ''hostname'' (VAR_STRING host) (qmap_put ''uuid'' (VAR_STRING uuid) []), us2)));
          (services, us1) = named us;
          (resources, us2) = named us1
      in (0, session\<lparr>ss_schemas := ss_schemas session @ [''org.matahariproject''],
                     ss_data := ss_data session @ [(''Services'', services), (''Resources'', resources)]\<rparr>, us2))"

text \<open>\<open>action_async\<close>; the result of starting the action is not looked at.\<close>

definition action_async ::
  "exec_env \<Rightarrow> service_id \<Rightarrow> agent_event \<Rightarrow> nat option \<Rightarrow> bool \<Rightarrow> service_qmf \<Rightarrow> ((qmf_output list \<times> bool) \<times> service_qmf) option" where
  "action_async env service ev p has_rc s =
     (case load p (qs_svc s) of
        Inl e \<Rightarrow> None
      | Inr op \<Rightarrow>
          (let d = qs_next s;
               cb = \<lparr>scb_service = service, scb_event = ev, scb_has_rc = has_rc, scb_last_rc = 0, scb_first = True\<rparr>
           in case services_action_async (services_os_action_execute env) p (Some fn_mh_async_callback)
                     (store (the p) (op\<lparr>op_cb_data := Some d\<rparr>) (qs_svc s)) of
                Inl e \<Rightarrow> None
              | Inr (_, svc) \<Rightarrow> Some (([], True), s\<lparr>qs_svc := svc, qs_cbs := (qs_cbs s)(d \<mapsto> cb), qs_next := Suc d\<rparr>)))"

text \<open>What the handlers do with the result of creating an action.\<close>

definition start_created ::
  "exec_env \<Rightarrow> service_id \<Rightarrow> agent_event \<Rightarrow> service_qmf \<Rightarrow> (nat option) svc_result \<Rightarrow> ((qmf_output list \<times> bool) \<times> service_qmf) option" where
  "start_created env service ev s r =
     (case r of
        Inl e \<Rightarrow> None
      | Inr (None, svc) \<Rightarrow> raise_result ev MH_RES_INVALID_ARGS (s\<lparr>qs_svc := svc\<rparr>)
      | Inr (Some a, svc) \<Rightarrow> action_async env service ev (Some a) True (s\<lparr>qs_svc := svc\<rparr>))"

definition qmf_listing ::
  "agent_event \<Rightarrow> string \<Rightarrow> (string list) svc_result \<Rightarrow> service_qmf \<Rightarrow> ((qmf_output list \<times> bool) \<times> service_qmf) option" where
  "qmf_listing ev key r s =
     (case r of
        Inl e \<Rightarrow> None
      | Inr (l, svc) \<Rightarrow> method_success ev [(key, VAR_LIST (map VAR_STRING l))] (s\<lparr>qs_svc := svc\<rparr>))"

definition SrvAgent_invoke_services :: "qpid_conv \<Rightarrow> 'f agent_env \<Rightarrow> service_qmf qmf_handler" where
  "SrvAgent_invoke_services cv env ev s =
     (let create = services_action_create services_os_set_exec (\<lambda>k. True)
      in if ev_type ev \<noteq> AGENT_METHOD then Some (([], True), s)
         else if ev_method ev = ''list''
         then qmf_listing ev ''agents''
                (services_list (resources_os_list_ocf_agents (ae_scandir env) (ae_stat env))
                  (services_os_list (ae_scandir env) (ae_stat env))
                  (resources_os_list_systemd_services (ae_exec env)) (qs_svc s)) s
         else if ev_method ev = ''enable'' \<or> ev_method ev = ''disable''
         then Option.bind (arg_cstr cv ''name'' ev) (\<lambda>name.
                start_created (ae_exec env) SRV_SERVICES ev s
                  (create (Some name) (Some (ev_method ev)) 0 60000 (qs_svc s)))
         else if ev_method ev = ''start'' \<or> ev_method ev = ''stop'' \<or> ev_method ev = ''status''
         then Option.bind (arg_cstr cv ''name'' ev) (\<lambda>name.
              Option.bind (as_int32 cv (qmap_get ''timeout'' (ev_args ev))) (\<lambda>timeout.
                start_created (ae_exec env) SRV_SERVICES ev s
                  (create (Some name) (Some (ev_method ev)) 0 (int_of_u32 timeout) (qs_svc s))))
         else raise_result ev MH_RES_NOT_IMPLEMENTED s)"

text \<open>An argument with a default.\<close>

definition arg_string_or :: "qpid_conv \<Rightarrow> string \<Rightarrow> string \<Rightarrow> agent_event \<Rightarrow> string option" where
  "arg_string_or cv k dflt ev =
     (if qmap_count k (ev_args ev) then arg_cstr cv k ev else Some dflt)"

definition arg_int_or :: "qpid_conv \<Rightarrow> string \<Rightarrow> int \<Rightarrow> agent_event \<Rightarrow> int option" where
  "arg_int_or cv k dflt ev =
     (if qmap_count k (ev_args ev) then map_option int_of_u32 (as_int32 cv (qmap_get k (ev_args ev))) else Some dflt)"

definition set_expected_rc :: "qpid_conv \<Rightarrow> agent_event \<Rightarrow> (nat option) svc_result \<Rightarrow> ((nat option) svc_result) option" where
  "set_expected_rc cv ev r =
     (case r of
        Inr (Some a, svc) \<Rightarrow>
          (case svc_heap svc a of
             None \<Rightarrow> None
           | Some op \<Rightarrow>
               Option.bind (arg_int_or cv ''expected-rc'' (op_expected_rc op) ev) (\<lambda>rc.
                 Some (Inr (Some a, store a (op\<lparr>op_expected_rc := rc\<rparr>) svc))))
      | _ \<Rightarrow> Some r)"

definition resource_invoke :: "qpid_conv \<Rightarrow> 'f agent_env \<Rightarrow> service_qmf qmf_handler" where
  "resource_invoke cv env ev s =
     Option.bind (if qmap_count ''parameters'' (ev_args ev) then as_map cv (qmap_get ''parameters'' (ev_args ev))
                  else Some []) (\<lambda>parameters.
     Option.bind (qmf_map_to_hash cv parameters []) (\<lambda>params.
     Option.bind (arg_string_or cv ''standard'' ''ocf'' ev) (\<lambda>standard.
     Option.bind (arg_string_or cv ''provider'' ''heartbeat'' ev) (\<lambda>provider.
     Option.bind (arg_cstr cv (if qmap_count ''agent'' (ev_args ev) then ''agent'' else ''name'') ev) (\<lambda>agent.
     Option.bind (arg_int_or cv ''interval'' 0 ev) (\<lambda>interval.
     Option.bind (arg_int_or cv ''timeout'' 60000 ev) (\<lambda>timeout.
       if \<not> list_ex (\<lambda>x. strcasecmp x standard) (resources_list_standards (ae_file_ops env) (ae_files env))
       then raise_result ev MH_RES_NOT_IMPLEMENTED s
       else Option.bind (arg_cstr cv ''name'' ev) (\<lambda>name.
            Option.bind (arg_cstr cv ''action'' ev) (\<lambda>action.
            Option.bind (set_expected_rc cv ev
              (resources_action_create services_os_set_exec (\<lambda>k. True) (Some name) (Some standard) (Some provider)
                (Some agent) (Some action) interval timeout (Some params) (qs_svc s))) (\<lambda>r.
              start_created (ae_exec env) SRV_RESOURCES ev s r))))))))))"

definition SrvAgent_invoke_resources :: "qpid_conv \<Rightarrow> 'f agent_env \<Rightarrow> service_qmf qmf_handler" where
  "SrvAgent_invoke_resources cv env ev s =
     (if ev_type ev \<noteq> AGENT_METHOD then Some (([], True), s)
      else if ev_method ev = ''list_standards''
      then qmf_listing ev ''standards'' (Inr (resources_list_standards (ae_file_ops env) (ae_files env), qs_svc s)) s
      else if ev_method ev = ''list_providers''
      then Option.bind (arg_cstr cv ''standard'' ev) (\<lambda>standard.
             qmf_listing ev ''providers'' (Inr (resources_list_providers
               (resources_os_list_ocf_providers (ae_scandir env) (ae_stat env)) standard, qs_svc s)) s)
      else if ev_method ev = ''list''
      then Option.bind (arg_string_or cv ''standard'' ''ocf'' ev) (\<lambda>standard.
           Option.bind (arg_string_or cv ''provider'' ''heartbeat'' ev) (\<lambda>provider.
             qmf_listing ev ''agents'' (list_agents env standard (Some provider) (qs_svc s)) s))
      else if ev_method ev = ''invoke'' then resource_invoke cv env ev s
      else if ev_method ev = ''cancel''
      then Option.bind (arg_cstr cv ''name'' ev) (\<lambda>name.
           Option.bind (arg_cstr cv ''action'' ev) (\<lambda>action.
           Option.bind (as_int32 cv (qmap_get ''interval'' (ev_args ev))) (\<lambda>interval.
             case services_action_cancel name action (int_of_u32 interval) (qs_svc s) of
               Inl e \<Rightarrow> None
             | Inr (_, svc) \<Rightarrow> method_success ev [] (s\<lparr>qs_svc := svc\<rparr>))))
      else raise_result ev MH_RES_NOT_IMPLEMENTED s)"

definition SrvAgent_invoke :: "qpid_conv \<Rightarrow> 'f agent_env \<Rightarrow> service_qmf qmf_handler" where
  "SrvAgent_invoke cv env ev s =
     (case ev_addr ev of
        Some addr \<Rightarrow>
          if ev_type ev = AGENT_METHOD
          then if getName addr = ''Services'' then SrvAgent_invoke_services cv env ev s
               else if getName addr = ''Resources'' then SrvAgent_invoke_resources cv env ev s
               else Some (([], True), s)
          else Some (([], True), s)
      | None \<Rightarrow> Some (([], True), s))"

section \<open>Lemmas\<close>

lemma start_created_again:
  "start_created env service ev s r = Some ((out, again), s') \<Longrightarrow> again"
  by (auto simp: start_created_def action_async_def Let_def split: sum.splits option.splits prod.splits)

lemma qmf_listing_again: "qmf_listing ev key r s = Some ((out, again), s') \<Longrightarrow> again"
  by (auto simp: qmf_listing_def split: sum.splits)

lemma bind_again:
  "Option.bind a f = Some ((out, again), s') \<Longrightarrow> (\<And>x. f x = Some ((out, again), s') \<Longrightarrow> again) \<Longrightarrow> again"
  by (cases a) auto

lemma resource_invoke_again: "resource_invoke cv env ev s = Some ((out, again), s') \<Longrightarrow> again"
  unfolding resource_invoke_def
  by (elim bind_again) (auto elim!: bind_again dest: start_created_again split: if_splits)

lemma SrvAgent_again:
  assumes "SrvAgent_invoke cv env ev s = Some ((out, again), s')"
  shows "again"
  using assms
  by (auto simp: SrvAgent_invoke_def SrvAgent_invoke_services_def SrvAgent_invoke_resources_def Let_def
      elim!: bind_again dest: start_created_again qmf_listing_again resource_invoke_again
      split: if_splits option.splits sum.splits)

interpretation srvagent: qmf_agent "SrvAgent_invoke cv env"
  by unfold_locales (rule SrvAgent_again)

section \<open>Answers\<close>

text \<open>The arguments of an answer: the result code, and the \<^verbatim>\<open>userdata\<close> of the call unless it is empty.\<close>

definition answer_args :: "string \<Rightarrow> int \<Rightarrow> qmap" where
  "answer_args userdata rc =
     (''rc'', var_rc rc) # (if userdata = [] then [] else [(''userdata'', VAR_STRING userdata)])"

definition userdata_of :: "qpid_conv \<Rightarrow> agent_event \<Rightarrow> string option" where
  "userdata_of cv ev =
     (if qmap_count ''userdata'' (ev_args ev) then as_string cv (qmap_get ''userdata'' (ev_args ev)) else Some [])"

lemma put_answer_args:
  "(if u \<noteq> [] then qmap_put ''userdata'' (VAR_STRING u) [(''rc'', var_rc rc)] else [(''rc'', var_rc rc)]) = answer_args u rc"
  by (simp add: answer_args_def)

text \<open>The value that an event has for \<^verbatim>\<open>userdata\<close>; without one it is void.\<close>

definition event_userdata :: "string \<Rightarrow> qvariant" where
  "event_userdata u = (if u = [] then VAR_VOID else VAR_STRING u)"

section \<open>Results of a recurring action\<close>

text \<open>The callback on a sequence of results of one action.\<close>

fun deliver_results ::
  "qpid_conv \<Rightarrow> u64 \<Rightarrow> svc_action \<Rightarrow> int list \<Rightarrow> (nat \<rightharpoonup> SrvAsyncCB) \<Rightarrow> (qmf_output list \<times> (nat \<rightharpoonup> SrvAsyncCB)) option" where
  "deliver_results cv now op [] cbs = Some ([], cbs)"
| "deliver_results cv now op (rc # rcs) cbs =
     Option.bind (mh_async_callback cv now (op\<lparr>op_rc := rc\<rparr>) cbs) (\<lambda>(out, op', cbs1).
     Option.bind (deliver_results cv now op' rcs cbs1) (\<lambda>(outs, cbs2). Some (out @ outs, cbs2)))"

text \<open>The results in a sequence that differ from the one before.\<close>

fun rc_changes :: "int \<Rightarrow> int list \<Rightarrow> int list" where
  "rc_changes prev [] = []"
| "rc_changes prev (rc # rcs) = (if rc = prev then rc_changes rc rcs else rc # rc_changes rc rcs)"

definition event_rcs :: "qmf_output list \<Rightarrow> qvariant list" where
  "event_rcs outs = List.map_filter (\<lambda>out. case out of RaiseEvent _ m \<Rightarrow> Some (qmap_get ''rc'' m) | _ \<Rightarrow> None) outs"

lemma event_rcs_append [simp]: "event_rcs (xs @ ys) = event_rcs xs @ event_rcs ys"
  by (simp add: event_rcs_def map_filter_append)

definition named_action :: "svc_action \<Rightarrow> bool" where
  "named_action op \<longleftrightarrow> op_rsc op \<noteq> None \<and> op_action op \<noteq> None \<and> op_standard op \<noteq> None \<and> op_agent op \<noteq> None"

lemma raiseEvent_resource:
  assumes "named_action op"
  obtains m where "SrvAgent_raiseEvent now op SRV_RESOURCES userdata = Some [RaiseEvent ''resource_op'' m]"
    "qmap_get ''rc'' m = var_rc (op_rc op)" "qmap_get ''userdata'' m = event_userdata userdata"
proof -
  obtain n ac st ag where "op_rsc op = Some n" "op_action op = Some ac" "op_standard op = Some st" "op_agent op = Some ag"
    using assms by (auto simp: named_action_def)
  then show ?thesis using that
    unfolding SrvAgent_raiseEvent_def by (cases "op_provider op"; cases "userdata = []") (simp_all add: Let_def qmap_get_def event_userdata_def)
qed

definition events_carry :: "string \<Rightarrow> qmf_output list \<Rightarrow> bool" where
  "events_carry u outs \<longleftrightarrow>
     list_all (\<lambda>out. case out of RaiseEvent c m \<Rightarrow> c = ''resource_op'' \<and> qmap_get ''userdata'' m = event_userdata u | _ \<Rightarrow> True) outs"

lemma callback_later:
  assumes "op_cb_data op = Some d" "cbs d = Some cb" "\<not> scb_first cb" "scb_service cb = SRV_RESOURCES"
    "named_action op" "op_interval op \<noteq> 0" "userdata_of cv (scb_event cb) = Some u"
  obtains out where "mh_async_callback cv now op cbs = Some (out, op, cbs(d \<mapsto> cb\<lparr>scb_last_rc := op_rc op\<rparr>))"
    "List.map_filter answers out = []"
    "event_rcs out = (if op_rc op = scb_last_rc cb then [] else [var_rc (op_rc op)])" "events_carry u out"
proof -
  have same: "cb\<lparr>scb_first := False\<rparr> = cb" and last: "op_rc op = scb_last_rc cb \<Longrightarrow> cb\<lparr>scb_last_rc := op_rc op\<rparr> = cb"
    using assms(3) by (cases cb; simp)+
  obtain m where m: "SrvAgent_raiseEvent now op SRV_RESOURCES u = Some [RaiseEvent ''resource_op'' m]"
    "qmap_get ''rc'' m = var_rc (op_rc op)" "qmap_get ''userdata'' m = event_userdata u"
    by (rule raiseEvent_resource [OF assms(5)])
  show ?thesis
  proof (cases "op_rc op = scb_last_rc cb")
    case True
    show ?thesis
      by (rule that [of "[]"]) (use True assms last in \<open>simp_all add: same mh_async_callback_def event_rcs_def events_carry_def userdata_of_def List.map_filter_simps\<close>)
  next
    case False
    show ?thesis
      by (rule that [of "[RaiseEvent ''resource_op'' m]"])
        (use False assms m in \<open>simp_all add: same mh_async_callback_def event_rcs_def events_carry_def userdata_of_def List.map_filter_simps\<close>)
  qed
qed

lemma deliver_later:
  assumes "op_cb_data op = Some d" "cbs d = Some cb" "\<not> scb_first cb" "scb_service cb = SRV_RESOURCES"
    "named_action op" "op_interval op \<noteq> 0" "userdata_of cv (scb_event cb) = Some u"
  shows "\<exists>outs cbs'. deliver_results cv now op rcs cbs = Some (outs, cbs') \<and> List.map_filter answers outs = [] \<and>
    event_rcs outs = map var_rc (rc_changes (scb_last_rc cb) rcs) \<and> events_carry u outs \<and>
    cbs' d = Some (cb\<lparr>scb_last_rc := last (scb_last_rc cb # rcs)\<rparr>)"
  using assms
proof (induction rcs arbitrary: op cbs cb)
  case Nil
  then show ?case by (simp add: event_rcs_def events_carry_def List.map_filter_simps)
next
  case (Cons rc rcs)
  let ?op = "op\<lparr>op_rc := rc\<rparr>" and ?cb = "cb\<lparr>scb_last_rc := rc\<rparr>"
  have "op_cb_data ?op = Some d" "named_action ?op" "op_interval ?op \<noteq> 0" using Cons.prems by (simp_all add: named_action_def)
  note op = this
  obtain out where out: "mh_async_callback cv now ?op cbs = Some (out, ?op, cbs(d \<mapsto> ?cb))"
    "List.map_filter answers out = []" "event_rcs out = (if rc = scb_last_rc cb then [] else [var_rc rc])"
    "events_carry u out"
    using callback_later [of ?op d cbs cb cv u now thesis] op Cons.prems by simp
  have "(cbs(d \<mapsto> ?cb)) d = Some ?cb" "\<not> scb_first ?cb" "scb_service ?cb = SRV_RESOURCES"
    "userdata_of cv (scb_event ?cb) = Some u" using Cons.prems by simp_all
  from Cons.IH [of ?op "cbs(d \<mapsto> ?cb)" ?cb, OF op(1) this(1-3) op(2,3) this(4)] obtain outs cbs' where
    "deliver_results cv now ?op rcs (cbs(d \<mapsto> ?cb)) = Some (outs, cbs')" "List.map_filter answers outs = []"
    "event_rcs outs = map var_rc (rc_changes rc rcs)" "events_carry u outs" "cbs' d = Some (?cb\<lparr>scb_last_rc := last (rc # rcs)\<rparr>)"
    by (auto simp del: fun_upd_apply)
  with out show ?case by (simp add: map_filter_append events_carry_def)
qed

text \<open>C9: A recurring action of the resources object answers its call exactly once, with the first result,
  and from then on raises an event exactly when a result differs from the one before, with the new
  result in it, however many results arrive. The \<^verbatim>\<open>userdata\<close> of the call, if it has one, is in the answer
  and in every event. (The schema announces an event for every interval; the code compares first.)\<close>

theorem recurring_action_protocol:
  assumes "op_cb_data op = Some d" "cbs d = Some cb" "scb_first cb" "scb_has_rc cb" "scb_service cb = SRV_RESOURCES"
    "op_rsc op \<noteq> None" "op_action op \<noteq> None" "op_standard op \<noteq> None" "op_agent op \<noteq> None" "op_interval op \<noteq> 0"
    "userdata_of cv (scb_event cb) = Some u"
  shows "\<exists>outs cbs'. deliver_results cv now op (rc # rcs) cbs = Some (outs, cbs') \<and>
    hd outs = MethodSuccess (ev_id (scb_event cb)) (answer_args u rc) \<and>
    List.map_filter answers outs = [ev_id (scb_event cb)] \<and> event_rcs outs = map var_rc (rc_changes rc rcs) \<and>
    events_carry u outs \<and> cbs' d = Some (cb\<lparr>scb_first := False, scb_last_rc := last (rc # rcs)\<rparr>)"
proof -
  let ?op = "op\<lparr>op_rc := rc\<rparr>" and ?cb = "cb\<lparr>scb_first := False, scb_last_rc := rc\<rparr>"
  let ?ms = "MethodSuccess (ev_id (scb_event cb)) (answer_args u rc)"
  have first: "mh_async_callback cv now ?op cbs = Some ([?ms], ?op, cbs(d \<mapsto> ?cb))"
    using assms by (simp add: mh_async_callback_def userdata_of_def put_answer_args)
  have "op_cb_data ?op = Some d" "named_action ?op" "op_interval ?op \<noteq> 0" using assms by (simp_all add: named_action_def)
  from deliver_later [OF this(1) _ _ _ this(2,3), of "cbs(d \<mapsto> ?cb)" ?cb cv u now rcs] assms
  obtain outs cbs' where "deliver_results cv now ?op rcs (cbs(d \<mapsto> ?cb)) = Some (outs, cbs')"
    "List.map_filter answers outs = []" "event_rcs outs = map var_rc (rc_changes rc rcs)" "events_carry u outs"
    "cbs' d = Some (?cb\<lparr>scb_last_rc := last (rc # rcs)\<rparr>)" by auto
  then show ?thesis by (simp add: first event_rcs_def events_carry_def List.map_filter_simps)
qed

definition demo_srv_call :: "string \<Rightarrow> string \<Rightarrow> qmap \<Rightarrow> agent_event" where
  "demo_srv_call obj method args =
     \<lparr>ev_id = 3, ev_type = AGENT_METHOD, ev_addr = Some (DataAddr ''service'' obj), ev_method = method, ev_args = args\<rparr>"

definition demo_cb :: SrvAsyncCB where
  "demo_cb = \<lparr>scb_service = SRV_RESOURCES, scb_event = demo_srv_call ''Resources'' ''invoke'' [(''userdata'', VAR_STRING ''t1'')], scb_has_rc = True,
     scb_last_rc = 0, scb_first = True\<rparr>"

definition demo_monitor :: svc_action where
  "demo_monitor = svc_calloc\<lparr>op_rsc := Some ''db'', op_action := Some ''monitor'', op_standard := Some ''ocf'',
     op_agent := Some ''mysql'', op_interval := 5000, op_cb_data := Some 2\<rparr>"

theorem recurring_action_protocol_witness:
  "\<exists>outs cbs'. deliver_results qpid_ref 0 demo_monitor [0, 0, 7, 7, 0] [2 \<mapsto> demo_cb] = Some (outs, cbs') \<and>
     hd outs = MethodSuccess 3 [(''rc'', var_rc 0), (''userdata'', VAR_STRING ''t1'')] \<and>
     List.map_filter answers outs = [3] \<and> event_rcs outs = [var_rc 7, var_rc 0] \<and> events_carry ''t1'' outs"
  using recurring_action_protocol [of demo_monitor 2 "[2 \<mapsto> demo_cb]" demo_cb qpid_ref "''t1''" 0 0 "[0, 7, 7, 0]"]
  by (auto simp: demo_monitor_def demo_cb_def demo_srv_call_def qmap_count_def qmap_get_def userdata_of_def qpid_ref_def answer_args_def svc_calloc_def)

section \<open>From the call to the end of the child\<close>

lemma completed_request [simp]:
  "op_cb_data (completed p status i op) = op_cb_data op"
  "signo = 0 \<Longrightarrow> exit_of status = (signo, code) \<Longrightarrow> op_rc (completed p status i op) = code"
  by (simp_all add: completed_def Let_def finished_action_def)

text \<open>An action that was started for a call: its child is tracked, and its callback data is the object that
  holds the call.\<close>

definition awaits :: "service_qmf \<Rightarrow> int \<Rightarrow> nat \<Rightarrow> svc_action \<Rightarrow> SrvAsyncCB \<Rightarrow> bool" where
  "awaits s pid a op cb \<longleftrightarrow>
     (\<exists>p d. tracked (qs_svc s) pid = Some p \<and> ch_privatedata p = Some a \<and> svc_heap (qs_svc s) a = Some op \<and>
        op_callback (op_opaque op) = Some fn_mh_async_callback \<and> op_cb_data op = Some d \<and> qs_cbs s d = Some cb)"

lemma action_async_awaits:
  assumes inv: "svc_inv (qs_svc s)" and op: "svc_heap (qs_svc s) a = Some op" and idle: "idle (qs_svc s) a"
    and fk: "0 < ee_fork env" "tracked (qs_svc s) (ee_fork env) = None"
  obtains s1 op1 where "action_async env service ev (Some a) has_rc s = Some (([], True), s1)" "svc_inv (qs_svc s1)"
    "awaits s1 (ee_fork env) a op1
       \<lparr>scb_service = service, scb_event = ev, scb_has_rc = has_rc, scb_last_rc = 0, scb_first = True\<rparr>"
    "op_interval op1 = op_interval op" "svc_heap (qs_svc s1) = (svc_heap (qs_svc s))(a \<mapsto> op1)"
    "qs_cbs s1 = (qs_cbs s)(qs_next s \<mapsto>
       \<lparr>scb_service = service, scb_event = ev, scb_has_rc = has_rc, scb_last_rc = 0, scb_first = True\<rparr>)"
    "op_cb_data op1 = Some (qs_next s)" "\<And>p. tracked (qs_svc s1) (ee_fork env) = Some p \<Longrightarrow> \<not> ch_timeout p"
proof -
  let ?d = "qs_next s"
  let ?cb = "\<lparr>scb_service = service, scb_event = ev, scb_has_rc = has_rc, scb_last_rc = 0, scb_first = True\<rparr>"
  define op0 where "op0 = op\<lparr>op_cb_data := Some ?d\<rparr>"
  define v0 where "v0 = store a op0 (qs_svc s)"
  note D = svc_invD [OF inv]
  obtain k where k: "op_id op = Some k" using D(3) [OF op] by auto
  have h0: "svc_heap v0 a = Some op0" and k0: "op_id op0 = Some k" by (simp_all add: v0_def op0_def k)
  have tr: "tracked v0 = tracked (qs_svc s)" by (rule tracked_cong) (simp add: v0_def)
  have tm: "timer_of v0 = timer_of (qs_svc s)" by (simp add: timer_of_def fun_eq_iff v0_def)
  have idle0: "idle v0 a" using idle by (simp add: idle_def child_of_def tr tm)
  have fk0: "fork_ok env v0" using fk by (simp add: fork_ok_def tr)
  have inv0: "svc_inv v0" unfolding v0_def by (rule inv_store_same [OF inv op]) (simp_all add: op0_def)
  obtain op1 where h1: "svc_heap (async_setup a (Some fn_mh_async_callback) op0 v0) = (svc_heap v0)(a \<mapsto> op1)"
    and op1: "op_id op1 = Some k" "op_interval op1 = op_interval op" "op_cb_data op1 = Some ?d"
      "op_callback (op_opaque op1) = Some fn_mh_async_callback"
    using k0 by (auto simp: async_setup_def Let_def op0_def)
  let ?v1 = "async_setup a (Some fn_mh_async_callback) op0 v0"
  have "svc_heap ?v1 a = Some op1" by (simp add: h1)
  then obtain ok v2 where ex: "services_os_action_execute env a False ?v1 = Inr (ok, v2)"
    using execute_async_ok op1(1) by blast
  have run: "services_action_async (services_os_action_execute env) (Some a) (Some fn_mh_async_callback) v0 = Inr (ok, v2)"
    using services_action_async_eq [OF h0 k0] ex by simp
  have inv2: "svc_inv v2" by (rule inv_start [OF inv0 h0 idle0 fk0 run])
  obtain op2 c where e: "svc_heap v2 = (svc_heap ?v1)(a \<mapsto> op2)" "same_request op1 op2"
    "ch_privatedata c = Some a" "\<not> ch_timeout c" "\<forall>pid. tracked v2 pid = (if pid = \<bar>ee_fork env\<bar> then Some c else tracked ?v1 pid)"
    using execute_async_effect [OF \<open>svc_heap ?v1 a = Some op1\<close> ex] fk(1) by auto
  let ?s1 = "s\<lparr>qs_svc := v2, qs_cbs := (qs_cbs s)(?d \<mapsto> ?cb), qs_next := Suc ?d\<rparr>"
  show ?thesis
  proof (rule that [of ?s1 op2])
    show "action_async env service ev (Some a) has_rc s = Some (([], True), ?s1)"
      using run op by (simp add: action_async_def svc_simps Let_def v0_def op0_def)
    show "awaits ?s1 (ee_fork env) a op2 ?cb"
      using e op1 fk(1) by (auto simp: awaits_def same_request_def)
    show "svc_heap (qs_svc ?s1) = (svc_heap (qs_svc s))(a \<mapsto> op2)" by (simp add: e(1) h1) (simp add: v0_def)
    show "\<not> ch_timeout p" if "tracked (qs_svc ?s1) (ee_fork env) = Some p" for p using that e(4,5) fk(1) by simp
  qed (use e(2) op1 inv2 in \<open>simp_all add: same_request_def\<close>)
qed

lemma create_service_inv:
  assumes inv: "svc_inv v" and ne: "name \<noteq> []" "action \<noteq> []"
  shows "\<exists>op v'. services_action_create services_os_set_exec (\<lambda>k. True) (Some name) (Some action) 0 timeout v =
      Inr (Some (svc_next v), v') \<and> svc_heap v' = (svc_heap v)(svc_next v \<mapsto> op) \<and> op_interval op = 0 \<and> svc_inv v' \<and>
      idle v' (svc_next v) \<and> process_table v' = process_table v"
proof -
  have std: "strcasecmp ''lsb'' ''ocf'' \<and> \<not> mh_strlen_zero None \<or> strcasecmp ''lsb'' ''lsb'' \<or>
     strcasecmp ''lsb'' ''windows'' \<or> strcasecmp ''lsb'' ''systemd''" by simp
  obtain op v' where cr: "resources_action_create services_os_set_exec (\<lambda>k. True) (Some name) (Some ''lsb'') None (Some name)
      (Some action) 0 timeout None v = Inr (Some (svc_next v), v')" "svc_heap v' = (svc_heap v)(svc_next v \<mapsto> op)"
    "op_interval op = 0"
    using linux.create_known [OF ne(1,1,2) _ svc_invD(2) [OF inv] std, of "\<lambda>k. True" 0 timeout None] by auto
  have "svc_inv v'" by (rule inv_create [OF inv cr(1)])
  moreover have "process_table v' = process_table v" "ml_sources v' = ml_sources v"
    using create_effect [OF cr(1)] by simp_all
  ultimately show ?thesis using cr new_idle [OF inv] by (auto simp: services_action_create_def)
qed

text \<open>The timer of a child fires.\<close>

definition child_expires :: "id_source \<Rightarrow> (int \<Rightarrow> int option) \<Rightarrow> int \<Rightarrow> service_qmf \<Rightarrow> service_qmf" where
  "child_expires new_id kill_res pid s = s\<lparr>qs_svc := snd (child_timeout_callback new_id kill_res pid (qs_svc s))\<rparr>"

lemma child_expires_effect:
  assumes "svc_inv (qs_svc s)" "awaits s pid a op cb"
  obtains p where "tracked (qs_svc (child_expires new_id kill_res pid s)) pid = Some p" "ch_timeout p"
    "awaits (child_expires new_id kill_res pid s) pid a op cb" "svc_inv (qs_svc (child_expires new_id kill_res pid s))"
    "svc_heap (qs_svc (child_expires new_id kill_res pid s)) = svc_heap (qs_svc s)"
    "qs_cbs (child_expires new_id kill_res pid s) = qs_cbs s"
proof -
  obtain p where p: "tracked (qs_svc s) pid = Some p" using assms(2) by (auto simp: awaits_def)
  obtain j v where v: "snd (child_timeout_callback new_id kill_res pid (qs_svc s)) = v"
    "tracked v = (tracked (qs_svc s))(pid \<mapsto> p\<lparr>ch_timeout := True, ch_timerid := j\<rparr>)" "svc_heap v = svc_heap (qs_svc s)"
    using child_timeout_effect [OF p] by metis
  show ?thesis
    by (rule that [of "p\<lparr>ch_timeout := True, ch_timerid := j\<rparr>"])
      (use inv_child_timeout [OF assms(1), of new_id kill_res pid] assms(2) p v in \<open>auto simp: child_expires_def awaits_def\<close>)
qed

definition result_of :: "mainloop_child \<Rightarrow> int \<Rightarrow> int" where
  "result_of p status = (case exit_of status of (signo, code) \<Rightarrow>
     if signo = 0 then code else if ch_timeout p then OCF_TIMEOUT else OCF_SIGNAL)"

lemma completed_rc: "op_rc (completed (p\<lparr>ch_timerid := 0\<rparr>) status i op) = result_of p status"
  by (simp add: completed_def result_of_def finished_action_def Let_def split: prod.splits)

lemma awaits_answered:
  assumes inv: "svc_inv (qs_svc s)" and w: "awaits s pid a op cb" and p: "tracked (qs_svc s) pid = Some p"
    and cb: "scb_first cb" "scb_has_rc cb" "userdata_of cv (scb_event cb) = Some u" and once: "op_interval op = 0"
  obtains s' where "child_ends cv now new_id pid status p s =
      Some ([MethodSuccess (ev_id (scb_event cb)) (answer_args u (result_of p status))], s')"
    "svc_inv (qs_svc s')" "svc_heap (qs_svc s') = (svc_heap (qs_svc s))(a := None)"
    "qs_cbs s' = (qs_cbs s)(the (op_cb_data op) := None)"
proof -
  obtain d where op: "ch_privatedata p = Some a" "svc_heap (qs_svc s) a = Some op"
    "op_callback (op_opaque op) = Some fn_mh_async_callback" "op_cb_data op = Some d" "qs_cbs s d = Some cb"
    using w p by (auto simp: awaits_def)
  let ?v = "handle_child (operation_finished_cb new_id) pid status p (qs_svc s)"
  obtain i where i: "svc_called ?v = svc_called (qs_svc s) @ [(fn_mh_async_callback, completed (p\<lparr>ch_timerid := 0\<rparr>) status i op)]"
    "svc_heap ?v = (svc_heap (qs_svc s))(a := None)"
    using handle_child_effect [OF inv p, of new_id status] op once by auto
  let ?op = "completed (p\<lparr>ch_timerid := 0\<rparr>) status i op"
  have "mh_async_callback cv now ?op (qs_cbs s) =
      Some ([MethodSuccess (ev_id (scb_event cb)) (answer_args u (result_of p status))], ?op\<lparr>op_cb_data := None\<rparr>,
        (qs_cbs s)(d := None))"
    using op cb once by (simp add: mh_async_callback_def completed_rc userdata_of_def put_answer_args)
  then have "child_ends cv now new_id pid status p s =
      Some ([MethodSuccess (ev_id (scb_event cb)) (answer_args u (result_of p status))],
        s\<lparr>qs_svc := ?v, qs_cbs := (qs_cbs s)(d := None)\<rparr>)"
    by (simp add: child_ends_def i(1) Let_def)
  moreover have "svc_inv ?v" by (rule inv_handle_child [OF inv p])
  ultimately show ?thesis using that i(2) op(4) by simp
qed

text \<open>The end of the child of a call, after its timer has fired or before.\<close>

lemma awaits_end:
  assumes inv: "svc_inv (qs_svc s)" and w: "awaits s pid a op cb"
    and new: "\<And>p. tracked (qs_svc s) pid = Some p \<Longrightarrow> \<not> ch_timeout p"
    and cb: "scb_first cb" "scb_has_rc cb" "userdata_of cv (scb_event cb) = Some u" and once: "op_interval op = 0"
    and ex: "exit_of status = (signo, code)"
  shows "\<exists>st p s2. st = (if timed_out then child_expires new_id kill_res pid s else s) \<and> tracked (qs_svc st) pid = Some p \<and>
    child_ends cv now new_id pid status p st = Some ([MethodSuccess (ev_id (scb_event cb)) (answer_args u
      (if signo = 0 then code else if timed_out then OCF_TIMEOUT else OCF_SIGNAL))], s2) \<and>
    svc_inv (qs_svc s2) \<and> svc_heap (qs_svc s2) = (svc_heap (qs_svc s))(a := None) \<and>
    qs_cbs s2 = (qs_cbs s)(the (op_cb_data op) := None)"
proof -
  let ?st = "if timed_out then child_expires new_id kill_res pid s else s"
  obtain p where p: "tracked (qs_svc ?st) pid = Some p" "ch_timeout p = timed_out" and st: "awaits ?st pid a op cb" "svc_inv (qs_svc ?st)"
    "svc_heap (qs_svc ?st) = svc_heap (qs_svc s)" "qs_cbs ?st = qs_cbs s"
  proof (cases timed_out)
    case True
    obtain p where "tracked (qs_svc (child_expires new_id kill_res pid s)) pid = Some p" "ch_timeout p"
      "awaits (child_expires new_id kill_res pid s) pid a op cb" "svc_inv (qs_svc (child_expires new_id kill_res pid s))"
      "svc_heap (qs_svc (child_expires new_id kill_res pid s)) = svc_heap (qs_svc s)"
      "qs_cbs (child_expires new_id kill_res pid s) = qs_cbs s"
      using child_expires_effect [OF inv w, of new_id kill_res thesis] by blast
    then show ?thesis using that [of p] True by simp
  next
    case False
    obtain p where "tracked (qs_svc s) pid = Some p" using w by (auto simp: awaits_def)
    then show ?thesis using that [of p] new False inv w by simp
  qed
  obtain s2 where "child_ends cv now new_id pid status p ?st =
      Some ([MethodSuccess (ev_id (scb_event cb)) (answer_args u (result_of p status))], s2)" "svc_inv (qs_svc s2)"
    "svc_heap (qs_svc s2) = (svc_heap (qs_svc ?st))(a := None)" "qs_cbs s2 = (qs_cbs ?st)(the (op_cb_data op) := None)"
    using awaits_answered [OF st(2,1) p(1) cb once, of now new_id status] by blast
  then show ?thesis using p st(3,4) ex by (intro exI [of _ ?st] exI [of _ p] exI [of _ s2]) (simp add: result_of_def)
qed

lemma services_invoke_starts:
  assumes ev: "ev_type ev = AGENT_METHOD" "ev_addr ev = Some (DataAddr agent ''Services'')"
    "ev_method ev \<in> {''start'', ''stop'', ''status''}" "arg_cstr cv ''name'' ev = Some name"
    "as_int32 cv (qmap_get ''timeout'' (ev_args ev)) = Some timeout"
    and cr: "services_action_create services_os_set_exec (\<lambda>k. True) (Some name) (Some (ev_method ev)) 0
      (int_of_u32 timeout) (qs_svc s) = Inr (Some a, svc)"
  shows "SrvAgent_invoke cv env ev s = action_async (ae_exec env) SRV_SERVICES ev (Some a) True (s\<lparr>qs_svc := svc\<rparr>)"
  using assms by (auto simp: SrvAgent_invoke_def SrvAgent_invoke_services_def start_created_def)

text \<open>C2: Starting, stopping or querying a service over QMF is answered by the end of its child. For a call with a
  nonempty name, a timeout that is a number and a \<^verbatim>\<open>userdata\<close> (if any) that is a text, when \<^verbatim>\<open>fork\<close> gives a new child:
  the call returns without an answer and with its child tracked, and when that child ends, before or after
  its timer has fired, the agent sends exactly one answer to exactly this call, with the exit code of the
  child, or the code of a timeout if it was killed after its timer fired, or the code of a signal if it was
  killed before, and with the \<^verbatim>\<open>userdata\<close>. Nothing of the call is left behind: the actions and the callback
  objects are those from before the call. (When \<^verbatim>\<open>fork\<close> fails no answer is sent, see below.)\<close>

theorem service_call_end_to_end:
  assumes "ev_type ev = AGENT_METHOD" "ev_addr ev = Some (DataAddr agent ''Services'')"
    "ev_method ev \<in> {''start'', ''stop'', ''status''}" "arg_cstr cv ''name'' ev = Some name" "name \<noteq> []"
    "as_int32 cv (qmap_get ''timeout'' (ev_args ev)) = Some timeout" "userdata_of cv ev = Some u"
    and inv: "svc_inv (qs_svc s)" and fresh: "qs_cbs s (qs_next s) = None"
    and fk: "0 < ee_fork (ae_exec env)" "tracked (qs_svc s) (ee_fork (ae_exec env)) = None"
  shows "\<exists>s1. SrvAgent_invoke cv env ev s = Some (([], True), s1) \<and> svc_inv (qs_svc s1) \<and>
    (\<forall>now new_id kill_res timed_out status signo code. exit_of status = (signo, code) \<longrightarrow>
       (\<exists>st p s2. st = (if timed_out then child_expires new_id kill_res (ee_fork (ae_exec env)) s1 else s1) \<and>
        tracked (qs_svc st) (ee_fork (ae_exec env)) = Some p \<and>
        child_ends cv now new_id (ee_fork (ae_exec env)) status p st =
          Some ([MethodSuccess (ev_id ev) (answer_args u
             (if signo = 0 then code else if timed_out then OCF_TIMEOUT else OCF_SIGNAL))], s2) \<and>
        svc_inv (qs_svc s2) \<and> svc_heap (qs_svc s2) = svc_heap (qs_svc s) \<and> qs_cbs s2 = qs_cbs s))"
proof -
  let ?pid = "ee_fork (ae_exec env)" and ?v = "qs_svc s"
  let ?cb = "\<lparr>scb_service = SRV_SERVICES, scb_event = ev, scb_has_rc = True, scb_last_rc = 0, scb_first = True\<rparr>"
  have "ev_method ev \<noteq> []" using assms(3) by auto
  from create_service_inv [OF inv assms(5) this, of "int_of_u32 timeout"]
  obtain op svc where cr: "services_action_create services_os_set_exec (\<lambda>k. True) (Some name) (Some (ev_method ev)) 0
      (int_of_u32 timeout) ?v = Inr (Some (svc_next ?v), svc)" "svc_heap svc = (svc_heap ?v)(svc_next ?v \<mapsto> op)"
    "op_interval op = 0" "svc_inv svc" "idle svc (svc_next ?v)" "process_table svc = process_table ?v" by blast
  let ?s = "s\<lparr>qs_svc := svc\<rparr>"
  have "tracked svc ?pid = None" using fk(2) tracked_cong [OF cr(6)] by simp
  with cr fk(1) obtain s1 op1 where a: "action_async (ae_exec env) SRV_SERVICES ev (Some (svc_next ?v)) True ?s =
      Some (([], True), s1)" "svc_inv (qs_svc s1)" "awaits s1 ?pid (svc_next ?v) op1 ?cb" "op_interval op1 = 0"
    "svc_heap (qs_svc s1) = (svc_heap svc)(svc_next ?v \<mapsto> op1)" "qs_cbs s1 = (qs_cbs s)(qs_next s \<mapsto> ?cb)"
    "op_cb_data op1 = Some (qs_next s)" "\<And>p. tracked (qs_svc s1) ?pid = Some p \<Longrightarrow> \<not> ch_timeout p"
    using action_async_awaits [of ?s "svc_next ?v" op "ae_exec env" SRV_SERVICES ev True thesis] by auto
  have new: "svc_heap ?v (svc_next ?v) = None" using svc_invD(2) [OF inv] by (simp add: heap_ok_def)
  have heap: "(svc_heap (qs_svc s1))(svc_next ?v := None) = svc_heap ?v" using new by (auto simp: a(5) cr(2))
  have cbs: "(qs_cbs s1)(qs_next s := None) = qs_cbs s" using fresh by (auto simp: a(6))
  have cb: "scb_first ?cb" "scb_has_rc ?cb" "userdata_of cv (scb_event ?cb) = Some u" using assms(7) by simp_all
  have step: "\<exists>st p s2. st = (if timed_out then child_expires new_id kill_res ?pid s1 else s1) \<and>
      tracked (qs_svc st) ?pid = Some p \<and> child_ends cv now new_id ?pid status p st =
        Some ([MethodSuccess (ev_id ev) (answer_args u
          (if signo = 0 then code else if timed_out then OCF_TIMEOUT else OCF_SIGNAL))], s2) \<and>
      svc_inv (qs_svc s2) \<and> svc_heap (qs_svc s2) = svc_heap ?v \<and> qs_cbs s2 = qs_cbs s"
    if ex: "exit_of status = (signo, code)" for now new_id kill_res timed_out status signo code
  proof -
    obtain st p s2 where e: "st = (if timed_out then child_expires new_id kill_res ?pid s1 else s1)"
      "tracked (qs_svc st) ?pid = Some p"
      "child_ends cv now new_id ?pid status p st = Some ([MethodSuccess (ev_id (scb_event ?cb)) (answer_args u
        (if signo = 0 then code else if timed_out then OCF_TIMEOUT else OCF_SIGNAL))], s2)" "svc_inv (qs_svc s2)"
      "svc_heap (qs_svc s2) = (svc_heap (qs_svc s1))(svc_next ?v := None)"
      "qs_cbs s2 = (qs_cbs s1)(the (op_cb_data op1) := None)"
      using awaits_end [OF a(2,3,8) cb a(4) ex, of timed_out new_id kill_res now] by blast
    have "scb_event ?cb = ev" by simp
    note answer = e(3) [unfolded this]
    have "qs_cbs s2 = qs_cbs s" using e(6) cbs by (simp add: a(7))
    moreover have "svc_heap (qs_svc s2) = svc_heap ?v" by (rule trans [OF e(5) heap])
    ultimately show ?thesis using e(1,2,4) answer by blast
  qed
  have call: "SrvAgent_invoke cv env ev s = Some (([], True), s1)"
    by (simp only: services_invoke_starts [OF assms(1-4,6) cr(1)] a(1))
  show ?thesis by (rule exI [of _ s1], intro conjI allI impI) (rule call, rule a(2), rule step)
qed

definition sq_init :: service_qmf where
  "sq_init = \<lparr>qs_svc = svc_init, qs_cbs = Map.empty, qs_next = 0\<rparr>"

theorem service_call_end_to_end_witness:
  "\<exists>s1 p s2. SrvAgent_invoke qpid_ref demo_agent (demo_srv_call ''Services'' ''start'' [(''name'', VAR_STRING ''ntpd'')]) sq_init =
      Some (([], True), s1) \<and>
    child_ends qpid_ref 0 least_id 42 9 p (child_expires least_id (\<lambda>pid. None) 42 s1) =
      Some ([MethodSuccess 3 [(''rc'', var_rc OCF_TIMEOUT)]], s2) \<and> qs_cbs s2 = Map.empty"
proof -
  let ?ev = "demo_srv_call ''Services'' ''start'' [(''name'', VAR_STRING ''ntpd'')]"
  have ex: "exit_of 9 = (9, snd (exit_of 9))" by code_simp
  have ev: "ev_type ?ev = AGENT_METHOD" "ev_addr ?ev = Some (DataAddr ''service'' ''Services'')"
    "ev_method ?ev \<in> {''start'', ''stop'', ''status''}" "arg_cstr qpid_ref ''name'' ?ev = Some ''ntpd''"
    "as_int32 qpid_ref (qmap_get ''timeout'' (ev_args ?ev)) = Some 0" "userdata_of qpid_ref ?ev = Some []" "ev_id ?ev = 3"
    by (simp_all add: demo_srv_call_def arg_cstr_def qmap_get_def qmap_count_def userdata_of_def qpid_ref_def cstr_of_def NUL_def)
  have st: "svc_inv (qs_svc sq_init)" "qs_cbs sq_init = Map.empty" "tracked (qs_svc sq_init) 42 = None" "ee_fork (ae_exec demo_agent) = 42"
    using inv_init by (simp_all add: sq_init_def tracked_def demo_agent_def demo_env_def) (simp add: svc_init_def)
  have "(''ntpd'' :: string) \<noteq> []" by simp
  note r = service_call_end_to_end [OF ev(1-4) this ev(5,6) st(1), of demo_agent, unfolded st(4)]
  obtain s1 where s1: "SrvAgent_invoke qpid_ref demo_agent ?ev sq_init = Some (([], True), s1)"
    "\<And>now new_id kill_res timed_out status signo code. exit_of status = (signo, code) \<Longrightarrow>
       (\<exists>st p s2. st = (if timed_out then child_expires new_id kill_res 42 s1 else s1) \<and> tracked (qs_svc st) 42 = Some p \<and>
        child_ends qpid_ref now new_id 42 status p st = Some ([MethodSuccess (ev_id ?ev) (answer_args []
             (if signo = 0 then code else if timed_out then OCF_TIMEOUT else OCF_SIGNAL))], s2) \<and>
        svc_inv (qs_svc s2) \<and> svc_heap (qs_svc s2) = svc_heap (qs_svc sq_init) \<and> qs_cbs s2 = qs_cbs sq_init)"
    using r [OF _ _ st(3)] st(2) by auto
  from s1(1) s1(2) [OF ex, of True least_id "\<lambda>pid. None" 0] ev(7) st(2) show ?thesis by (auto simp: answer_args_def)
qed

text \<open>When \<^verbatim>\<open>fork\<close> fails the same call is never answered: the handler gives no answer, no child or timer
  refers to the new action, and the object that holds the call stays.\<close>

lemma fork_failure_unanswered:
  assumes inv: "svc_inv (qs_svc s)" and op: "svc_heap (qs_svc s) a = Some op" and idle: "idle (qs_svc s) a"
    and fk: "ee_fork env = - 1" and r: "action_async env service ev (Some a) has_rc s = Some ((out, again), s1)"
  shows "out = [] \<and> idle (qs_svc s1) a \<and> qs_cbs s1 (qs_next s) \<noteq> None"
proof -
  let ?op = "op\<lparr>op_cb_data := Some (qs_next s)\<rparr>"
  let ?v0 = "store a ?op (qs_svc s)"
  obtain k where k: "op_id ?op = Some k" using svc_invD(3) [OF inv op] by auto
  obtain op1 where h: "svc_heap (async_setup a (Some fn_mh_async_callback) ?op ?v0) a = Some op1"
    using async_setup_heap [of a "Some fn_mh_async_callback" ?op ?v0] by auto
  have h0: "svc_heap ?v0 a = Some ?op" by simp
  obtain ok v2 where ex: "services_os_action_execute env a False (async_setup a (Some fn_mh_async_callback) ?op ?v0) = Inr (ok, v2)"
    and s1: "out = []" "s1 = s\<lparr>qs_svc := v2, qs_cbs := (qs_cbs s)(qs_next s \<mapsto> \<lparr>scb_service = service, scb_event = ev,
      scb_has_rc = has_rc, scb_last_rc = 0, scb_first = True\<rparr>), qs_next := Suc (qs_next s)\<rparr>"
    using r op services_action_async_eq [OF h0 k, of "services_os_action_execute env" "Some fn_mh_async_callback"]
    by (auto simp: action_async_def svc_simps Let_def split: sum.splits)
  have tr: "tracked (async_setup a (Some fn_mh_async_callback) ?op ?v0) = tracked (qs_svc s)" by (rule tracked_cong) simp
  have "tracked v2 = tracked (async_setup a (Some fn_mh_async_callback) ?op ?v0)"
    using execute_async_effect [OF h ex] fk by (intro tracked_cong) auto
  moreover have "timer_of v2 i b \<Longrightarrow> timer_of (qs_svc s) i b" for i b
    using execute_async_effect [OF h ex] by (auto simp: timer_of_def)
  then have "\<not> timer_of v2 i a" for i using idle by (auto simp: idle_def)
  ultimately show ?thesis using idle by (auto simp: idle_def child_of_def tr s1)
qed

end
