(* ===== verification/Rpc_Qmf.thy ===== *)
theory Rpc_Qmf
  imports Mh_Agent Rpc
begin

text \<open>
  \<^verbatim>\<open>src/src/rpc/rpc-qmf.cpp\<close>: the agent that publishes each plugin of the theory Rpc as a managed object and runs
  the procedures that are called on it. The registry of objects is that of the theory Qmf; its reachable
  states are described first.

  \<open>ra_objs\<close> has the live objects of the class \<^verbatim>\<open>RPCPlugin\<close> by their pointers, \<open>ra_plugins\<close> is the map \<^verbatim>\<open>_plugins\<close>
  from names to them, \<open>ra_heap\<close> the heap that the calls of \<^verbatim>\<open>rpc.c\<close> use. A call whose creation fails leaves an
  uninitialised handle that is used all the same; that, an argument that is not a string, and the missing
  argument \<^verbatim>\<open>args\<close> or \<^verbatim>\<open>kwargs\<close> end the process (\<open>None\<close>).
\<close>

section \<open>Reachable registries\<close>

text \<open>An object is created, and added when it is not in the registry and removed when it is, any number of times. An
  addition may fail for an object that has never been published.\<close>

inductive om_reach :: "addr_source \<Rightarrow> (data_addr \<rightharpoonup> qmap) \<Rightarrow> nat set \<Rightarrow> object_manager \<Rightarrow> bool"
  for new_addr session where
  start: "om_reach new_addr session {} (ObjectManager session)"
| create: "om_reach new_addr session live om \<Longrightarrow> p \<notin> live \<Longrightarrow>
    om_reach new_addr session live (MatahariObject p schema om)"
| add: "om_reach new_addr session live om \<Longrightarrow> p \<notin> live \<Longrightarrow>
    new_addr (om_published om) (om_instance om p) = Some a \<Longrightarrow>
    om_reach new_addr session (insert p live) (ObjectManager_add new_addr p om)"
| add_failed: "om_reach new_addr session live om \<Longrightarrow> p \<notin> live \<Longrightarrow> om_addr om p = None \<Longrightarrow>
    new_addr (om_published om) (om_instance om p) = None \<Longrightarrow>
    om_reach new_addr session live (ObjectManager_add new_addr p om)"
| remove: "om_reach new_addr session live om \<Longrightarrow> p \<in> live \<Longrightarrow>
    om_reach new_addr session (live - {p}) (ObjectManager_remove p om)"

lemma om_reach_inv:
  assumes "om_reach new_addr session live om" "addr_fresh new_addr"
  shows "om_inv live om"
  using assms(1)
proof induction
  case start
  show ?case by (rule om_inv_init)
next
  case create
  then show ?case by (intro om_inv_new)
next
  case (add live om p a)
  then have "om_published om a = None" using assms(2) by (auto simp: addr_fresh_def)
  with add show ?case by (intro om_inv_add)
next
  case (add_failed live om p)
  then show ?case by (simp add: ObjectManager_add_def MatahariObject_publish_def)
next
  case remove
  then show ?case by (intro om_inv_remove)
qed

section \<open>Plugins as objects\<close>

definition PLUGIN_PACKAGE :: string where "PLUGIN_PACKAGE = ''org.matahariproject.rpc.plugin''"

record 'p RPCPlugin =
  rp_plugin :: "'p mh_rpc_plugin"
  rp_commands :: "string list"

record 'p RPCAgent =
  ra_om :: object_manager
  ra_plugins :: "(string \<times> nat) list"
  ra_objs :: "nat \<rightharpoonup> 'p RPCPlugin"
  ra_next :: nat
  ra_heap :: rpc_heap

text \<open>The constructor; \<open>methods\<close> are the names of the methods of the schema.\<close>

definition RPCPlugin_new ::
  "addr_source \<Rightarrow> string list \<Rightarrow> 'p mh_rpc_plugin \<Rightarrow> 'p RPCAgent \<Rightarrow> nat \<times> 'p RPCAgent" where
  "RPCPlugin_new new_addr methods plugin s =
     (let p = ra_next s
      in (p, s\<lparr>ra_objs := (ra_objs s)(p \<mapsto> \<lparr>rp_plugin = plugin, rp_commands = methods\<rparr>), ra_next := Suc p,
               ra_om := ObjectManager_add new_addr p (MatahariObject p [] (ra_om s))\<rparr>))"

definition RPCPlugin_delete :: "nat \<Rightarrow> 'p RPCAgent \<Rightarrow> 'p RPCAgent" where
  "RPCPlugin_delete p s = s\<lparr>ra_om := ObjectManager_remove p (ra_om s), ra_objs := (ra_objs s)(p := None)\<rparr>"

text \<open>The two loops that fill the call.\<close>

fun add_call_args :: "qpid_conv \<Rightarrow> qvariant list \<Rightarrow> mh_rpc \<Rightarrow> rpc_heap \<Rightarrow> (mh_rpc \<times> rpc_heap) option" where
  "add_call_args cv [] call h = Some (call, h)"
| "add_call_args cv (v # vs) call h =
     Option.bind (as_string cv v) (\<lambda>arg.
       case mh_rpc_call_add_arg call (cstr_of arg) h of ((_, call'), h') \<Rightarrow> add_call_args cv vs call' h')"

fun add_call_kwargs :: "qpid_conv \<Rightarrow> qmap \<Rightarrow> mh_rpc \<Rightarrow> rpc_heap \<Rightarrow> (mh_rpc \<times> rpc_heap) option" where
  "add_call_kwargs cv [] call h = Some (call, h)"
| "add_call_kwargs cv ((k, v) # m) call h =
     Option.bind (as_string cv v) (\<lambda>arg.
       case mh_rpc_call_add_kw_arg call (cstr_of k) (cstr_of arg) h of ((_, call'), h') \<Rightarrow> add_call_kwargs cv m call' h')"

text \<open>What the plugin gave, as an answer to the call; \<open>None\<close> is a NULL part of an exception.\<close>

definition send_output :: "agent_event \<Rightarrow> mh_result \<Rightarrow> mh_rpc_result \<Rightarrow> qmf_output option" where
  "send_output ev result output =
     (if result \<noteq> MH_RES_SUCCESS then Some (RaiseException (ev_id ev) (mh_result_to_str (mh_result_code result)))
      else case out_result output of
             Some t \<Rightarrow> Some (MethodSuccess (ev_id ev) [(''result'', VAR_STRING t)])
           | None \<Rightarrow>
               Option.bind (out_exc_type output) (\<lambda>ty.
               Option.bind (out_exc_value output) (\<lambda>val.
               Option.bind (out_exc_traceback output) (\<lambda>tb.
                 Some (RaiseExceptionData (ev_id ev)
                   (qmap_put ''traceback'' (VAR_STRING tb) (qmap_put ''value'' (VAR_STRING val)
                     (qmap_put ''type'' (VAR_STRING ty) []))))))))"

text \<open>The texts of \<open>output\<close> are copies that the plugin's backend has allocated for the caller. After the call they are
  freed: the result, or the parts of the exception.\<close>

definition output_texts :: "mh_rpc_result \<Rightarrow> block multiset" where
  "output_texts output = mset (List.map_filter (map_option Text_block)
     [out_result output, out_exc_type output, out_exc_value output, out_exc_traceback output])"

definition hold_output :: "mh_rpc_result \<Rightarrow> rpc_heap \<Rightarrow> rpc_heap" where
  "hold_output output h = h\<lparr>rh_blocks := rh_blocks h + output_texts output\<rparr>"

definition free_output :: "mh_result \<Rightarrow> mh_rpc_result \<Rightarrow> rpc_heap \<Rightarrow> rpc_heap" where
  "free_output result output h =
     (if result \<noteq> MH_RES_SUCCESS then h
      else if out_result output \<noteq> None then rpc_free_text (out_result output) h
      else rpc_free_text (out_exc_traceback output) (rpc_free_text (out_exc_value output) (rpc_free_text (out_exc_type output) h)))"

definition RPCPlugin_invoke :: "qpid_conv \<Rightarrow> 'p py_env \<Rightarrow> nat \<Rightarrow> 'p RPCAgent qmf_handler" where
  "RPCPlugin_invoke cv env p ev s =
     Option.bind (ra_objs s p) (\<lambda>obj.
       if ev_type ev \<noteq> AGENT_METHOD then Some (([], True), s)
       else if ev_method ev \<notin> set (rp_commands obj) then Some (([], False), s)
       else case mh_rpc_call_create (cstr_of (ev_method ev)) (ra_heap s) of
              ((_, None), h) \<Rightarrow> None
            | ((_, Some call), h) \<Rightarrow>
                Option.bind (as_list cv (qmap_get ''args'' (ev_args ev))) (\<lambda>arglist.
                Option.bind (add_call_args cv arglist call h) (\<lambda>(call1, h1).
                Option.bind (as_map cv (qmap_get ''kwargs'' (ev_args ev))) (\<lambda>argmap.
                Option.bind (add_call_kwargs cv argmap call1 h1) (\<lambda>(call2, h2).
                Option.bind (mh_rpc_invoke env (rp_plugin obj) call2) (\<lambda>(result, output).
                Option.bind (send_output ev result output) (\<lambda>out.
                  Some (([out], True),
                    s\<lparr>ra_heap := free_output result output (snd (mh_rpc_call_destroy call2 (hold_output output h2)))\<rparr>))))))))"

section \<open>The agent\<close>

definition RPCAgent_invoke :: "qpid_conv \<Rightarrow> 'p py_env \<Rightarrow> 'p RPCAgent qmf_handler" where
  "RPCAgent_invoke cv env ev s =
     (case ObjectManager_invoke (RPCPlugin_invoke cv env) (ra_om s) ev s of
        None \<Rightarrow> None
      | Some ((out, handled), s') \<Rightarrow>
          Some ((if handled then out
                 else out @ [RaiseException (ev_id ev) (mh_result_to_str (mh_result_code MH_RES_NOT_IMPLEMENTED))], True), s'))"

text \<open>The methods of the schema: the procedures of the plugin up to the first NULL, none if they cannot be
  listed.\<close>

definition plugin_methods :: "'p py_env \<Rightarrow> (nat \<Rightarrow> cptr) \<Rightarrow> 'p mh_rpc_plugin \<Rightarrow> string list" where
  "plugin_methods env uninit plugin =
     (case mh_rpc_get_procedures env uninit plugin of None \<Rightarrow> [] | Some procs \<Rightarrow> c_strings procs)"

definition RPCAgent_addPlugin ::
  "'p py_env \<Rightarrow> (nat \<Rightarrow> cptr) \<Rightarrow> addr_source \<Rightarrow> 'p mh_rpc_plugin \<Rightarrow> agent_session \<times> 'p RPCAgent \<Rightarrow> agent_session \<times> 'p RPCAgent" where
  "RPCAgent_addPlugin env uninit new_addr plugin st =
     (case st of (session, s) \<Rightarrow>
        (let methods = plugin_methods env uninit plugin
         in case RPCPlugin_new new_addr methods plugin s of (p, s1) \<Rightarrow>
              (session\<lparr>ss_schemas := ss_schemas session @ [PLUGIN_PACKAGE @ '':'' @ pl_name plugin]\<rparr>,
               s1\<lparr>ra_plugins := qmap_put (pl_name plugin) p (ra_plugins s1)\<rparr>)))"

definition RPCAgent_setup ::
  "'p py_env \<Rightarrow> (nat \<Rightarrow> cptr) \<Rightarrow> addr_source \<Rightarrow> rpc_state \<Rightarrow> (data_addr \<rightharpoonup> qmap) \<Rightarrow> agent_session \<Rightarrow> 'p RPCAgent
   \<Rightarrow> int \<times> agent_session \<times> 'p RPCAgent" where
  "RPCAgent_setup env uninit new_addr rs published session s =
     (let session1 = session\<lparr>ss_schemas := ss_schemas session @ [''org.matahariproject.rpc'']\<rparr>;
          s1 = s\<lparr>ra_om := ObjectManager published\<rparr>
      in case mh_rpc_load_plugins env rs [] of (rc, plugins) \<Rightarrow>
           if rc \<noteq> 0 then (1, session1, s1)
           else (0, fold (RPCAgent_addPlugin env uninit new_addr) plugins (session1, s1)))"

text \<open>The destructor deletes the objects the map names.\<close>

definition RPCAgent_delete :: "'p RPCAgent \<Rightarrow> 'p RPCAgent" where
  "RPCAgent_delete s = fold (\<lambda>(_, p). RPCPlugin_delete p) (ra_plugins s) s"

section \<open>Lemmas\<close>

lemma ObjectManager_invoke_cases:
  "ObjectManager_invoke h om ev w = Some ((out, handled), w') \<Longrightarrow>
     out = [] \<and> \<not> handled \<and> w' = w \<or> (\<exists>p. h p ev w = Some ((out, handled), w'))"
  by (auto simp: ObjectManager_invoke_def split: option.splits)

lemma RPCPlugin_invoke_answers:
  assumes "ev_type ev = AGENT_METHOD" "RPCPlugin_invoke cv env p ev s = Some ((out, handled), s')"
  shows "List.map_filter answers out = (if handled then [ev_id ev] else [])"
  using assms
  by (auto simp: RPCPlugin_invoke_def send_output_def List.map_filter_simps
      split: if_splits option.splits prod.splits bind_splits)

interpretation rpcagent: qmf_sync_agent "RPCAgent_invoke cv env"
proof
  fix ev s out again s'
  assume r: "RPCAgent_invoke cv env ev s = Some ((out, again), s')"
  then show "again" by (auto simp: RPCAgent_invoke_def split: option.splits)
  assume "ev_type ev = AGENT_METHOD"
  then show "List.map_filter answers out = [ev_id ev]"
    using r RPCPlugin_invoke_answers
    by (fastforce simp: RPCAgent_invoke_def map_filter_append split: option.splits if_splits
        dest: ObjectManager_invoke_cases)
qed

text \<open>After \<open>setup\<close> every object is in the registry.\<close>

definition rpc_inv :: "'p RPCAgent \<Rightarrow> bool" where
  "rpc_inv s \<longleftrightarrow> om_inv (dom (ra_objs s)) (ra_om s) \<and> (\<forall>p \<ge> ra_next s. ra_objs s p = None) \<and>
     finite (dom (om_published (ra_om s)))"

definition addr_total :: "addr_source \<Rightarrow> bool" where
  "addr_total new_addr \<longleftrightarrow> (\<forall>pub d. finite (dom pub) \<longrightarrow> new_addr pub d \<noteq> None)"

lemma addPlugin_inv:
  assumes inv: "rpc_inv s" and ad: "addr_fresh new_addr" "addr_total new_addr"
    and r: "RPCAgent_addPlugin env uninit new_addr plugin (session, s) = (session', s')"
  shows "rpc_inv s' \<and> ra_heap s' = ra_heap s \<and> (\<exists>p methods. p \<notin> dom (ra_objs s) \<and>
    ra_objs s' = (ra_objs s)(p \<mapsto> \<lparr>rp_plugin = plugin, rp_commands = methods\<rparr>) \<and>
    methods = plugin_methods env uninit plugin)"
proof -
  let ?p = "ra_next s" and ?om = "MatahariObject (ra_next s) [] (ra_om s)"
  have new: "?p \<notin> dom (ra_objs s)" using inv by (auto simp: rpc_inv_def)
  obtain a where a: "new_addr (om_published ?om) (om_instance ?om ?p) = Some a"
    using ad(2) inv unfolding addr_total_def by (fastforce simp: rpc_inv_def MatahariObject_def)
  then have "om_published ?om a = None" using ad(1) by (auto simp: addr_fresh_def)
  then have "om_inv (insert ?p (dom (ra_objs s))) (ObjectManager_add new_addr ?p ?om)"
    using inv new a by (intro om_inv_add om_inv_new) (auto simp: rpc_inv_def)
  moreover have "finite (dom (om_published (ObjectManager_add new_addr ?p ?om)))"
    using inv a by (simp add: ObjectManager_add_def MatahariObject_publish_def MatahariObject_def rpc_inv_def)
  ultimately show ?thesis
    using r inv new by (auto simp: RPCAgent_addPlugin_def RPCPlugin_new_def rpc_inv_def Let_def)
qed

lemma addPlugins_reg:
  assumes ad: "addr_fresh new_addr" "addr_total new_addr" and inv: "rpc_inv s"
    and r: "fold (RPCAgent_addPlugin env uninit new_addr) plugins (session, s) = (session', s')"
  shows "rpc_inv s' \<and> ra_heap s' = ra_heap s \<and> ra_objs s \<subseteq>\<^sub>m ra_objs s' \<and>
    (\<forall>plugin \<in> set plugins. \<exists>p obj. ra_objs s' p = Some obj \<and> rp_plugin obj = plugin \<and>
       rp_commands obj = plugin_methods env uninit plugin)"
  using inv r
proof (induction plugins arbitrary: session s)
  case (Cons plugin plugins)
  obtain session1 s1 where st: "RPCAgent_addPlugin env uninit new_addr plugin (session, s) = (session1, s1)" by fastforce
  from addPlugin_inv [OF Cons.prems(1) ad st] obtain p where p: "rpc_inv s1" "ra_heap s1 = ra_heap s" "p \<notin> dom (ra_objs s)"
    "ra_objs s1 = (ra_objs s)(p \<mapsto> \<lparr>rp_plugin = plugin,
       rp_commands = plugin_methods env uninit plugin\<rparr>)"
    by blast
  have "fold (RPCAgent_addPlugin env uninit new_addr) plugins (session1, s1) = (session', s')"
    using Cons.prems(2) st by simp
  note ih = Cons.IH [OF p(1) this]
  have "ra_objs s \<subseteq>\<^sub>m ra_objs s1" using p(3,4) by (auto simp: map_le_def)
  with ih have sub: "ra_objs s \<subseteq>\<^sub>m ra_objs s'" by (blast intro: map_le_trans)
  have "p \<in> dom (ra_objs s1)" by (simp add: p(4))
  then have "ra_objs s' p = ra_objs s1 p" using ih by (metis map_le_def)
  then have "\<exists>p obj. ra_objs s' p = Some obj \<and> rp_plugin obj = plugin \<and> rp_commands obj = plugin_methods env uninit plugin"
    by (intro exI [of _ p] exI [of _ "\<lparr>rp_plugin = plugin, rp_commands = plugin_methods env uninit plugin\<rparr>"]) (simp add: p(4))
  then show ?case using ih p(2) sub by (simp only: list.set ball_simps) simp
qed simp

lemma rpc_build_append:
  "rpc_build (xs @ ys) call h = (case rpc_build xs call h of (call', h') \<Rightarrow> rpc_build ys call' h')"
  by (induction xs arbitrary: call h) (auto split: prod.splits)

lemma add_call_args_build:
  "conv_ok cv \<Longrightarrow> add_call_args cv (map VAR_STRING xs) call h = Some (rpc_build (map (\<lambda>x. Add_arg (cstr_of x)) xs) call h)"
  by (induction xs arbitrary: call h) (auto simp: conv_okD split: prod.splits)

lemma add_call_kwargs_build:
  "conv_ok cv \<Longrightarrow> add_call_kwargs cv (map (\<lambda>(k, t). (k, VAR_STRING t)) m) call h =
     Some (rpc_build (map (\<lambda>(k, t). Add_kw_arg (cstr_of k) (cstr_of t)) m) call h)"
  by (induction m arbitrary: call h) (auto simp: conv_okD split: prod.splits)

definition call_ops :: "string list \<Rightarrow> (string \<times> string) list \<Rightarrow> rpc_op list" where
  "call_ops xs m = map (\<lambda>x. Add_arg (cstr_of x)) xs @ map (\<lambda>(k, t). Add_kw_arg (cstr_of k) (cstr_of t)) m"

lemma call_ops_args:
  "plain_args (call_ops xs m) = map cstr_of xs" "keyword_args (call_ops xs m) = map (\<lambda>(k, t). (Some (cstr_of k), cstr_of t)) m"
proof -
  have "plain_args (map (\<lambda>(k, t). Add_kw_arg (cstr_of k) (cstr_of t)) m) = []"
    "keyword_args (map (\<lambda>(k, t). Add_kw_arg (cstr_of k) (cstr_of t)) m) = map (\<lambda>(k, t). (Some (cstr_of k), cstr_of t)) m"
    by (induction m) auto
  then show "plain_args (call_ops xs m) = map cstr_of xs"
    "keyword_args (call_ops xs m) = map (\<lambda>(k, t). (Some (cstr_of k), cstr_of t)) m"
    by (induction xs) (auto simp: call_ops_def)
qed

text \<open>Whatever the plugin did, the texts it gave are freed.\<close>

lemma free_output_blocks:
  assumes "rpc_outcome env answer = Some (result, output)" "rh_blocks h = B + output_texts output"
  shows "rh_blocks (free_output result output h) = B"
  using assms
  by (auto simp: rpc_outcome_def encode_exception_def empty_result_def free_output_def output_texts_def rpc_free_text_def
      List.map_filter_simps Let_def add_mset_commute split: sum.splits option.splits if_splits)

text \<open>A call on a registered object, when no allocation fails.\<close>

lemma RPCPlugin_invoke_runs:
  assumes cv: "conv_ok cv" and obj: "ra_objs s p = Some obj" "pl_type (rp_plugin obj) = MH_RPC_PYTHON"
    and ev: "ev_type ev = AGENT_METHOD" "ev_method ev \<in> set (rp_commands obj)"
      "qmap_get ''args'' (ev_args ev) = VAR_LIST (map VAR_STRING xs)"
      "qmap_get ''kwargs'' (ev_args ev) = VAR_MAP (map (\<lambda>(k, t). (k, VAR_STRING t)) m)"
    and ok: "no_failures (ra_heap s)" "py_tuple_new env 0" "py_tuple_new env 1"
    and answer: "answer = py_call env (pl_impl (rp_plugin obj)) (cstr_of (ev_method ev)) (map cstr_of xs)
        (map (\<lambda>(k, t). (Some (cstr_of k), cstr_of t)) m)"
  shows "\<exists>hs. RPCPlugin_invoke cv env p ev s =
    Option.bind (rpc_outcome env answer) (\<lambda>(result, output). Option.bind (send_output ev result output)
      (\<lambda>out. Some (([out], True), s\<lparr>ra_heap := hs result output\<rparr>))) \<and>
    (\<forall>result output. rpc_outcome env answer = Some (result, output) \<longrightarrow> rh_blocks (hs result output) = rh_blocks (ra_heap s))"
proof -
  let ?call = "\<lparr>procedure = cstr_of (ev_method ev), rpc_args = [], rpc_kwargs = []\<rparr>"
  obtain h1 where cr: "mh_rpc_call_create (cstr_of (ev_method ev)) (ra_heap s) = ((0, Some ?call), h1)" "no_failures h1"
    using ok(1) by (auto simp: mh_rpc_call_create_def no_failures_def rpc_malloc_def next_alloc_def)
  have own: "rh_blocks h1 = rh_blocks (ra_heap s) + owned ?call" using call_create_cases [OF cr(1)] by simp
  obtain call' h2 where b: "rpc_build (call_ops xs m) ?call h1 = (call', h2)" by fastforce
  obtain c1 hh where b1: "rpc_build (map (\<lambda>x. Add_arg (cstr_of x)) xs) ?call h1 = (c1, hh)" by fastforce
  have b2: "rpc_build (map (\<lambda>(k, t). Add_kw_arg (cstr_of k) (cstr_of t)) m) c1 hh = (call', h2)"
    using b b1 by (simp add: call_ops_def rpc_build_append)
  have run: "mh_rpc_invoke env (rp_plugin obj) call' = rpc_outcome env answer"
    using rpc_build_no_failures [OF cr(2) b] ok(2,3)
    by (simp add: mh_rpc_invoke_python [OF obj(2)] python_invoke_outcome call_ops_args answer)
  let ?hs = "\<lambda>result output. free_output result output (snd (mh_rpc_call_destroy call' (hold_output output h2)))"
  have inv: "RPCPlugin_invoke cv env p ev s = Option.bind (rpc_outcome env answer)
      (\<lambda>(result, output). Option.bind (send_output ev result output) (\<lambda>out. Some (([out], True), s\<lparr>ra_heap := ?hs result output\<rparr>)))"
    unfolding run [symmetric] using ev obj
    by (simp add: RPCPlugin_invoke_def cr(1) conv_okD [OF cv] add_call_args_build [OF cv] b1 add_call_kwargs_build [OF cv] b2)
  have "rh_blocks (?hs res out) = rh_blocks (ra_heap s)" if r: "rpc_outcome env answer = Some (res, out)" for res out
  proof -
    have "rh_blocks (hold_output out h2) = (rh_blocks (ra_heap s) + output_texts out) + owned call'"
      using rpc_call.run_keeps [OF b own] by (simp add: hold_output_def)
    from call_destroy_owned [OF this] show ?thesis by (intro free_output_blocks [OF r]) simp
  qed
  with inv show ?thesis by (intro exI [of _ ?hs]) simp
qed

section \<open>Properties\<close>

text \<open>C19: In every state that objects can reach by being created, added to and removed from the registry, in
  any order, also again after they were removed, and with additions failing of objects that have not been
  published before, the registry finds exactly the objects that were added and not removed, each under its own address only, and each of them is what the session publishes there. A
  call goes to the object whose address it names, and to no object if that one was removed.\<close>

theorem object_registry_reachable:
  assumes "om_reach new_addr session live om" "addr_fresh new_addr"
  shows "(\<forall>a p. om_objects om a = Some p \<longleftrightarrow> p \<in> live \<and> om_addr om p = Some a) \<and>
    (\<forall>p \<in> live. \<exists>a. om_addr om p = Some a \<and> om_published om a = Some (om_instance om p) \<and>
       (\<forall>h ev w. ev_addr ev = Some a \<longrightarrow> ObjectManager_invoke h om ev w = h p ev w)) \<and>
    (\<forall>h ev w. (\<forall>p \<in> live. om_addr om p \<noteq> ev_addr ev) \<longrightarrow> ObjectManager_invoke h om ev w = Some (([], False), w))"
proof -
  have inv: "om_inv live om" by (rule om_reach_inv [OF assms])
  then have reg: "om_objects om a = Some p \<longleftrightarrow> p \<in> live \<and> om_addr om p = Some a" for a p
    by (simp add: om_inv_def)
  have pub: "om_published om a = Some (om_instance om p)" if "om_objects om a = Some p" for a p
    using inv that unfolding om_inv_def by blast
  show ?thesis
  proof (intro conjI allI ballI impI)
    fix p
    assume p: "p \<in> live"
    then obtain a where a: "om_addr om p = Some a" using inv by (auto simp: om_inv_def)
    with p reg have "om_objects om a = Some p" by blast
    then show "\<exists>a. om_addr om p = Some a \<and> om_published om a = Some (om_instance om p) \<and>
       (\<forall>h ev w. ev_addr ev = Some a \<longrightarrow> ObjectManager_invoke h om ev w = h p ev w)"
      using a pub by (simp add: ObjectManager_invoke_def ObjectManagerImpl_find_def)
  next
    fix h and ev :: agent_event and w :: 'b
    assume none: "\<forall>p \<in> live. om_addr om p \<noteq> ev_addr ev"
    show "ObjectManager_invoke h om ev w = Some (([], False), w)"
    proof (cases "ev_addr ev")
      case (Some a)
      with none reg have "om_objects om a = None" by (metis not_None_eq)
      with Some show ?thesis by (simp add: ObjectManager_invoke_def ObjectManagerImpl_find_def)
    qed (simp add: ObjectManager_invoke_def)
  qed (use reg in simp_all)
qed

text \<open>An object that was removed keeps its old address. If it is added again and that fails, it is found there
  although the session does not publish it.\<close>

lemma failed_readd_is_found:
  assumes "om_inv live om" "p \<in> live" "om_addr om p = Some a"
    and "new_addr (om_published (ObjectManager_remove p om)) (om_instance om p) = None"
  shows "om_objects (ObjectManager_add new_addr p (ObjectManager_remove p om)) a = Some p \<and>
    om_published (ObjectManager_add new_addr p (ObjectManager_remove p om)) a = None"
  using assms by (simp add: ObjectManager_add_def MatahariObject_publish_def ObjectManager_remove_def MatahariObject_withdraw_def)

text \<open>A source with two addresses.\<close>

definition demo_addr :: addr_source where
  "demo_addr pub d = (if pub (DataAddr ''rpc'' ''a'') = None then Some (DataAddr ''rpc'' ''a'')
     else if pub (DataAddr ''rpc'' ''b'') = None then Some (DataAddr ''rpc'' ''b'') else None)"

lemma demo_addr_fresh: "addr_fresh demo_addr"
  by (auto simp: addr_fresh_def demo_addr_def)

theorem object_registry_reachable_witness:
  "\<exists>om. om_reach demo_addr Map.empty {4} om \<and> om_objects om (DataAddr ''rpc'' ''a'') = Some 4"
proof -
  define om where "om = MatahariObject 4 [] (ObjectManager Map.empty)"
  define om2 where "om2 = ObjectManager_remove 4 (ObjectManager_add demo_addr 4 om)"
  have a: "demo_addr (om_published om) (om_instance om 4) = Some (DataAddr ''rpc'' ''a'')"
    by (simp add: om_def MatahariObject_def ObjectManager_def demo_addr_def)
  have a2: "demo_addr (om_published om2) (om_instance om2 4) = Some (DataAddr ''rpc'' ''a'')"
    using a by (simp add: om2_def ObjectManager_add_def MatahariObject_publish_def ObjectManager_remove_def
        MatahariObject_withdraw_def demo_addr_def split: if_splits)
  have "om_reach demo_addr Map.empty {} om" unfolding om_def by (rule om_reach.create [OF om_reach.start]) simp
  then have "om_reach demo_addr Map.empty {4} (ObjectManager_add demo_addr 4 om)"
    using om_reach.add [of demo_addr Map.empty "{}" om 4 "DataAddr ''rpc'' ''a''"] a by simp
  from om_reach.remove [OF this, of 4] have "om_reach demo_addr Map.empty {} om2" by (simp add: om2_def)
  then have r: "om_reach demo_addr Map.empty {4} (ObjectManager_add demo_addr 4 om2)"
    using om_reach.add [of demo_addr Map.empty "{}" om2 4 "DataAddr ''rpc'' ''a''"] a2 by simp
  have "om_addr (ObjectManager_add demo_addr 4 om2) 4 = Some (DataAddr ''rpc'' ''a'')"
    by (simp add: ObjectManager_add_def MatahariObject_publish_def a2)
  with conjunct1 [OF object_registry_reachable [OF r demo_addr_fresh]]
  have "om_objects (ObjectManager_add demo_addr 4 om2) (DataAddr ''rpc'' ''a'') = Some 4" by simp
  with r show ?thesis by blast
qed

text \<open>C15: A remote procedure call over the bus, from the start of the agent: every plugin that was loaded has an
  address, and a call of one of its procedures there, with any string arguments and keyword arguments,
  runs this procedure of this plugin with them and is answered with the string it returns. However the procedure
  ends, if the call is answered, then everything that was allocated for the call and for its result is
  freed again. A call of any other method there is answered with an error and runs nothing. It is assumed
  that the session gives every object that is added a new address, and that no allocation fails.\<close>

theorem rpc_call_end_to_end:
  assumes "conv_ok cv" "addr_fresh new_addr" "addr_total new_addr"
    and "RPCAgent_setup env uninit new_addr rs published session s = (0, session', s1)" "finite (dom published)"
    and "ra_objs s = Map.empty" "no_failures (ra_heap s)" "py_tuple_new env 0" "py_tuple_new env 1"
    and "plugin \<in> set (snd (mh_rpc_load_plugins env rs []))"
  shows "\<exists>a. \<forall>ev. ev_type ev = AGENT_METHOD \<and> ev_addr ev = Some a \<longrightarrow>
    (ev_method ev \<notin> set (plugin_methods env uninit plugin) \<longrightarrow>
       RPCAgent_invoke cv env ev s1 = Some (([RaiseException (ev_id ev) ''Not implemented''], True), s1)) \<and>
    (\<forall>xs m answer. ev_method ev \<in> set (plugin_methods env uninit plugin) \<and>
       qmap_get ''args'' (ev_args ev) = VAR_LIST (map VAR_STRING xs) \<and>
       qmap_get ''kwargs'' (ev_args ev) = VAR_MAP (map (\<lambda>(k, t). (k, VAR_STRING t)) m) \<and>
       py_call env (pl_impl plugin) (cstr_of (ev_method ev)) (map cstr_of xs)
         (map (\<lambda>(k, t). (Some (cstr_of k), cstr_of t)) m) = answer \<longrightarrow>
       (\<forall>t. answer = Inr (Some t) \<longrightarrow> (\<exists>s2. RPCAgent_invoke cv env ev s1 =
          Some (([MethodSuccess (ev_id ev) [(''result'', VAR_STRING t)]], True), s2))) \<and>
       (\<forall>r s2. RPCAgent_invoke cv env ev s1 = Some (r, s2) \<longrightarrow>
          (\<exists>h. s2 = s1\<lparr>ra_heap := h\<rparr> \<and> rh_blocks h = rh_blocks (ra_heap s1))))"
proof -
  let ?s = "s\<lparr>ra_om := ObjectManager published\<rparr>"
  obtain plugins where load: "mh_rpc_load_plugins env rs [] = (0, plugins)" by (simp add: mh_rpc_load_plugins_eq)
  obtain ss where f: "fold (RPCAgent_addPlugin env uninit new_addr) plugins (ss, ?s) = (session', s1)"
    using assms(4) by (simp add: RPCAgent_setup_def Let_def load)
  have "rpc_inv ?s" using assms(5,6) om_inv_init by (simp add: rpc_inv_def ObjectManager_def)
  from addPlugins_reg [OF assms(2,3) this f] assms(10) load
  obtain p obj where reg: "rpc_inv s1" "ra_heap s1 = ra_heap s" "ra_objs s1 p = Some obj" "rp_plugin obj = plugin"
    "rp_commands obj = plugin_methods env uninit plugin" by auto
  obtain a where a: "om_objects (ra_om s1) a = Some p"
    using reg(1,3) by (auto simp: rpc_inv_def om_inv_def dom_def)
  have to: "ObjectManager_invoke h (ra_om s1) ev w = h p ev w" if "ev_addr ev = Some a"
    for h :: "nat \<Rightarrow> 'a RPCAgent qmf_handler" and ev w
    using that a by (simp add: ObjectManager_invoke_def ObjectManagerImpl_find_def)
  show ?thesis
  proof (rule exI [of _ a], intro allI impI conjI)
    fix ev :: agent_event
    assume ev: "ev_type ev = AGENT_METHOD \<and> ev_addr ev = Some a"
    show "RPCAgent_invoke cv env ev s1 = Some (([RaiseException (ev_id ev) ''Not implemented''], True), s1)"
      if "ev_method ev \<notin> set (plugin_methods env uninit plugin)"
      using that ev reg(3-5) by (simp add: RPCAgent_invoke_def to RPCPlugin_invoke_def mh_result_to_str_def)
    fix xs m answer
    assume call: "ev_method ev \<in> set (plugin_methods env uninit plugin) \<and>
       qmap_get ''args'' (ev_args ev) = VAR_LIST (map VAR_STRING xs) \<and>
       qmap_get ''kwargs'' (ev_args ev) = VAR_MAP (map (\<lambda>(k, t). (k, VAR_STRING t)) m) \<and>
       py_call env (pl_impl plugin) (cstr_of (ev_method ev)) (map cstr_of xs)
         (map (\<lambda>(k, t). (Some (cstr_of k), cstr_of t)) m) = answer"
    have "pl_type (rp_plugin obj) = MH_RPC_PYTHON" using loaded_is_python [OF assms(10)] reg(4) by simp
    from RPCPlugin_invoke_runs [OF assms(1) reg(3) this, of ev xs m env answer] call ev assms(7-9) reg(2,4,5)
    obtain hs where hs: "RPCPlugin_invoke cv env p ev s1 =
        Option.bind (rpc_outcome env answer) (\<lambda>(result, output). Option.bind (send_output ev result output)
          (\<lambda>out. Some (([out], True), s1\<lparr>ra_heap := hs result output\<rparr>)))"
      "\<And>result output. rpc_outcome env answer = Some (result, output) \<Longrightarrow> rh_blocks (hs result output) = rh_blocks (ra_heap s1)"
      by auto
    show "\<exists>s2. RPCAgent_invoke cv env ev s1 = Some (([MethodSuccess (ev_id ev) [(''result'', VAR_STRING t)]], True), s2)"
      if "answer = Inr (Some t)" for t
      using that ev by (simp add: RPCAgent_invoke_def to hs(1) rpc_outcome_def send_output_def empty_result_def)
    show "\<exists>h. s2 = s1\<lparr>ra_heap := h\<rparr> \<and> rh_blocks h = rh_blocks (ra_heap s1)"
      if "RPCAgent_invoke cv env ev s1 = Some (r, s2)" for r s2
      using that ev hs(2) by (auto simp: RPCAgent_invoke_def to hs(1) Option.bind_eq_Some_conv split: option.splits)
  qed
qed

text \<open>The first free name of a sequence of names is an address that is always available.\<close>

definition least_addr :: addr_source where
  "least_addr pub d =
     (if finite (dom pub) then Some (DataAddr ''rpc'' (replicate (LEAST n. pub (DataAddr ''rpc'' (replicate n (CHR ''a''))) = None) (CHR ''a'')))
      else None)"

lemma least_addr_ok: "addr_fresh least_addr" "addr_total least_addr"
proof -
  have "\<exists>n. pub (DataAddr ''rpc'' (replicate n (CHR ''a''))) = None" if fin: "finite (dom pub)" for pub :: "data_addr \<rightharpoonup> qmap"
  proof (rule ccontr)
    assume "\<nexists>n. pub (DataAddr ''rpc'' (replicate n (CHR ''a''))) = None"
    then have "range (\<lambda>n. DataAddr ''rpc'' (replicate n (CHR ''a''))) \<subseteq> dom pub" by auto
    then have "finite (range (\<lambda>n. DataAddr ''rpc'' (replicate n (CHR ''a''))))" using fin finite_subset by blast
    moreover have "inj (\<lambda>n. DataAddr ''rpc'' (replicate n (CHR ''a'')))" by (auto intro: injI)
    ultimately show False using finite_imageD by blast
  qed
  from LeastI_ex [OF this] show "addr_fresh least_addr" "addr_total least_addr"
    by (auto simp: addr_fresh_def addr_total_def least_addr_def split: if_splits)
qed

definition rpc_agent0 :: "nat RPCAgent" where
  "rpc_agent0 = \<lparr>ra_om = ObjectManager Map.empty, ra_plugins = [], ra_objs = Map.empty, ra_next = 0,
     ra_heap = \<lparr>rh_alloc = [], rh_blocks = {#}\<rparr>\<rparr>"

theorem rpc_call_end_to_end_witness:
  "\<exists>session' s1 a. RPCAgent_setup py_demo (\<lambda>i. None) least_addr demo_rpc_state Map.empty (AgentSession None) rpc_agent0 =
      (0, session', s1) \<and>
    (\<exists>s2. RPCAgent_invoke qpid_ref py_demo \<lparr>ev_id = 7, ev_type = AGENT_METHOD, ev_addr = Some a, ev_method = ''join'',
        ev_args = [(''args'', VAR_LIST [VAR_STRING ''x'', VAR_STRING ''y'']), (''kwargs'', VAR_MAP [])]\<rparr> s1 =
      Some (([MethodSuccess 7 [(''result'', VAR_STRING ''xy'')]], True), s2))"
proof -
  let ?pl = "\<lparr>pl_name = ''demo'', pl_type = MH_RPC_PYTHON, pl_impl = 0 :: nat\<rparr>"
  let ?args = "[(''args'', VAR_LIST [VAR_STRING ''x'', VAR_STRING ''y'']), (''kwargs'', VAR_MAP [])]"
  obtain session' s1 where st: "RPCAgent_setup py_demo (\<lambda>i. None) least_addr demo_rpc_state Map.empty (AgentSession None) rpc_agent0 =
      (0, session', s1)"
    by (simp add: RPCAgent_setup_def Let_def demo_loaded RPCAgent_addPlugin_def RPCPlugin_new_def)
  have pre: "ra_objs rpc_agent0 = Map.empty" "no_failures (ra_heap rpc_agent0)" "py_tuple_new py_demo i"
    "?pl \<in> set (snd (mh_rpc_load_plugins py_demo demo_rpc_state []))" for i
    by (simp_all add: rpc_agent0_def no_failures_def demo_loaded) (simp add: py_demo_def)
  have m: "''join'' \<in> set (plugin_methods py_demo (\<lambda>i. None) ?pl)"
    by (simp add: plugin_methods_def mh_rpc_get_procedures_def api_defined_iff apis_def MH_RPC_PYTHON_def get_procedures_def
        py_demo_def py_to_c_string_def eval_nat_numeral)
  have j: "py_call py_demo (pl_impl ?pl) ''join'' [''x'', ''y''] [] = Inr (Some ''xy'')" by (simp add: py_demo_def)
  obtain a where a: "\<forall>ev. ev_type ev = AGENT_METHOD \<and> ev_addr ev = Some a \<longrightarrow>
    (\<forall>xs m answer. ev_method ev \<in> set (plugin_methods py_demo (\<lambda>i. None) ?pl) \<and>
       qmap_get ''args'' (ev_args ev) = VAR_LIST (map VAR_STRING xs) \<and>
       qmap_get ''kwargs'' (ev_args ev) = VAR_MAP (map (\<lambda>(k, t). (k, VAR_STRING t)) m) \<and>
       py_call py_demo (pl_impl ?pl) (cstr_of (ev_method ev)) (map cstr_of xs)
         (map (\<lambda>(k, t). (Some (cstr_of k), cstr_of t)) m) = answer \<longrightarrow>
       (\<forall>t. answer = Inr (Some t) \<longrightarrow> (\<exists>s2. RPCAgent_invoke qpid_ref py_demo ev s1 =
          Some (([MethodSuccess (ev_id ev) [(''result'', VAR_STRING t)]], True), s2))))"
    using rpc_call_end_to_end [OF qpid_ref_ok least_addr_ok st _ pre(1,2,3,3,4)] by auto blast
  let ?ev = "\<lparr>ev_id = 7, ev_type = AGENT_METHOD, ev_addr = Some a, ev_method = ''join'', ev_args = ?args\<rparr>"
  have c: "cstr_of ''join'' = ''join''" "map cstr_of [''x'', ''y''] = [''x'', ''y'']"
    by (simp_all add: cstr_of_def NUL_def)
  have "\<exists>s2. RPCAgent_invoke qpid_ref py_demo ?ev s1 =
          Some (([MethodSuccess (ev_id ?ev) [(''result'', VAR_STRING ''xy'')]], True), s2)"
    by (rule a [rule_format, where xs = "[''x'', ''y'']" and m = "[]"]) (use m j c in \<open>simp_all add: qmap_get_def\<close>)
  then show ?thesis using st by auto
qed

end
