(* ===== verification/Bridge_Convert.thy ===== *)
theory Bridge_Convert
  imports Qmf
begin

text \<open>
  \<^verbatim>\<open>src/src/dbus-bridge/utils.cpp\<close> and \<^verbatim>\<open>src/src/dbus-bridge/method.cpp\<close>: how the D-Bus bridge converts values
  between the two buses, and the methods, signals and arguments it reads from an introspection.

  \<open>dbus_value\<close> is a value in a D-Bus message, read or written through an iterator; \<open>DBus_Array\<close> carries the
  signature of its elements, \<open>DBus_Other\<close> stands for the types the bridge does not know. A D-Bus type
  code is its character. An iterator that is written to is the list of values appended so far with a
  flag that is false once a container was left open or a value of no type was appended; such a message is
  not well formed. The further conversions of a qpid variant and the calls of libdbus that can fail are
  the records \<open>qpid_nums\<close> and \<open>dbus_lib\<close>. An element of an introspection is an \<open>xml_node\<close>, as libxml
  gives it. Texts for the log are not modelled, also where they convert a value.
\<close>

section \<open>Values\<close>

datatype dbus_value =
    DBus_Byte "8 word"
  | DBus_Boolean bool
  | DBus_Int16 u16
  | DBus_Uint16 u16
  | DBus_Int32 u32
  | DBus_Uint32 u32
  | DBus_Int64 u64
  | DBus_Uint64 u64
  | DBus_Double u64
  | DBus_String string
  | DBus_Path string
  | DBus_Other char
  | DBus_Array string "dbus_value list"
  | DBus_Struct "dbus_value list"
  | DBus_Dict_entry "dbus_value list"
  | DBus_Variant dbus_value

definition DBUS_TYPE_BYTE :: char where "DBUS_TYPE_BYTE = CHR ''y''"
definition DBUS_TYPE_BOOLEAN :: char where "DBUS_TYPE_BOOLEAN = CHR ''b''"
definition DBUS_TYPE_INT16 :: char where "DBUS_TYPE_INT16 = CHR ''n''"
definition DBUS_TYPE_UINT16 :: char where "DBUS_TYPE_UINT16 = CHR ''q''"
definition DBUS_TYPE_INT32 :: char where "DBUS_TYPE_INT32 = CHR ''i''"
definition DBUS_TYPE_UINT32 :: char where "DBUS_TYPE_UINT32 = CHR ''u''"
definition DBUS_TYPE_INT64 :: char where "DBUS_TYPE_INT64 = CHR ''x''"
definition DBUS_TYPE_UINT64 :: char where "DBUS_TYPE_UINT64 = CHR ''t''"
definition DBUS_TYPE_DOUBLE :: char where "DBUS_TYPE_DOUBLE = CHR ''d''"
definition DBUS_TYPE_STRING :: char where "DBUS_TYPE_STRING = CHR ''s''"
definition DBUS_TYPE_OBJECT_PATH :: char where "DBUS_TYPE_OBJECT_PATH = CHR ''o''"
definition DBUS_TYPE_ARRAY :: char where "DBUS_TYPE_ARRAY = CHR ''a''"
definition DBUS_TYPE_VARIANT :: char where "DBUS_TYPE_VARIANT = CHR ''v''"
definition DBUS_TYPE_STRUCT :: char where "DBUS_TYPE_STRUCT = CHR ''r''"
definition DBUS_TYPE_DICT_ENTRY :: char where "DBUS_TYPE_DICT_ENTRY = CHR ''e''"

lemmas dbus_type_defs = DBUS_TYPE_BYTE_def DBUS_TYPE_BOOLEAN_def DBUS_TYPE_INT16_def DBUS_TYPE_UINT16_def
  DBUS_TYPE_INT32_def DBUS_TYPE_UINT32_def DBUS_TYPE_INT64_def DBUS_TYPE_UINT64_def DBUS_TYPE_DOUBLE_def
  DBUS_TYPE_STRING_def DBUS_TYPE_OBJECT_PATH_def DBUS_TYPE_ARRAY_def DBUS_TYPE_VARIANT_def DBUS_TYPE_STRUCT_def
  DBUS_TYPE_DICT_ENTRY_def

text \<open>The numbers that are given to the schema: the types of qmf, and \<^verbatim>\<open>qpid::types::VAR_VOID\<close>, the number 0 of another
  enumeration, which is no type of qmf.\<close>

datatype schema_data =
    TYPES_VAR_VOID | SCHEMA_DATA_VOID | SCHEMA_DATA_BOOL | SCHEMA_DATA_INT | SCHEMA_DATA_FLOAT | SCHEMA_DATA_STRING
  | SCHEMA_DATA_MAP | SCHEMA_DATA_LIST

definition dbus_type_to_qmf_type :: "char \<Rightarrow> schema_data" where
  "dbus_type_to_qmf_type type =
     (if type = DBUS_TYPE_BOOLEAN then SCHEMA_DATA_BOOL
      else if type \<in> {DBUS_TYPE_BYTE, DBUS_TYPE_INT16, DBUS_TYPE_INT32, DBUS_TYPE_INT64, DBUS_TYPE_UINT16,
                      DBUS_TYPE_UINT32, DBUS_TYPE_UINT64} then SCHEMA_DATA_INT
      else if type = DBUS_TYPE_DOUBLE then SCHEMA_DATA_FLOAT
      else if type \<in> {DBUS_TYPE_OBJECT_PATH, DBUS_TYPE_STRING} then SCHEMA_DATA_STRING
      else if type = DBUS_TYPE_VARIANT then SCHEMA_DATA_STRING
      else if type = DBUS_TYPE_ARRAY then SCHEMA_DATA_LIST
      else if type \<in> {DBUS_TYPE_DICT_ENTRY, CHR ''{''} then SCHEMA_DATA_MAP
      else if type \<in> {DBUS_TYPE_STRUCT, CHR ''(''} then SCHEMA_DATA_LIST
      else TYPES_VAR_VOID)"

text \<open>The loop that looks for the bracket that matches the first character: \<open>rest\<close> is the text behind the
  position \<open>pos\<close>.\<close>

fun match_loop :: "char \<Rightarrow> char \<Rightarrow> int \<Rightarrow> nat \<Rightarrow> string \<Rightarrow> nat" where
  "match_loop opn cls ends pos [] = pos"
| "match_loop opn cls ends pos (c # rest) =
     (if 0 < ends
      then match_loop opn cls (if c = opn then ends + 1 else if c = cls then ends - 1 else ends) (Suc pos) rest
      else pos)"

text \<open>\<open>signature\<close> is the text up to its NUL.\<close>

fun get_signature_item_length :: "string \<Rightarrow> nat" where
  "get_signature_item_length [] = 0"
| "get_signature_item_length (c # rest) =
     (if c = DBUS_TYPE_ARRAY then 1 + get_signature_item_length rest
      else if c = DBUS_TYPE_STRUCT \<or> c = CHR ''('' then match_loop (CHR ''('') (CHR '')'') 1 0 rest + 1
      else if c = DBUS_TYPE_DICT_ENTRY \<or> c = CHR ''{'' then match_loop (CHR ''{'') (CHR ''}'') 1 0 rest + 1
      else 1)"

section \<open>From qpid to D-Bus\<close>

record qpid_nums = qpid_conv +
  as_bool :: "qvariant \<Rightarrow> bool option"
  as_uint8 :: "qvariant \<Rightarrow> 8 word option"
  as_int16 :: "qvariant \<Rightarrow> u16 option"
  as_uint16 :: "qvariant \<Rightarrow> u16 option"
  as_int64 :: "qvariant \<Rightarrow> u64 option"
  as_uint64 :: "qvariant \<Rightarrow> u64 option"
  as_double :: "qvariant \<Rightarrow> u64 option"

text \<open>The conversion of a signed 64-bit integer to a double (as its bits), rounding to the nearest and to even
  in the middle.\<close>

definition round_shift :: "nat \<Rightarrow> nat \<Rightarrow> nat" where
  "round_shift m k =
     (let q = m div 2 ^ k; r = m mod 2 ^ k
      in if 2 * r > 2 ^ k \<or> 2 * r = 2 ^ k \<and> odd q then q + 1 else q)"

definition double_of_int64 :: "u64 \<Rightarrow> u64" where
  "double_of_int64 w =
     (let m = nat \<bar>sint w\<bar>; e = length (takeWhile (\<lambda>k. 2 ^ Suc k \<le> m) [0..<63]);
          scaled = (if e \<le> 52 then m * 2 ^ (52 - e) else round_shift m (e - 52))
      in if m = 0 then 0
         else of_nat ((if sint w < 0 then 2 ^ 63 else 0) + (e + 1022) * 2 ^ 52 + scaled))"

fun is_qpid_int :: "qvariant \<Rightarrow> bool" where
  "is_qpid_int (VAR_INT8 _) = True"
| "is_qpid_int (VAR_INT16 _) = True"
| "is_qpid_int (VAR_INT32 _) = True"
| "is_qpid_int (VAR_INT64 _) = True"
| "is_qpid_int (VAR_UINT8 _) = True"
| "is_qpid_int (VAR_UINT16 _) = True"
| "is_qpid_int (VAR_UINT32 _) = True"
| "is_qpid_int (VAR_UINT64 _) = True"
| "is_qpid_int _ = False"

definition qpid_int_to_dbus :: "qpid_nums \<Rightarrow> qvariant \<Rightarrow> char \<Rightarrow> dbus_value option" where
  "qpid_int_to_dbus cv v expected_type =
     (if expected_type = DBUS_TYPE_BYTE then map_option DBus_Byte (as_uint8 cv v)
      else if expected_type = DBUS_TYPE_INT16 then map_option DBus_Int16 (as_int16 cv v)
      else if expected_type = DBUS_TYPE_INT32 then map_option DBus_Int32 (as_int32 cv v)
      else if expected_type = DBUS_TYPE_INT64 then map_option DBus_Int64 (as_int64 cv v)
      else if expected_type = DBUS_TYPE_UINT16 then map_option DBus_Uint16 (as_uint16 cv v)
      else if expected_type = DBUS_TYPE_UINT32 then map_option DBus_Uint32 (as_uint32 cv v)
      else if expected_type = DBUS_TYPE_UINT64 then map_option DBus_Uint64 (as_uint64 cv v)
      else if expected_type = DBUS_TYPE_DOUBLE then map_option (\<lambda>w. DBus_Double (double_of_int64 w)) (as_int64 cv v)
      else if expected_type = DBUS_TYPE_VARIANT then map_option DBus_Int64 (as_int64 cv v)
      else None)"

text \<open>\<open>None\<close> is the type \<^verbatim>\<open>DBUS_TYPE_INVALID\<close>; the exception of a conversion is caught.\<close>

definition qpid_variant_to_dbus :: "qpid_nums \<Rightarrow> qvariant \<Rightarrow> char \<Rightarrow> dbus_value option" where
  "qpid_variant_to_dbus cv v expected_type =
     (case v of
        VAR_VOID \<Rightarrow> None
      | VAR_BOOL _ \<Rightarrow>
          if expected_type \<noteq> DBUS_TYPE_BOOLEAN \<and> expected_type \<noteq> DBUS_TYPE_VARIANT then None
          else map_option DBus_Boolean (as_bool cv v)
      | VAR_FLOAT _ \<Rightarrow>
          if expected_type \<noteq> DBUS_TYPE_DOUBLE \<and> expected_type \<noteq> DBUS_TYPE_VARIANT then None
          else map_option DBus_Double (as_double cv v)
      | VAR_DOUBLE _ \<Rightarrow>
          if expected_type \<noteq> DBUS_TYPE_DOUBLE \<and> expected_type \<noteq> DBUS_TYPE_VARIANT then None
          else map_option DBus_Double (as_double cv v)
      | VAR_STRING _ \<Rightarrow>
          if expected_type \<noteq> DBUS_TYPE_STRING \<and> expected_type \<noteq> DBUS_TYPE_VARIANT then None
          else map_option (\<lambda>s. DBus_String (cstr_of s)) (as_string cv v)
      | VAR_MAP _ \<Rightarrow> None
      | VAR_LIST _ \<Rightarrow> None
      | _ \<Rightarrow> qpid_int_to_dbus cv v expected_type)"

section \<open>From D-Bus to qpid\<close>

fun dbus_message_iter_to_qpid_variant :: "dbus_value \<Rightarrow> qvariant" where
  "dbus_message_iter_to_qpid_variant (DBus_Boolean b) = VAR_BOOL b"
| "dbus_message_iter_to_qpid_variant (DBus_Byte w) = VAR_UINT8 w"
| "dbus_message_iter_to_qpid_variant (DBus_Int16 w) = VAR_INT16 w"
| "dbus_message_iter_to_qpid_variant (DBus_Int32 w) = VAR_INT32 w"
| "dbus_message_iter_to_qpid_variant (DBus_Int64 w) = VAR_INT64 w"
| "dbus_message_iter_to_qpid_variant (DBus_Uint16 w) = VAR_UINT16 w"
| "dbus_message_iter_to_qpid_variant (DBus_Uint32 w) = VAR_UINT32 w"
| "dbus_message_iter_to_qpid_variant (DBus_Uint64 w) = VAR_UINT64 w"
| "dbus_message_iter_to_qpid_variant (DBus_Double w) = VAR_DOUBLE w"
| "dbus_message_iter_to_qpid_variant (DBus_Path s) = VAR_STRING s"
| "dbus_message_iter_to_qpid_variant (DBus_String s) = VAR_STRING s"
| "dbus_message_iter_to_qpid_variant (DBus_Array _ vs) = VAR_LIST (map dbus_message_iter_to_qpid_variant vs)"
| "dbus_message_iter_to_qpid_variant (DBus_Struct vs) = VAR_LIST (map dbus_message_iter_to_qpid_variant vs)"
| "dbus_message_iter_to_qpid_variant (DBus_Dict_entry vs) = VAR_LIST (map dbus_message_iter_to_qpid_variant vs)"
| "dbus_message_iter_to_qpid_variant (DBus_Variant v) = dbus_message_iter_to_qpid_variant v"
| "dbus_message_iter_to_qpid_variant (DBus_Other _) = VAR_VOID"

section \<open>Appending an argument\<close>

record dbus_lib =
  dl_open :: "char \<Rightarrow> string option \<Rightarrow> bool"
  dl_append :: "dbus_value \<Rightarrow> bool"
  dl_close :: bool

type_synonym msg_iter = "dbus_value list \<times> bool"

text \<open>\<open>message_add_arg\<close> with its two loops, over the elements of an array and over the fields of a structure;
  the latter cuts one item after the other from the signature.\<close>

function message_add_arg :: "qpid_nums \<Rightarrow> dbus_lib \<Rightarrow> msg_iter \<Rightarrow> qvariant \<Rightarrow> string \<Rightarrow> bool \<times> msg_iter"
  and add_elements :: "qpid_nums \<Rightarrow> dbus_lib \<Rightarrow> msg_iter \<Rightarrow> qvariant list \<Rightarrow> string \<Rightarrow> bool \<times> msg_iter"
  and add_fields :: "qpid_nums \<Rightarrow> dbus_lib \<Rightarrow> msg_iter \<Rightarrow> qvariant list \<Rightarrow> string \<Rightarrow> bool \<times> msg_iter" where
  "message_add_arg cv dl iter v [] = (False, iter)"
| "message_add_arg cv dl iter v (c # sig) =
     (if c = DBUS_TYPE_ARRAY
      then case as_list cv v of
             None \<Rightarrow> (False, iter)
           | Some vs \<Rightarrow>
               if \<not> dl_open dl DBUS_TYPE_ARRAY (Some sig) then (False, iter)
               else (case add_elements cv dl ([], True) vs sig of
                       (False, _) \<Rightarrow> (False, (fst iter, False))
                     | (True, (items, ok)) \<Rightarrow> (True, (fst iter @ [DBus_Array sig items], snd iter \<and> ok \<and> dl_close dl)))
      else if c \<in> {DBUS_TYPE_STRUCT, CHR ''('', DBUS_TYPE_DICT_ENTRY, CHR ''{''}
      then case as_list cv v of
             None \<Rightarrow> (False, iter)
           | Some vs \<Rightarrow>
               if \<not> dl_open dl (if c = CHR ''('' then DBUS_TYPE_STRUCT else DBUS_TYPE_DICT_ENTRY) None then (False, iter)
               else (case add_fields cv dl ([], True) vs sig of
                       (False, _) \<Rightarrow> (False, (fst iter, False))
                     | (True, (items, ok)) \<Rightarrow>
                         (True, (fst iter @ [if c = CHR ''('' then DBus_Struct items else DBus_Dict_entry items],
                                 snd iter \<and> ok \<and> dl_close dl)))
      else if c = DBUS_TYPE_VARIANT
      then case qpid_variant_to_dbus cv v c of
             None \<Rightarrow> (True, (fst iter, False))
           | Some b \<Rightarrow> (True, (fst iter @ [DBus_Variant b], snd iter))
      else case qpid_variant_to_dbus cv v c of
             None \<Rightarrow> (False, iter)
           | Some b \<Rightarrow> if dl_append dl b then (True, (fst iter @ [b], snd iter)) else (False, iter))"
| "add_elements cv dl iter [] sig = (True, iter)"
| "add_elements cv dl iter (v # vs) sig =
     (case message_add_arg cv dl iter v sig of
        (False, iter1) \<Rightarrow> (False, iter1)
      | (True, iter1) \<Rightarrow> add_elements cv dl iter1 vs sig)"
| "add_fields cv dl iter [] sig = (True, iter)"
| "add_fields cv dl iter (v # vs) sig =
     (let len = get_signature_item_length sig
      in if len < 1 then (False, iter)
         else case message_add_arg cv dl iter v (take len sig) of
                (False, iter1) \<Rightarrow> (False, iter1)
              | (True, iter1) \<Rightarrow> add_fields cv dl iter1 vs (drop len sig))"
  by pat_completeness auto

termination
  by (relation "inv_image (less_than <*lex*> less_than)
       (\<lambda>x. case x of Inl (_, _, _, _, sig) \<Rightarrow> (length sig, 0)
             | Inr (Inl (_, _, _, vs, sig)) \<Rightarrow> (length sig, Suc (length vs))
             | Inr (Inr (_, _, _, vs, sig)) \<Rightarrow> (length sig, Suc (length vs)))")
    auto

section \<open>Arguments, methods and signals (method.cpp)\<close>

datatype xml_node = XmlElement string "(string \<times> string) list" "xml_node list" | XmlText

fun xml_name :: "xml_node \<Rightarrow> string" where
  "xml_name (XmlElement n _ _) = n"
| "xml_name XmlText = ''text''"

fun xmlGetProp :: "xml_node \<Rightarrow> string \<Rightarrow> cptr" where
  "xmlGetProp (XmlElement _ attrs _) k = map_of attrs k"
| "xmlGetProp XmlText k = None"

fun xml_children :: "xml_node \<Rightarrow> xml_node list" where
  "xml_children (XmlElement _ _ cs) = cs"
| "xml_children XmlText = []"

datatype arg_dir = DIR_IN | DIR_OUT

datatype arg_access = ACCESS_READ_ONLY | ACCESS_READ_WRITE

record Arg =
  a_name :: string
  a_type :: string
  a_dir :: arg_dir
  a_access :: arg_access

record schema_property =
  sp_name :: string
  sp_type :: schema_data
  sp_access :: arg_access
  sp_dir :: arg_dir

text \<open>The constructors; \<open>None\<close> is the crash on a missing attribute.\<close>

definition Arg_new :: "xml_node \<Rightarrow> nat \<Rightarrow> Arg option" where
  "Arg_new node index =
     Option.bind (xmlGetProp node ''type'') (\<lambda>typ.
       Some \<lparr>a_name = (if mh_strlen_zero (xmlGetProp node ''name'') then show_nat index else the (xmlGetProp node ''name'')),
             a_type = typ,
             a_dir = (if xmlGetProp node ''direction'' = Some ''out'' then DIR_OUT else DIR_IN),
             a_access = (if xmlGetProp node ''access'' = Some ''read'' then ACCESS_READ_ONLY else ACCESS_READ_WRITE)\<rparr>)"

definition toSchemaProperty :: "Arg \<Rightarrow> schema_property" where
  "toSchemaProperty a =
     \<lparr>sp_name = a_name a, sp_type = dbus_type_to_qmf_type (case a_type a of [] \<Rightarrow> NUL | c # _ \<Rightarrow> c),
      sp_access = a_access a, sp_dir = a_dir a\<rparr>"

definition Arg_addToMessage :: "qpid_nums \<Rightarrow> dbus_lib \<Rightarrow> Arg \<Rightarrow> msg_iter \<Rightarrow> qvariant \<Rightarrow> bool \<times> msg_iter" where
  "Arg_addToMessage cv dl a iter v = message_add_arg cv dl iter v (a_type a)"

fun args_loop :: "xml_node list \<Rightarrow> nat \<Rightarrow> Arg list option" where
  "args_loop [] i = Some []"
| "args_loop (n # ns) i =
     (if xml_name n = ''arg''
      then Option.bind (Arg_new n i) (\<lambda>a. Option.bind (args_loop ns (Suc i)) (\<lambda>as. Some (a # as)))
      else args_loop ns i)"

record Method =
  m_name :: string
  m_inArgs :: "Arg list"
  m_outArgs :: "Arg list"
  m_allArgs :: "Arg list"

definition Method_addArg :: "Arg \<Rightarrow> Method \<Rightarrow> Method" where
  "Method_addArg a m =
     (let m1 = (if a_dir a = DIR_IN then m\<lparr>m_inArgs := m_inArgs m @ [a]\<rparr> else m\<lparr>m_outArgs := m_outArgs m @ [a]\<rparr>)
      in m1\<lparr>m_allArgs := m_allArgs m1 @ [a]\<rparr>)"

definition Method_new :: "xml_node \<Rightarrow> Method option" where
  "Method_new node =
     Option.bind (xmlGetProp node ''name'') (\<lambda>name.
     Option.bind (args_loop (xml_children node) 0) (\<lambda>args.
       Some (fold Method_addArg args \<lparr>m_name = name, m_inArgs = [], m_outArgs = [], m_allArgs = []\<rparr>)))"

record Signal =
  s_name :: string
  s_args :: "Arg list"
  s_schema :: "(string \<times> schema_property list) option"

definition Signal_new :: "xml_node \<Rightarrow> Signal option" where
  "Signal_new node =
     Option.bind (xmlGetProp node ''name'') (\<lambda>name.
     Option.bind (args_loop (xml_children node) 0) (\<lambda>args.
       Some \<lparr>s_name = name, s_args = args, s_schema = None\<rparr>))"

text \<open>The list of the arguments in the order of the introspection; \<open>None\<close> is the exception of \<^verbatim>\<open>map::at\<close> for one
  that is missing.\<close>

fun arg_values :: "qmap \<Rightarrow> Arg list \<Rightarrow> qvariant list option" where
  "arg_values m [] = Some []"
| "arg_values m (a # as) =
     Option.bind (if a_name a \<noteq> [] then map_of m (a_name a) else Some VAR_VOID) (\<lambda>v.
     Option.bind (arg_values m as) (\<lambda>vs. Some (v # vs)))"

definition argMapToList :: "Method \<Rightarrow> qmap \<Rightarrow> qvariant list option" where
  "argMapToList method m = arg_values m (m_inArgs method)"

section \<open>Calling a method\<close>

text \<open>The connection: whether a message for a call can be created, and the reply to a message that is sent, an
  error text or the values, with the change of the world. The rest is for the objects of the bridge: the
  reply to an introspection (the text is what the pointer reads as when it is used, which is after the
  message it belongs to was released), its parsed form, the error of adding a match rule and whether a
  filter could be added.\<close>

datatype introspection = No_reply string | Bad_reply string | Xml cptr

record 'w dbus_conn =
  dc_new_call :: "string \<Rightarrow> string \<Rightarrow> string \<Rightarrow> string \<Rightarrow> bool"
  dc_send :: "string \<Rightarrow> string \<Rightarrow> string \<Rightarrow> string \<Rightarrow> msg_iter \<Rightarrow> 'w \<Rightarrow> (string + dbus_value list) \<times> 'w"
  dc_introspect :: "string \<Rightarrow> string \<Rightarrow> 'w \<Rightarrow> introspection \<times> 'w"
  dc_parse :: "string \<Rightarrow> xml_node option"
  dc_add_match :: "string \<Rightarrow> cptr"
  dc_add_filter :: bool

text \<open>The result of appending an argument is not looked at.\<close>

fun add_call_values :: "qpid_nums \<Rightarrow> dbus_lib \<Rightarrow> Arg list \<Rightarrow> qvariant list \<Rightarrow> msg_iter \<Rightarrow> msg_iter" where
  "add_call_values cv dl (a # as) (v # vs) iter = add_call_values cv dl as vs (snd (Arg_addToMessage cv dl a iter v))"
| "add_call_values cv dl _ _ iter = iter"

definition Method_call ::
  "qpid_nums \<Rightarrow> dbus_lib \<Rightarrow> 'w dbus_conn \<Rightarrow> string \<Rightarrow> string \<Rightarrow> string \<Rightarrow> Method \<Rightarrow> qvariant list \<Rightarrow> 'w
   \<Rightarrow> (string + qvariant list) \<times> 'w" where
  "Method_call cv dl conn bus path iface method args w =
     (if length (m_inArgs method) \<noteq> length args
      then (Inl (''Wrong number of arguments (expected: '' @ show_nat (length (m_inArgs method)) @ '', found: '' @
                 show_nat (length args) @ '')''), w)
      else if \<not> dc_new_call conn bus path iface (m_name method)
      then (Inl ''Unable to create DBus message'', w)
      else case dc_send conn bus path iface (m_name method) (add_call_values cv dl (m_inArgs method) args ([], True)) w of
             (Inl msg, w') \<Rightarrow> (Inl (''Unable to call DBus method: '' @ msg), w')
           | (Inr reply, w') \<Rightarrow> (Inr (map dbus_message_iter_to_qpid_variant reply), w'))"

section \<open>Types and signatures\<close>

text \<open>The complete types of D-Bus and their signatures.\<close>

datatype dbus_sig =
    Sig_basic char
  | Sig_array dbus_sig
  | Sig_struct "dbus_sig list"
  | Sig_dict "dbus_sig list"
  | Sig_variant

fun sig_text :: "dbus_sig \<Rightarrow> string" where
  "sig_text (Sig_basic c) = [c]"
| "sig_text (Sig_array t) = CHR ''a'' # sig_text t"
| "sig_text (Sig_struct ts) = CHR ''('' # concat (map sig_text ts) @ [CHR '')'']"
| "sig_text (Sig_dict ts) = CHR ''{'' # concat (map sig_text ts) @ [CHR ''}'']"
| "sig_text Sig_variant = [CHR ''v'']"

fun sig_wf :: "dbus_sig \<Rightarrow> bool" where
  "sig_wf (Sig_basic c) \<longleftrightarrow> c \<in> set ''ybnqiuxtdsogh''"
| "sig_wf (Sig_array t) \<longleftrightarrow> sig_wf t"
| "sig_wf (Sig_struct ts) \<longleftrightarrow> list_all sig_wf ts"
| "sig_wf (Sig_dict ts) \<longleftrightarrow> list_all sig_wf ts"
| "sig_wf Sig_variant \<longleftrightarrow> True"

text \<open>The code of a basic value, and when a value has a type.\<close>

fun basic_code :: "dbus_value \<Rightarrow> char option" where
  "basic_code (DBus_Byte _) = Some (CHR ''y'')"
| "basic_code (DBus_Boolean _) = Some (CHR ''b'')"
| "basic_code (DBus_Int16 _) = Some (CHR ''n'')"
| "basic_code (DBus_Uint16 _) = Some (CHR ''q'')"
| "basic_code (DBus_Int32 _) = Some (CHR ''i'')"
| "basic_code (DBus_Uint32 _) = Some (CHR ''u'')"
| "basic_code (DBus_Int64 _) = Some (CHR ''x'')"
| "basic_code (DBus_Uint64 _) = Some (CHR ''t'')"
| "basic_code (DBus_Double _) = Some (CHR ''d'')"
| "basic_code (DBus_String s) = (if is_cstr s then Some (CHR ''s'') else None)"
| "basic_code (DBus_Path s) = (if is_cstr s then Some (CHR ''o'') else None)"
| "basic_code (DBus_Other c) = (if c \<in> set ''gh'' then Some c else None)"
| "basic_code _ = None"

text \<open>The value of a variant has any complete type.\<close>

fun has_sig :: "dbus_value \<Rightarrow> dbus_sig \<Rightarrow> bool" where
  "has_sig v (Sig_basic c) \<longleftrightarrow> basic_code v = Some c"
| "has_sig v (Sig_array t) \<longleftrightarrow> (case v of DBus_Array s vs \<Rightarrow> s = sig_text t \<and> list_all (\<lambda>v. has_sig v t) vs | _ \<Rightarrow> False)"
| "has_sig v (Sig_struct ts) \<longleftrightarrow> (case v of DBus_Struct vs \<Rightarrow> list_all2 has_sig vs ts | _ \<Rightarrow> False)"
| "has_sig v (Sig_dict ts) \<longleftrightarrow> (case v of DBus_Dict_entry vs \<Rightarrow> list_all2 has_sig vs ts | _ \<Rightarrow> False)"
| "has_sig v Sig_variant \<longleftrightarrow> (case v of DBus_Variant b \<Rightarrow> \<exists>t. sig_wf t \<and> has_sig b t | _ \<Rightarrow> False)"

text \<open>The types that the bridge can send as it receives them: built from bytes, booleans, integers, doubles and strings
  with arrays, structures and dictionary entries. So without object paths, signatures, file descriptors and
  variants.\<close>

fun sig_sendable :: "dbus_sig \<Rightarrow> bool" where
  "sig_sendable (Sig_basic c) \<longleftrightarrow> c \<in> set ''ybnqiuxtds''"
| "sig_sendable (Sig_array t) \<longleftrightarrow> sig_sendable t"
| "sig_sendable (Sig_struct ts) \<longleftrightarrow> list_all sig_sendable ts"
| "sig_sendable (Sig_dict ts) \<longleftrightarrow> list_all sig_sendable ts"
| "sig_sendable Sig_variant \<longleftrightarrow> False"

text \<open>What the library documents of its conversions: a value converts to its own type unchanged. And a
  libdbus that does not run out of memory.\<close>

definition nums_ok :: "qpid_nums \<Rightarrow> bool" where
  "nums_ok cv \<longleftrightarrow>
     (\<forall>b. as_bool cv (VAR_BOOL b) = Some b) \<and> (\<forall>w. as_uint8 cv (VAR_UINT8 w) = Some w) \<and>
     (\<forall>w. as_int16 cv (VAR_INT16 w) = Some w) \<and> (\<forall>w. as_uint16 cv (VAR_UINT16 w) = Some w) \<and>
     (\<forall>w. as_int32 cv (VAR_INT32 w) = Some w) \<and> (\<forall>w. as_uint32 cv (VAR_UINT32 w) = Some w) \<and>
     (\<forall>w. as_int64 cv (VAR_INT64 w) = Some w) \<and> (\<forall>w. as_uint64 cv (VAR_UINT64 w) = Some w) \<and>
     (\<forall>w. as_double cv (VAR_DOUBLE w) = Some w) \<and> (\<forall>s. as_string cv (VAR_STRING s) = Some s) \<and>
     (\<forall>l. as_list cv (VAR_LIST l) = Some l)"

definition lib_ok :: "dbus_lib \<Rightarrow> bool" where
  "lib_ok dl \<longleftrightarrow> (\<forall>k. dl_open dl k None) \<and> (\<forall>t. sig_wf t \<longrightarrow> dl_open dl DBUS_TYPE_ARRAY (Some (sig_text t))) \<and>
     (\<forall>b. dl_append dl b) \<and> dl_close dl"

lemma sig_sendable_wf: "sig_sendable t \<Longrightarrow> sig_wf t"
  by (induction t) (auto simp: list_all_iff)

lemma sig_text_ne: "sig_text t \<noteq> []"
  by (cases t) auto

section \<open>The length of an item\<close>

text \<open>The loop runs over the text of a complete type without ending inside it.\<close>

lemma match_loop_texts:
  assumes "\<And>t e p r. t \<in> set ts \<Longrightarrow> 0 < e \<Longrightarrow>
      match_loop opn cls e p (sig_text t @ r) = match_loop opn cls e (p + length (sig_text t)) r" and "0 < ends"
  shows "match_loop opn cls ends pos (concat (map sig_text ts) @ r) =
    match_loop opn cls ends (pos + length (concat (map sig_text ts))) r"
  using assms
proof (induction ts arbitrary: pos)
  case (Cons t ts)
  have "match_loop opn cls ends pos (concat (map sig_text (t # ts)) @ r) =
      match_loop opn cls ends (pos + length (sig_text t)) (concat (map sig_text ts) @ r)"
    using Cons.prems(1) [of t ends pos "concat (map sig_text ts) @ r"] Cons.prems(2) by simp
  also have "\<dots> = match_loop opn cls ends (pos + length (sig_text t) + length (concat (map sig_text ts))) r"
    by (rule Cons.IH) (use Cons.prems in auto)
  finally show ?case by (simp add: add.assoc)
qed simp

lemma match_loop_text:
  assumes "sig_wf t" "(opn, cls) \<in> {(CHR ''('', CHR '')''), (CHR ''{'', CHR ''}'')}" "0 < ends"
  shows "match_loop opn cls ends pos (sig_text t @ r) = match_loop opn cls ends (pos + length (sig_text t)) r"
  using assms(1,3)
proof (induction t arbitrary: ends pos r)
  case (Sig_basic c)
  then have "c \<noteq> opn" "c \<noteq> cls" using assms(2) by auto
  with Sig_basic show ?case by simp
next
  case (Sig_array t)
  then show ?case using assms(2) by auto
next
  case (Sig_struct ts)
  have wf: "\<And>t. t \<in> set ts \<Longrightarrow> sig_wf t" using Sig_struct.prems(1) by (simp add: list_all_iff)
  have "match_loop opn cls e p (concat (map sig_text ts) @ q) =
      match_loop opn cls e (p + length (concat (map sig_text ts))) q" if "0 < e" for e p q
    by (rule match_loop_texts) (use Sig_struct.IH wf that in blast)+
  from this [of "ends + 1"] this [of ends] Sig_struct.prems(2) assms(2) show ?case by auto
next
  case (Sig_dict ts)
  have wf: "\<And>t. t \<in> set ts \<Longrightarrow> sig_wf t" using Sig_dict.prems(1) by (simp add: list_all_iff)
  have "match_loop opn cls e p (concat (map sig_text ts) @ q) =
      match_loop opn cls e (p + length (concat (map sig_text ts))) q" if "0 < e" for e p q
    by (rule match_loop_texts) (use Sig_dict.IH wf that in blast)+
  from this [of "ends + 1"] this [of ends] Sig_dict.prems(2) assms(2) show ?case by auto
next
  case Sig_variant
  then show ?case using assms(2) by auto
qed

lemma match_loop_0: "match_loop opn cls 0 pos r = pos"
  by (cases r) simp_all

lemma signature_item_length: "sig_wf t \<Longrightarrow> get_signature_item_length (sig_text t @ rest) = length (sig_text t)"
proof (induction t)
  case (Sig_basic c)
  then show ?case by (auto simp: dbus_type_defs)
next
  case (Sig_struct ts)
  have "match_loop (CHR ''('') (CHR '')'') 1 0 (concat (map sig_text ts) @ CHR '')'' # rest) =
      match_loop (CHR ''('') (CHR '')'') 1 (length (concat (map sig_text ts))) (CHR '')'' # rest)"
    using match_loop_texts [of ts "CHR ''(''" "CHR '')''" 1 0] match_loop_text [of _ "CHR ''(''" "CHR '')''"] Sig_struct.prems
    by (simp add: list_all_iff)
  then show ?case by (simp add: dbus_type_defs match_loop_0)
next
  case (Sig_dict ts)
  have "match_loop (CHR ''{'') (CHR ''}'') 1 0 (concat (map sig_text ts) @ CHR ''}'' # rest) =
      match_loop (CHR ''{'') (CHR ''}'') 1 (length (concat (map sig_text ts))) (CHR ''}'' # rest)"
    using match_loop_texts [of ts "CHR ''{''" "CHR ''}''" 1 0] match_loop_text [of _ "CHR ''{''" "CHR ''}''"] Sig_dict.prems
    by (simp add: list_all_iff)
  then show ?case by (simp add: dbus_type_defs match_loop_0)
qed (simp_all add: dbus_type_defs)

section \<open>Sending what was received\<close>

lemma nums_okD:
  assumes "nums_ok cv"
  shows "as_bool cv (VAR_BOOL b) = Some b" "as_uint8 cv (VAR_UINT8 w8) = Some w8" "as_int16 cv (VAR_INT16 w16) = Some w16"
    "as_uint16 cv (VAR_UINT16 w16) = Some w16" "as_int32 cv (VAR_INT32 w32) = Some w32"
    "as_uint32 cv (VAR_UINT32 w32) = Some w32" "as_int64 cv (VAR_INT64 w64) = Some w64"
    "as_uint64 cv (VAR_UINT64 w64) = Some w64" "as_double cv (VAR_DOUBLE w64) = Some w64"
    "as_string cv (VAR_STRING s) = Some s" "as_list cv (VAR_LIST l) = Some l"
  using assms by (simp_all add: nums_ok_def)

lemma basic_round_trip:
  assumes "nums_ok cv" "basic_code v = Some c" "c \<in> set ''ybnqiuxtds''"
  shows "qpid_variant_to_dbus cv (dbus_message_iter_to_qpid_variant v) c = Some v"
  using assms(2,3)
  by (cases v) (auto simp: qpid_variant_to_dbus_def qpid_int_to_dbus_def dbus_type_defs nums_okD [OF assms(1)] split: if_splits)

lemma add_elements_round_trip:
  assumes "\<And>v iter. v \<in> set vs \<Longrightarrow> message_add_arg cv dl iter (f v) sig = (True, (fst iter @ [v], snd iter))"
  shows "add_elements cv dl iter (map f vs) sig = (True, (fst iter @ vs, snd iter))"
  using assms by (induction vs arbitrary: iter) auto

lemma add_fields_round_trip:
  assumes "list_all2 (\<lambda>v t. sig_wf t \<and> (\<forall>iter. message_add_arg cv dl iter (f v) (sig_text t) = (True, (fst iter @ [v], snd iter)))) vs ts"
  shows "add_fields cv dl iter (map f vs) (concat (map sig_text ts) @ rest) = (True, (fst iter @ vs, snd iter))"
  using assms
proof (induction arbitrary: iter)
  case (Cons v vs t ts)
  have len: "get_signature_item_length (sig_text t @ concat (map sig_text ts) @ rest) = length (sig_text t)"
    using Cons.hyps by (intro signature_item_length) simp
  have "0 < length (sig_text t)" by (simp add: sig_text_ne)
  moreover obtain a b where "iter = (a, b)" by fastforce
  ultimately show ?case using Cons.hyps Cons.IH [of "(fst iter @ [v], snd iter)"] len by (simp add: Let_def)
qed simp

lemma message_add_arg_round_trip:
  assumes cv: "nums_ok cv" and dl: "lib_ok dl"
  shows "sig_sendable t \<Longrightarrow> has_sig v t \<Longrightarrow>
    message_add_arg cv dl iter (dbus_message_iter_to_qpid_variant v) (sig_text t) = (True, (fst iter @ [v], snd iter))"
proof (induction t arbitrary: v iter)
  case (Sig_basic c)
  from basic_round_trip [OF cv, of v c] Sig_basic dl show ?case
    by (auto simp: dbus_type_defs lib_ok_def)
next
  case (Sig_array t)
  then obtain vs where v: "v = DBus_Array (sig_text t) vs" "list_all (\<lambda>v. has_sig v t) vs"
    by (auto split: dbus_value.splits)
  then have "add_elements cv dl ([], True) (map dbus_message_iter_to_qpid_variant vs) (sig_text t) = (True, (vs, True))"
    using add_elements_round_trip [of vs cv dl dbus_message_iter_to_qpid_variant "sig_text t" "([], True)"] Sig_array
    by (simp add: list_all_iff)
  moreover have "dl_open dl DBUS_TYPE_ARRAY (Some (sig_text t))" "dl_close dl"
    using dl Sig_array.prems(1) sig_sendable_wf by (auto simp: lib_ok_def)
  ultimately show ?case by (simp add: v nums_okD [OF cv]) (simp add: dbus_type_defs)
next
  case (Sig_struct ts)
  then obtain vs where v: "v = DBus_Struct vs" "list_all2 has_sig vs ts" by (auto split: dbus_value.splits)
  have "list_all2 (\<lambda>v t. sig_wf t \<and> (\<forall>iter. message_add_arg cv dl iter (dbus_message_iter_to_qpid_variant v) (sig_text t) =
      (True, (fst iter @ [v], snd iter)))) vs ts"
    using v(2) Sig_struct sig_sendable_wf by (auto simp: list_all2_conv_all_nth list_all_iff)
  from add_fields_round_trip [OF this, of "([], True)" "[CHR '')'']"] dl show ?case
    by (simp add: v nums_okD [OF cv] lib_ok_def) (simp add: dbus_type_defs)
next
  case (Sig_dict ts)
  then obtain vs where v: "v = DBus_Dict_entry vs" "list_all2 has_sig vs ts" by (auto split: dbus_value.splits)
  have "list_all2 (\<lambda>v t. sig_wf t \<and> (\<forall>iter. message_add_arg cv dl iter (dbus_message_iter_to_qpid_variant v) (sig_text t) =
      (True, (fst iter @ [v], snd iter)))) vs ts"
    using v(2) Sig_dict sig_sendable_wf by (auto simp: list_all2_conv_all_nth list_all_iff)
  from add_fields_round_trip [OF this, of "([], True)" "[CHR ''}'']"] dl show ?case
    by (simp add: v nums_okD [OF cv] lib_ok_def) (simp add: dbus_type_defs)
qed simp

section \<open>Properties\<close>

text \<open>C4: A value that arrives over D-Bus and is sent back over D-Bus is unchanged: for every type that is built from
  bytes, booleans, integers, doubles and strings with arrays, structures and dictionary entries, however
  deeply these are nested (so not object paths, signatures, file descriptors and variants), converting a value of this
  type to a qpid variant and appending that with the signature of the type appends the very value, and nothing
  else, and the message stays well formed. It is assumed that no call of libdbus fails (none runs out of memory).\<close>

theorem bridge_round_trip:
  assumes "nums_ok cv" "lib_ok dl" "sig_sendable t" "has_sig v t"
  shows "message_add_arg cv dl (vs, ok) (dbus_message_iter_to_qpid_variant v) (sig_text t) = (True, (vs @ [v], ok))"
  using message_add_arg_round_trip [OF assms, of "(vs, ok)"] by simp

definition nums_ref :: qpid_nums where
  "nums_ref = qpid_conv.extend qpid_ref
     \<lparr>as_bool = (\<lambda>v. case v of VAR_BOOL b \<Rightarrow> Some b | VAR_VOID \<Rightarrow> Some False | _ \<Rightarrow> None),
      as_uint8 = (\<lambda>v. case v of VAR_UINT8 w \<Rightarrow> Some w | _ \<Rightarrow> None),
      as_int16 = (\<lambda>v. case v of VAR_INT16 w \<Rightarrow> Some w | _ \<Rightarrow> None),
      as_uint16 = (\<lambda>v. case v of VAR_UINT16 w \<Rightarrow> Some w | _ \<Rightarrow> None),
      as_int64 = (\<lambda>v. case v of VAR_INT64 w \<Rightarrow> Some w | VAR_INT32 w \<Rightarrow> Some (scast w) | _ \<Rightarrow> None),
      as_uint64 = (\<lambda>v. case v of VAR_UINT64 w \<Rightarrow> Some w | _ \<Rightarrow> None),
      as_double = (\<lambda>v. case v of VAR_DOUBLE w \<Rightarrow> Some w | _ \<Rightarrow> None)\<rparr>"

definition dl_ref :: dbus_lib where
  "dl_ref = \<lparr>dl_open = (\<lambda>_ _. True), dl_append = (\<lambda>_. True), dl_close = True\<rparr>"

lemma refs_ok: "nums_ok nums_ref" "lib_ok dl_ref"
  by (simp_all add: nums_ok_def nums_ref_def qpid_conv.extend_def qpid_ref_def lib_ok_def dl_ref_def)

text \<open>The type \<^verbatim>\<open>a{si}\<close>, a dictionary, with one entry.\<close>

definition demo_dict :: dbus_value where
  "demo_dict = DBus_Array ''{si}'' [DBus_Dict_entry [DBus_String ''n'', DBus_Int32 5]]"

theorem bridge_round_trip_witness:
  "message_add_arg nums_ref dl_ref ([], True) (VAR_LIST [VAR_LIST [VAR_STRING ''n'', VAR_INT32 5]]) ''a{si}'' =
     (True, ([demo_dict], True))"
  using bridge_round_trip [OF refs_ok, of "Sig_array (Sig_dict [Sig_basic (CHR ''s''), Sig_basic (CHR ''i'')])" demo_dict "[]" True]
  by (simp add: demo_dict_def is_cstr_def NUL_def)

text \<open>The variants that a declared type admits.\<close>

fun qmf_fits :: "schema_data \<Rightarrow> qvariant \<Rightarrow> bool" where
  "qmf_fits SCHEMA_DATA_BOOL v \<longleftrightarrow> (\<exists>b. v = VAR_BOOL b)"
| "qmf_fits SCHEMA_DATA_INT v \<longleftrightarrow> is_qpid_int v"
| "qmf_fits SCHEMA_DATA_FLOAT v \<longleftrightarrow> (\<exists>w. v = VAR_FLOAT w) \<or> (\<exists>w. v = VAR_DOUBLE w)"
| "qmf_fits SCHEMA_DATA_STRING v \<longleftrightarrow> (\<exists>s. v = VAR_STRING s)"
| "qmf_fits SCHEMA_DATA_MAP v \<longleftrightarrow> (\<exists>m. v = VAR_MAP m)"
| "qmf_fits SCHEMA_DATA_LIST v \<longleftrightarrow> (\<exists>l. v = VAR_LIST l)"
| "qmf_fits SCHEMA_DATA_VOID v \<longleftrightarrow> v = VAR_VOID"
| "qmf_fits TYPES_VAR_VOID v \<longleftrightarrow> False"

lemma dbus_type_codes:
  "c \<in> set ''ynixqut'' \<Longrightarrow> dbus_type_to_qmf_type c = SCHEMA_DATA_INT"
  "dbus_type_to_qmf_type (CHR ''b'') = SCHEMA_DATA_BOOL" "dbus_type_to_qmf_type (CHR ''d'') = SCHEMA_DATA_FLOAT"
  "dbus_type_to_qmf_type (CHR ''s'') = SCHEMA_DATA_STRING" "dbus_type_to_qmf_type (CHR ''o'') = SCHEMA_DATA_STRING"
  "dbus_type_to_qmf_type (CHR ''a'') = SCHEMA_DATA_LIST" "dbus_type_to_qmf_type (CHR ''('') = SCHEMA_DATA_LIST"
  "dbus_type_to_qmf_type (CHR ''g'') = TYPES_VAR_VOID" "dbus_type_to_qmf_type (CHR ''h'') = TYPES_VAR_VOID"
  by (auto simp: dbus_type_to_qmf_type_def dbus_type_defs)

lemma basic_code_fits:
  "basic_code v = Some c \<Longrightarrow> c \<notin> set ''gh'' \<Longrightarrow> qmf_fits (dbus_type_to_qmf_type c) (dbus_message_iter_to_qpid_variant v)"
  by (cases v) (auto simp: dbus_type_codes split: if_splits)

lemma unknown_basic: "basic_code v = Some c \<Longrightarrow> c \<in> set ''gh'' \<Longrightarrow> dbus_message_iter_to_qpid_variant v = VAR_VOID"
  by (cases v) (auto split: if_splits)

text \<open>C22: The schema that the bridge publishes is right about the values: a value of any complete type that can
  stand alone in a signature, other than a variant, a signature or a file descriptor, converts to a qpid variant of
  the kind that the property made for an argument of this type declares, whatever it has inside (variants
  too). A signature or a file descriptor converts to a void variant, and its property has no type of qmf at all.\<close>

theorem schema_type_correct:
  assumes "has_sig v t" "\<not> (\<exists>ts. t = Sig_dict ts)" "t \<noteq> Sig_variant" "a_type a = sig_text t"
  shows "if t = Sig_basic (CHR ''g'') \<or> t = Sig_basic (CHR ''h'')
     then sp_type (toSchemaProperty a) = TYPES_VAR_VOID \<and> dbus_message_iter_to_qpid_variant v = VAR_VOID
     else qmf_fits (sp_type (toSchemaProperty a)) (dbus_message_iter_to_qpid_variant v)"
  using assms
  by (cases t) (auto simp: toSchemaProperty_def basic_code_fits unknown_basic dbus_type_codes split: dbus_value.splits)

definition demo_arg :: "string \<Rightarrow> string \<Rightarrow> Arg" where
  "demo_arg n typ = \<lparr>a_name = n, a_type = typ, a_dir = DIR_IN, a_access = ACCESS_READ_WRITE\<rparr>"

theorem schema_type_correct_witness:
  "qmf_fits (sp_type (toSchemaProperty (demo_arg ''d'' ''a{sv}'')))
     (dbus_message_iter_to_qpid_variant (DBus_Array ''{sv}'' [DBus_Dict_entry [DBus_String ''n'', DBus_Variant demo_dict]]))"
proof -
  let ?t = "Sig_array (Sig_dict [Sig_basic (CHR ''s''), Sig_variant])"
  let ?v = "DBus_Array ''{sv}'' [DBus_Dict_entry [DBus_String ''n'', DBus_Variant demo_dict]]"
  have "sig_wf (Sig_array (Sig_dict [Sig_basic (CHR ''s''), Sig_basic (CHR ''i'')])) \<and>
      has_sig demo_dict (Sig_array (Sig_dict [Sig_basic (CHR ''s''), Sig_basic (CHR ''i'')]))"
    by (simp add: demo_dict_def is_cstr_def NUL_def)
  then have "\<exists>t. sig_wf t \<and> has_sig demo_dict t" by blast
  then have v: "has_sig ?v ?t" by (simp add: is_cstr_def NUL_def)
  show ?thesis using schema_type_correct [OF v, of "demo_arg ''d'' ''a{sv}''"] by (simp add: demo_arg_def)
qed

text \<open>A variant is declared as a string, whatever it holds; an object path can be received and not sent.\<close>

lemma variant_declared_string: "\<not> qmf_fits (dbus_type_to_qmf_type DBUS_TYPE_VARIANT)
    (dbus_message_iter_to_qpid_variant (DBus_Variant (DBus_Int32 w)))"
  by (simp add: dbus_type_to_qmf_type_def dbus_type_defs)

lemma object_path_not_sent:
  "message_add_arg cv dl iter (dbus_message_iter_to_qpid_variant (DBus_Path s)) ''o'' = (False, iter)"
  by (simp add: qpid_variant_to_dbus_def dbus_type_defs)

lemma add_call_values_round_trip:
  assumes "nums_ok cv" "lib_ok dl"
    and "list_all2 (\<lambda>a t. a_type a = sig_text t \<and> sig_sendable t) as ts" "list_all2 has_sig vals ts"
  shows "add_call_values cv dl as (map dbus_message_iter_to_qpid_variant vals) iter = (fst iter @ vals, snd iter)"
  using assms(3,4)
proof (induction as ts arbitrary: vals iter rule: list_all2_induct)
  case (Cons a as t ts)
  then obtain v vs where v: "vals = v # vs" "has_sig v t" "list_all2 has_sig vs ts" by (auto simp: list_all2_Cons2)
  have "Arg_addToMessage cv dl a iter (dbus_message_iter_to_qpid_variant v) = (True, (fst iter @ [v], snd iter))"
    using message_add_arg_round_trip [OF assms(1,2)] Cons.hyps(1) v(2) by (simp add: Arg_addToMessage_def)
  with Cons.IH [OF v(3)] show ?case by (simp add: v(1))
qed simp

text \<open>A method call through the bridge carries the arguments to the D-Bus object and the results back: when the
  arguments are values of the types of the introspection, the message that is sent has exactly these
  values, in the order of the introspection and well formed, and the call gives the values of the reply,
  or the text of the error. With the wrong number of arguments nothing is sent.\<close>

theorem Method_call_correct:
  assumes "nums_ok cv" "lib_ok dl" "list_all2 (\<lambda>a t. a_type a = sig_text t \<and> sig_sendable t) (m_inArgs method) ts"
    "list_all2 has_sig vals ts" "dc_new_call conn bus path iface (m_name method)"
  shows "Method_call cv dl conn bus path iface method (map dbus_message_iter_to_qpid_variant vals) w =
      (case dc_send conn bus path iface (m_name method) (vals, True) w of
         (Inl msg, w') \<Rightarrow> (Inl (''Unable to call DBus method: '' @ msg), w')
       | (Inr reply, w') \<Rightarrow> (Inr (map dbus_message_iter_to_qpid_variant reply), w')) \<and>
    (\<forall>args. length args \<noteq> length vals \<longrightarrow>
       (\<exists>msg. Method_call cv dl conn bus path iface method args w = (Inl msg, w)))"
proof -
  have "length (m_inArgs method) = length vals" by (simp add: list_all2_lengthD [OF assms(3)] list_all2_lengthD [OF assms(4)])
  then show ?thesis
    using add_call_values_round_trip [OF assms(1-4), of "([], True)"] assms(5) by (simp add: Method_call_def)
qed

definition demo_method :: Method where
  "demo_method = fold Method_addArg [demo_arg ''d'' ''a{si}''] \<lparr>m_name = ''Sum'', m_inArgs = [], m_outArgs = [], m_allArgs = []\<rparr>"

definition demo_conn :: "dbus_value list dbus_conn" where
  "demo_conn = \<lparr>dc_new_call = (\<lambda>_ _ _ _. True), dc_send = (\<lambda>_ _ _ _ (vals, ok) w. (Inr [DBus_Uint32 7], w @ vals)),
     dc_introspect = (\<lambda>_ _ w. (Xml None, w)), dc_parse = (\<lambda>_. None), dc_add_match = (\<lambda>_. None), dc_add_filter = True\<rparr>"

theorem Method_call_correct_witness:
  "Method_call nums_ref dl_ref demo_conn ''org.x'' ''/x'' ''org.x.I'' demo_method
     [VAR_LIST [VAR_LIST [VAR_STRING ''n'', VAR_INT32 5]]] [] = (Inr [VAR_UINT32 7], [demo_dict])"
proof -
  let ?t = "Sig_array (Sig_dict [Sig_basic (CHR ''s''), Sig_basic (CHR ''i'')])"
  have m: "list_all2 (\<lambda>a t. a_type a = sig_text t \<and> sig_sendable t) (m_inArgs demo_method) [?t]"
    by (simp add: demo_method_def demo_arg_def Method_addArg_def)
  have v: "list_all2 has_sig [demo_dict] [?t]" by (simp add: demo_dict_def is_cstr_def NUL_def)
  have c: "map dbus_message_iter_to_qpid_variant [demo_dict] = [VAR_LIST [VAR_LIST [VAR_STRING ''n'', VAR_INT32 5]]]"
    by (simp add: demo_dict_def)
  have "dc_new_call demo_conn ''org.x'' ''/x'' ''org.x.I'' (m_name demo_method)" by (simp add: demo_conn_def)
  note r = conjunct1 [OF Method_call_correct [OF refs_ok m v this, of "[]"]]
  show ?thesis using r unfolding c by (simp add: demo_conn_def)
qed

end
