(* ===== verification/Dbus_Bridge.thy ===== *)
theory Dbus_Bridge
  imports Mh_Agent Bridge_Convert
begin

text \<open>
  \<^verbatim>\<open>src/src/dbus-bridge/dbusobject.cpp\<close>, \<^verbatim>\<open>dbus_introspect\<close> of \<^verbatim>\<open>utils.cpp\<close> and \<^verbatim>\<open>dbus-bridge.cpp\<close>: the agent that makes
  D-Bus objects callable over QMF.

  The D-Bus objects the agent knows are in \<open>br_heap\<close>, by the numbers that \<open>br_objects\<close> (the map \<^verbatim>\<open>dbus_objects\<close>) has for
  the name \<^verbatim>\<open>bus@path@interface\<close>. \<open>br_data\<close> and \<open>br_schemas\<close> are what the session publishes, \<open>br_filters\<close> the objects
  that D-Bus messages are given to, \<open>br_world\<close> the world behind the D-Bus connection. An error that is
  reported through a \<^verbatim>\<open>GError\<close> is \<open>Inl\<close> with its text. \<open>None\<close> is the end of the process by an exception that
  is not caught, a NULL pointer or a read behind the end of a list; for the listing of object paths also a walk
  that does not end.
\<close>

section \<open>Introspection\<close>

definition dbus_introspect :: "'w dbus_conn \<Rightarrow> string \<Rightarrow> string \<Rightarrow> 'w \<Rightarrow> (string + cptr) \<times> 'w" where
  "dbus_introspect conn bus_name object_path w =
     (case dc_introspect conn (cstr_of bus_name) (cstr_of object_path) w of
        (No_reply msg, w') \<Rightarrow>
          (Inl (''Unable to introspect: '' @ cstr_of bus_name @ '' '' @ cstr_of object_path @ '' ('' @ msg @ '')''), w')
      | (Bad_reply msg, w') \<Rightarrow> (Inl (''Introspection failed: '' @ msg), w')
      | (Xml xml, w') \<Rightarrow> (Inr xml, w'))"

record dbus_object =
  do_listen :: bool
  do_bus :: string
  do_path :: string
  do_iface :: string
  do_registered :: bool
  do_methods :: "Method list"
  do_signals :: "Signal list"
  do_properties :: "Arg list"

text \<open>The loop over the members of an interface.\<close>

fun members_loop :: "xml_node list \<Rightarrow> dbus_object \<Rightarrow> dbus_object option" where
  "members_loop [] obj = Some obj"
| "members_loop (n # ns) obj =
     (if xml_name n = ''method''
      then Option.bind (Method_new n) (\<lambda>m. members_loop ns (obj\<lparr>do_methods := do_methods obj @ [m]\<rparr>))
      else if xml_name n = ''property''
      then Option.bind (Arg_new n 0) (\<lambda>a. members_loop ns (obj\<lparr>do_properties := do_properties obj @ [a]\<rparr>))
      else if xml_name n = ''signal''
      then Option.bind (Signal_new n) (\<lambda>g. members_loop ns (obj\<lparr>do_signals := do_signals obj @ [g]\<rparr>))
      else members_loop ns obj)"

text \<open>The loop that looks for the interface; the outer \<open>None\<close> is an interface without a name.\<close>

fun find_interface :: "string \<Rightarrow> xml_node list \<Rightarrow> xml_node option option" where
  "find_interface iface [] = Some None"
| "find_interface iface (n # ns) =
     (if xml_name n = ''interface''
      then Option.bind (xmlGetProp n ''name'') (\<lambda>name. if name = iface then Some (Some n) else find_interface iface ns)
      else find_interface iface ns)"

definition root_children :: "'w dbus_conn \<Rightarrow> string \<Rightarrow> xml_node list" where
  "root_children conn xml = (case dc_parse conn xml of None \<Rightarrow> [] | Some root \<Rightarrow> xml_children root)"

definition DBusObject_new ::
  "'w dbus_conn \<Rightarrow> string \<Rightarrow> string \<Rightarrow> string \<Rightarrow> bool \<Rightarrow> 'w \<Rightarrow> ((string + dbus_object) \<times> 'w) option" where
  "DBusObject_new conn bus_name object_path interface listen w =
     (case dbus_introspect conn bus_name object_path w of
        (Inl e, w1) \<Rightarrow> Some (Inl e, w1)
      | (Inr None, w1) \<Rightarrow>
          Some (Inl (''Introspection of object '' @ [CHR 0x27] @ bus_name @ [CHR 0x27] @ '' with path '' @ [CHR 0x27] @
                     object_path @ [CHR 0x27] @ '' failed''), w1)
      | (Inr (Some xml), w1) \<Rightarrow>
          Option.bind (find_interface interface (root_children conn xml)) (\<lambda>found.
            case found of
              None \<Rightarrow> Some (Inl (''No such interface '' @ [CHR 0x27] @ interface @ [CHR 0x27] @ '' found on object '' @
                                 [CHR 0x27] @ bus_name @ [CHR 0x27] @ '' with path '' @ [CHR 0x27] @ object_path @ [CHR 0x27]), w1)
            | Some node \<Rightarrow>
                Option.bind (members_loop (xml_children node)
                  \<lparr>do_listen = listen, do_bus = bus_name, do_path = object_path, do_iface = interface,
                   do_registered = False, do_methods = [], do_signals = [], do_properties = []\<rparr>) (\<lambda>obj.
                  Some (Inr obj, w1))))"

definition getMethod :: "dbus_object \<Rightarrow> string \<Rightarrow> Method option" where
  "getMethod obj name = find (\<lambda>m. m_name m = name) (do_methods obj)"

definition getSignal :: "dbus_object \<Rightarrow> string \<Rightarrow> Signal option" where
  "getSignal obj name = find (\<lambda>g. s_name g = name) (do_signals obj)"

definition getProperty :: "dbus_object \<Rightarrow> string \<Rightarrow> Arg option" where
  "getProperty obj name = find (\<lambda>a. a_name a = name) (do_properties obj)"

definition PROPERTIES_IFACE :: string where "PROPERTIES_IFACE = ''org.freedesktop.DBus.Properties''"

definition DBusObject_call ::
  "qpid_nums \<Rightarrow> dbus_lib \<Rightarrow> 'w dbus_conn \<Rightarrow> string \<Rightarrow> string \<Rightarrow> string \<Rightarrow> string \<Rightarrow> qvariant list \<Rightarrow> 'w
   \<Rightarrow> ((string + qvariant list) \<times> 'w) option" where
  "DBusObject_call cv dl conn bus_name object_path interface methodName args w =
     Option.bind (DBusObject_new conn bus_name object_path interface False w) (\<lambda>(r, w1).
       case r of
         Inl e \<Rightarrow> Some (Inl e, w1)
       | Inr obj \<Rightarrow>
           (case getMethod obj methodName of
              None \<Rightarrow> Some (Inl (''No such method '' @ [CHR 0x27] @ methodName @ [CHR 0x27] @ '' found on object '' @ [CHR 0x27] @
                        bus_name @ [CHR 0x27] @ '' with path '' @ [CHR 0x27] @ object_path @ [CHR 0x27] @ '' and interface '' @
                        [CHR 0x27] @ interface @ [CHR 0x27]), w1)
            | Some m \<Rightarrow> Some (Method_call cv dl conn bus_name object_path interface m args w1)))"

section \<open>Properties of an object\<close>

text \<open>\<^verbatim>\<open>map::insert\<close> keeps an entry that exists.\<close>

definition map_insert :: "string \<Rightarrow> 'v \<Rightarrow> (string \<times> 'v) list \<Rightarrow> (string \<times> 'v) list" where
  "map_insert k v m = (if qmap_count k m then m else qmap_put k v m)"

fun set_values_loop ::
  "qpid_nums \<Rightarrow> dbus_lib \<Rightarrow> 'w dbus_conn \<Rightarrow> dbus_object \<Rightarrow> qmap \<Rightarrow> 'w \<Rightarrow> (cptr \<times> 'w) option" where
  "set_values_loop cv dl conn obj [] w = Some (None, w)"
| "set_values_loop cv dl conn obj ((k, v) # values) w =
     (if getProperty obj k = None
      then Some (Some (''No such property '' @ [CHR 0x27] @ k @ [CHR 0x27] @ '' on interface '' @ [CHR 0x27] @ do_iface obj @ [CHR 0x27]), w)
      else Option.bind (DBusObject_call cv dl conn (do_bus obj) (do_path obj) PROPERTIES_IFACE ''Set''
                          [VAR_STRING (do_iface obj), VAR_STRING k, v] w) (\<lambda>(r, w1).
             case r of Inl e \<Rightarrow> Some (Some e, w1) | Inr _ \<Rightarrow> set_values_loop cv dl conn obj values w1))"

definition setPropertyValues ::
  "qpid_nums \<Rightarrow> dbus_lib \<Rightarrow> 'w dbus_conn \<Rightarrow> dbus_object \<Rightarrow> qmap \<Rightarrow> 'w \<Rightarrow> (cptr \<times> 'w) option" where
  "setPropertyValues cv dl conn obj values w = set_values_loop cv dl conn obj values w"

text \<open>The name and the value of an entry of the reply to \<^verbatim>\<open>GetAll\<close>, each a list of two.\<close>

definition entry_pair :: "qpid_nums \<Rightarrow> qvariant \<Rightarrow> (string \<times> qvariant option) option" where
  "entry_pair cv v =
     Option.bind (as_list cv v) (\<lambda>l.
       case l of
         [] \<Rightarrow> None
       | k # rest \<Rightarrow> Option.bind (as_string cv k) (\<lambda>key. Some (key, case rest of [] \<Rightarrow> None | x # _ \<Rightarrow> Some x)))"

fun pairs_loop :: "qpid_nums \<Rightarrow> qvariant list \<Rightarrow> qmap \<Rightarrow> qmap option" where
  "pairs_loop cv [] m = Some m"
| "pairs_loop cv (e # es) m =
     Option.bind (entry_pair cv e) (\<lambda>(key, val). Option.bind val (\<lambda>v. pairs_loop cv es (map_insert key v m)))"

definition getPropertyValues ::
  "qpid_nums \<Rightarrow> dbus_lib \<Rightarrow> 'w dbus_conn \<Rightarrow> dbus_object \<Rightarrow> 'w \<Rightarrow> ((string + qmap) \<times> 'w) option" where
  "getPropertyValues cv dl conn obj w =
     Option.bind (DBusObject_call cv dl conn (do_bus obj) (do_path obj) PROPERTIES_IFACE ''GetAll''
                    [VAR_STRING (do_iface obj)] w) (\<lambda>(r, w1).
       case r of
         Inl e \<Rightarrow> Some (Inl e, w1)
       | Inr [] \<Rightarrow> Some (Inl (''Unable to get properties on interface '' @ [CHR 0x27] @ do_iface obj @ [CHR 0x27]), w1)
       | Inr (v # _) \<Rightarrow>
           Option.bind (as_list cv v) (\<lambda>entries. Option.bind (pairs_loop cv entries []) (\<lambda>m. Some (Inr m, w1))))"

section \<open>Publishing an object\<close>

record schema_def =
  sd_package :: string
  sd_class :: string
  sd_methods :: "(string \<times> schema_property list) list"
  sd_properties :: "schema_property list"

record 'w bridge =
  br_world :: 'w
  br_objects :: "(string \<times> nat) list"
  br_heap :: "nat \<rightharpoonup> dbus_object"
  br_next :: nat
  br_schemas :: "schema_def list"
  br_data :: "(string \<times> qmap) list"
  br_matches :: "string list"
  br_filters :: "nat list"

definition object_name :: "string \<Rightarrow> string \<Rightarrow> string \<Rightarrow> string" where
  "object_name bus_name object_path interface = bus_name @ ''@'' @ object_path @ ''@'' @ interface"

definition values_property :: "arg_dir \<Rightarrow> schema_property" where
  "values_property dir =
     \<lparr>sp_name = ''values'', sp_type = SCHEMA_DATA_MAP, sp_access = ACCESS_READ_ONLY, sp_dir = dir\<rparr>"

definition object_schema :: "dbus_object \<Rightarrow> schema_def" where
  "object_schema obj =
     \<lparr>sd_package = do_bus obj @ ''@'' @ do_path obj, sd_class = do_iface obj,
      sd_methods = map (\<lambda>m. (m_name m, map toSchemaProperty (m_allArgs m))) (do_methods obj) @
        [(''Get'', [values_property DIR_OUT])] @
        (if list_ex (\<lambda>a. a_access a = ACCESS_READ_WRITE) (do_properties obj) then [(''Set'', [values_property DIR_IN])] else []),
      sd_properties = map toSchemaProperty (do_properties obj)\<rparr>"

definition signal_schema :: "dbus_object \<Rightarrow> Signal \<Rightarrow> schema_def" where
  "signal_schema obj g =
     \<lparr>sd_package = do_bus obj @ ''@'' @ do_path obj, sd_class = do_iface obj @ ''.'' @ s_name g, sd_methods = [],
      sd_properties = map toSchemaProperty (s_args g)\<rparr>"

text \<open>The values of the properties; an entry of another name is skipped.\<close>

fun initial_values :: "qpid_nums \<Rightarrow> dbus_object \<Rightarrow> qvariant list \<Rightarrow> qmap \<Rightarrow> qmap option" where
  "initial_values cv obj [] m = Some m"
| "initial_values cv obj (e # es) m =
     Option.bind (entry_pair cv e) (\<lambda>(key, val).
       if getProperty obj key \<noteq> None then Option.bind val (\<lambda>v. initial_values cv obj es (qmap_put key v m))
       else initial_values cv obj es m)"

definition read_properties ::
  "qpid_nums \<Rightarrow> dbus_lib \<Rightarrow> 'w dbus_conn \<Rightarrow> dbus_object \<Rightarrow> 'w \<Rightarrow> ((cptr \<times> qmap) \<times> 'w) option" where
  "read_properties cv dl conn obj w =
     (if do_properties obj = [] then Some ((None, []), w)
      else Option.bind (DBusObject_call cv dl conn (do_bus obj) (do_path obj) PROPERTIES_IFACE ''GetAll''
                          [VAR_STRING (do_iface obj)] w) (\<lambda>(r, w1).
             case r of
               Inl e \<Rightarrow> Some ((Some e, []), w1)
             | Inr [] \<Rightarrow> Some ((None, []), w1)
             | Inr (v # _) \<Rightarrow>
                 Option.bind (as_list cv v) (\<lambda>props.
                 Option.bind (initial_values cv obj props []) (\<lambda>m. Some ((None, m), w1)))))"

definition match_rule :: "string \<Rightarrow> string" where
  "match_rule interface = ''type='' @ [CHR 0x27] @ ''signal'' @ [CHR 0x27] @ '',interface='' @ [CHR 0x27] @ interface @ [CHR 0x27]"

text \<open>The first half marks the object as registered and asks for its signals, the second publishes its data.\<close>

definition with_schemas :: "dbus_object \<Rightarrow> dbus_object" where
  "with_schemas obj = obj\<lparr>do_registered := True,
     do_signals := (if do_listen obj
       then map (\<lambda>g. g\<lparr>s_schema := Some (do_iface obj @ ''.'' @ s_name g, map toSchemaProperty (s_args g))\<rparr>) (do_signals obj)
       else do_signals obj)\<rparr>"

definition register_signals :: "'w dbus_conn \<Rightarrow> nat \<Rightarrow> dbus_object \<Rightarrow> 'w bridge \<Rightarrow> cptr \<times> 'w bridge" where
  "register_signals conn p obj s =
     (let s1 = s\<lparr>br_heap := (br_heap s)(p \<mapsto> with_schemas obj),
                 br_schemas := br_schemas s @ (if do_listen obj then map (signal_schema obj) (do_signals obj) else [])\<rparr>;
          rule = match_rule (do_iface obj)
      in if do_listen obj \<and> do_signals obj \<noteq> []
         then (case dc_add_match conn rule of
                 Some msg \<Rightarrow> (Some (''Adding handler for receiving signals failed: '' @ msg), s1)
               | None \<Rightarrow> (None, s1\<lparr>br_matches := br_matches s1 @ [rule]\<rparr>))
         else (None, s1))"

definition publish_object ::
  "qpid_nums \<Rightarrow> dbus_lib \<Rightarrow> 'w dbus_conn \<Rightarrow> nat \<Rightarrow> dbus_object \<Rightarrow> 'w bridge \<Rightarrow> (cptr \<times> 'w bridge) option" where
  "publish_object cv dl conn p obj s =
     Option.bind (read_properties cv dl conn obj (br_world s)) (\<lambda>((err, values), w).
       let s1 = s\<lparr>br_world := w, br_schemas := br_schemas s @ [object_schema obj],
                  br_data := br_data s @ [(object_name (do_bus obj) (do_path obj) (do_iface obj), values)]\<rparr>
       in if \<not> dc_add_filter conn
          then Some (case err of None \<Rightarrow> Some ''Unable to register signal handler'' | Some e \<Rightarrow> Some e, s1)
          else Some (err, s1\<lparr>br_filters := br_filters s1 @ [p]\<rparr>))"

definition addToSchema ::
  "qpid_nums \<Rightarrow> dbus_lib \<Rightarrow> 'w dbus_conn \<Rightarrow> nat \<Rightarrow> 'w bridge \<Rightarrow> (cptr \<times> 'w bridge) option" where
  "addToSchema cv dl conn p s =
     Option.bind (br_heap s p) (\<lambda>obj.
       if do_registered obj then Some (None, s)
       else case register_signals conn p obj s of
              (Some e, s1) \<Rightarrow> Some (Some e, s1)
            | (None, s1) \<Rightarrow> publish_object cv dl conn p obj s1)"

section \<open>Signals\<close>

record dbus_signal =
  sm_member :: cptr
  sm_args :: "dbus_value list"

fun signal_values :: "Arg list \<Rightarrow> dbus_value list \<Rightarrow> qmap \<Rightarrow> qmap option" where
  "signal_values [] vs m = Some m"
| "signal_values (a # as) [] m = None"
| "signal_values (a # as) (v # vs) m =
     signal_values as vs (qmap_put (a_name a) (dbus_message_iter_to_qpid_variant v) m)"

definition signalReceived :: "dbus_object \<Rightarrow> dbus_signal \<Rightarrow> (bool \<times> qmf_output list) option" where
  "signalReceived obj message =
     Option.bind (sm_member message) (\<lambda>member.
       case getSignal obj member of
         None \<Rightarrow> Some (False, [])
       | Some g \<Rightarrow>
           Option.bind (s_schema g) (\<lambda>(class, _).
             case signal_values (s_args g) (sm_args message) [] of
               None \<Rightarrow> Some (False, [])
             | Some props \<Rightarrow> Some (True, [RaiseEvent class props])))"

datatype dbus_handler_result = DBUS_HANDLER_RESULT_HANDLED | DBUS_HANDLER_RESULT_NOT_YET_HANDLED

definition signalCallback :: "'w bridge \<Rightarrow> nat \<Rightarrow> dbus_signal \<Rightarrow> (dbus_handler_result \<times> qmf_output list) option" where
  "signalCallback s p message =
     Option.bind (br_heap s p) (\<lambda>obj.
     Option.bind (signalReceived obj message) (\<lambda>(handled, out).
       Some (if handled then DBUS_HANDLER_RESULT_HANDLED else DBUS_HANDLER_RESULT_NOT_YET_HANDLED, out)))"

text \<open>What libdbus does with a message: the filters in turn, until one has handled it.\<close>

fun run_filters :: "'w bridge \<Rightarrow> nat list \<Rightarrow> dbus_signal \<Rightarrow> qmf_output list option" where
  "run_filters s [] message = Some []"
| "run_filters s (p # ps) message =
     Option.bind (signalCallback s p message) (\<lambda>(r, out).
       if r = DBUS_HANDLER_RESULT_HANDLED then Some out
       else Option.bind (run_filters s ps message) (\<lambda>outs. Some (out @ outs)))"

section \<open>Listing\<close>

text \<open>The walk over the tree of objects below a path; \<open>nodes\<close> are the children that are left. The outer \<open>None\<close> is
  that it does not end.\<close>

partial_function (option) paths_loop ::
  "'w dbus_conn \<Rightarrow> string \<Rightarrow> string \<Rightarrow> xml_node list \<Rightarrow> bool \<Rightarrow> 'w \<Rightarrow> ((string list \<times> 'w) option) option" where
  "paths_loop conn bus_name object_path nodes hasContent w =
     (case nodes of
        [] \<Rightarrow> Some (Some (if hasContent then [object_path] else [], w))
      | n # ns \<Rightarrow>
          if n = XmlText then paths_loop conn bus_name object_path ns hasContent w
          else if xml_name n \<noteq> ''node'' then paths_loop conn bus_name object_path ns True w
          else (case xmlGetProp n ''name'' of
                  None \<Rightarrow> Some None
                | Some name \<Rightarrow>
                    (let path = (if length object_path > 1 then object_path @ ''/'' @ name else object_path @ name);
                         (r, w1) = dbus_introspect conn bus_name path w
                     in Option.bind (case r of
                                       Inl e \<Rightarrow> Some (Some ([], w1))
                                     | Inr None \<Rightarrow> Some None
                                     | Inr (Some xml) \<Rightarrow> paths_loop conn bus_name path (root_children conn xml) False w1)
                          (\<lambda>sub. case sub of
                             None \<Rightarrow> Some None
                           | Some (paths, w2) \<Rightarrow>
                               Option.bind (paths_loop conn bus_name object_path ns hasContent w2) (\<lambda>rest.
                                 Some (map_option (\<lambda>(ps, w3). (paths @ ps, w3)) rest))))))"

definition getObjectPaths ::
  "'w dbus_conn \<Rightarrow> string \<Rightarrow> string \<Rightarrow> 'w \<Rightarrow> ((string list \<times> 'w) option) option" where
  "getObjectPaths conn bus_name object_path w =
     (case dbus_introspect conn bus_name object_path w of
        (Inl e, w1) \<Rightarrow> Some (Some ([], w1))
      | (Inr None, w1) \<Rightarrow> Some None
      | (Inr (Some xml), w1) \<Rightarrow> paths_loop conn bus_name object_path (root_children conn xml) False w1)"

fun interface_names :: "xml_node list \<Rightarrow> string list option" where
  "interface_names [] = Some []"
| "interface_names (n # ns) =
     (if xml_name n = ''interface''
      then Option.bind (xmlGetProp n ''name'') (\<lambda>name. Option.bind (interface_names ns) (\<lambda>names. Some (name # names)))
      else interface_names ns)"

definition getInterfaces :: "'w dbus_conn \<Rightarrow> string \<Rightarrow> string \<Rightarrow> 'w \<Rightarrow> (string list \<times> 'w) option" where
  "getInterfaces conn bus_name object_path w =
     (case dbus_introspect conn bus_name object_path w of
        (Inl e, w1) \<Rightarrow> Some ([], w1)
      | (Inr None, w1) \<Rightarrow> None
      | (Inr (Some xml), w1) \<Rightarrow> Option.bind (interface_names (root_children conn xml)) (\<lambda>names. Some (names, w1)))"

section \<open>The agent (dbus-bridge.cpp)\<close>

text \<open>\<open>bus_ok\<close> says whether the system bus can be reached.\<close>

definition DBusAgent_setup ::
  "bool \<Rightarrow> 'f file_ops \<Rightarrow> 'f \<Rightarrow> sigar_net_info \<Rightarrow> agent_session \<Rightarrow> util_state \<Rightarrow> int \<times> agent_session \<times> util_state" where
  "DBusAgent_setup bus_ok fo f netinfo session us =
     (case mh_uuid fo f us of (uuid, us1) \<Rightarrow>
        (case mh_hostname fo f netinfo us1 of (host, us2) \<Rightarrow>
           (if bus_ok then 0 else 1,
            session\<lparr>ss_schemas := ss_schemas session @ [''org.matahariproject''],
                    ss_data := ss_data session @ [(''DBusBridge'',
                      qmap_put ''hostname'' (VAR_STRING host) (qmap_put ''uuid'' (VAR_STRING uuid) []))]\<rparr>, us2)))"

definition getDBusObject ::
  "'w dbus_conn \<Rightarrow> string \<Rightarrow> string \<Rightarrow> string \<Rightarrow> bool \<Rightarrow> 'w bridge \<Rightarrow> ((string + nat) \<times> 'w bridge) option" where
  "getDBusObject conn bus_name object_path interface listen s =
     (let name = object_name bus_name object_path interface
      in case map_of (br_objects s) name of
           Some p \<Rightarrow> Some (Inr p, s)
         | None \<Rightarrow>
             Option.bind (DBusObject_new conn bus_name object_path interface listen (br_world s)) (\<lambda>(r, w).
               case r of
                 Inl e \<Rightarrow> Some (Inl e, s\<lparr>br_world := w\<rparr>)
               | Inr obj \<Rightarrow>
                   (let p = br_next s
                    in Some (Inr p, s\<lparr>br_world := w, br_heap := (br_heap s)(p \<mapsto> obj), br_next := Suc p,
                                      br_objects := qmap_put name p (br_objects s)\<rparr>))))"

definition bridge_fail :: "agent_event \<Rightarrow> string \<Rightarrow> 'w \<Rightarrow> ((qmf_output list \<times> bool) \<times> 'w) option" where
  "bridge_fail ev msg s = Some (([RaiseException (ev_id ev) msg], True), s)"

definition not_well_known :: "string \<Rightarrow> bool" where
  "not_well_known name \<longleftrightarrow> name \<noteq> [] \<and> hd name = CHR '':''"

definition blacklisted_interfaces :: "string \<Rightarrow> bool" where
  "blacklisted_interfaces interface \<longleftrightarrow>
     interface = ''org.freedesktop.DBus.Introspectable'' \<or> interface = ''org.freedesktop.DBus.Properties''"

definition bridge_call :: "qpid_nums \<Rightarrow> dbus_lib \<Rightarrow> 'w dbus_conn \<Rightarrow> 'w bridge qmf_handler" where
  "bridge_call cv dl conn ev s =
     Option.bind (as_string cv (qmap_get ''bus_name'' (ev_args ev))) (\<lambda>bus_name.
     Option.bind (as_string cv (qmap_get ''object_path'' (ev_args ev))) (\<lambda>object_path.
     Option.bind (as_string cv (qmap_get ''interface'' (ev_args ev))) (\<lambda>interface.
     Option.bind (getDBusObject conn (cstr_of bus_name) (cstr_of object_path) (cstr_of interface) False s) (\<lambda>(r, s1).
       case r of
         Inl e \<Rightarrow> bridge_fail ev e s1
       | Inr p \<Rightarrow>
           Option.bind (br_heap s1 p) (\<lambda>obj.
           Option.bind (as_string cv (qmap_get ''method_name'' (ev_args ev))) (\<lambda>methodName.
             case getMethod obj methodName of
               None \<Rightarrow> bridge_fail ev (''Unknown method '' @ [CHR 0x27] @ methodName @ [CHR 0x27] @ '' on interface '' @
                         [CHR 0x27] @ interface @ [CHR 0x27]) s1
             | Some m \<Rightarrow>
                 Option.bind (as_list cv (qmap_get ''args'' (ev_args ev))) (\<lambda>args.
                   case Method_call cv dl conn (do_bus obj) (do_path obj) (do_iface obj) m args (br_world s1) of
                     (Inl e, w) \<Rightarrow> bridge_fail ev e (s1\<lparr>br_world := w\<rparr>)
                   | (Inr results, w) \<Rightarrow> method_success ev [(''results'', VAR_LIST results)] (s1\<lparr>br_world := w\<rparr>))))))))"

text \<open>The names as strings; their variants are sorted and freed of duplicates by them.\<close>

fun named_variants :: "qpid_nums \<Rightarrow> qvariant list \<Rightarrow> (string \<times> qvariant) list option" where
  "named_variants cv [] = Some []"
| "named_variants cv (v # vs) =
     Option.bind (as_string cv v) (\<lambda>n. Option.bind (named_variants cv vs) (\<lambda>l. Some ((n, v) # l)))"

definition bus_listing ::
  "qpid_nums \<Rightarrow> dbus_lib \<Rightarrow> 'w dbus_conn \<Rightarrow> string \<Rightarrow> 'w \<Rightarrow> ((string + qvariant list) \<times> 'w) option" where
  "bus_listing cv dl conn method w =
     Option.bind (DBusObject_call cv dl conn ''org.freedesktop.DBus'' ''/'' ''org.freedesktop.DBus'' method [] w) (\<lambda>(r, w1).
       case r of
         Inl e \<Rightarrow> Some (Inl e, w1)
       | Inr [] \<Rightarrow> Some (Inl (method @ '' method failed''), w1)
       | Inr (v # _) \<Rightarrow> Option.bind (as_list cv v) (\<lambda>l. Some (Inr l, w1)))"

definition list_dbus_objects :: "qpid_nums \<Rightarrow> dbus_lib \<Rightarrow> 'w dbus_conn \<Rightarrow> 'w bridge qmf_handler" where
  "list_dbus_objects cv dl conn ev s =
     Option.bind (bus_listing cv dl conn ''ListNames'' (br_world s)) (\<lambda>(r, w1).
       case r of
         Inl e \<Rightarrow> bridge_fail ev e (s\<lparr>br_world := w1\<rparr>)
       | Inr listed \<Rightarrow>
           Option.bind (as_bool cv (qmap_get ''only_well_known'' (ev_args ev))) (\<lambda>only.
           Option.bind (named_variants cv listed) (\<lambda>all.
             let names = (if only then filter (\<lambda>(n, _). \<not> not_well_known n) all else all)
             in Option.bind (bus_listing cv dl conn ''ListActivatableNames'' w1) (\<lambda>(r2, w2).
                  case r2 of
                    Inl e \<Rightarrow> bridge_fail ev e (s\<lparr>br_world := w2\<rparr>)
                  | Inr activatable \<Rightarrow>
                      Option.bind (named_variants cv activatable) (\<lambda>more.
                        method_success ev
                          [(''dbus_objects'', VAR_LIST (map snd (fold (\<lambda>(n, v). map_insert n v) (names @ more) [])))]
                          (s\<lparr>br_world := w2\<rparr>))))))"

fun add_interfaces ::
  "qpid_nums \<Rightarrow> dbus_lib \<Rightarrow> 'w dbus_conn \<Rightarrow> string \<Rightarrow> string \<Rightarrow> string list \<Rightarrow> 'w bridge \<Rightarrow> (cptr \<times> 'w bridge) option" where
  "add_interfaces cv dl conn bus_name object_path [] s = Some (None, s)"
| "add_interfaces cv dl conn bus_name object_path (iface # ifaces) s =
     Option.bind (getDBusObject conn bus_name object_path (cstr_of iface) True s) (\<lambda>(r, s1).
       case r of
         Inl e \<Rightarrow> Some (Some e, s1)
       | Inr p \<Rightarrow>
           Option.bind (addToSchema cv dl conn p s1) (\<lambda>(err, s2).
             case err of
               Some e \<Rightarrow> Some (Some e, s2)
             | None \<Rightarrow> add_interfaces cv dl conn bus_name object_path ifaces s2))"

definition add_dbus_object :: "qpid_nums \<Rightarrow> dbus_lib \<Rightarrow> 'w dbus_conn \<Rightarrow> 'w bridge qmf_handler" where
  "add_dbus_object cv dl conn ev s =
     Option.bind (if qmap_count ''interface'' (ev_args ev) then as_string cv (qmap_get ''interface'' (ev_args ev)) else Some []) (\<lambda>given.
     Option.bind (as_string cv (qmap_get ''bus_name'' (ev_args ev))) (\<lambda>bus_name.
     Option.bind (as_string cv (qmap_get ''object_path'' (ev_args ev))) (\<lambda>object_path.
     Option.bind (if given \<noteq> [] then Some ([given], br_world s)
                  else Option.bind (getInterfaces conn bus_name object_path (br_world s)) (\<lambda>(names, w).
                         Some (filter (\<lambda>n. \<not> blacklisted_interfaces n) names, w))) (\<lambda>(interfaces, w).
     Option.bind (add_interfaces cv dl conn (cstr_of bus_name) (cstr_of object_path) interfaces (s\<lparr>br_world := w\<rparr>)) (\<lambda>(err, s1).
       case err of
         Some e \<Rightarrow> bridge_fail ev e s1
       | None \<Rightarrow> method_success ev [(''result'', VAR_INT32 0)] s1)))))"

text \<open>Taking a name apart. The position that \<^verbatim>\<open>find\<close> gives has 64 bits and is stored in 32.\<close>

definition npos :: u64 where "npos = - 1"

definition str_find :: "string \<Rightarrow> char \<Rightarrow> u64" where
  "str_find t c = (if c \<in> set t then of_nat (length (takeWhile (\<lambda>x. x \<noteq> c) t)) else npos)"

definition substr_from :: "string \<Rightarrow> u32 \<Rightarrow> string option" where
  "substr_from t pos = (if unat pos \<le> length t then Some (drop (unat pos) t) else None)"

text \<open>The text before and behind the separator; the inner \<open>None\<close> says that there is none.\<close>

definition split_at_sign :: "string \<Rightarrow> (string \<times> string) option option" where
  "split_at_sign name =
     (let pos = (ucast (str_find name (CHR 0x40)) :: u32)
      in if (ucast pos :: u64) = npos then Some None
         else Option.bind (substr_from name (pos + 1)) (\<lambda>rest. Some (Some (take (unat pos) name, rest))))"

definition parse_object_name :: "string \<Rightarrow> (string \<times> string \<times> string) option option" where
  "parse_object_name name =
     Option.bind (split_at_sign name) (\<lambda>r1.
       case r1 of
         None \<Rightarrow> Some None
       | Some (bus_name, objectAndInterface) \<Rightarrow>
           Option.bind (split_at_sign objectAndInterface) (\<lambda>r2.
             case r2 of
               None \<Rightarrow> Some None
             | Some (object_path, interface) \<Rightarrow> Some (Some (bus_name, object_path, interface))))"

fun return_args :: "Arg list \<Rightarrow> qvariant list \<Rightarrow> qmap \<Rightarrow> qmap" where
  "return_args (a # as) (v # vs) m = return_args as vs (qmap_put (a_name a) v m)"
| "return_args _ _ m = m"

text \<open>A method of an object of the bridge.\<close>

definition object_method ::
  "qpid_nums \<Rightarrow> dbus_lib \<Rightarrow> 'w dbus_conn \<Rightarrow> string \<Rightarrow> string \<Rightarrow> dbus_object \<Rightarrow> 'w bridge qmf_handler" where
  "object_method cv dl conn interface methodName obj ev s =
     (if methodName = ''Set''
      then Option.bind (as_map cv (qmap_get ''values'' (ev_args ev))) (\<lambda>values.
           Option.bind (setPropertyValues cv dl conn obj values (br_world s)) (\<lambda>(err, w).
             case err of
               Some e \<Rightarrow> bridge_fail ev e (s\<lparr>br_world := w\<rparr>)
             | None \<Rightarrow> method_success ev [] (s\<lparr>br_world := w\<rparr>)))
      else if methodName = ''Get''
      then Option.bind (getPropertyValues cv dl conn obj (br_world s)) (\<lambda>(r, w).
             case r of
               Inl e \<Rightarrow> bridge_fail ev e (s\<lparr>br_world := w\<rparr>)
             | Inr props \<Rightarrow> method_success ev [(''values'', VAR_MAP props)] (s\<lparr>br_world := w\<rparr>))
      else case getMethod obj methodName of
             None \<Rightarrow> bridge_fail ev (''Unknown method '' @ methodName @ '' on interface '' @ interface) s
           | Some m \<Rightarrow>
               Option.bind (argMapToList m (ev_args ev)) (\<lambda>args.
                 case Method_call cv dl conn (do_bus obj) (do_path obj) (do_iface obj) m args (br_world s) of
                   (Inl e, w) \<Rightarrow> bridge_fail ev e (s\<lparr>br_world := w\<rparr>)
                 | (Inr results, w) \<Rightarrow>
                     if length results \<noteq> length (m_outArgs m)
                     then bridge_fail ev (''Method returns different number of return arguments (expected: '' @
                            show_nat (length (m_outArgs m)) @ '', got: '' @ show_nat (length results)) (s\<lparr>br_world := w\<rparr>)
                     else method_success ev (return_args (m_outArgs m) results []) (s\<lparr>br_world := w\<rparr>)))"

definition address_method :: "qpid_nums \<Rightarrow> dbus_lib \<Rightarrow> 'w dbus_conn \<Rightarrow> string \<Rightarrow> 'w bridge qmf_handler" where
  "address_method cv dl conn name ev s =
     Option.bind (parse_object_name name) (\<lambda>parsed.
       case parsed of
         None \<Rightarrow> bridge_fail ev ''Unknown bus name, object path or interface'' s
       | Some (bus_name, object_path, interface) \<Rightarrow>
           Option.bind (getDBusObject conn (cstr_of bus_name) (cstr_of object_path) (cstr_of interface) False s) (\<lambda>(r, s1).
             case r of
               Inl e \<Rightarrow> bridge_fail ev e s1
             | Inr p \<Rightarrow>
                 Option.bind (br_heap s1 p) (\<lambda>obj. object_method cv dl conn interface (cstr_of (ev_method ev)) obj ev s1)))"

definition DBusAgent_invoke :: "qpid_nums \<Rightarrow> dbus_lib \<Rightarrow> 'w dbus_conn \<Rightarrow> 'w bridge qmf_handler" where
  "DBusAgent_invoke cv dl conn ev s =
     (case ev_addr ev of
        None \<Rightarrow> Some (([], True), s)
      | Some addr \<Rightarrow>
          if ev_type ev \<noteq> AGENT_METHOD then Some (([], True), s)
          else if getName addr \<noteq> ''DBusBridge'' then address_method cv dl conn (getName addr) ev s
          else if ev_method ev = ''call'' then bridge_call cv dl conn ev s
          else if ev_method ev = ''list_dbus_objects'' then list_dbus_objects cv dl conn ev s
          else if ev_method ev = ''list_object_paths''
          then Option.bind (as_string cv (qmap_get ''bus_name'' (ev_args ev))) (\<lambda>bus_name.
               Option.bind (getObjectPaths conn bus_name ''/'' (br_world s)) (\<lambda>r.
               Option.bind r (\<lambda>(paths, w).
                 method_success ev [(''object_paths'', VAR_LIST (map VAR_STRING paths))] (s\<lparr>br_world := w\<rparr>))))
          else if ev_method ev = ''list_interfaces''
          then Option.bind (as_string cv (qmap_get ''bus_name'' (ev_args ev))) (\<lambda>bus_name.
               Option.bind (as_string cv (qmap_get ''object_path'' (ev_args ev))) (\<lambda>object_path.
               Option.bind (getInterfaces conn bus_name object_path (br_world s)) (\<lambda>(names, w).
                 method_success ev [(''interfaces'', VAR_LIST (map VAR_STRING names))] (s\<lparr>br_world := w\<rparr>))))
          else if ev_method ev = ''add_dbus_object'' then add_dbus_object cv dl conn ev s
          else raise_result ev MH_RES_NOT_IMPLEMENTED s)"

section \<open>Names of objects\<close>

lemma split_at_sign_eq:
  assumes "CHR 0x40 \<notin> set a" "length a < 2 ^ 32 - 1"
  shows "split_at_sign (a @ CHR 0x40 # b) = Some (Some (a, b))"
proof -
  let ?pos = "ucast (str_find (a @ CHR 0x40 # b) (CHR 0x40)) :: u32"
  have "takeWhile (\<lambda>x. x \<noteq> CHR 0x40) (a @ CHR 0x40 # b) = a" using assms(1) by (induction a) auto
  then have f: "str_find (a @ CHR 0x40 # b) (CHR 0x40) = of_nat (length a)" by (simp add: str_find_def)
  have pos: "?pos = of_nat (length a)"
    using assms(2) by (intro word_unat_eq_iff [THEN iffD2]) (simp add: f unsigned_ucast_eq unsigned_of_nat take_bit_nat_eq_self)
  have u: "unat ?pos = length a" using assms(2) by (simp add: pos unsigned_of_nat take_bit_nat_eq_self)
  have u1: "unat (?pos + 1) = Suc (length a)"
  proof -
    have "?pos + 1 = of_nat (Suc (length a))" by (simp add: pos add.commute)
    then show ?thesis using assms(2) by (simp del: of_nat_Suc add: unsigned_of_nat take_bit_nat_eq_self)
  qed
  have "unat (ucast ?pos :: u64) = length a" using u assms(2) by (simp add: pos unsigned_ucast_eq unsigned_of_nat take_bit_nat_eq_self)
  moreover have "unat npos = 2 ^ 64 - 1" by (simp add: npos_def unsigned_minus_1_eq_mask mask_eq_exp_minus_1)
  ultimately have "(ucast ?pos :: u64) \<noteq> npos" using assms(2) by auto
  then show ?thesis by (simp add: split_at_sign_def Let_def substr_from_def u u1)
qed

lemma parse_object_name_eq:
  assumes "CHR 0x40 \<notin> set bus" "CHR 0x40 \<notin> set path" "length bus < 2 ^ 32 - 1" "length path < 2 ^ 32 - 1"
  shows "parse_object_name (object_name bus path iface) = Some (Some (bus, path, iface))"
  using split_at_sign_eq [OF assms(1,3), of "path @ CHR 0x40 # iface"] split_at_sign_eq [OF assms(2,4), of iface]
  by (simp add: parse_object_name_def object_name_def)

text \<open>A name without a separator is not refused: the position that says so does not fit the variable, and the
  name is taken for the bus, the path and the interface.\<close>

lemma parse_object_name_unseparated:
  assumes "CHR 0x40 \<notin> set name" "length name < 2 ^ 32 - 1"
  shows "parse_object_name name = Some (Some (name, name, name))"
proof -
  have "(ucast (str_find name (CHR 0x40)) :: u32) = - 1" "(ucast (- 1 :: u32) :: u64) \<noteq> npos" "unat (- 1 :: u32) = 2 ^ 32 - 1"
    using assms(1) by (simp_all add: str_find_def npos_def unsigned_minus_1_eq_mask mask_eq_exp_minus_1)
  then have "split_at_sign name = Some (Some (name, name))"
    using assms(2) by (simp add: split_at_sign_def substr_from_def)
  then show ?thesis by (simp add: parse_object_name_def)
qed

section \<open>Every handler answers\<close>

text \<open>The shape of what a handler of a call does: one answer, and the handler is called again.\<close>

definition answered_by :: "agent_event \<Rightarrow> ((qmf_output list \<times> bool) \<times> 'w) option \<Rightarrow> bool" where
  "answered_by ev r \<longleftrightarrow> (\<forall>out again s. r = Some ((out, again), s) \<longrightarrow> again \<and> List.map_filter answers out = [ev_id ev])"

named_theorems answering

lemma answered_by_simps [answering]:
  "answered_by ev None" "answered_by ev (bridge_fail ev msg s)" "answered_by ev (method_success ev m s)"
  "answered_by ev (raise_result ev res s)"
  by (simp_all add: answered_by_def bridge_fail_def method_success_def raise_result_def List.map_filter_simps)

lemma answered_by_bind [answering]: "(\<And>x. answered_by ev (f x)) \<Longrightarrow> answered_by ev (Option.bind r f)"
  by (cases r) (simp_all add: answering)

lemma bridge_call_answers [answering]: "answered_by ev (bridge_call cv dl conn ev s)"
  unfolding bridge_call_def by (intro answering) (auto simp: answering intro!: answering split: sum.splits option.splits prod.splits)

lemma list_dbus_objects_answers [answering]: "answered_by ev (list_dbus_objects cv dl conn ev s)"
  unfolding list_dbus_objects_def Let_def by (intro answering) (auto intro!: answering split: sum.splits)

lemma add_dbus_object_answers [answering]: "answered_by ev (add_dbus_object cv dl conn ev s)"
  unfolding add_dbus_object_def by (auto intro!: answering split: option.splits)

lemma object_method_answers [answering]: "answered_by ev (object_method cv dl conn iface meth obj ev s)"
  unfolding object_method_def by (auto intro!: answering split: option.splits sum.splits prod.splits)

lemma address_method_answers [answering]: "answered_by ev (address_method cv dl conn name ev s)"
  unfolding address_method_def by (auto intro!: answering split: option.splits sum.splits)

lemma DBusAgent_answers:
  assumes "ev_type ev = AGENT_METHOD" "ev_addr ev = Some a"
  shows "answered_by ev (DBusAgent_invoke cv dl conn ev s)"
  unfolding DBusAgent_invoke_def by (simp add: assms answering) (auto intro!: answering)

lemma DBusAgent_again:
  assumes "DBusAgent_invoke cv dl conn ev s = Some ((out, again), s')"
  shows again
proof (cases "ev_type ev = AGENT_METHOD \<and> ev_addr ev \<noteq> None")
  case True
  then show ?thesis using DBusAgent_answers [of ev] assms by (force simp: answered_by_def)
next
  case False
  then show ?thesis using assms by (auto simp: DBusAgent_invoke_def split: option.splits)
qed

interpretation dbusagent: qmf_agent "DBusAgent_invoke cv dl conn"
  by unfold_locales (rule DBusAgent_again)

section \<open>The objects of the bridge\<close>

definition obj_name :: "dbus_object \<Rightarrow> string" where
  "obj_name obj = object_name (do_bus obj) (do_path obj) (do_iface obj)"

text \<open>The map and the objects agree; what is published is the data of registered objects, once for each; the
  filters belong to registered objects, once to each.\<close>

definition bridge_inv :: "'w bridge \<Rightarrow> bool" where
  "bridge_inv s \<longleftrightarrow>
     (\<forall>n p. map_of (br_objects s) n = Some p \<longrightarrow> (\<exists>obj. br_heap s p = Some obj \<and> obj_name obj = n)) \<and>
     (\<forall>p obj. br_heap s p = Some obj \<longrightarrow> p < br_next s \<and> map_of (br_objects s) (obj_name obj) = Some p) \<and>
     distinct (map fst (br_data s)) \<and>
     (\<forall>n \<in> fst ` set (br_data s). \<exists>p obj. br_heap s p = Some obj \<and> do_registered obj \<and> obj_name obj = n) \<and>
     distinct (br_filters s) \<and>
     (\<forall>p \<in> set (br_filters s). \<exists>obj. br_heap s p = Some obj \<and> do_registered obj)"

lemma bridge_inv_world [simp]: "bridge_inv (s\<lparr>br_world := w\<rparr>) = bridge_inv s"
  by (simp add: bridge_inv_def)

lemma bridge_inv_published [simp]:
  "bridge_inv (s\<lparr>br_schemas := x\<rparr>) = bridge_inv s" "bridge_inv (s\<lparr>br_matches := y\<rparr>) = bridge_inv s"
  by (simp_all add: bridge_inv_def)

lemma bridge_inv_object:
  assumes "bridge_inv s" "br_heap s p = Some obj"
  shows "p < br_next s" "map_of (br_objects s) (obj_name obj) = Some p"
  using assms by (simp_all add: bridge_inv_def)

lemma bridge_inv_known:
  assumes "bridge_inv s" "map_of (br_objects s) n = Some p"
  obtains obj where "br_heap s p = Some obj" "obj_name obj = n"
  using assms by (auto simp: bridge_inv_def)

lemma members_loop_fields:
  "members_loop ns obj = Some obj' \<Longrightarrow> do_bus obj' = do_bus obj \<and> do_path obj' = do_path obj \<and>
     do_iface obj' = do_iface obj \<and> do_registered obj' = do_registered obj \<and> do_listen obj' = do_listen obj"
  by (induction ns arbitrary: obj) (fastforce simp: Option.bind_eq_Some_conv split: if_splits)+

lemma DBusObject_new_fields:
  assumes "DBusObject_new conn bus path iface listen w = Some (Inr obj, w')"
  shows "obj_name obj = object_name bus path iface" "\<not> do_registered obj" "do_listen obj = listen"
  using assms
  by (auto simp: DBusObject_new_def obj_name_def Option.bind_eq_Some_conv split: prod.splits sum.splits option.splits
      dest!: members_loop_fields)

lemma bridge_invI:
  assumes "\<And>n p. map_of (br_objects s) n = Some p \<Longrightarrow> \<exists>obj. br_heap s p = Some obj \<and> obj_name obj = n"
    and "\<And>p obj. br_heap s p = Some obj \<Longrightarrow> p < br_next s \<and> map_of (br_objects s) (obj_name obj) = Some p"
    and "distinct (map fst (br_data s))" "distinct (br_filters s)"
    and "\<And>n. n \<in> fst ` set (br_data s) \<Longrightarrow> \<exists>p obj. br_heap s p = Some obj \<and> do_registered obj \<and> obj_name obj = n"
    and "\<And>p. p \<in> set (br_filters s) \<Longrightarrow> \<exists>obj. br_heap s p = Some obj \<and> do_registered obj"
  shows "bridge_inv s"
  using assms by (simp add: bridge_inv_def)

lemma bridge_inv_published_data:
  assumes "bridge_inv s"
  shows "distinct (map fst (br_data s))" "distinct (br_filters s)"
    "n \<in> fst ` set (br_data s) \<Longrightarrow> \<exists>p obj. br_heap s p = Some obj \<and> do_registered obj \<and> obj_name obj = n"
    "p \<in> set (br_filters s) \<Longrightarrow> \<exists>obj. br_heap s p = Some obj \<and> do_registered obj"
  using assms unfolding bridge_inv_def by blast+

lemma bridge_inv_new:
  assumes inv: "bridge_inv s" and fresh: "map_of (br_objects s) (obj_name obj) = None" and new: "\<not> do_registered obj"
  shows "bridge_inv (s\<lparr>br_heap := (br_heap s)(br_next s \<mapsto> obj), br_next := Suc (br_next s),
    br_objects := qmap_put (obj_name obj) (br_next s) (br_objects s)\<rparr>)" (is "bridge_inv ?s")
proof -
  have old: "p < br_next s \<and> p \<noteq> br_next s \<and> obj_name o' \<noteq> obj_name obj" if "br_heap s p = Some o'" for p o'
    using bridge_inv_object [OF inv that] fresh by auto
  have heap: "br_heap ?s p = Some o'" if "br_heap s p = Some o'" for p o' using old [OF that] that by simp
  show ?thesis
  proof (rule bridge_invI)
    fix n p assume "map_of (br_objects ?s) n = Some p"
    then show "\<exists>o'. br_heap ?s p = Some o' \<and> obj_name o' = n"
      by (auto split: if_splits elim!: bridge_inv_known [OF inv] dest: old)
  next
    fix p o' assume "br_heap ?s p = Some o'"
    then show "p < br_next ?s \<and> map_of (br_objects ?s) (obj_name o') = Some p"
      using bridge_inv_object [OF inv, of p o'] old [of p o'] by (simp split: if_splits)
  next
    fix n assume "n \<in> fst ` set (br_data ?s)"
    then have "n \<in> fst ` set (br_data s)" by simp
    from bridge_inv_published_data(3) [OF inv this] heap show "\<exists>p o'. br_heap ?s p = Some o' \<and> do_registered o' \<and> obj_name o' = n"
      by blast
  next
    fix p assume "p \<in> set (br_filters ?s)"
    then have "p \<in> set (br_filters s)" by simp
    from bridge_inv_published_data(4) [OF inv this] heap show "\<exists>o'. br_heap ?s p = Some o' \<and> do_registered o'" by blast
  qed (simp_all add: bridge_inv_published_data [OF inv])
qed

lemma getDBusObject_inv:
  assumes "bridge_inv s" "getDBusObject conn bus path iface listen s = Some (r, s')"
  shows "bridge_inv s' \<and> (\<forall>p. r = Inr p \<longrightarrow> (\<exists>obj. br_heap s' p = Some obj \<and> obj_name obj = object_name bus path iface))"
proof (cases "map_of (br_objects s) (object_name bus path iface)")
  case None
  from assms(2) obtain q w where q: "DBusObject_new conn bus path iface listen (br_world s) = Some (q, w)"
    by (auto simp: getDBusObject_def None Option.bind_eq_Some_conv)
  show ?thesis
  proof (cases q)
    case (Inr obj)
    note f = DBusObject_new_fields [OF q [unfolded Inr]]
    show ?thesis using assms(2) bridge_inv_new [of "s\<lparr>br_world := w\<rparr>" obj] assms(1) None f
      by (auto simp: getDBusObject_def q Inr Let_def)
  qed (use assms q None in \<open>auto simp: getDBusObject_def\<close>)
qed (use assms in \<open>auto simp: getDBusObject_def elim: bridge_inv_known\<close>)

text \<open>Registering an object and publishing its data.\<close>

lemma bridge_inv_register:
  assumes inv: "bridge_inv s" and obj: "br_heap s p = Some obj" "obj_name obj1 = obj_name obj" "do_registered obj1"
  shows "bridge_inv (s\<lparr>br_heap := (br_heap s)(p \<mapsto> obj1)\<rparr>)" (is "bridge_inv ?s")
proof (rule bridge_invI)
  fix n q assume "map_of (br_objects ?s) n = Some q"
  then obtain o' where "br_heap s q = Some o'" "obj_name o' = n" using bridge_inv_known [OF inv, of n q] by auto
  then show "\<exists>o'. br_heap ?s q = Some o' \<and> obj_name o' = n"
    using obj by (cases "q = p") simp_all
next
  fix q o' assume "br_heap ?s q = Some o'"
  then show "q < br_next ?s \<and> map_of (br_objects ?s) (obj_name o') = Some q"
  proof (cases "q = p")
    case True
    then have "obj1 = o'" using \<open>br_heap ?s q = Some o'\<close> by simp
    with True bridge_inv_object [OF inv obj(1)] obj(2) show ?thesis by simp
  next
    case False
    then have "br_heap s q = Some o'" using \<open>br_heap ?s q = Some o'\<close> by simp
    from bridge_inv_object [OF inv this] show ?thesis by simp
  qed
next
  fix n assume "n \<in> fst ` set (br_data ?s)"
  then obtain q o' where q: "br_heap s q = Some o'" "do_registered o'" "obj_name o' = n"
    using bridge_inv_published_data(3) [OF inv, of n] by auto
  then show "\<exists>q o'. br_heap ?s q = Some o' \<and> do_registered o' \<and> obj_name o' = n"
    using obj by (intro exI [of _ q], cases "q = p") simp_all
next
  fix q assume "q \<in> set (br_filters ?s)"
  then show "\<exists>o'. br_heap ?s q = Some o' \<and> do_registered o'"
    using bridge_inv_published_data(4) [OF inv, of q] obj by (cases "q = p") simp_all
qed (simp_all add: bridge_inv_published_data [OF inv])

lemma unregistered_unpublished:
  assumes inv: "bridge_inv s" and obj: "br_heap s p = Some obj" "\<not> do_registered obj"
  shows "obj_name obj \<notin> fst ` set (br_data s)" "p \<notin> set (br_filters s)"
proof -
  show "p \<notin> set (br_filters s)" using bridge_inv_published_data(4) [OF inv, of p] obj by auto
  show "obj_name obj \<notin> fst ` set (br_data s)"
  proof
    assume "obj_name obj \<in> fst ` set (br_data s)"
    then obtain q o' where q: "br_heap s q = Some o'" "do_registered o'" "obj_name o' = obj_name obj"
      using bridge_inv_published_data(3) [OF inv, of "obj_name obj"] by auto
    then have "q = p" using bridge_inv_object(2) [OF inv q(1)] bridge_inv_object(2) [OF inv obj(1)] by simp
    then show False using q obj by simp
  qed
qed

lemma bridge_inv_cong:
  assumes "br_objects s' = br_objects s" "br_heap s' = br_heap s" "br_next s' = br_next s"
    and "br_data s' = br_data s" "br_filters s' = br_filters s"
  shows "bridge_inv s' = bridge_inv s"
  by (simp add: bridge_inv_def assms)

lemma bridge_inv_publish:
  assumes inv: "bridge_inv s" and obj: "br_heap s p = Some obj" "do_registered obj"
    and new: "obj_name obj \<notin> fst ` set (br_data s)" "p \<notin> set (br_filters s)"
  shows "bridge_inv (s\<lparr>br_data := br_data s @ (if b then [(obj_name obj, v)] else []),
    br_filters := br_filters s @ (if c then [p] else [])\<rparr>)" (is "bridge_inv ?s")
proof (rule bridge_invI)
  fix n q assume "map_of (br_objects ?s) n = Some q"
  then show "\<exists>o'. br_heap ?s q = Some o' \<and> obj_name o' = n" by (auto elim: bridge_inv_known [OF inv])
next
  fix q o' assume "br_heap ?s q = Some o'"
  then show "q < br_next ?s \<and> map_of (br_objects ?s) (obj_name o') = Some q" using bridge_inv_object [OF inv] by simp
next
  fix n assume "n \<in> fst ` set (br_data ?s)"
  then have "n \<in> fst ` set (br_data s) \<or> n = obj_name obj" by (auto split: if_splits)
  then show "\<exists>q o'. br_heap ?s q = Some o' \<and> do_registered o' \<and> obj_name o' = n"
    using bridge_inv_published_data(3) [OF inv, of n] obj by auto
next
  fix q assume "q \<in> set (br_filters ?s)"
  then show "\<exists>o'. br_heap ?s q = Some o' \<and> do_registered o'"
    using bridge_inv_published_data(4) [OF inv, of q] obj by (auto split: if_splits)
qed (use new in \<open>auto simp: bridge_inv_published_data [OF inv]\<close>)

text \<open>What \<^verbatim>\<open>addToSchema\<close> changes of the objects and of what is published.\<close>

lemma with_schemas_name [simp]: "obj_name (with_schemas obj) = obj_name obj" "do_registered (with_schemas obj)"
  by (simp_all add: with_schemas_def obj_name_def)

lemma register_signals_effect:
  assumes "register_signals conn p obj s = (err, s')"
  shows "br_objects s' = br_objects s" "br_heap s' = (br_heap s)(p \<mapsto> with_schemas obj)" "br_next s' = br_next s"
    "br_data s' = br_data s" "br_filters s' = br_filters s"
  using assms by (auto simp: register_signals_def Let_def split: if_splits option.splits)

lemma publish_object_effect:
  assumes "publish_object cv dl conn p obj s = Some (err, s')"
  shows "br_objects s' = br_objects s" "br_heap s' = br_heap s" "br_next s' = br_next s"
    "\<exists>v. br_data s' = br_data s @ [(obj_name obj, v)]" "\<exists>c. br_filters s' = br_filters s @ (if c then [p] else [])"
proof -
  show "br_objects s' = br_objects s" "br_heap s' = br_heap s" "br_next s' = br_next s"
    "\<exists>v. br_data s' = br_data s @ [(obj_name obj, v)]"
    using assms by (auto simp: publish_object_def Let_def Option.bind_eq_Some_conv obj_name_def split: if_splits)
  show "\<exists>c. br_filters s' = br_filters s @ (if c then [p] else [])"
    using assms by (intro exI [of _ "dc_add_filter conn"], cases "dc_add_filter conn")
      (auto simp: publish_object_def Let_def Option.bind_eq_Some_conv)
qed

lemma publish_object_inv:
  assumes inv: "bridge_inv s" and obj: "br_heap s p = Some obj1" "do_registered obj1" "obj_name obj1 = obj_name obj"
    and new: "obj_name obj \<notin> fst ` set (br_data s)" "p \<notin> set (br_filters s)"
    and r: "publish_object cv dl conn p obj s = Some (err, s')"
  shows "bridge_inv s'"
proof -
  from publish_object_effect [OF r] obtain v c where e: "br_data s' = br_data s @ [(obj_name obj1, v)]"
    "br_filters s' = br_filters s @ (if c then [p] else [])" using obj(3) by metis
  have "bridge_inv (s\<lparr>br_data := br_data s @ (if True then [(obj_name obj1, v)] else []),
      br_filters := br_filters s @ (if c then [p] else [])\<rparr>)"
    using new obj(3) by (intro bridge_inv_publish [OF inv obj(1,2)]) simp_all
  then show ?thesis using e publish_object_effect [OF r] by (subst bridge_inv_cong) simp_all
qed

lemma addToSchema_inv:
  assumes inv: "bridge_inv s" and r: "addToSchema cv dl conn p s = Some (err, s')"
  shows "bridge_inv s'"
proof -
  from r obtain obj where obj: "br_heap s p = Some obj" by (auto simp: addToSchema_def Option.bind_eq_Some_conv)
  show ?thesis
  proof (cases "do_registered obj")
    case False
    obtain err1 s1 where reg: "register_signals conn p obj s = (err1, s1)" by (cases "register_signals conn p obj s")
    note e = register_signals_effect [OF reg]
    have i1: "bridge_inv s1"
      using bridge_inv_register [OF inv obj with_schemas_name] e by (subst bridge_inv_cong) simp_all
    have h1: "br_heap s1 p = Some (with_schemas obj)" using e by simp
    show ?thesis
    proof (cases err1)
      case None
      with r obj False reg have "publish_object cv dl conn p obj s1 = Some (err, s')" by (simp add: addToSchema_def)
      from publish_object_inv [OF i1 h1 _ _ _ _ this] show ?thesis
        using e unregistered_unpublished [OF inv obj False] by simp
    qed (use r obj False reg i1 in \<open>simp add: addToSchema_def\<close>)
  qed (use r inv obj in \<open>simp add: addToSchema_def\<close>)
qed

lemma add_interfaces_inv:
  "bridge_inv s \<Longrightarrow> add_interfaces cv dl conn bus path ifaces s = Some (err, s') \<Longrightarrow> bridge_inv s'"
proof (induction ifaces arbitrary: s)
  case (Cons iface ifaces)
  from Cons.prems(2) obtain r s1 where g: "getDBusObject conn bus path (cstr_of iface) True s = Some (r, s1)"
    by (auto simp: Option.bind_eq_Some_conv)
  have i1: "bridge_inv s1" using getDBusObject_inv [OF Cons.prems(1) g] by simp
  show ?case
  proof (cases r)
    case (Inr p)
    with Cons.prems(2) g obtain e s2 where a: "addToSchema cv dl conn p s1 = Some (e, s2)"
      by (auto simp: Option.bind_eq_Some_conv)
    note i2 = addToSchema_inv [OF i1 a]
    show ?thesis using Cons.prems(2) g a Inr i2 Cons.IH [OF i2] by (auto split: option.splits)
  qed (use Cons.prems(2) g i1 in auto)
qed simp

text \<open>A handler's result leaves the objects well formed.\<close>

definition inv_after :: "('a \<times> 'w bridge) option \<Rightarrow> bool" where
  "inv_after r \<longleftrightarrow> (\<forall>x s. r = Some (x, s) \<longrightarrow> bridge_inv s)"

named_theorems keeping

lemma inv_after_simps [keeping]:
  "inv_after None" "bridge_inv s \<Longrightarrow> inv_after (bridge_fail ev msg s)" "bridge_inv s \<Longrightarrow> inv_after (method_success ev m s)"
  "bridge_inv s \<Longrightarrow> inv_after (raise_result ev res s)" "bridge_inv s \<Longrightarrow> inv_after (Some (y, s))"
  by (simp_all add: inv_after_def bridge_fail_def method_success_def raise_result_def)

lemma inv_after_bind [keeping]: "(\<And>x. r = Some x \<Longrightarrow> inv_after (f x)) \<Longrightarrow> inv_after (Option.bind r f)"
  by (cases r) (simp_all add: inv_after_def)

lemma getDBusObject_keeps:
  assumes "bridge_inv s" "getDBusObject conn bus path iface listen s = Some (r, s')"
  shows "bridge_inv s'"
  using getDBusObject_inv [OF assms] by (rule conjunct1)

lemma add_interfaces_keeps:
  assumes "bridge_inv s" "add_interfaces cv dl conn bus path ifaces (s\<lparr>br_world := w\<rparr>) = Some (err, s')"
  shows "bridge_inv s'"
  by (rule add_interfaces_inv [OF _ assms(2)]) (simp add: assms(1))

lemmas objects_keep = getDBusObject_keeps add_interfaces_keeps

lemma bridge_call_keeps [keeping]: "bridge_inv s \<Longrightarrow> inv_after (bridge_call cv dl conn ev s)"
  unfolding bridge_call_def
  by (intro keeping; auto intro!: keeping split: sum.splits option.splits prod.splits; erule (1) objects_keep)

lemma list_dbus_objects_keeps [keeping]: "bridge_inv s \<Longrightarrow> inv_after (list_dbus_objects cv dl conn ev s)"
  unfolding list_dbus_objects_def Let_def by (intro keeping) (auto intro!: keeping split: sum.splits)

lemma add_dbus_object_keeps [keeping]: "bridge_inv s \<Longrightarrow> inv_after (add_dbus_object cv dl conn ev s)"
  unfolding add_dbus_object_def by (intro keeping; auto intro!: keeping split: option.splits; erule (1) objects_keep)

lemma object_method_keeps [keeping]: "bridge_inv s \<Longrightarrow> inv_after (object_method cv dl conn iface meth obj ev s)"
  unfolding object_method_def by (auto intro!: keeping split: option.splits sum.splits prod.splits)

lemma address_method_keeps [keeping]: "bridge_inv s \<Longrightarrow> inv_after (address_method cv dl conn name ev s)"
  unfolding address_method_def
  by (intro keeping; auto intro!: keeping split: option.splits sum.splits; erule (1) objects_keep)




section \<open>Signals as events\<close>

lemma signalReceived_once:
  "signalReceived obj m = Some (handled, out) \<Longrightarrow> length out \<le> 1 \<and> (\<not> handled \<longrightarrow> out = [])"
  by (auto simp: signalReceived_def Option.bind_eq_Some_conv split: option.splits)

lemma run_filters_once: "run_filters s ps m = Some outs \<Longrightarrow> length outs \<le> 1"
proof (induction ps arbitrary: outs)
  case (Cons p ps)
  then obtain r out where r: "signalCallback s p m = Some (r, out)" by (auto simp: Option.bind_eq_Some_conv)
  then have "length out \<le> 1 \<and> (r \<noteq> DBUS_HANDLER_RESULT_HANDLED \<longrightarrow> out = [])"
    by (auto simp: signalCallback_def Option.bind_eq_Some_conv dest!: signalReceived_once split: if_splits)
  with Cons r show ?case by (auto simp: Option.bind_eq_Some_conv split: if_splits)
qed simp

lemma find_map_name:
  assumes "\<And>g. s_name (f g) = s_name g"
  shows "find (\<lambda>g. s_name g = n) (map f gs) = map_option f (find (\<lambda>g. s_name g = n) gs)"
  by (induction gs) (simp_all add: assms)

lemma getSignal_with_schemas:
  "getSignal (with_schemas obj) n = map_option (\<lambda>g. if do_listen obj
     then g\<lparr>s_schema := Some (do_iface obj @ ''.'' @ s_name g, map toSchemaProperty (s_args g))\<rparr> else g) (getSignal obj n)"
  by (cases "do_listen obj") (simp_all add: getSignal_def with_schemas_def option.map_ident find_map_name)

text \<open>The values of named arguments, from a reply or a signal.\<close>

lemma signal_values_eq:
  "signal_values as vs m =
     (if length as \<le> length vs then Some (return_args as (map dbus_message_iter_to_qpid_variant vs) m) else None)"
  by (induction as vs m rule: signal_values.induct) auto

lemma return_args_get:
  assumes "length as \<le> length vs" "distinct (map a_name as)"
  shows "(\<forall>i < length as. map_of (return_args as vs m) (a_name (as ! i)) = Some (vs ! i)) \<and>
    (\<forall>k. k \<notin> a_name ` set as \<longrightarrow> map_of (return_args as vs m) k = map_of m k)"
  using assms
proof (induction as vs m rule: return_args.induct)
  case (1 a as v vs m)
  then have "a_name a \<notin> a_name ` set as" by simp
  with 1 show ?case by (auto simp: nth_Cons split: nat.splits)
qed auto

section \<open>Properties\<close>

text \<open>The agent right after its start.\<close>

definition bridge_start :: "'w \<Rightarrow> 'w bridge" where
  "bridge_start w = \<lparr>br_world = w, br_objects = [], br_heap = Map.empty, br_next = 0, br_schemas = [], br_data = [],
     br_matches = [], br_filters = []\<rparr>"






definition demo_event :: "nat \<Rightarrow> string \<Rightarrow> string \<Rightarrow> qmap \<Rightarrow> agent_event" where
  "demo_event i name method args =
     \<lparr>ev_id = i, ev_type = AGENT_METHOD, ev_addr = Some (DataAddr [] name), ev_method = method, ev_args = args\<rparr>"




lemma arg_values_eq:
  "list_all2 (\<lambda>a v. a_name a \<noteq> [] \<and> map_of m (a_name a) = Some (f v)) as vals \<Longrightarrow> arg_values m as = Some (map f vals)"
  by (induction as vals rule: list_all2_induct) auto

lemma known_object:
  assumes "bridge_inv s" "br_heap s p = Some obj"
  shows "getDBusObject conn (do_bus obj) (do_path obj) (do_iface obj) listen s = Some (Inr p, s)"
  using bridge_inv_object(2) [OF assms] by (simp add: getDBusObject_def obj_name_def)

text \<open>The reply of a D-Bus method as it is given to the caller.\<close>

definition reply_outputs :: "string + dbus_value list \<Rightarrow> Method \<Rightarrow> nat \<Rightarrow> qmf_output \<Rightarrow> bool" where
  "reply_outputs answer m cid out \<longleftrightarrow>
     (case answer of
        Inl msg \<Rightarrow> out = RaiseException cid (''Unable to call DBus method: '' @ msg)
      | Inr reply \<Rightarrow>
          if length reply = length (m_outArgs m)
          then \<exists>results. out = MethodSuccess cid results \<and>
                 (\<forall>i < length reply. map_of results (a_name (m_outArgs m ! i)) = Some (dbus_message_iter_to_qpid_variant (reply ! i)))
          else \<exists>msg. out = RaiseException cid msg)"

text \<open>C21: A method of a D-Bus object called over QMF (not \<^verbatim>\<open>Set\<close> and \<^verbatim>\<open>Get\<close>, which are the bridge's own): for an object the
  bridge knows, named by its address, a method whose arguments are of the types that the bridge can send (built from bytes,
  booleans, integers, doubles and strings with arrays, structures and dictionary entries; no object paths,
  signatures, file descriptors or variants), and a call that gives a value of its type for every argument by its
  name, the D-Bus method is called with these values in the order of the introspection. If it replies with as many
  values as the introspection has results, whose names are distinct, the caller gets the values of the reply
  under these names; if the number differs, or the call fails, the caller gets one exception. It is assumed that
  libdbus makes the message of the call and that no other call of it fails.\<close>

theorem bridge_method_end_to_end:
  assumes "bridge_inv s" "br_heap s p = Some obj"
    and "CHR 0x40 \<notin> set (do_bus obj)" "CHR 0x40 \<notin> set (do_path obj)"
    and "length (do_bus obj) < 2 ^ 32 - 1" "length (do_path obj) < 2 ^ 32 - 1"
    and "is_cstr (do_bus obj)" "is_cstr (do_path obj)" "is_cstr (do_iface obj)"
    and "ev_type ev = AGENT_METHOD" "ev_addr ev = Some a" "getName a = obj_name obj"
    and "getMethod obj (cstr_of (ev_method ev)) = Some m" "cstr_of (ev_method ev) \<notin> {''Set'', ''Get''}"
    and "nums_ok cv" "lib_ok dl" "list_all2 (\<lambda>a t. a_type a = sig_text t \<and> sig_sendable t) (m_inArgs m) ts"
    and "list_all2 has_sig vals ts"
    and "list_all2 (\<lambda>a v. a_name a \<noteq> [] \<and> map_of (ev_args ev) (a_name a) = Some (dbus_message_iter_to_qpid_variant v))
           (m_inArgs m) vals"
    and "dc_new_call conn (do_bus obj) (do_path obj) (do_iface obj) (m_name m)"
    and "dc_send conn (do_bus obj) (do_path obj) (do_iface obj) (m_name m) (vals, True) (br_world s) = (answer, w)"
    and "distinct (map a_name (m_outArgs m))"
  shows "\<exists>out. DBusAgent_invoke cv dl conn ev s = Some (([out], True), s\<lparr>br_world := w\<rparr>) \<and> reply_outputs answer m (ev_id ev) out"
proof -
  let ?vals = "map dbus_message_iter_to_qpid_variant vals" and ?to = "map dbus_message_iter_to_qpid_variant"
  have parse: "parse_object_name (obj_name obj) = Some (Some (do_bus obj, do_path obj, do_iface obj))"
    unfolding obj_name_def by (rule parse_object_name_eq [OF assms(3-6)])
  have call: "Method_call cv dl conn (do_bus obj) (do_path obj) (do_iface obj) m ?vals (br_world s) =
      (case answer of Inl msg \<Rightarrow> Inl (''Unable to call DBus method: '' @ msg) | Inr reply \<Rightarrow> Inr (?to reply), w)"
    using add_call_values_round_trip [OF assms(15-18), of "([], True)"] assms(20,21)
      list_all2_lengthD [OF assms(17)] list_all2_lengthD [OF assms(18)] by (simp add: Method_call_def split: sum.split)
  have "obj_name obj \<noteq> ''DBusBridge''"
  proof
    assume "obj_name obj = ''DBusBridge''"
    moreover have "CHR 0x40 \<in> set (obj_name obj)" by (simp add: obj_name_def object_name_def)
    ultimately show False by simp
  qed
  then have inv: "DBusAgent_invoke cv dl conn ev s = object_method cv dl conn (do_iface obj) (cstr_of (ev_method ev)) obj ev s"
    using assms(10-12) known_object [OF assms(1,2), of conn False] assms(2,7-9)
    by (simp add: DBusAgent_invoke_def address_method_def parse)
  note serve = object_method_def argMapToList_def arg_values_eq [OF assms(19)] call method_success_def bridge_fail_def
  show ?thesis
  proof (cases answer)
    case (Inl msg)
    then show ?thesis unfolding inv using assms(13,14) by (simp add: serve reply_outputs_def)
  next
    case (Inr reply)
    then show ?thesis unfolding inv using assms(13,14) return_args_get [of "m_outArgs m" "?to reply" "[]"] assms(22)
      by (auto simp: serve reply_outputs_def)
  qed
qed

definition sum_method :: Method where
  "sum_method = demo_method\<lparr>m_outArgs := [demo_arg ''n'' ''u'']\<rparr>"

definition sum_object :: dbus_object where
  "sum_object = \<lparr>do_listen = False, do_bus = ''org.x'', do_path = ''/x'', do_iface = ''org.x.I'', do_registered = False,
     do_methods = [sum_method], do_signals = [], do_properties = []\<rparr>"

definition sum_bridge :: "dbus_value list bridge" where
  "sum_bridge = (bridge_start [])\<lparr>br_objects := [(obj_name sum_object, 0)], br_heap := [0 \<mapsto> sum_object], br_next := 1\<rparr>"

theorem bridge_method_end_to_end_witness:
  "\<exists>results. DBusAgent_invoke nums_ref dl_ref demo_conn
      (demo_event 2 ''org.x@/x@org.x.I'' ''Sum'' [(''d'', VAR_LIST [VAR_LIST [VAR_STRING ''n'', VAR_INT32 5]])]) sum_bridge =
    Some (([MethodSuccess 2 results], True), sum_bridge\<lparr>br_world := [demo_dict]\<rparr>) \<and> map_of results ''n'' = Some (VAR_UINT32 7)"
proof -
  let ?ev = "demo_event 2 ''org.x@/x@org.x.I'' ''Sum'' [(''d'', VAR_LIST [VAR_LIST [VAR_STRING ''n'', VAR_INT32 5]])]"
  let ?ts = "[Sig_array (Sig_dict [Sig_basic (CHR ''s''), Sig_basic (CHR ''i'')])]"
  have inv: "bridge_inv sum_bridge"
    by (rule bridge_invI) (auto simp: sum_bridge_def bridge_start_def split: if_splits)
  have obj: "br_heap sum_bridge 0 = Some sum_object" by (simp add: sum_bridge_def)
  have m: "sum_method = \<lparr>m_name = ''Sum'', m_inArgs = [demo_arg ''d'' ''a{si}''], m_outArgs = [demo_arg ''n'' ''u''],
      m_allArgs = [demo_arg ''d'' ''a{si}'']\<rparr>"
    by (simp add: sum_method_def demo_method_def Method_addArg_def demo_arg_def)
  have "\<exists>out. DBusAgent_invoke nums_ref dl_ref demo_conn ?ev sum_bridge =
      Some (([out], True), sum_bridge\<lparr>br_world := [demo_dict]\<rparr>) \<and> reply_outputs (Inr [DBus_Uint32 7]) sum_method (ev_id ?ev) out"
    by (rule bridge_method_end_to_end [OF inv obj, where m = sum_method and ts = ?ts and vals = "[demo_dict]"
        and a = "DataAddr [] ''org.x@/x@org.x.I''"])
      (simp_all add: refs_ok obj_name_def object_name_def demo_event_def m sum_object_def sum_bridge_def bridge_start_def getMethod_def demo_arg_def
        demo_dict_def demo_conn_def is_cstr_def NUL_def cstr_of_def)
  then show ?thesis by (auto simp: demo_event_def m demo_arg_def reply_outputs_def)
qed

section \<open>Objects that listen and objects that do not\<close>

text \<open>A signal of an object that listens becomes an event with its arguments, unless it has too few.\<close>

lemma signal_event:
  assumes "br_heap s p = Some (with_schemas obj)" "do_listen obj" "sm_member msg = Some n" "getSignal obj n = Some g"
  shows "signalCallback s p msg = (if length (s_args g) \<le> length (sm_args msg)
    then Some (DBUS_HANDLER_RESULT_HANDLED, [RaiseEvent (do_iface obj @ ''.'' @ s_name g)
      (return_args (s_args g) (map dbus_message_iter_to_qpid_variant (sm_args msg)) [])])
    else Some (DBUS_HANDLER_RESULT_NOT_YET_HANDLED, []))"
  using assms by (simp add: signalCallback_def signalReceived_def getSignal_with_schemas signal_values_eq)

text \<open>An object that was first used by a call does not listen: publishing it later gives its signals no schema and adds
  a filter all the same, and the first such signal ends the agent.\<close>

lemma late_listener_crashes:
  assumes "br_heap s p = Some (with_schemas obj)" "\<not> do_listen obj" "sm_member msg = Some n"
    and "getSignal obj n = Some g" "s_schema g = None"
  shows "signalCallback s p msg = None"
  using assms by (simp add: signalCallback_def signalReceived_def getSignal_with_schemas)

lemma call_then_add_does_not_listen:
  assumes "bridge_inv s" "map_of (br_objects s) (object_name bus path iface) = None"
    and "getDBusObject conn bus path iface False s = Some (Inr p, s1)"
  shows "\<exists>obj. getDBusObject conn bus path iface True s1 = Some (Inr p, s1) \<and> br_heap s1 p = Some obj \<and> \<not> do_listen obj"
proof -
  from assms(2,3) obtain obj w where new: "DBusObject_new conn bus path iface False (br_world s) = Some (Inr obj, w)"
    "s1 = s\<lparr>br_world := w, br_heap := (br_heap s)(p \<mapsto> obj), br_next := Suc p,
       br_objects := qmap_put (object_name bus path iface) p (br_objects s)\<rparr>"
    by (cases "DBusObject_new conn bus path iface False (br_world s)")
      (auto simp: getDBusObject_def Let_def split: sum.splits)
  then show ?thesis using DBusObject_new_fields(3) [OF new(1)] by (simp add: getDBusObject_def)
qed

section \<open>The tree of object paths\<close>

text \<open>The tree of objects below a path, as the introspection gives it: the names of the children, and whether the
  object has something else.\<close>

fun child_names :: "xml_node list \<Rightarrow> string list option" where
  "child_names [] = Some []"
| "child_names (n # ns) =
     (if xml_name n = ''node'' then Option.bind (xmlGetProp n ''name'') (\<lambda>name. map_option (Cons name) (child_names ns))
      else child_names ns)"

definition has_content :: "xml_node list \<Rightarrow> bool" where
  "has_content ns = list_ex (\<lambda>n. n \<noteq> XmlText \<and> xml_name n \<noteq> ''node'') ns"

definition child_path :: "string \<Rightarrow> string \<Rightarrow> string" where
  "child_path path name = (if length path > 1 then path @ ''/'' @ name else path @ name)"

inductive serves :: "'w dbus_conn \<Rightarrow> string \<Rightarrow> string \<Rightarrow> string list \<Rightarrow> bool" for conn bus where
  serves_node: "(\<forall>w. dbus_introspect conn bus path w = (Inr (Some xml), w)) \<Longrightarrow>
     child_names (root_children conn xml) = Some names \<Longrightarrow>
     list_all2 (\<lambda>name ps. serves conn bus (child_path path name) ps) names pss \<Longrightarrow>
     serves conn bus path (concat pss @ (if has_content (root_children conn xml) then [path] else []))"

definition walks :: "'w dbus_conn \<Rightarrow> string \<Rightarrow> string \<Rightarrow> string list \<Rightarrow> bool" where
  "walks conn bus path ps \<longleftrightarrow> (\<exists>xml. (\<forall>w. dbus_introspect conn bus path w = (Inr (Some xml), w)) \<and>
     (\<forall>w. paths_loop conn bus path (root_children conn xml) False w = Some (Some (ps, w))))"

lemma paths_loop_nodes:
  assumes "child_names nodes = Some names" "list_all2 (\<lambda>name. walks conn bus (child_path path name)) names pss"
  shows "paths_loop conn bus path nodes c w = Some (Some (concat pss @ (if c \<or> has_content nodes then [path] else []), w))"
  using assms
proof (induction nodes arbitrary: names pss c w)
  case Nil
  then show ?case by (subst paths_loop.simps) (simp add: has_content_def)
next
  case (Cons n ns)
  show ?case
  proof (cases "n \<noteq> XmlText \<and> xml_name n = ''node''")
    case True
    with Cons.prems(1) obtain name names' where n: "xmlGetProp n ''name'' = Some name" "child_names ns = Some names'"
      "names = name # names'" by (auto simp: Option.bind_eq_Some_conv)
    from Cons.prems(2) n(3) obtain ps pss' where p: "pss = ps # pss'" "walks conn bus (child_path path name) ps"
      "list_all2 (\<lambda>name. walks conn bus (child_path path name)) names' pss'" by (auto simp: list_all2_Cons1)
    from p(2) obtain xml where "\<forall>w. dbus_introspect conn bus (child_path path name) w = (Inr (Some xml), w)"
      "\<forall>w. paths_loop conn bus (child_path path name) (root_children conn xml) False w = Some (Some (ps, w))"
      unfolding walks_def by blast
    then show ?thesis using True n p(1) Cons.IH [OF n(2) p(3), of c w]
      by (subst paths_loop.simps) (cases "length path > 1"; simp add: has_content_def child_path_def)
  next
    case False
    then have "child_names ns = Some names" using Cons.prems(1) by (cases n) auto
    with False Cons show ?thesis by (subst paths_loop.simps) (auto simp: has_content_def)
  qed
qed

text \<open>C39: The listing of the object paths of a service ends for every finite tree of objects, and gives the paths of the
  objects that have something beside children, each after the paths below it.\<close>

theorem getObjectPaths_lists_tree:
  assumes "serves conn bus path ps"
  shows "getObjectPaths conn bus path w = Some (Some (ps, w))"
proof -
  have "walks conn bus path ps"
    using assms
  proof (induction rule: serves.induct)
    case (serves_node path xml names pss)
    then have "list_all2 (\<lambda>name. walks conn bus (child_path path name)) names pss" by (auto elim: list_all2_mono)
    from paths_loop_nodes [OF serves_node.hyps(2) this] serves_node.hyps(1) show ?case
      by (auto simp: walks_def intro!: exI [of _ xml])
  qed
  then show ?thesis by (auto simp: getObjectPaths_def walks_def)
qed

text \<open>A service with an object at \<^verbatim>\<open>/\<close> and one at \<^verbatim>\<open>/a/b\<close>.\<close>

definition tree_conn :: "unit dbus_conn" where
  "tree_conn = \<lparr>dc_new_call = (\<lambda>_ _ _ _. False), dc_send = (\<lambda>_ _ _ _ _ w. (Inl [], w)),
     dc_introspect = (\<lambda>_ path w. (Xml (Some path), w)),
     dc_parse = (\<lambda>path. Some (XmlElement ''node'' []
       (if path = ''/'' then [XmlElement ''node'' [(''name'', ''a'')] [], XmlText, XmlElement ''interface'' [(''name'', ''I'')] []]
        else if path = ''/a'' then [XmlElement ''node'' [(''name'', ''b'')] []]
        else [XmlElement ''interface'' [(''name'', ''I'')] []]))),
     dc_add_match = (\<lambda>_. None), dc_add_filter = True\<rparr>"

lemma tree_conn_introspect:
  "is_cstr path \<Longrightarrow> dbus_introspect tree_conn bus path w = (Inr (Some path), w)"
  by (simp add: dbus_introspect_def tree_conn_def)

lemma tree_conn_children:
  "root_children tree_conn ''/'' = [XmlElement ''node'' [(''name'', ''a'')] [], XmlText, XmlElement ''interface'' [(''name'', ''I'')] []]"
  "root_children tree_conn ''/a'' = [XmlElement ''node'' [(''name'', ''b'')] []]"
  "root_children tree_conn ''/a/b'' = [XmlElement ''interface'' [(''name'', ''I'')] []]"
  by (simp_all add: root_children_def tree_conn_def)

lemma tree_conn_leaf: "serves tree_conn bus ''/a/b'' [''/a/b'']"
  using serves_node [of tree_conn bus "''/a/b''" "''/a/b''" "[]" "[]"]
  by (simp add: tree_conn_introspect is_cstr_def NUL_def tree_conn_children has_content_def)

lemma tree_conn_inner: "serves tree_conn bus ''/a'' [''/a/b'']"
  using serves_node [of tree_conn bus "''/a''" "''/a''" "[''b'']" "[[''/a/b'']]"] tree_conn_leaf [of bus]
  by (simp add: tree_conn_introspect is_cstr_def NUL_def tree_conn_children has_content_def child_path_def)

theorem getObjectPaths_lists_tree_witness: "getObjectPaths tree_conn ''org.x'' ''/'' () = Some (Some ([''/a/b'', ''/''], ()))"
proof (rule getObjectPaths_lists_tree)
  show "serves tree_conn ''org.x'' ''/'' [''/a/b'', ''/'']"
    using serves_node [of tree_conn "''org.x''" "''/''" "''/''" "[''a'']" "[[''/a/b'']]"] tree_conn_inner [of "''org.x''"]
    by (simp add: tree_conn_introspect is_cstr_def NUL_def tree_conn_children has_content_def child_path_def)
qed

end
