(* ===== verification/Consoles.thy ===== *)
theory Consoles
  imports Service_Qmf Sysconfig_Qmf
begin

text \<open>
  \<^verbatim>\<open>src/src/service/service-qmf-console.cpp\<close> and \<^verbatim>\<open>src/src/sysconfig/sysconfig-console.cpp\<close>: the two command line clients.

  The options of a client go through the table of \<open>Mh_Agent\<close>, with the client's own callbacks. The maps of the
  service client that its callbacks write to are \<open>co_options\<close> and \<open>co_agent\<close>; its \<^verbatim>\<open>core_options\<close> is the map that is
  given to \<open>mh_parse_options\<close>. What the session answers is an argument, what the client prints a list of outputs,
  without the text around the values. \<open>None\<close> is the end of the process by an exception that is not caught.
\<close>

section \<open>Options of the service client\<close>

record console_opts = opt_state +
  co_options :: qmap
  co_agent :: qmap

text \<open>Writing through the user data of an option of this client.\<close>

fun put_console :: "opt_target \<Rightarrow> string \<Rightarrow> qvariant \<Rightarrow> console_opts \<Rightarrow> console_opts option" where
  "put_console (Client_target n) k v s =
     (if n = 0 then Some (s\<lparr>co_options := qmap_put k v (co_options s)\<rparr>)
      else if n = 1 then Some (s\<lparr>co_agent := qmap_put k v (co_agent s)\<rparr>) else None)"
| "put_console target k v s = put_target target k v s"

definition call_arg :: "cptr \<Rightarrow> cptr \<Rightarrow> opt_target \<Rightarrow> console_opts \<Rightarrow> console_opts option" where
  "call_arg name arg userdata s =
     Option.bind name (\<lambda>n. Option.bind arg (\<lambda>a.
       if n = ''timeout'' \<or> n = ''interval'' then put_console userdata n (VAR_UINT32 (of_int (strtol a))) s
       else put_console userdata n (VAR_STRING a) s))"

definition delimiters :: string where "delimiters = [CHR '' '', CHR 0x09, CHR ''='']"

text \<open>The searches of \<^verbatim>\<open>std::string\<close>; \<open>None\<close> is \<^verbatim>\<open>npos\<close>.\<close>

definition find_char :: "(char \<Rightarrow> bool) \<Rightarrow> string \<Rightarrow> nat option \<Rightarrow> nat option" where
  "find_char P t pos =
     Option.bind pos (\<lambda>i.
       let k = length (takeWhile (\<lambda>c. \<not> P c) (drop i t))
       in if i + k < length t then Some (i + k) else None)"

definition find_first_not_of :: "string \<Rightarrow> nat option \<Rightarrow> nat option" where
  "find_first_not_of = find_char (\<lambda>c. c \<notin> set delimiters)"

definition find_first_of :: "string \<Rightarrow> nat option \<Rightarrow> nat option" where
  "find_first_of = find_char (\<lambda>c. c \<in> set delimiters)"

text \<open>\<^verbatim>\<open>substr\<close> from \<^verbatim>\<open>npos\<close> throws.\<close>

definition agent_arg :: "cptr \<Rightarrow> opt_target \<Rightarrow> console_opts \<Rightarrow> console_opts option" where
  "agent_arg arg userdata s =
     Option.bind arg (\<lambda>a.
       let start = find_first_not_of a (Some 0);
           delim = find_first_of a start
       in if delim \<noteq> None \<or> start \<noteq> None
          then Option.bind start (\<lambda>i.
               let opt_name = (case delim of Some j \<Rightarrow> take (j - i) (drop i a) | None \<Rightarrow> drop i a)
               in Option.bind (find_first_not_of a delim) (\<lambda>k.
                    put_console userdata opt_name (VAR_STRING (drop k a)) s))
          else Some s)"

text \<open>The callbacks of the client, by number.\<close>

definition service_cli :: "console_opts client" where
  "service_cli i code name arg userdata s =
     (if i = 0 then call_arg name arg userdata s else agent_arg arg userdata s)"

definition console_defaults :: "string \<Rightarrow> console_opts \<Rightarrow> console_opts" where
  "console_defaults host s =
     s\<lparr>os_options := qmap_put ''host-dns'' (VAR_STRING host) (qmap_put ''api-type'' (VAR_STRING ''Resources'') []),
       co_options := qmap_put ''timeout'' (VAR_INT32 60000) (qmap_put ''interval'' (VAR_INT32 0)
         (qmap_put ''provider'' (VAR_STRING ''heartbeat'') (qmap_put ''standard'' (VAR_STRING ''ocf'') []))),
       co_agent := []\<rparr>"

definition console_add :: "char \<Rightarrow> string \<Rightarrow> string \<Rightarrow> opt_target \<Rightarrow> nat \<Rightarrow> console_opts \<Rightarrow> console_opts" where
  "console_add c name desc target cb s =
     snd (mh_add_option (int (of_char c)) required_argument name (Some desc) target (Some (Client_callback cb)) s)"

definition console_add_options :: "console_opts \<Rightarrow> console_opts" where
  "console_add_options s =
     fold (\<lambda>(c, name, desc, target, cb). console_add c name desc target cb)
       [(CHR ''T'', ''api-type'', ''Resources|Services'', Mh_options, 0),
        (CHR ''H'', ''host-dns'', ''Host DNS name'', Mh_options, 0),
        (CHR ''U'', ''host-uuid'', ''Host UUID'', Mh_options, 0),
        (CHR ''N'', ''name'', ''Name of a resource'', Client_target 0, 0),
        (CHR ''S'', ''standard'', ''lsb|ocf|windows (Resources API only)'', Client_target 0, 0),
        (CHR ''J'', ''provider'', ''(Resources API only)'', Client_target 0, 0),
        (CHR ''A'', ''agent'', ''(Resources API only)'', Client_target 0, 0),
        (CHR ''a'', ''action'', ''Action to perform'', Client_target 0, 0),
        (CHR ''i'', ''interval'', ''(Resources API only) Time, in milliseconds, in between recurring executions of this action.'',
           Client_target 0, 0),
        (CHR ''t'', ''timeout'', ''Time to wait, in milliseconds, for the action to complete'', Client_target 0, 0),
        (CHR ''o'', ''option'', ''Option to pass to the resource script (Resources API only)'', Client_target 1, 1)] s"

section \<open>The request of the service client\<close>

text \<open>The options after parsing, with the parameters of the agent.\<close>

definition call_map :: "console_opts \<Rightarrow> qmap" where
  "call_map s = qmap_put ''parameters'' (VAR_MAP (co_agent s)) (co_options s)"

definition console_filter :: "qpid_conv \<Rightarrow> console_opts \<Rightarrow> string" where
  "console_filter cv s =
     ''[and'' @ '', [eq, _vendor, [quote, '' @ [CHR 0x27] @ ''matahariproject.org'' @ [CHR 0x27] @ '']]'' @
     '', [eq, _product, [quote, '' @ [CHR 0x27] @ ''service'' @ [CHR 0x27] @ '']]'' @
     (if qmap_count ''action'' (call_map s) \<and> qmap_count ''host-uuid'' (os_options s)
      then '', [eq, hostname, [quote, '' @ stream_out cv (qmap_get ''host-uuid'' (os_options s)) @ '']]''
      else if qmap_count ''action'' (call_map s) \<and> qmap_count ''host-dns'' (os_options s)
      then '', [eq, hostname, [quote, '' @ stream_out cv (qmap_get ''host-dns'' (os_options s)) @ '']]''
      else []) @ '']''"

text \<open>The method and its arguments.\<close>

definition console_request :: "qpid_conv \<Rightarrow> console_opts \<Rightarrow> (string \<times> qmap) option" where
  "console_request cv s =
     (let options = call_map s
      in Option.bind (as_string cv (qmap_get ''action'' options)) (\<lambda>action.
           if qmap_get ''api-type'' (os_options s) = VAR_STRING ''Services''
           then if qmap_get ''action'' options = VAR_STRING ''list'' then Some (action, [])
                else Option.bind (as_string cv (qmap_get ''name'' options)) (\<lambda>name.
                  if qmap_get ''action'' options \<in> {VAR_STRING ''enable'', VAR_STRING ''disable''}
                  then Some (action, [(''name'', VAR_STRING name)])
                  else Option.bind (as_uint32 cv (qmap_get ''timeout'' options)) (\<lambda>timeout.
                    Some (action, [(''name'', VAR_STRING name), (''timeout'', VAR_UINT32 timeout)])))
           else if strstr (cstr_of action) ''list'' \<noteq> None
           then Option.bind (as_string cv (qmap_get ''standard'' options)) (\<lambda>standard.
                Option.bind (as_string cv (qmap_get ''provider'' options)) (\<lambda>provider.
                  Some (action, [(''provider'', VAR_STRING provider), (''standard'', VAR_STRING standard)])))
           else Some (''invoke'', options)))"

section \<open>The sessions of the clients\<close>

datatype console_reply = Method_response qmap | Other_reply nat "qmap list"

datatype console_event =
    Agent_add string qvariant
  | Agent_del string
  | Agent_event string "qmap list"
  | Other_event nat string qmap

datatype console_output =
    Agent_name string
  | Call_options qmap
  | Call_failed nat "qmap list"
  | Call_returned qmap
  | Agent_available string qvariant
  | Listing "qvariant list"
  | Agent_gone string
  | Event_data string "qmap list"
  | Unknown_event nat string qmap

text \<open>The agents that are known at the n-th look, and what a call of a method gives.\<close>

record console_session =
  cs_agents :: "nat \<Rightarrow> string list"
  cs_call :: "string \<Rightarrow> string \<Rightarrow> qmap \<Rightarrow> data_addr \<Rightarrow> console_reply"

text \<open>Waiting for the first agent.\<close>

partial_function (option) wait_agents :: "console_session \<Rightarrow> nat \<Rightarrow> (string list) option" where
  "wait_agents cs n = (if cs_agents cs n \<noteq> [] then Some (cs_agents cs n) else wait_agents cs (Suc n))"

fun reply_output :: "console_reply \<Rightarrow> console_output" where
  "reply_output (Method_response args) = Call_returned args"
| "reply_output (Other_reply code data) = Call_failed code data"

definition call_agents :: "console_session \<Rightarrow> string \<Rightarrow> string \<Rightarrow> qmap \<Rightarrow> string list \<Rightarrow> console_output list" where
  "call_agents cs api action call_options agents =
     concat (map (\<lambda>agent. [Agent_name agent, Call_options call_options,
       reply_output (cs_call cs agent action call_options (DataAddr agent api))]) agents)"

text \<open>The main function with an action: the calls of all agents that are known.\<close>

definition console_calls :: "qpid_conv \<Rightarrow> console_session \<Rightarrow> console_opts \<Rightarrow> (console_output list) option" where
  "console_calls cv cs s =
     Option.bind (console_request cv s) (\<lambda>(action, call_options).
     Option.bind (wait_agents cs 0) (\<lambda>agents.
     Option.bind (as_string cv (qmap_get ''api-type'' (os_options s))) (\<lambda>api.
       Some (call_agents cs api action call_options agents))))"

text \<open>The main function without an action: one event of the session.\<close>

definition console_listen :: "qpid_conv \<Rightarrow> console_session \<Rightarrow> console_opts \<Rightarrow> console_event \<Rightarrow> (console_output list) option" where
  "console_listen cv cs s ev =
     (case ev of
        Agent_add agent host \<Rightarrow>
          Option.bind (as_string cv (qmap_get ''api-type'' (os_options s))) (\<lambda>api.
            let call_options = (if qmap_get ''api-type'' (os_options s) = VAR_STRING ''Resources''
                  then [(''provider'', qmap_get ''provider'' (call_map s)), (''standard'', qmap_get ''standard'' (call_map s))] else [])
            in case cs_call cs agent ''list'' call_options (DataAddr agent api) of
                 Other_reply code data \<Rightarrow> Some [Agent_available agent host, Call_failed code data]
               | Method_response output \<Rightarrow>
                   Option.bind (as_list cv (qmap_get ''agents'' output)) (\<lambda>agents.
                     Some [Agent_available agent host, Listing agents]))
      | Agent_del agent \<Rightarrow> Some [Agent_gone agent]
      | Agent_event agent data \<Rightarrow> Some [Event_data agent data]
      | Other_event code agent args \<Rightarrow> Some [Unknown_event code agent args])"

section \<open>The configuration client\<close>

definition sysconfig_console_options :: "'s opt_state_scheme \<Rightarrow> 's opt_state_scheme" where
  "sysconfig_console_options s =
     snd (mh_add_option 100 no_argument ''daemon'' (Some ''run as a daemon'') No_target (Some Should_daemonize)
       (snd (mh_add_option 85 required_argument ''uri'' (Some ''URI of configuration'') Mh_options None s)))"

definition sysconfig_call_options :: "'s opt_state_scheme \<Rightarrow> qmap" where
  "sysconfig_call_options s = [(''uri'', qmap_get ''uri'' (os_options s))]"

text \<open>The calls for the events of the session.\<close>

fun sysconfig_listen :: "qmap \<Rightarrow> console_event list \<Rightarrow> (string \<times> string \<times> qmap \<times> data_addr) list" where
  "sysconfig_listen call_options [] = []"
| "sysconfig_listen call_options (ev # evs) =
     (case ev of
        Agent_add agent _ \<Rightarrow> (agent, ''run_uri'', call_options, DataAddr agent ''Sysconfig'') # sysconfig_listen call_options evs
      | _ \<Rightarrow> sysconfig_listen call_options evs)"

section \<open>Options\<close>

lemma find_char_eq:
  assumes "\<forall>c \<in> set b. \<not> P c" "P c"
  shows "find_char P (a @ b @ c # r) (Some (length a)) = Some (length a + length b)"
proof -
  have "takeWhile (\<lambda>x. \<not> P x) (b @ c # r) = b" using assms by (induction b) auto
  then show ?thesis by (simp add: find_char_def)
qed

lemma find_char_none:
  assumes "\<forall>c \<in> set b. \<not> P c"
  shows "find_char P (a @ b) (Some (length a)) = None"
proof -
  have "length (takeWhile (\<lambda>x. \<not> P x) b) = length b" using assms by (induction b) auto
  then show ?thesis by (simp add: find_char_def)
qed

lemma find_char_npos [simp]: "find_char P t None = None"
  by (simp add: find_char_def)

text \<open>An option for the resource agent is split at the delimiters into a name and a value; without a value the client
  ends with an exception.\<close>

lemma agent_arg_splits:
  assumes "set lead \<subseteq> set delimiters" "set name \<inter> set delimiters = {}" "name \<noteq> []"
    and "set sep \<subseteq> set delimiters" "sep \<noteq> []" "v \<notin> set delimiters"
  shows "agent_arg (Some (lead @ name @ sep @ v # rest)) userdata s = put_console userdata name (VAR_STRING (v # rest)) s"
proof -
  let ?t = "lead @ name @ sep @ v # rest"
  obtain n ns where n: "name = n # ns" using assms(3) by (cases name) auto
  obtain d ds where d: "sep = d # ds" using assms(5) by (cases sep) auto
  have start: "find_first_not_of ?t (Some 0) = Some (length lead)"
    using find_char_eq [of lead "\<lambda>c. c \<notin> set delimiters" n "[]"] assms(1,2) n by (auto simp: find_first_not_of_def)
  have delim: "find_first_of ?t (Some (length lead)) = Some (length lead + length name)"
    using find_char_eq [of name "\<lambda>c. c \<in> set delimiters" d lead "ds @ v # rest"] assms(2,4) d by (auto simp: find_first_of_def)
  have val: "find_first_not_of ?t (Some (length lead + length name)) = Some (length lead + length name + length sep)"
    using find_char_eq [of sep "\<lambda>c. c \<notin> set delimiters" v "lead @ name" rest] assms(4,6) by (auto simp: find_first_not_of_def)
  show ?thesis by (simp add: agent_arg_def start delim val Let_def)
qed

lemma agent_arg_without_value:
  assumes "set name \<inter> set delimiters = {}" "name \<noteq> []" "set sep \<subseteq> set delimiters"
  shows "agent_arg (Some (name @ sep)) userdata s = None"
proof -
  obtain n ns where n: "name = n # ns" using assms(2) by (cases name) auto
  have start: "find_first_not_of (name @ sep) (Some 0) = Some 0"
    using find_char_eq [of "[]" "\<lambda>c. c \<notin> set delimiters" n "[]" "ns @ sep"] assms(1) n by (simp add: find_first_not_of_def)
  have "find_first_not_of (name @ sep) (find_first_of (name @ sep) (Some 0)) = None"
  proof (cases sep)
    case Nil
    have "find_first_of (name @ sep) (Some 0) = None"
      using find_char_none [of name "\<lambda>c. c \<in> set delimiters" "[]"] assms(1) Nil by (auto simp: find_first_of_def)
    then show ?thesis by (simp add: find_first_not_of_def)
  next
    case (Cons d ds)
    have "find_first_of (name @ sep) (Some 0) = Some (length name)"
      using find_char_eq [of name "\<lambda>c. c \<in> set delimiters" d "[]" ds] assms(1,3) Cons by (auto simp: find_first_of_def)
    then show ?thesis
      using find_char_none [of sep "\<lambda>c. c \<notin> set delimiters" name] assms(3) by (auto simp: find_first_not_of_def)
  qed
  then show ?thesis by (simp add: agent_arg_def start Let_def)
qed

text \<open>The table of options of the client, as parsing begins.\<close>

definition console_table :: "agent_os \<Rightarrow> string \<Rightarrow> console_opts \<Rightarrow> console_opts" where
  "console_table os host s = agent_table os (console_add_options (console_defaults host s))"

lemma console_add_nth:
  assumes "length (matahari_options s) = 123" "0 < (of_char c :: nat)" "(of_char c :: nat) < 123"
  shows "matahari_options (console_add c n d t cb s) ! i =
    (if i = of_char c then \<lparr>opt_code = int (of_char c), opt_has_arg = required_argument, opt_long_name = Some n,
       opt_description = Some d, opt_userdata = t, opt_cb = Some (Client_callback cb)\<rparr> else matahari_options s ! i)"
  using assms by (simp add: console_add_def mh_add_option_nth)

lemma console_add_other [simp]:
  "os_options (console_add c n d t cb s) = os_options s" "co_options (console_add c n d t cb s) = co_options s"
  "co_agent (console_add c n d t cb s) = co_agent s"
  "length (matahari_options (console_add c n d t cb s)) = length (matahari_options s)"
  by (simp_all add: console_add_def mh_add_option_def)

lemma console_entry:
  assumes "length (matahari_options s) = 123"
  shows "opt_cb (matahari_options (console_table os host s) ! 84) = Some (Client_callback 0)"
    "opt_long_name (matahari_options (console_table os host s) ! 84) = Some ''api-type''"
    "opt_userdata (matahari_options (console_table os host s) ! 84) = Mh_options"
    "opt_cb (matahari_options (console_table os host s) ! 97) = Some (Client_callback 0)"
    "opt_long_name (matahari_options (console_table os host s) ! 97) = Some ''action''"
    "opt_userdata (matahari_options (console_table os host s) ! 97) = Client_target 0"
    "opt_cb (matahari_options (console_table os host s) ! 78) = Some (Client_callback 0)"
    "opt_long_name (matahari_options (console_table os host s) ! 78) = Some ''name''"
    "opt_userdata (matahari_options (console_table os host s) ! 78) = Client_target 0"
    "length (matahari_options (console_table os host s)) = 123"
  using assms
  by (simp_all add: console_table_def agent_table_def add_common_options_def Let_def mh_add_option_nth console_add_options_def
      console_add_nth console_defaults_def)

text \<open>With TLS the table has another option for the letter of the timeout, without an argument.\<close>

lemma timeout_option_lost:
  assumes "length (matahari_options s) = 123"
  shows "opt_long_name (matahari_options (console_table os host s) ! 116) = Some (if with_ssl os then ''use-tls'' else ''timeout'')"
    "opt_has_arg (matahari_options (console_table os host s) ! 116) = (if with_ssl os then no_argument else required_argument)"
    "\<not> with_ssl os \<Longrightarrow> opt_cb (matahari_options (console_table os host s) ! 116) = Some (Client_callback 0)"
    "\<not> with_ssl os \<Longrightarrow> opt_userdata (matahari_options (console_table os host s) ! 116) = Client_target 0"
  using assms
  by (simp_all add: console_table_def agent_table_def add_common_options_def Let_def mh_add_option_nth console_add_options_def
      console_add_nth console_defaults_def)

section \<open>Waiting\<close>

lemma wait_agents_returns:
  assumes "cs_agents cs n \<noteq> []" "m \<le> n"
  shows "\<exists>agents. wait_agents cs m = Some agents \<and> agents \<noteq> []"
  using assms(2)
proof (induction "n - m" arbitrary: m)
  case 0
  then show ?case using assms(1) by (subst wait_agents.simps) auto
next
  case (Suc k)
  then have "\<exists>agents. wait_agents cs (Suc m) = Some agents \<and> agents \<noteq> []" by auto
  then show ?case by (subst wait_agents.simps) auto
qed

lemma wait_agents_forever:
  assumes "\<forall>n. cs_agents cs n = []"
  shows "wait_agents cs m = None"
proof (rule ccontr)
  assume "wait_agents cs m \<noteq> None"
  then obtain r where r: "wait_agents cs m = Some r" by blast
  let ?P = "\<lambda>cs (m :: nat) (r :: string list). \<exists>n. cs_agents cs n \<noteq> []"
  have "\<exists>n. cs_agents cs n \<noteq> []"
    by (rule wait_agents.raw_induct [where P = ?P, OF _ r]) (auto split: if_splits)
  with assms show False by simp
qed

section \<open>From the command line to the agent\<close>

lemma mh_add_option_client [simp]:
  "co_options (snd (mh_add_option c h n d u cb s)) = co_options s" "co_agent (snd (mh_add_option c h n d u cb s)) = co_agent s"
  by (simp_all add: mh_add_option_def)

lemma console_table_other [simp]:
  "co_options (console_table os host s) = co_options (console_defaults host s)"
  "co_agent (console_table os host s) = []"
  by (simp_all add: console_table_def agent_table_def add_common_options_def Let_def console_add_options_def console_defaults_def
      start_options_def)

text \<open>The options of a command line by their letters: the argument of the last one counts.\<close>

definition last_option :: "(int \<times> string) list \<Rightarrow> int \<Rightarrow> string option" where
  "last_option opts = map_of (rev opts)"

definition given :: "(string \<Rightarrow> qvariant) \<Rightarrow> string option \<Rightarrow> qvariant \<Rightarrow> qvariant" where
  "given f arg dflt = (case arg of None \<Rightarrow> dflt | Some a \<Rightarrow> f a)"

lemma last_option_Cons:
  "given f (last_option ((c, a) # opts) k) v = given f (last_option opts k) (if k = c then f a else v)"
  by (simp add: last_option_def given_def map_add_def split: option.split)

definition timeout_variant :: "string \<Rightarrow> qvariant" where
  "timeout_variant t = VAR_UINT32 (of_int (strtol t))"

lemma service_cli_call: "service_cli 0 code name arg userdata s = call_arg name arg userdata s"
  by (simp add: service_cli_def)

lemma console_loop:
  assumes "length (matahari_options s) = 123" "matahari_options r = matahari_options (console_table os host s)"
    and "\<forall>(c, a)\<in>set opts. c \<in> {84, 97, 78} \<or> c = 116 \<and> \<not> with_ssl os"
  shows "\<exists>s'. getopt_loop os service_cli (map (\<lambda>(c, a). (c, Some a)) opts) r = Running s' \<and>
    qmap_get ''api-type'' (os_options s') = given VAR_STRING (last_option opts 84) (qmap_get ''api-type'' (os_options r)) \<and>
    qmap_get ''action'' (co_options s') = given VAR_STRING (last_option opts 97) (qmap_get ''action'' (co_options r)) \<and>
    qmap_get ''name'' (co_options s') = given VAR_STRING (last_option opts 78) (qmap_get ''name'' (co_options r)) \<and>
    qmap_get ''timeout'' (co_options s') = given timeout_variant (last_option opts 116) (qmap_get ''timeout'' (co_options r))"
  using assms(2,3)
proof (induction opts arbitrary: r)
  case Nil
  then show ?case by (simp add: last_option_def given_def)
next
  case (Cons x opts)
  obtain c a where x: "x = (c, a)" by fastforce
  note table = console_entry [OF assms(1), of os host] timeout_option_lost [OF assms(1), of os host]
  have IH: "matahari_options r' = matahari_options (console_table os host s) \<Longrightarrow>
    \<exists>s'. getopt_loop os service_cli (map (\<lambda>(c, a). (c, Some a)) opts) r' = Running s' \<and>
    qmap_get ''api-type'' (os_options s') = given VAR_STRING (last_option opts 84) (qmap_get ''api-type'' (os_options r')) \<and>
    qmap_get ''action'' (co_options s') = given VAR_STRING (last_option opts 97) (qmap_get ''action'' (co_options r')) \<and>
    qmap_get ''name'' (co_options s') = given VAR_STRING (last_option opts 78) (qmap_get ''name'' (co_options r')) \<and>
    qmap_get ''timeout'' (co_options s') = given timeout_variant (last_option opts 116) (qmap_get ''timeout'' (co_options r'))" for r'
    using Cons.IH Cons.prems(2) by simp
  from Cons.prems(2) x consider "c = 84" | "c = 97" | "c = 78" | "c = 116" "\<not> with_ssl os" by auto
  then show ?case
  proof cases
    case 1
    then show ?thesis using Cons.prems(1) table IH [of "r\<lparr>os_options := qmap_put ''api-type'' (VAR_STRING a) (os_options r)\<rparr>"]
      by (simp add: x last_option_Cons service_cli_call call_arg_def)
  next
    case 2
    then show ?thesis using Cons.prems(1) table IH [of "r\<lparr>co_options := qmap_put ''action'' (VAR_STRING a) (co_options r)\<rparr>"]
      by (simp add: x last_option_Cons service_cli_call call_arg_def)
  next
    case 3
    then show ?thesis using Cons.prems(1) table IH [of "r\<lparr>co_options := qmap_put ''name'' (VAR_STRING a) (co_options r)\<rparr>"]
      by (simp add: x last_option_Cons service_cli_call call_arg_def)
  next
    case 4
    then show ?thesis using Cons.prems(1) table IH [of "r\<lparr>co_options := qmap_put ''timeout'' (timeout_variant a) (co_options r)\<rparr>"]
      by (simp add: x last_option_Cons service_cli_call call_arg_def flip: timeout_variant_def)
  qed
qed

text \<open>The arguments of a request for a service.\<close>

definition service_args :: "string \<Rightarrow> string \<Rightarrow> u32 \<Rightarrow> qmap" where
  "service_args action name timeout =
     (''name'', VAR_STRING name) # (if action \<in> {''enable'', ''disable''} then [] else [(''timeout'', VAR_UINT32 timeout)])"

lemma agent_obeys:
  assumes "conv_ok cv" "action \<in> {''start'', ''stop'', ''status'', ''enable'', ''disable''}" "0 \<le> sint timeout"
    and ev: "ev = \<lparr>ev_id = i, ev_type = AGENT_METHOD, ev_addr = Some (DataAddr agent ''Services''), ev_method = action,
      ev_args = service_args action name timeout\<rparr>"
  shows "SrvAgent_invoke cv env ev q = start_created (ae_exec env) SRV_SERVICES ev q
      (services_action_create services_os_set_exec (\<lambda>k. True) (Some (cstr_of name)) (Some action) 0
         (if action \<in> {''enable'', ''disable''} then 60000 else int_of_u32 timeout) (qs_svc q))"
  using assms
  by (auto simp: SrvAgent_invoke_def SrvAgent_invoke_services_def arg_cstr_def qmap_get_def conv_ok_def Let_def service_args_def)

text \<open>C32: What a user asks of a service on the command line of the client is what the agent does. For any command line of
  options for the interface, the action, the name and the timeout, in any order and also repeated (the last of
  each counts), that asks the service interface for one of start, stop, status, enable and disable on a
  name: the client makes a request, and the agent, given this request, creates an action of this kind on the service
  of this name and starts it, with the timeout of the command line, or of 60 seconds if there is none (and always for
  enable and disable). The timeout is below \<open>2 ^ 31\<close> when it is read as an unsigned number (greater ones do not
  convert in the agent). In a client that is built with TLS the letter of the timeout belongs to another option, so
  there the command lines are those without it.\<close>

theorem console_call_reaches_service:
  assumes "conv_ok cv" "as_uint32 cv (VAR_INT32 60000) = Some 60000" "length (matahari_options s) = 123"
    and "\<forall>(c, a)\<in>set opts. c \<in> {84, 97, 78} \<or> c = 116 \<and> \<not> with_ssl os"
    and "last_option opts 84 = Some ''Services''" "last_option opts 97 = Some action" "last_option opts 78 = Some name"
    and "action \<in> {''start'', ''stop'', ''status'', ''enable'', ''disable''}"
    and "timeout = (case last_option opts 116 of None \<Rightarrow> 60000 | Some t \<Rightarrow> of_int (strtol t))" "0 \<le> sint timeout"
  shows "\<exists>s' args. getopt_loop os service_cli (map (\<lambda>(c, a). (c, Some a)) opts) (console_table os host s) = Running s' \<and>
     console_request cv s' = Some (action, args) \<and>
     (\<forall>env i agent q ev. ev = \<lparr>ev_id = i, ev_type = AGENT_METHOD, ev_addr = Some (DataAddr agent ''Services''),
          ev_method = action, ev_args = args\<rparr> \<longrightarrow>
        SrvAgent_invoke cv env ev q = start_created (ae_exec env) SRV_SERVICES ev q
          (services_action_create services_os_set_exec (\<lambda>k. True) (Some (cstr_of name)) (Some action) 0
             (if action \<in> {''enable'', ''disable''} then 60000 else int_of_u32 timeout) (qs_svc q)))"
proof -
  let ?s = "console_table os host s"
  have dflt: "qmap_get ''timeout'' (co_options ?s) = VAR_INT32 60000" by (simp add: console_defaults_def qmap_get_def)
  obtain s' where s': "getopt_loop os service_cli (map (\<lambda>(c, a). (c, Some a)) opts) ?s = Running s'"
    "qmap_get ''api-type'' (os_options s') = VAR_STRING ''Services''" "qmap_get ''action'' (co_options s') = VAR_STRING action"
    "qmap_get ''name'' (co_options s') = VAR_STRING name"
    "qmap_get ''timeout'' (co_options s') = given timeout_variant (last_option opts 116) (VAR_INT32 60000)"
    using console_loop [OF assms(3) refl assms(4), of host, unfolded dflt] assms(5-7) by (auto simp: given_def)
  have "as_uint32 cv (qmap_get ''timeout'' (co_options s')) = Some timeout"
    using assms(2,9) s'(5) by (simp add: given_def timeout_variant_def conv_okD [OF assms(1)] split: option.splits)
  then have "console_request cv s' = Some (action, service_args action name timeout)"
    using assms(1,8) s'(2-4) by (auto simp: console_request_def call_map_def conv_okD Let_def service_args_def)
  with s'(1) agent_obeys [OF assms(1,8,10)] show ?thesis by blast
qed

definition console_demo :: console_opts where
  "console_demo = \<lparr>matahari_options = replicate 123 empty_option, os_options = [], os_amqp = [], os_log = os_log demo_opts,
     co_options = [], co_agent = []\<rparr>"

theorem console_call_reaches_service_witness:
  "\<exists>s' args. getopt_loop (demo_os\<lparr>with_ssl := False\<rparr>) service_cli
        [(78, Some ''sshd''), (116, Some ''5000''), (84, Some ''Services''), (97, Some ''start'')]
        (console_table (demo_os\<lparr>with_ssl := False\<rparr>) ''h'' console_demo) = Running s' \<and>
     console_request qpid_ref s' = Some (''start'', args) \<and>
     (\<forall>env i agent q ev. ev = \<lparr>ev_id = i, ev_type = AGENT_METHOD, ev_addr = Some (DataAddr agent ''Services''),
          ev_method = ''start'', ev_args = args\<rparr> \<longrightarrow>
        SrvAgent_invoke qpid_ref env ev q = start_created (ae_exec env) SRV_SERVICES ev q
          (services_action_create services_os_set_exec (\<lambda>k. True) (Some ''sshd'') (Some ''start'') 0 5000 (qs_svc q)))"
proof -
  let ?opts = "[(78, ''sshd''), (116, ''5000''), (84, ''Services''), (97, ''start'')] :: (int \<times> string) list"
  have t: "strtol ''5000'' = 5000" by code_simp
  have c: "cstr_of ''sshd'' = ''sshd''" "int_of_u32 5000 = 5000" by code_simp+
  have u: "as_uint32 qpid_ref (VAR_INT32 60000) = Some 60000" by code_simp
  have len: "length (matahari_options console_demo) = 123" by (simp add: console_demo_def)
  show ?thesis
    using console_call_reaches_service [OF qpid_ref_ok u len, of ?opts "demo_os\<lparr>with_ssl := False\<rparr>" "''start''" "''sshd''" 5000 "''h''"]
    by (simp add: t c last_option_def)
qed

section \<open>The configuration client does not configure\<close>

text \<open>Its option for the URI has no callback, which is how an unknown option looks: the client ends. Without the option the
  requests it makes have neither a key nor a URI.\<close>

lemma sysconfig_uri_option_ends:
  assumes "length (matahari_options s) = 123"
  shows "getopt_loop os client ((85, arg) # rest) (agent_table os (sysconfig_console_options s)) = Exited 1"
  using assms
  by (simp add: agent_table_def add_common_options_def Let_def mh_add_option_nth sysconfig_console_options_def)

lemma sysconfig_call_refused:
  assumes "conv_ok cv" "\<not> qmap_count ''uri'' (os_options s)"
    and "(agent, method, args, addr) \<in> set (sysconfig_listen (sysconfig_call_options s) evs)"
  shows "\<exists>q'. ConfigAgent_invoke cv env \<lparr>ev_id = i, ev_type = AGENT_METHOD, ev_addr = Some addr, ev_method = method,
      ev_args = args\<rparr> q =
    Some (([RaiseException i (mh_result_to_str (mh_result_code MH_RES_INVALID_ARGS))], True), q')"
proof -
  have "method = ''run_uri'' \<and> args = [(''uri'', VAR_VOID)]"
    using assms(2,3) by (induction evs)
      (auto simp: sysconfig_call_options_def qmap_get_def qmap_count_def split: console_event.splits option.splits)
  then show ?thesis
    using assms(1) by (simp add: ConfigAgent_invoke_def ConfigAgent_run_def arg_cstr_def qmap_get_def conv_ok_def
        mh_sysconfig_run_uri_def check_key_sanity_def mh_strlen_zero_def raise_result_def Let_def cstr_of_def)
qed

end
