(* ===== verification/Spec2Isabelle.thy ===== *)
theory Spec2Isabelle
  imports Broker Service_Agent Services_Windows Sysconfig_Agent Sysconfig_Windows Host_Agent Host_Windows Rpc
    Network_Qmf Host_Qmf Sysconfig_Qmf Service_Qmf Rpc_Qmf Dbus_Bridge Consoles
begin

text \<open>
  A verification of Matahari, a set of agents that expose a host, its network, its services and its
  configuration to remote management. The C and C++ sources are under \<^verbatim>\<open>src/src\<close>: the libraries in \<^verbatim>\<open>lib\<close>, the
  agents for D-Bus and for QMF in \<^verbatim>\<open>host\<close>, \<^verbatim>\<open>network\<close>, \<^verbatim>\<open>service\<close>, \<^verbatim>\<open>sysconfig\<close> and \<^verbatim>\<open>rpc\<close>, the message broker in
  \<^verbatim>\<open>broker\<close>, the bridge from QMF to D-Bus in \<^verbatim>\<open>dbus-bridge\<close>.

  \<^bold>\<open>The program and the theories.\<close> Every agent is a process that answers requests from a bus: it asks
  PolicyKit whether the caller may do this, calls its library, and replies. The libraries run programs
  and wait for them, directly or through a main loop that watches children, signals and pipes. A QMF agent
  parses its options, connects to a message broker, and takes its requests from a session that is a source of
  the same main loop; it answers at once or from the callback of an asynchronous action.

  \<^item> \<open>Prelude\<close>, \<open>Glib\<close>: C strings, decimal numbers, wait statuses; files as a record of operations with
    the laws that are relied on.
  \<^item> \<open>Utilities\<close> (\<^verbatim>\<open>utilities.c\<close>, \<^verbatim>\<open>utilities_linux.c\<close>, \<^verbatim>\<open>logging.h\<close>): bounded string copy, first line of a
    file, host name and identifier with their caches, log routing and trace points, abort.
  \<^item> \<open>Dnssrv\<close> (\<^verbatim>\<open>dnssrv.c\<close>, \<^verbatim>\<open>dnssrv_linux.c\<close>): the weighted ordering of service records.
  \<^item> \<open>Broker\<close> (\<^verbatim>\<open>broker.c\<close>, \<^verbatim>\<open>broker_linux.c\<close>, \<^verbatim>\<open>broker_federation.c\<close>): arguments of the broker and the routes to
    other brokers, some of them found through \<open>Dnssrv\<close>.
  \<^item> \<open>Mainloop\<close> (\<^verbatim>\<open>mainloop.c\<close>): triggers, signals, file descriptors and tracked children.
  \<^item> \<open>Services\<close>, \<open>Services_Linux\<close>, \<open>Services_Async\<close> (\<^verbatim>\<open>services.c\<close>, \<^verbatim>\<open>services_linux.c\<close>): actions on services as
    objects of a heap, their synchronous runs, and the asynchronous engine on top of \<open>Mainloop\<close>.
  \<^item> \<open>Dbus\<close> (\<^verbatim>\<open>mh_dbus_common.c\<close>): authorization, properties and the contract of an agent.
  \<^item> \<open>Network\<close> (\<^verbatim>\<open>network.c\<close>, \<^verbatim>\<open>network_linux.c\<close>, \<^verbatim>\<open>network-dbus.c\<close>) and \<open>Service_Agent\<close> (\<^verbatim>\<open>service-dbus.c\<close>).
  \<^item> \<open>Sysconfig\<close>, \<open>Sysconfig_Linux\<close>, \<open>Sysconfig_Agent\<close> (\<^verbatim>\<open>sysconfig.c\<close>, \<^verbatim>\<open>sysconfig_linux.c\<close>, \<^verbatim>\<open>sysconfig-dbus.c\<close>):
    configuration runs, remembered in key files; Puppet runs are actions of \<open>Services\<close>.
  \<^item> \<open>Host\<close>, \<open>Host_Linux\<close>, \<open>Host_Agent\<close> (\<^verbatim>\<open>host.c\<close>, \<^verbatim>\<open>host_linux.c\<close>, \<^verbatim>\<open>host-dbus.c\<close>): identifiers with their
    lifetimes, information about the machine, power profiles.
  \<^item> \<open>Services_Windows\<close>, \<open>Host_Windows\<close>, \<open>Sysconfig_Windows\<close>, \<open>Windows_Base\<close>: the Windows layers of these libraries and
    of the utilities, the name lookup and the network library (\<^verbatim>\<open>lib/*_windows.c\<close>).
  \<^item> \<open>Rpc\<close> (\<^verbatim>\<open>rpc.c\<close>, \<^verbatim>\<open>rpc-python.c\<close>): remote calls with their memory, and the plugins that serve them.
  \<^item> \<open>Qmf\<close> (\<^verbatim>\<open>mh_object.cpp\<close>, the event source of \<^verbatim>\<open>mh_agent.cpp\<close>): variants, sessions, the registry of objects, and the
    contracts of an agent; \<open>Mh_Agent\<close> (\<^verbatim>\<open>mh_agent.cpp\<close>): options, environment, connecting, starting an agent.
  \<^item> \<open>Network_Qmf\<close>, \<open>Host_Qmf\<close>, \<open>Sysconfig_Qmf\<close>, \<open>Service_Qmf\<close>, \<open>Rpc_Qmf\<close> (\<^verbatim>\<open>network-qmf.cpp\<close>, \<^verbatim>\<open>host-qmf.cpp\<close>, \<^verbatim>\<open>sysconfig-qmf.cpp\<close>,
    \<^verbatim>\<open>service-qmf.cpp\<close>, \<^verbatim>\<open>rpc-qmf.cpp\<close>): the QMF agents over the same libraries.
  \<^item> \<open>Bridge_Convert\<close> (\<^verbatim>\<open>utils.cpp\<close>, \<^verbatim>\<open>method.cpp\<close>) and \<open>Dbus_Bridge\<close> (\<^verbatim>\<open>dbusobject.cpp\<close>, \<^verbatim>\<open>dbus-bridge.cpp\<close>): values between
    D-Bus and QMF, and the agent that publishes D-Bus objects.
  \<^item> \<open>Consoles\<close> (\<^verbatim>\<open>service-qmf-console.cpp\<close>, \<^verbatim>\<open>sysconfig-console.cpp\<close>): the two command line clients.

  \<^bold>\<open>How the code is modelled.\<close> Each C function is a definition of the same name. Statics are fields of a
  state record that is passed through; a list of GLib is a list, a hash table a map. Objects whose
  lifetime matters (actions, callback data) live in a heap from addresses to objects, so that a use
  after release is a value. NULL is \<open>None\<close>. An access through NULL, a write outside an array, a
  failed assertion and a call that does not return are results of their own. Unsigned integers are
  words of their width where they wrap. What the kernel, GLib, sigar, curl, PCRE, PolicyKit, Puppet,
  Augeas, Python, Windows and the resolver answer are arguments, some with named laws such as \<open>file_laws\<close> and
  \<open>reg_laws\<close>. The classes of qpid are data where their behaviour is a map or a list and arguments
  otherwise: the conversions of a variant are a record with the laws \<open>conv_ok\<close> (\<open>nums_ok\<close> for numbers), libdbus has the laws
  \<open>lib_ok\<close>, and what an agent sends to its session is a list of outputs. An exception that is not caught ends the
  process and is the result \<open>None\<close>. A method of a class is a definition with the name of the class in front. A definition for a Windows function ends in \<open>_windows\<close> where the Linux layer has one of the same name.

  \<^bold>\<open>Interfaces.\<close> \<open>dbus_agent\<close> (an unauthorized request changes nothing) is interpreted for the four agents;
  \<open>service_executor\<close> (what \<^verbatim>\<open>services.c\<close> needs of the operating system) for the Windows layer and, extended to
  \<open>service_backend\<close>, for the Linux layer; \<open>host_backend\<close> (what \<^verbatim>\<open>host.c\<close> needs) for both layers;
  \<open>key_store\<close> (a store that refines a map) for the key files; \<open>block_owner\<close> (an object that owns its blocks
  through failing allocations) for the remote calls. \<open>qmf_agent\<close> (a handler asks to be called again, so the
  main loop serves the whole queue) is interpreted for all six QMF agents, its extensions \<open>qmf_sync_agent\<close> (a call is
  answered exactly once before the handler returns) for the RPC agent, \<open>qmf_method_agent\<close> (and nothing else is) for the
  network and the host agent, and \<open>qmf_inv_agent\<close> (an invariant of the agent's state) for the bridge.

  \<^bold>\<open>What is shown.\<close> The asynchronous engine never uses a released action, reports every child it handles exactly
  once and keeps its invariant under every interleaving of its steps, as long as no action is cancelled;
  cancelling breaks it in two ways that are exhibited. A synchronous run reports the exit code, a
  signal or a timeout of its child, with two exceptions that are exhibited. Signals are handled
  through a table whose invariant holds in every reachable state. Service records are ordered by
  priority and are drawn with the frequency of their weights. A key can only name a file in the
  keys directory, and the key files refine a map. A configuration request is answered exactly once. An
  identifier, once given out, does not change. A remote call runs the procedure with its arguments in order and
  releases all its memory. On Windows the state that \<^verbatim>\<open>sc.exe\<close> prints is the status reported, the profiles that
  \<^verbatim>\<open>powercfg\<close> prints are those that can be set, and the identifier of a boot survives restarts of the agent.
  Over QMF, an agent keeps trying until a broker accepts it; a call of the service agent is answered with
  the exit code of the child it started, and a recurring action raises an event exactly when its result changes; a configuration call is
  answered once; a plugin runs with the arguments of the call; the heartbeat of the host never stops; the network agents for D-Bus and
  QMF agree. The bridge sends every value whose type it supports unchanged, keeps its objects and what it published
  consistent over every sequence of calls, answers each of them once, and carries a method call to the D-Bus object and
  its results back. What a user types into the service client is what the agent starts.
  The routes of the broker reach all peers that resolve, and the start of the broker hangs if the first peer does not. Functions on strings are proved
  equal to reference definitions or shown to stay inside their buffers.

  \<^bold>\<open>Loops.\<close> A loop that ends on all inputs is a function with a termination proof. The others are partial
  functions for which \<open>None\<close> is not returning: the selection loops of \<open>Dnssrv\<close>, which are shown to return when
  the random generator stays in its range, \<open>peers_loop\<close> in \<open>Broker\<close> and \<open>child_death_dispatch\<close> in \<open>Mainloop\<close>, whose
  inputs on which they return are characterised, the wait of \<open>mh_abort\<close>, \<open>connect_loop\<close> in
  \<open>Mh_Agent\<close>, which returns when a broker is reachable, \<open>paths_loop\<close> in \<open>Dbus_Bridge\<close>, which returns on every finite tree of
  objects, \<open>wait_agents\<close> in \<open>Consoles\<close>, which returns when an agent appears, and \<open>ec2_loop\<close> in \<open>Host_Windows\<close>, which
  collects a response that arrives and does not return when all reads fail. No fuel is used.

  \<^bold>\<open>Not modelled.\<close> The Python shell and the tests, the generated QMF schema classes, and the \<^verbatim>\<open>main\<close> functions that only
  call \<open>init\<close> and \<open>run\<close>. Of the modelled files: the text of log messages and the layout of what the clients print,
  releasing memory that is not used again (destructors included), \<^verbatim>\<open>set_fd_opts\<close>, and allocation failures outside \<^verbatim>\<open>rpc.c\<close> (the
  code tests for some of them).
\<close>

section \<open>All agents\<close>


end
